(* ===== verification/Prelude.thy ===== *)
theory Prelude imports Main "HOL-Library.Word" "HOL-Library.List_Lexorder" "HOL-Library.Char_ord"
  "HOL-Library.Product_Lexorder" "HOL-Library.Multiset" begin

text \<open>
  What the components share: the types that name the program's values, the
  result type of fallible operations, relational tables as lists of rows with
  the handful of SQL statements the store issues, and the generic lemmas on
  them. Nothing here models a line of the repository; the definitions say what
  the Python runtime and SQLite do with the statements the repository writes.
\<close>

named_theorems table_simps \<open>how the table statements act on rows and keys\<close>
named_theorems model_defs \<open>definitions of operations that proofs unfold as a group\<close>

section \<open>Values\<close>

type_synonym bytes = "8 word list"

text \<open>A FastAPI \<open>HTTPException\<close> is kept as its status code; the free text of
  its \<open>detail\<close> is not modelled.\<close>

datatype http_exc = HTTPException nat

text \<open>The exceptions of plain Python code.\<close>

datatype py_exc = ValueError | KeyError | TypeErr | IntegrityError | RuntimeErr | AttributeError

text \<open>
  A timestamp string, represented by what \<open>datetime.fromisoformat\<close> makes of it:
  an instant in microseconds since the epoch, with or without a UTC offset, or
  no timestamp at all.
\<close>

datatype iso = IsoAware int | IsoNaive int | IsoBad

definition US_PER_SECOND :: int where "US_PER_SECOND = 1000000"
definition US_PER_DAY :: int where "US_PER_DAY = 86400 * US_PER_SECOND"

section \<open>Environment variables and defaults\<close>

type_synonym env = "string \<Rightarrow> string option"

definition getenv :: "env \<Rightarrow> string \<Rightarrow> string \<Rightarrow> string" where
  "getenv env k d = (case env k of None \<Rightarrow> d | Some v \<Rightarrow> v)"

text \<open>\<open>x or d\<close> on an optional string: None and the empty string are false.\<close>

definition py_or :: "string option \<Rightarrow> string \<Rightarrow> string" where
  "py_or x d = (case x of None \<Rightarrow> d | Some s \<Rightarrow> if s = [] then d else s)"

definition truthy :: "string option \<Rightarrow> bool" where
  "truthy x \<longleftrightarrow> (case x of None \<Rightarrow> False | Some s \<Rightarrow> s \<noteq> [])"

section \<open>Results: an error or a value\<close>

fun bind_result :: "'e + 'a \<Rightarrow> ('a \<Rightarrow> 'e + 'b) \<Rightarrow> 'e + 'b" where
  "bind_result (Inl e) f = Inl e"
| "bind_result (Inr a) f = f a"

lemma bind_result_Inr_iff [simp]:
  "bind_result m f = Inr b \<longleftrightarrow> (\<exists>a. m = Inr a \<and> f a = Inr b)"
  by (cases m) auto

lemma bind_result_Inl_iff:
  "bind_result m f = Inl e \<longleftrightarrow> m = Inl e \<or> (\<exists>a. m = Inr a \<and> f a = Inl e)"
  by (cases m) auto

section \<open>Relational tables\<close>

text \<open>
  A table is the list of its rows in insertion order. \<open>key\<close> is the primary
  key: an \<open>INSERT\<close> whose key is taken raises, \<open>INSERT OR IGNORE\<close> keeps the old
  row. \<open>UPDATE\<close> and \<open>DELETE\<close> report how many rows their \<open>WHERE\<close> clause matched.
\<close>

definition sql_insert :: "('r \<Rightarrow> 'k) \<Rightarrow> 'r \<Rightarrow> 'r list \<Rightarrow> py_exc + 'r list" where
  "sql_insert key r t = (if key r \<in> key ` set t then Inl IntegrityError else Inr (t @ [r]))"

definition sql_update :: "('r \<Rightarrow> bool) \<Rightarrow> ('r \<Rightarrow> 'r) \<Rightarrow> 'r list \<Rightarrow> 'r list" where
  "sql_update P f t = map (\<lambda>r. if P r then f r else r) t"

definition sql_rowcount :: "('r \<Rightarrow> bool) \<Rightarrow> 'r list \<Rightarrow> nat" where
  "sql_rowcount P t = length (filter P t)"

definition sql_delete :: "('r \<Rightarrow> bool) \<Rightarrow> 'r list \<Rightarrow> 'r list" where
  "sql_delete P t = filter (\<lambda>r. \<not> P r) t"

definition sql_fetchone :: "('r \<Rightarrow> bool) \<Rightarrow> 'r list \<Rightarrow> 'r option" where
  "sql_fetchone P t = List.find P t"

text \<open>\<open>ORDER BY k ASC\<close> and \<open>ORDER BY k DESC\<close>; ties stay in insertion order.\<close>

definition order_asc :: "('r \<Rightarrow> 'k::linorder) \<Rightarrow> 'r list \<Rightarrow> 'r list" where
  "order_asc k t = sort_key k t"

definition order_desc :: "('r \<Rightarrow> 'k::linorder) \<Rightarrow> 'r list \<Rightarrow> 'r list" where
  "order_desc k t = rev (sort_key k (rev t))"

definition unique_key :: "('r \<Rightarrow> 'k) \<Rightarrow> 'r list \<Rightarrow> bool" where
  "unique_key key t \<longleftrightarrow> distinct (map key t)"

lemma sql_update_Nil [simp]: "sql_update P f [] = []"
  by (simp add: sql_update_def)

lemma sql_update_Cons [simp]:
  "sql_update P f (r # t) = (if P r then f r else r) # sql_update P f t"
  by (simp add: sql_update_def)

lemma length_sql_update [simp]: "length (sql_update P f t) = length t"
  by (simp add: sql_update_def)

lemma in_sql_update [table_simps]:
  "r \<in> set (sql_update P f t) \<longleftrightarrow> (\<exists>q \<in> set t. r = (if P q then f q else q))"
  by (auto simp: sql_update_def)

lemma sql_update_memI: "q \<in> set t \<Longrightarrow> (if P q then f q else q) \<in> set (sql_update P f t)"
  unfolding sql_update_def set_map by (rule imageI)

lemma set_sql_update: "set (sql_update P f t) = f ` {r \<in> set t. P r} \<union> {r \<in> set t. \<not> P r}"
  by (auto simp: sql_update_def)

lemma in_sql_delete [table_simps]: "r \<in> set (sql_delete P t) \<longleftrightarrow> r \<in> set t \<and> \<not> P r"
  by (auto simp: sql_delete_def)

lemma distinct_sql_delete [simp]: "distinct t \<Longrightarrow> distinct (sql_delete P t)"
  by (simp add: sql_delete_def)

lemma sql_rowcount_0 [table_simps]: "sql_rowcount P t = 0 \<longleftrightarrow> (\<forall>r \<in> set t. \<not> P r)"
  by (auto simp: sql_rowcount_def filter_empty_conv)

lemma sql_rowcount_pos [table_simps]: "0 < sql_rowcount P t \<longleftrightarrow> (\<exists>r \<in> set t. P r)"
  using sql_rowcount_0 [of P t] by auto

lemma sql_rowcount_mono: "(\<And>r. P r \<Longrightarrow> Q r) \<Longrightarrow> sql_rowcount P t \<le> sql_rowcount Q t"
  unfolding sql_rowcount_def by (induction t) auto

lemma sql_rowcount_update_le:
  "(\<And>r. P r \<Longrightarrow> Q (f r) \<Longrightarrow> Q r) \<Longrightarrow> sql_rowcount Q (sql_update P f t) \<le> sql_rowcount Q t"
  unfolding sql_rowcount_def by (induction t) auto

lemma sql_rowcount_snoc: "sql_rowcount P (t @ [r]) = sql_rowcount P t + (if P r then 1 else 0)"
  by (simp add: sql_rowcount_def)

lemma sql_update_id: "\<forall>r \<in> set t. \<not> P r \<Longrightarrow> sql_update P f t = t"
  by (induction t) auto

lemma sql_fetchone_None [table_simps]:
  "sql_fetchone P t = None \<longleftrightarrow> (\<forall>r \<in> set t. \<not> P r)"
  by (auto simp: sql_fetchone_def find_None_iff)

lemma sql_fetchone_SomeD: "sql_fetchone P t = Some r \<Longrightarrow> r \<in> set t \<and> P r"
  unfolding sql_fetchone_def by (induction t) (auto split: if_splits)

lemma unique_key_eq:
  "unique_key key t \<Longrightarrow> r \<in> set t \<Longrightarrow> q \<in> set t \<Longrightarrow> key r = key q \<Longrightarrow> r = q"
  unfolding unique_key_def by (auto simp: distinct_map inj_on_def)

lemma unique_key_Nil [simp]: "unique_key key []"
  by (simp add: unique_key_def)

lemma map_key_sql_update:
  assumes "\<And>r. key (f r) = key r"
  shows "map key (sql_update P f t) = map key t"
  by (induction t) (auto simp: assms)

lemma unique_key_sql_update:
  "(\<And>r. key (f r) = key r) \<Longrightarrow> unique_key key (sql_update P f t) = unique_key key t"
  by (simp add: unique_key_def map_key_sql_update)

lemma unique_key_sql_delete: "unique_key key t \<Longrightarrow> unique_key key (sql_delete P t)"
  by (auto simp: unique_key_def sql_delete_def distinct_map intro: inj_on_subset)

lemma unique_key_sql_insert:
  "unique_key key t \<Longrightarrow> sql_insert key r t = Inr t' \<Longrightarrow> unique_key key t'"
  by (auto simp: unique_key_def sql_insert_def split: if_splits)

lemma sql_insert_Inr [table_simps]:
  "sql_insert key r t = Inr t' \<longleftrightarrow> key r \<notin> key ` set t \<and> t' = t @ [r]"
  by (auto simp: sql_insert_def)

text \<open>Looking a row up by its key finds exactly that row.\<close>

lemma sql_fetchone_key:
  assumes "unique_key key t" and "r \<in> set t"
  shows "sql_fetchone (\<lambda>q. key q = key r) t = Some r"
proof -
  obtain q where q: "sql_fetchone (\<lambda>q. key q = key r) t = Some q"
    using assms(2) by (cases "sql_fetchone (\<lambda>q. key q = key r) t") (auto simp: table_simps)
  from sql_fetchone_SomeD [OF q] have "q = r"
    using unique_key_eq [OF assms(1)] assms(2) by blast
  with q show ?thesis by simp
qed

lemma sql_fetchone_key_and:
  assumes "unique_key key t"
  shows "sql_fetchone (\<lambda>r. key r = i \<and> P r) t =
    (case sql_fetchone (\<lambda>r. key r = i) t of None \<Rightarrow> None | Some r \<Rightarrow> if P r then Some r else None)"
  using assms
proof (induction t)
  case (Cons a t)
  show ?case
  proof (cases "key a = i")
    case True
    with Cons.prems have "\<forall>r \<in> set t. key r \<noteq> i" by (auto simp: unique_key_def image_iff)
    then have "List.find (\<lambda>r. key r = i \<and> P r) t = None" by (auto simp: find_None_iff)
    with True show ?thesis by (simp add: sql_fetchone_def)
  next
    case False
    with Cons show ?thesis by (simp add: unique_key_def sql_fetchone_def)
  qed
qed (simp add: sql_fetchone_def)

text \<open>Lookups by key after an insert, an update and a delete.\<close>

lemma sql_fetchone_snoc:
  "sql_fetchone P (t @ [r]) = (case sql_fetchone P t of None \<Rightarrow> if P r then Some r else None | Some q \<Rightarrow> Some q)"
  by (induction t) (auto simp: sql_fetchone_def)

lemma sql_fetchone_insert:
  assumes "sql_insert key r t = Inr t'"
  shows "sql_fetchone (\<lambda>q. key q = k) t' = (if k = key r then Some r else sql_fetchone (\<lambda>q. key q = k) t)"
proof (cases "k = key r")
  case True
  with assms have "sql_fetchone (\<lambda>q. key q = k) t = None" "t' = t @ [r]"
    by (auto simp: table_simps image_iff)
  with True show ?thesis by (simp add: sql_fetchone_snoc)
next
  case False
  from assms have "t' = t @ [r]" by (simp add: table_simps)
  with False show ?thesis by (simp add: sql_fetchone_snoc split: option.split)
qed

lemma sql_fetchone_update:
  "(\<And>q. P q \<Longrightarrow> key (f q) = key q) \<Longrightarrow>
   sql_fetchone (\<lambda>q. key q = k) (sql_update P f t)
     = map_option (\<lambda>q. if P q then f q else q) (sql_fetchone (\<lambda>q. key q = k) t)"
  by (induction t) (auto simp: sql_fetchone_def)

text \<open>An update leaves the rows its \<open>WHERE\<close> clause misses as they were.\<close>

lemma sql_update_frame:
  "\<forall>r \<in> set t. Q r \<longrightarrow> \<not> P r \<Longrightarrow> (\<And>r. P r \<Longrightarrow> Q (f r) = Q r)
   \<Longrightarrow> filter Q (sql_update P f t) = filter Q t"
  by (induction t) auto

lemma sql_delete_frame:
  "\<forall>r \<in> set t. Q r \<longrightarrow> \<not> P r \<Longrightarrow> filter Q (sql_delete P t) = filter Q t"
  by (induction t) (auto simp: sql_delete_def)

lemma set_order_asc [simp]: "set (order_asc k t) = set t"
  by (simp add: order_asc_def)

lemma set_order_desc [simp]: "set (order_desc k t) = set t"
  by (simp add: order_desc_def)

lemma sorted_order_asc: "sorted (map k (order_asc k t))"
  by (simp add: order_asc_def)

lemma sorted_order_desc: "sorted_wrt (\<ge>) (map k (order_desc k t))"
proof -
  have "map k (order_desc k t) = rev (map k (sort_key k (rev t)))"
    by (simp add: order_desc_def rev_map)
  moreover have "sorted (map k (sort_key k (rev t)))" by simp
  ultimately show ?thesis by (simp add: sorted_wrt_rev)
qed

lemma order_desc_ge:
  "sorted_wrt (\<lambda>a b. k b \<le> k a) (order_desc k xs)"
  using sorted_order_desc [of k xs] by (simp add: sorted_wrt_map)

lemma take_ge_drop:
  assumes "sorted_wrt (\<lambda>a b. k b \<le> k a) xs" and "a \<in> set (take n xs)" and "b \<in> set (drop n xs)"
  shows "k b \<le> k a"
proof -
  have "sorted_wrt (\<lambda>a b. k b \<le> k a) (take n xs @ drop n xs)" using assms(1) by simp
  then show ?thesis using assms(2,3) unfolding sorted_wrt_append by blast
qed

text \<open>What a cut list misses is no better than what it has, and then it is full.\<close>

lemma take_best:
  assumes "sorted_wrt (\<lambda>a b. k b \<le> k a) xs" and "b \<in> set xs"
  shows "b \<in> set (take n xs) \<or> length (take n xs) = n \<and> (\<forall>a \<in> set (take n xs). k b \<le> k a)"
proof (cases "b \<in> set (take n xs)")
  case False
  with assms(2) have d: "b \<in> set (drop n xs)" by (metis Un_iff append_take_drop_id set_append)
  then have "n < length xs" by (metis drop_eq_Nil2 empty_iff list.set(1) not_le_imp_less)
  with take_ge_drop [OF assms(1) _ d] show ?thesis by auto
qed simp

lemma length_order_asc [simp]: "length (order_asc k t) = length t"
  by (simp add: order_asc_def)

lemma length_order_desc [simp]: "length (order_desc k t) = length t"
  by (simp add: order_desc_def)

lemma mset_order_asc [simp]: "mset (order_asc k t) = mset t"
  by (simp add: order_asc_def)

lemma mset_order_desc [simp]: "mset (order_desc k t) = mset t"
  by (simp add: order_desc_def)

text \<open>Rows already in order stay as they are.\<close>

lemma order_asc_id: "sorted_wrt (\<lambda>a b. k a \<le> k b) t \<Longrightarrow> order_asc k t = t"
  by (simp add: order_asc_def sort_key_id_if_sorted sorted_wrt_map)

section \<open>Pages\<close>

text \<open>\<open>LIMIT n OFFSET k\<close>.\<close>

definition page :: "nat \<Rightarrow> nat \<Rightarrow> 'a list \<Rightarrow> 'a list" where
  "page limit offset xs = take limit (drop offset xs)"

text \<open>Reading page after page reads every row once, in order.\<close>

lemma pages_cover: "concat (map (\<lambda>i. page n (i * n) xs) [0..<k]) = take (k * n) xs"
proof (induction k)
  case (Suc k)
  then show ?case by (simp add: page_def take_add add.commute [of n])
qed simp

lemma set_page: "set (page n k xs) \<subseteq> set xs"
  unfolding page_def by (meson set_drop_subset set_take_subset subset_trans)

section \<open>A lifecycle with terminal states\<close>

text \<open>
  Several tables hold rows that move through a lifecycle and stop: an approved
  unit, a claimed invite, a revoked grant. The interface: a step on one row,
  and a set of rows no step moves again. Its client is every argument about a
  sequence of requests: once a row is terminal, the rest of the sequence
  leaves it alone.
\<close>

locale lifecycle =
  fixes step :: "'op \<Rightarrow> 's \<Rightarrow> 's"
    and obs :: "'s \<Rightarrow> 'v"
    and terminal :: "'v \<Rightarrow> bool"
  assumes terminal_fixed: "terminal (obs s) \<Longrightarrow> obs (step a s) = obs s"
begin

lemma run_terminal: "terminal (obs s) \<Longrightarrow> obs (fold step ops s) = obs s"
proof (induction ops arbitrary: s)
  case Nil
  then show ?case by simp
next
  case (Cons a ops)
  from terminal_fixed [OF Cons.prems] have "obs (step a s) = obs s" .
  with Cons.IH [of "step a s"] Cons.prems show ?case by simp
qed

lemma run_prefix_terminal:
  "terminal (obs (fold step ops s)) \<Longrightarrow> obs (fold step (ops @ ops') s) = obs (fold step ops s)"
  by (simp add: run_terminal)

end

end
