(* ===== verification/PyStrings.thy ===== *)
theory PyStrings imports Prelude begin

text \<open>
  The Python string methods the program uses, on strings of code points below
  256 (a \<open>char\<close> is one code point): \<open>strip\<close>, \<open>lower\<close>, \<open>split\<close> and \<open>join\<close> on
  one character, \<open>partition\<close>, \<open>startswith\<close>, \<open>endswith\<close>, \<open>bytes.hex\<close> and
  \<open>bytes.fromhex\<close>. Code points from 256 up are outside the model.
\<close>

section \<open>Case and whitespace\<close>

definition code_point :: "char \<Rightarrow> nat" where
  "code_point c = of_char c"

text \<open>\<open>str.isspace\<close> of one character: tab to carriage return, the four
  separators 28 to 31, space, next line and no-break space.\<close>

definition is_space :: "char \<Rightarrow> bool" where
  "is_space c = (let n = code_point c
     in 9 \<le> n \<and> n \<le> 13 \<or> 28 \<le> n \<and> n \<le> 32 \<or> n = 133 \<or> n = 160)"

definition lower_char :: "char \<Rightarrow> char" where
  "lower_char c = (let n = code_point c
     in if 65 \<le> n \<and> n \<le> 90 \<or> 192 \<le> n \<and> n \<le> 222 \<and> n \<noteq> 215 then char_of (n + 32) else c)"

definition lower :: "string \<Rightarrow> string" where
  "lower s = map lower_char s"

definition lstrip :: "string \<Rightarrow> string" where
  "lstrip s = dropWhile is_space s"

definition strip :: "string \<Rightarrow> string" where
  "strip s = rev (lstrip (rev (lstrip s)))"

lemma strip_Nil [simp]: "strip [] = []"
  by (simp add: strip_def lstrip_def)

lemma dropWhile_rev_dropWhile:
  assumes "t = [] \<or> \<not> P (hd t)"
  shows "dropWhile P (rev (dropWhile P (rev t))) = rev (dropWhile P (rev t))"
proof (cases t)
  case (Cons c u)
  with assms have "dropWhile P (rev u @ [c]) = dropWhile P (rev u) @ [c]"
    by (induction "rev u") (auto simp: dropWhile_append)
  with Cons assms show ?thesis by simp
qed simp

lemma strip_strip [simp]: "strip (strip s) = strip s"
proof -
  define t where "t = dropWhile is_space s"
  have "t = [] \<or> \<not> is_space (hd t)"
    unfolding t_def using hd_dropWhile by blast
  then have "dropWhile is_space (rev (dropWhile is_space (rev t))) = rev (dropWhile is_space (rev t))"
    by (rule dropWhile_rev_dropWhile)
  then show ?thesis by (simp add: strip_def lstrip_def flip: t_def)
qed

lemma lower_Nil [simp]: "lower [] = []"
  by (simp add: lower_def)

lemma code_point_less: "code_point c < 256"
  by (simp add: code_point_def)

lemma lower_char_idem [simp]: "lower_char (lower_char c) = lower_char c"
proof -
  have "code_point c < 256" by (rule code_point_less)
  then show ?thesis
    by (auto simp: lower_char_def code_point_def Let_def)
qed

lemma lower_lower [simp]: "lower (lower s) = lower s"
  by (simp add: lower_def comp_def)

lemma length_lower [simp]: "length (lower s) = length s"
  by (simp add: lower_def)

lemma is_space_lower [simp]: "is_space (lower_char c) = is_space c"
proof -
  have "code_point c < 256" by (rule code_point_less)
  then show ?thesis by (auto simp: is_space_def lower_char_def code_point_def Let_def)
qed

lemma strip_lower: "strip (lower s) = lower (strip s)"
proof -
  have "lstrip (map lower_char t) = map lower_char (lstrip t)" for t
    by (induction t) (auto simp: lstrip_def)
  then show ?thesis by (simp add: strip_def lower_def rev_map)
qed

lemma lower_eq_Nil [simp]: "lower s = [] \<longleftrightarrow> s = []"
  by (simp add: lower_def)

section \<open>Prefixes, suffixes, separators\<close>

fun startswith :: "string \<Rightarrow> string \<Rightarrow> bool" where
  "startswith s [] = True"
| "startswith [] (p # ps) = False"
| "startswith (c # s) (p # ps) = (c = p \<and> startswith s ps)"

definition endswith :: "string \<Rightarrow> string \<Rightarrow> bool" where
  "endswith s p = startswith (rev s) (rev p)"

text \<open>\<open>s.split(c)\<close> for a one-character separator; never the empty list.\<close>

fun split_on :: "char \<Rightarrow> string \<Rightarrow> string list" where
  "split_on c [] = [[]]"
| "split_on c (x # xs) =
     (if x = c then [] # split_on c xs
      else (case split_on c xs of [] \<Rightarrow> [[x]] | w # ws \<Rightarrow> (x # w) # ws))"

fun join_on :: "char \<Rightarrow> string list \<Rightarrow> string" where
  "join_on c [] = []"
| "join_on c [w] = w"
| "join_on c (w # v # vs) = w @ c # join_on c (v # vs)"

text \<open>\<open>s.partition(c)\<close>: the head, the separator (empty when absent), the tail.\<close>

definition partition_on :: "char \<Rightarrow> string \<Rightarrow> string \<times> string \<times> string" where
  "partition_on c s =
     (takeWhile (\<lambda>x. x \<noteq> c) s, (if c \<in> set s then [c] else []), tl (dropWhile (\<lambda>x. x \<noteq> c) s))"

text \<open>\<open>s.rstrip(c)\<close> for one character.\<close>

definition rstrip_char :: "char \<Rightarrow> string \<Rightarrow> string" where
  "rstrip_char c s = rev (dropWhile (\<lambda>x. x = c) (rev s))"

lemma split_on_not_Nil [simp]: "split_on c s \<noteq> []"
  by (induction s) (auto split: list.splits)

lemma split_on_no_sep: "c \<notin> set s \<Longrightarrow> split_on c s = [s]"
  by (induction s) auto

lemma split_on_append_sep:
  "c \<notin> set w \<Longrightarrow> split_on c (w @ c # s) = w # split_on c s"
  by (induction w) auto

text \<open>Splitting what was joined from separator-free parts gives the parts back.\<close>

lemma split_on_join_on:
  "ws \<noteq> [] \<Longrightarrow> \<forall>w \<in> set ws. c \<notin> set w \<Longrightarrow> split_on c (join_on c ws) = ws"
  by (induction c ws rule: join_on.induct) (auto simp: split_on_no_sep split_on_append_sep)

lemma startswith_iff: "startswith s p \<longleftrightarrow> (\<exists>t. s = p @ t)"
  by (induction s p rule: startswith.induct) auto

lemma startswith_append [simp]: "startswith (p @ s) p"
  by (simp add: startswith_iff)

lemma takeWhile_append_sep: "c \<notin> set w \<Longrightarrow> takeWhile (\<lambda>x. x \<noteq> c) (w @ c # s) = w"
  by (induction w) auto

lemma dropWhile_append_sep: "c \<notin> set w \<Longrightarrow> dropWhile (\<lambda>x. x \<noteq> c) (w @ c # s) = c # s"
  by (induction w) auto

lemma partition_on_append:
  "c \<notin> set w \<Longrightarrow> partition_on c (w @ c # s) = (w, [c], s)"
  by (simp add: partition_on_def takeWhile_append_sep dropWhile_append_sep)

text \<open>Two strings cut by a separator that occurs in neither head.\<close>

lemma append_sep_inject:
  "c \<notin> set a \<Longrightarrow> c \<notin> set b \<Longrightarrow> a @ c # s = b @ c # t \<longleftrightarrow> a = b \<and> s = t"
  by (metis takeWhile_append_sep dropWhile_append_sep list.inject)

section \<open>Hexadecimal\<close>

definition hex_digit :: "nat \<Rightarrow> char" where
  "hex_digit n = ''0123456789abcdef'' ! n"

definition hex_value :: "char \<Rightarrow> nat option" where
  "hex_value c = (let n = code_point c in
     if 48 \<le> n \<and> n \<le> 57 then Some (n - 48)
     else if 97 \<le> n \<and> n \<le> 102 then Some (n - 87)
     else if 65 \<le> n \<and> n \<le> 70 then Some (n - 55)
     else None)"

definition hex_byte :: "8 word \<Rightarrow> string" where
  "hex_byte b = [hex_digit (unat b div 16), hex_digit (unat b mod 16)]"

text \<open>\<open>bytes.hex\<close>, and \<open>bytes.fromhex\<close>, which skips ASCII whitespace between
  byte pairs; None is its ValueError.\<close>

fun hex :: "bytes \<Rightarrow> string" where
  "hex [] = []"
| "hex (b # bs) = hex_byte b @ hex bs"

definition is_ascii_space :: "char \<Rightarrow> bool" where
  "is_ascii_space c = (let n = code_point c in 9 \<le> n \<and> n \<le> 13 \<or> n = 32)"

fun fromhex :: "string \<Rightarrow> bytes option" where
  "fromhex [] = Some []"
| "fromhex [c] = (if is_ascii_space c then Some [] else None)"
| "fromhex (c # d # s) =
     (if is_ascii_space c then fromhex (d # s)
      else (case (hex_value c, hex_value d) of
              (Some h, Some l) \<Rightarrow> map_option (\<lambda>bs. word_of_nat (16 * h + l) # bs) (fromhex s)
            | _ \<Rightarrow> None))"

lemma hex_digit_facts:
  assumes "n < 16"
  shows "hex_value (hex_digit n) = Some n \<and> \<not> is_ascii_space (hex_digit n)"
proof -
  have "\<forall>n \<in> set [0..<16]. hex_value (hex_digit n) = Some n \<and> \<not> is_ascii_space (hex_digit n)"
    by code_simp
  with assms show ?thesis by simp
qed

lemma fromhex_hex [simp]: "fromhex (hex bs) = Some bs"
proof (induction bs)
  case Nil
  then show ?case by simp
next
  case (Cons b bs)
  have "unat b < 256"
    using unsigned_less [of b, where ?'a = nat] by simp
  then have "unat b div 16 < 16" and "unat b mod 16 < 16" by simp_all
  then show ?case using Cons by (simp add: hex_byte_def hex_digit_facts)
qed

lemma hex_inject: "hex a = hex b \<Longrightarrow> a = b"
  by (metis fromhex_hex option.inject)

lemma length_hex [simp]: "length (hex bs) = 2 * length bs"
  by (induction bs) (auto simp: hex_byte_def)

section \<open>Encoding\<close>

text \<open>\<open>s.encode("utf-8")\<close>: one byte below 128, two bytes up to 255.\<close>

definition utf8_char :: "char \<Rightarrow> bytes" where
  "utf8_char c = (let n = code_point c in
     if n < 128 then [word_of_nat n] else [word_of_nat (192 + n div 64), word_of_nat (128 + n mod 64)])"

fun utf8 :: "string \<Rightarrow> bytes" where
  "utf8 [] = []"
| "utf8 (c # s) = utf8_char c @ utf8 s"

lemma utf8_append [simp]: "utf8 (s @ t) = utf8 s @ utf8 t"
  by (induction s) auto

lemma unat_byte: "n < 256 \<Longrightarrow> unat (word_of_nat n :: 8 word) = n"
  by (simp add: unat_of_nat)

lemma byte_inject: "m < 256 \<Longrightarrow> n < 256 \<Longrightarrow> (word_of_nat m :: 8 word) = word_of_nat n \<longleftrightarrow> m = n"
  by (metis unat_byte)

lemma code_point_inject: "code_point c = code_point d \<longleftrightarrow> c = d"
  by (simp add: code_point_def)

text \<open>No encoding of a character is a proper prefix of another's, so encoding
  is injective.\<close>

lemma utf8_char_prefix_free:
  assumes "utf8_char c @ s = utf8_char d @ t"
  shows "c = d \<and> s = t"
proof -
  let ?m = "code_point c" and ?n = "code_point d"
  have lt: "?m < 256" "?n < 256" by (rule code_point_less)+
  then have div4: "?m div 64 < 4" "?n div 64 < 4" by simp_all
  have mod64: "?m mod 64 < 64" "?n mod 64 < 64" by simp_all
  have "?m = ?n \<and> s = t"
  proof (cases "?m < 128"; cases "?n < 128")
    assume "\<not> ?m < 128" "\<not> ?n < 128"
    with assms have "192 + ?m div 64 = 192 + ?n div 64" "128 + ?m mod 64 = 128 + ?n mod 64" "s = t"
      using div4 mod64 by (auto simp: utf8_char_def Let_def byte_inject simp del: of_nat_add)
    then show ?thesis by (metis add_left_cancel div_mult_mod_eq)
  next
    assume "?m < 128" "\<not> ?n < 128"
    with assms have "?m = 192 + ?n div 64"
      using lt div4 by (auto simp: utf8_char_def Let_def byte_inject simp del: of_nat_add)
    with \<open>?m < 128\<close> show ?thesis by simp
  next
    assume "\<not> ?m < 128" "?n < 128"
    with assms have "192 + ?m div 64 = ?n"
      using lt div4 by (auto simp: utf8_char_def Let_def byte_inject simp del: of_nat_add)
    with \<open>?n < 128\<close> show ?thesis by simp
  next
    assume "?m < 128" "?n < 128"
    with assms lt show ?thesis by (auto simp: utf8_char_def Let_def byte_inject)
  qed
  then show ?thesis by (simp add: code_point_inject)
qed

lemma utf8_char_not_Nil [simp]: "utf8_char c \<noteq> []"
  by (simp add: utf8_char_def Let_def)

lemma utf8_inject [simp]: "utf8 s = utf8 t \<longleftrightarrow> s = t"
proof
  show "utf8 s = utf8 t \<Longrightarrow> s = t"
  proof (induction s arbitrary: t)
    case Nil
    then show ?case by (cases t) auto
  next
    case (Cons c s)
    then obtain d t' where t: "t = d # t'" by (cases t) auto
    with Cons.prems have "utf8_char c @ utf8 s = utf8_char d @ utf8 t'" by simp
    from utf8_char_prefix_free [OF this] Cons.IH t show ?case by blast
  qed
qed simp

text \<open>\<open>b.decode("utf-8")\<close>; None is UnicodeDecodeError, or a code point from 256 up,
  which is outside the model.\<close>

fun utf8_decode :: "bytes \<Rightarrow> string option" where
  "utf8_decode [] = Some []"
| "utf8_decode [b] = (if unat b < 128 then Some [char_of (unat b)] else None)"
| "utf8_decode (b # d # bs) =
     (if unat b < 128 then map_option ((#) (char_of (unat b))) (utf8_decode (d # bs))
      else if 194 \<le> unat b \<and> unat b \<le> 195 \<and> 128 \<le> unat d \<and> unat d \<le> 191
      then map_option ((#) (char_of (64 * (unat b - 192) + (unat d - 128)))) (utf8_decode bs)
      else None)"

lemma utf8_decode_ascii:
  "unat b < 128 \<Longrightarrow> utf8_decode (b # bs) = map_option ((#) (char_of (unat b))) (utf8_decode bs)"
  by (cases bs) auto

lemma utf8_decode_utf8 [simp]: "utf8_decode (utf8 s) = Some s"
proof (induction s)
  case (Cons c s)
  let ?n = "code_point c"
  have lt: "?n < 256" by (rule code_point_less)
  have char: "char_of ?n = c" by (simp add: code_point_def)
  show ?case
  proof (cases "?n < 128")
    case True
    then show ?thesis using Cons char
      by (simp add: utf8_char_def Let_def utf8_decode_ascii unat_byte del: of_nat_add)
  next
    case False
    define hi lo where "hi = ?n div 64" and "lo = ?n mod 64"
    have "2 \<le> hi" "hi < 4" "lo < 64" "64 * hi + lo = ?n"
      using False lt by (auto simp: hi_def lo_def)
    then show ?thesis using Cons char False
      by (simp add: utf8_char_def Let_def unat_byte flip: hi_def lo_def del: of_nat_add)
  qed
qed simp

section \<open>Integers in decimal\<close>

text \<open>\<open>int(s)\<close>: surrounding whitespace, a sign, digits with single underscores
  between them; None is its ValueError. \<open>dec_value\<close> carries the value so far
  and whether the last character was a digit.\<close>

definition digit_value :: "char \<Rightarrow> nat option" where
  "digit_value c = (let n = code_point c in if 48 \<le> n \<and> n \<le> 57 then Some (n - 48) else None)"

fun dec_value :: "nat \<Rightarrow> bool \<Rightarrow> string \<Rightarrow> nat option" where
  "dec_value acc after_digit [] = (if after_digit then Some acc else None)"
| "dec_value acc after_digit (c # s) =
     (if c = CHR ''_'' then (if after_digit then dec_value acc False s else None)
      else (case digit_value c of None \<Rightarrow> None | Some d \<Rightarrow> dec_value (10 * acc + d) True s))"

definition py_int :: "string \<Rightarrow> int option" where
  "py_int s =
     (case strip s of
        [] \<Rightarrow> None
      | c # r \<Rightarrow> if c = CHR ''-'' then map_option (\<lambda>n. - int n) (dec_value 0 False r)
                else if c = CHR ''+'' then map_option int (dec_value 0 False r)
                else map_option int (dec_value 0 False (c # r)))"

text \<open>\<open>str.isdigit\<close> on code points below 256: the digits and the superscripts
  one, two and three, which \<open>int\<close> refuses.\<close>

definition isdigit :: "string \<Rightarrow> bool" where
  "isdigit s \<longleftrightarrow> s \<noteq> [] \<and> (\<forall>c \<in> set s. digit_value c \<noteq> None \<or> code_point c \<in> {178, 179, 185})"

text \<open>\<open>s.replace("Z", "+00:00")\<close>, before \<open>datetime.fromisoformat\<close>.\<close>

definition replace_Z :: "string \<Rightarrow> string" where
  "replace_Z s = concat (map (\<lambda>c. if c = CHR ''Z'' then ''+00:00'' else [c]) s)"

section \<open>SQLite's ASCII case folding\<close>

definition fold_ascii :: "char \<Rightarrow> char" where
  "fold_ascii c = (let n = code_point c in if 65 \<le> n \<and> n \<le> 90 then char_of (n + 32) else c)"

text \<open>SQL's \<open>LOWER(x)\<close>.\<close>

definition sql_lower :: "string \<Rightarrow> string" where
  "sql_lower s = map fold_ascii s"

end
