(* ===== verification/Json.thy ===== *)
theory Json imports PyStrings begin

text \<open>
  The JSON values of event bodies and the canonical serialisation
  \<open>json.dumps(v, sort_keys=True, separators=(",", ":"), ensure_ascii=False)\<close> of
  \<open>reputation.canonical_payload_bytes\<close>. Objects are lists of key/value pairs in
  insertion order; floats are left out, as the source asks of event bodies. The
  main lemma: two values with the same serialisation are equal up to the order
  of object keys, so what is hashed and signed determines the payload.
\<close>

datatype json =
  JNull
| JBool bool
| JInt int
| JStr string
| JArr "json list"
| JObj "(string \<times> json) list"

section \<open>Serialisation\<close>

definition esc_char :: "char \<Rightarrow> string" where
  "esc_char c = (let n = code_point c in
     if n = 34 then [CHR 0x5C, CHR 0x22]
     else if n = 92 then [CHR 0x5C, CHR 0x5C]
     else if n = 8 then [CHR 0x5C, CHR ''b'']
     else if n = 9 then [CHR 0x5C, CHR ''t'']
     else if n = 10 then [CHR 0x5C, CHR ''n'']
     else if n = 12 then [CHR 0x5C, CHR ''f'']
     else if n = 13 then [CHR 0x5C, CHR ''r'']
     else if n < 32 then [CHR 0x5C, CHR ''u'', CHR ''0'', CHR ''0'', hex_digit (n div 16), hex_digit (n mod 16)]
     else [c])"

fun esc :: "string \<Rightarrow> string" where
  "esc [] = []"
| "esc (c # s) = esc_char c @ esc s"

definition quote :: "string \<Rightarrow> string" where
  "quote s = CHR 0x22 # esc s @ [CHR 0x22]"

definition digit_char :: "nat \<Rightarrow> char" where
  "digit_char n = char_of (48 + n)"

fun digits :: "nat \<Rightarrow> string" where
  "digits n = (if n < 10 then [digit_char n] else digits (n div 10) @ [digit_char (n mod 10)])"

declare digits.simps [simp del]

definition show_int :: "int \<Rightarrow> string" where
  "show_int i = (if i < 0 then CHR ''-'' # digits (nat (- i)) else digits (nat i))"

fun dumps :: "json \<Rightarrow> string" where
  "dumps JNull = ''null''"
| "dumps (JBool b) = (if b then ''true'' else ''false'')"
| "dumps (JInt i) = show_int i"
| "dumps (JStr s) = quote s"
| "dumps (JArr xs) = CHR ''['' # join_on (CHR '','') (map dumps xs) @ '']''"
| "dumps (JObj kvs) = CHR ''{'' #
     join_on (CHR '','') (map (\<lambda>(k, s). quote k @ CHR '':'' # s)
       (sort_key fst (map (\<lambda>(k, v). (k, dumps v)) kvs))) @ ''}''"

text \<open>The value with the keys of every object sorted, and the printer without sorting.\<close>

fun sort_keys :: "json \<Rightarrow> json" where
  "sort_keys (JArr xs) = JArr (map sort_keys xs)"
| "sort_keys (JObj kvs) = JObj (sort_key fst (map (\<lambda>(k, v). (k, sort_keys v)) kvs))"
| "sort_keys v = v"

fun plain :: "json \<Rightarrow> string" where
  "plain JNull = ''null''"
| "plain (JBool b) = (if b then ''true'' else ''false'')"
| "plain (JInt i) = show_int i"
| "plain (JStr s) = quote s"
| "plain (JArr xs) = CHR ''['' # join_on (CHR '','') (map plain xs) @ '']''"
| "plain (JObj kvs) = CHR ''{'' #
     join_on (CHR '','') (map (\<lambda>(k, v). quote k @ CHR '':'' # plain v) kvs) @ ''}''"

lemma insort_key_map:
  "insort_key fst (k, f v) (map (\<lambda>(k, v). (k, f v)) kvs)
   = map (\<lambda>(k, v). (k, f v)) (insort_key fst (k, v) kvs)"
  by (induction kvs) auto

lemma sort_key_map:
  "sort_key fst (map (\<lambda>(k, v). (k, f v)) kvs) = map (\<lambda>(k, v). (k, f v)) (sort_key fst kvs)"
  by (induction kvs) (auto simp: insort_key_map)

lemma dumps_plain: "dumps v = plain (sort_keys v)"
proof (induction v)
  case (JArr xs)
  then have "map dumps xs = map (plain \<circ> sort_keys) xs" by simp
  then show ?case by (simp only: dumps.simps sort_keys.simps plain.simps map_map)
next
  case (JObj kvs)
  then have "map (\<lambda>(k, v). (k, dumps v)) kvs = map (\<lambda>(k, v). (k, plain (sort_keys v))) kvs"
    by (intro map_cong) auto
  then have "sort_key fst (map (\<lambda>(k, v). (k, dumps v)) kvs)
      = map (\<lambda>(k, v). (k, plain (sort_keys v))) (sort_key fst kvs)"
    by (simp only: sort_key_map [of "\<lambda>v. plain (sort_keys v)"])
  then show ?case
    by (simp only: dumps.simps sort_keys.simps plain.simps sort_key_map map_map comp_def split_beta fst_conv snd_conv)
qed auto

section \<open>Strings are determined by their quotation\<close>

lemma hex_digit_inject: "m < 16 \<Longrightarrow> n < 16 \<Longrightarrow> hex_digit m = hex_digit n \<longleftrightarrow> m = n"
  by (metis hex_digit_facts option.inject)

definition unescaped :: "nat \<Rightarrow> bool" where
  "unescaped n \<longleftrightarrow> 32 \<le> n \<and> n \<noteq> 34 \<and> n \<noteq> 92"

lemma esc_char_cases:
  "esc_char c = [c] \<and> unescaped (code_point c)
   \<or> (\<exists>d. esc_char c = [CHR 0x5C, d] \<and> d \<noteq> CHR ''u'' \<and> code_point c \<in> {8, 9, 10, 12, 13, 34, 92})
   \<or> (\<exists>h l. esc_char c = [CHR 0x5C, CHR ''u'', CHR ''0'', CHR ''0'', h, l] \<and> code_point c < 32)"
  by (auto simp: esc_char_def Let_def unescaped_def)

lemma esc_char_inject_short:
  "esc_char c = [CHR 0x5C, d] \<Longrightarrow> esc_char c' = [CHR 0x5C, d] \<Longrightarrow> c = c'"
  by (subst code_point_inject [symmetric]) (auto simp: esc_char_def Let_def split: if_splits)

lemma esc_char_inject_long:
  assumes "esc_char c = [CHR 0x5C, CHR ''u'', CHR ''0'', CHR ''0'', h, l]"
    and "esc_char c' = [CHR 0x5C, CHR ''u'', CHR ''0'', CHR ''0'', h, l]"
  shows "c = c'"
proof -
  let ?m = "code_point c" and ?n = "code_point c'"
  have "?m < 32" "?n < 32" "hex_digit (?m div 16) = h" "hex_digit (?m mod 16) = l"
      "hex_digit (?n div 16) = h" "hex_digit (?n mod 16) = l"
    using assms by (auto simp: esc_char_def Let_def split: if_splits)
  moreover from this have "?m div 16 < 16" "?n div 16 < 16" "?m mod 16 < 16" "?n mod 16 < 16" by auto
  ultimately have "?m div 16 = ?n div 16" "?m mod 16 = ?n mod 16"
    by (metis hex_digit_inject)+
  then have "?m = ?n" by (metis div_mult_mod_eq)
  then show ?thesis by (simp add: code_point_inject)
qed

lemma unescaped_code: "unescaped (code_point c) \<Longrightarrow> c \<noteq> CHR 0x5C \<and> c \<noteq> CHR 0x22"
  by (auto simp: unescaped_def code_point_def)

lemma esc_char_prefix_free:
  assumes "esc_char c @ s = esc_char d @ t"
  shows "c = d \<and> s = t"
  using assms esc_char_cases [of c] esc_char_cases [of d]
  by (elim disjE exE conjE)
     (auto dest: unescaped_code esc_char_inject_short esc_char_inject_long)

lemma esc_char_not_quote: "esc_char c @ s \<noteq> CHR 0x22 # t"
  using esc_char_cases [of c] by (auto dest: unescaped_code)

lemma esc_prefix_free:
  "esc s @ CHR 0x22 # x = esc t @ CHR 0x22 # y \<Longrightarrow> s = t \<and> x = y"
proof (induction s arbitrary: t)
  case Nil
  show ?case
  proof (cases t)
    case (Cons d t')
    with Nil.prems have "esc_char d @ (esc t' @ CHR 0x22 # y) = CHR 0x22 # x" by simp
    then show ?thesis using esc_char_not_quote by blast
  qed (use Nil.prems in simp)
next
  case (Cons c s)
  show ?case
  proof (cases t)
    case Nil
    with Cons.prems have "esc_char c @ (esc s @ CHR 0x22 # x) = CHR 0x22 # y" by simp
    then show ?thesis using esc_char_not_quote by blast
  next
    case (Cons d t')
    with Cons.prems have "esc_char c @ (esc s @ CHR 0x22 # x) = esc_char d @ (esc t' @ CHR 0x22 # y)"
      by simp
    from esc_char_prefix_free [OF this] Cons.IH Cons show ?thesis by blast
  qed
qed

lemma quote_prefix_free: "quote s @ x = quote t @ y \<longleftrightarrow> s = t \<and> x = y"
  using esc_prefix_free [of s x t y] by (auto simp: quote_def)

section \<open>Integers are determined by their digits\<close>

definition is_digit :: "char \<Rightarrow> bool" where
  "is_digit c = (48 \<le> code_point c \<and> code_point c \<le> 57)"

definition digits_value :: "string \<Rightarrow> nat" where
  "digits_value s = foldl (\<lambda>v c. 10 * v + (code_point c - 48)) 0 s"

lemma digit_char_code: "n < 10 \<Longrightarrow> code_point (digit_char n) = 48 + n"
  by (simp add: digit_char_def code_point_def)

lemma digits_are_digits: "c \<in> set (digits n) \<Longrightarrow> is_digit c"
proof (induction n rule: digits.induct)
  case (1 n)
  then show ?case
    by (cases "n < 10") (auto simp: digits.simps [of n] is_digit_def digit_char_code)
qed

lemma digits_value_digits [simp]: "digits_value (digits n) = n"
proof (induction n rule: digits.induct)
  case (1 n)
  show ?case
  proof (cases "n < 10")
    case True
    then show ?thesis by (simp add: digits.simps [of n] digits_value_def digit_char_code)
  next
    case False
    with 1 have "digits_value (digits (n div 10)) = n div 10" by simp
    with False show ?thesis by (simp add: digits.simps [of n] digits_value_def digit_char_code)
  qed
qed

lemma digits_not_Nil [simp]: "digits n \<noteq> []"
  by (subst digits.simps) simp

definition no_digit :: "string \<Rightarrow> bool" where
  "no_digit s = (case s of [] \<Rightarrow> True | c # _ \<Rightarrow> \<not> is_digit c)"

lemma takeWhile_digits: "no_digit s \<Longrightarrow> takeWhile is_digit (digits n @ s) = digits n"
  by (subst takeWhile_append2) (auto dest: digits_are_digits simp: no_digit_def split: list.splits)

lemma digits_prefix_free:
  assumes "digits m @ s = digits n @ t" "no_digit s" "no_digit t"
  shows "m = n \<and> s = t"
proof -
  have "digits m = digits n" using assms takeWhile_digits by metis
  then show ?thesis using assms(1) by (metis digits_value_digits same_append_eq)
qed

lemma digits_first: "\<exists>c s. digits n = c # s \<and> is_digit c"
  using digits_are_digits [of _ n] by (cases "digits n") auto

lemma show_int_prefix_free:
  assumes "show_int i @ s = show_int j @ t" "no_digit s" "no_digit t"
  shows "i = j \<and> s = t"
proof -
  have minus: "\<not> is_digit (CHR ''-'')" by (simp add: is_digit_def code_point_def)
  obtain c u where c: "digits (nat i) = c # u" "is_digit c" using digits_first by blast
  obtain d v where d: "digits (nat j) = d # v" "is_digit d" using digits_first by blast
  show ?thesis
  proof (cases "i < 0"; cases "j < 0")
    assume "i < 0" "j < 0"
    with assms digits_prefix_free [of "nat (- i)" s "nat (- j)" t] show ?thesis
      by (auto simp: show_int_def)
  next
    assume "\<not> i < 0" "\<not> j < 0"
    with assms digits_prefix_free [of "nat i" s "nat j" t] show ?thesis
      by (auto simp: show_int_def)
  qed (use assms minus c d in \<open>auto simp: show_int_def\<close>)
qed

section \<open>Values are determined by their serialisation\<close>

text \<open>What may follow a value: the end of the text, a comma or a closing bracket.\<close>

definition delim :: "string \<Rightarrow> bool" where
  "delim s = (case s of [] \<Rightarrow> True | c # _ \<Rightarrow> c \<in> {CHR '','', CHR '']'', CHR ''}''})"

lemma delim_no_digit: "delim s \<Longrightarrow> no_digit s"
  by (auto simp: delim_def no_digit_def is_digit_def code_point_def split: list.splits)

lemma delim_simps [simp]:
  "delim []" "delim (CHR '','' # s)" "delim (CHR '']'' # s)" "delim (CHR ''}'' # s)"
  by (simp_all add: delim_def)

text \<open>The first character of a value tells its kind.\<close>

definition tag_of_char :: "char \<Rightarrow> nat" where
  "tag_of_char c =
     (if c = CHR ''n'' then 0 else if c = CHR ''t'' then 1 else if c = CHR ''f'' then 2
      else if c = CHR 0x22 then 3 else if c = CHR ''['' then 4 else if c = CHR ''{'' then 5
      else if is_digit c \<or> c = CHR ''-'' then 6 else 7)"

fun tag :: "json \<Rightarrow> nat" where
  "tag JNull = 0"
| "tag (JBool b) = (if b then 1 else 2)"
| "tag (JStr _) = 3"
| "tag (JArr _) = 4"
| "tag (JObj _) = 5"
| "tag (JInt _) = 6"

lemma tag_of_digit: "is_digit c \<Longrightarrow> tag_of_char c = 6"
  by (auto simp: tag_of_char_def is_digit_def code_point_def)

lemma tag_of_show_int: "tag_of_char (hd (show_int i)) = 6"
proof (cases "i < 0")
  case True
  then show ?thesis by (simp add: show_int_def tag_of_char_def)
next
  case False
  obtain c u where "digits (nat i) = c # u" "is_digit c" using digits_first by blast
  with False show ?thesis by (simp add: show_int_def tag_of_digit)
qed

lemma tag_of_plain: "tag_of_char (hd (plain v)) = tag v"
proof (cases v)
  case (JInt i)
  then show ?thesis by (simp add: tag_of_show_int)
qed (simp_all add: quote_def tag_of_char_def)

lemma plain_not_Nil [simp]: "plain v \<noteq> []"
  by (cases v) (simp_all add: show_int_def quote_def)

lemma same_tag:
  assumes "plain v @ s = plain w @ t"
  shows "tag v = tag w"
proof -
  have "hd (plain v) = hd (plain w)"
    using assms hd_append2 [OF plain_not_Nil] by metis
  then show ?thesis by (metis tag_of_plain)
qed

lemma plain_no_close: "plain v @ s \<noteq> CHR '']'' # t"
proof
  assume "plain v @ s = CHR '']'' # t"
  then have "hd (plain v) = CHR '']''" by (metis hd_append2 list.sel(1) plain_not_Nil)
  then have "tag v = 7" using tag_of_plain [of v] by (simp add: tag_of_char_def is_digit_def code_point_def)
  then show False by (cases v) (auto split: if_splits)
qed

text \<open>Two lists of items, joined by commas and closed by the bracket \<open>e\<close>, are
  equal item by item when each item is determined by its text.\<close>

lemma join_prefix_free:
  assumes e: "e \<in> {CHR '']'', CHR ''}''}"
  shows "\<lbrakk>\<And>x y s t. x \<in> set xs \<Longrightarrow> delim s \<Longrightarrow> delim t \<Longrightarrow> p x @ s = p y @ t \<Longrightarrow> x = y \<and> s = t;
      \<And>x s t. p x @ s \<noteq> e # t;
      join_on (CHR '','') (map p xs) @ e # s = join_on (CHR '','') (map p ys) @ e # t\<rbrakk>
    \<Longrightarrow> xs = ys \<and> s = t"
proof (induction xs arbitrary: ys)
  case Nil
  then show ?case
  proof (cases ys)
    case (Cons y ys')
    have "join_on (CHR '','') (map p (y # ys')) @ e # t = p y @ (case ys' of [] \<Rightarrow> e # t
        | _ \<Rightarrow> CHR '','' # join_on (CHR '','') (map p ys') @ e # t)"
      by (cases ys') auto
    with Nil.prems(2,3) Cons show ?thesis by (metis append_Nil join_on.simps(1) list.map_disc_iff)
  qed simp
next
  case (Cons x xs)
  define tail where "tail zs u = (case zs of [] \<Rightarrow> e # u
      | _ \<Rightarrow> CHR '','' # join_on (CHR '','') (map p zs) @ e # u)" for zs u
  have join: "join_on (CHR '','') (map p (z # zs)) @ e # u = p z @ tail zs u" for z zs u
    by (cases zs) (simp_all add: tail_def)
  have delim_tail: "delim (tail zs u)" for zs u
    using e by (auto simp: tail_def split: list.splits)
  have comma: "e \<noteq> CHR '',''" using e by auto
  show ?case
  proof (cases ys)
    case Nil
    then have "p x @ tail xs s = e # t" using Cons.prems(3) join [of x xs s] by simp
    then show ?thesis using Cons.prems(2) by blast
  next
    case (Cons y ys')
    have "p x @ tail xs s = p y @ tail ys' t"
      using Cons.prems(3) unfolding Cons join by simp
    then have xy: "x = y" and tl: "tail xs s = tail ys' t"
      using Cons.prems(1) [of x "tail xs s" "tail ys' t" y] delim_tail by auto
    show ?thesis
    proof (cases "xs = [] \<or> ys' = []")
      case True
      then show ?thesis using xy tl comma Cons
        by (auto simp: tail_def split: list.splits)
    next
      case False
      then have "join_on (CHR '','') (map p xs) @ e # s = join_on (CHR '','') (map p ys') @ e # t"
        using tl by (auto simp: tail_def split: list.splits)
      from Cons.IH [OF _ Cons.prems(2) this] Cons.prems(1) xy Cons show ?thesis by auto
    qed
  qed
qed

lemma plain_prefix_free:
  "plain v @ s = plain w @ t \<Longrightarrow> delim s \<Longrightarrow> delim t \<Longrightarrow> v = w \<and> s = t"
proof (induction v arbitrary: w s t)
  case JNull
  from same_tag [OF JNull.prems(1)] JNull.prems show ?case by (cases w) (auto split: if_splits)
next
  case (JBool b)
  from same_tag [OF JBool.prems(1)] JBool.prems show ?case by (cases w) (auto split: if_splits)
next
  case (JInt i)
  from same_tag [OF JInt.prems(1)] obtain j where w: "w = JInt j"
    by (cases w) (auto split: if_splits)
  with JInt.prems show ?case using show_int_prefix_free [of i s j t] delim_no_digit by simp
next
  case (JStr x)
  from same_tag [OF JStr.prems(1)] obtain y where w: "w = JStr y"
    by (cases w) (auto split: if_splits)
  with JStr.prems show ?case by (simp add: quote_prefix_free)
next
  case (JArr xs)
  from same_tag [OF JArr.prems(1)] obtain ys where w: "w = JArr ys"
    by (cases w) (auto split: if_splits)
  have "xs = ys \<and> s = t"
  proof (rule join_prefix_free [where p = plain and e = "CHR '']''"])
    show "plain x @ s' \<noteq> CHR '']'' # t'" for x s' t' by (rule plain_no_close)
    show "x = y \<and> s' = t'"
      if "x \<in> set xs" "delim s'" "delim t'" "plain x @ s' = plain y @ t'" for x y s' t'
      using JArr.IH that by blast
    show "join_on (CHR '','') (map plain xs) @ CHR '']'' # s
        = join_on (CHR '','') (map plain ys) @ CHR '']'' # t"
      using JArr.prems(1) w by simp
  qed simp
  then show ?case using w by simp
next
  case (JObj kvs)
  from same_tag [OF JObj.prems(1)] obtain kws where w: "w = JObj kws"
    by (cases w) (auto split: if_splits)
  let ?p = "\<lambda>(k, v). quote k @ CHR '':'' # plain v"
  have "kvs = kws \<and> s = t"
  proof (rule join_prefix_free [where p = ?p and e = "CHR ''}''"])
    show "?p x @ s' \<noteq> CHR ''}'' # t'" for x s' t'
      by (cases x) (simp add: quote_def)
    show "x = y \<and> s' = t'"
      if "x \<in> set kvs" "delim s'" "delim t'" "?p x @ s' = ?p y @ t'" for x y s' t'
    proof -
      obtain k v where x: "x = (k, v)" by fastforce
      obtain k' v' where y: "y = (k', v')" by fastforce
      have "k = k'" "plain v @ s' = plain v' @ t'"
        using that(4) x y by (simp_all add: quote_prefix_free)
      moreover have "v \<in> Basic_BNFs.snds x" using x by (simp add: snds.intros)
      ultimately show ?thesis using JObj.IH [OF that(1)] that(2,3) x y by blast
    qed
    show "join_on (CHR '','') (map ?p kvs) @ CHR ''}'' # s
        = join_on (CHR '','') (map ?p kws) @ CHR ''}'' # t"
      using JObj.prems(1) w by simp
  qed simp
  then show ?case using w by simp
qed

theorem dumps_determines: "dumps v = dumps w \<longleftrightarrow> sort_keys v = sort_keys w"
  using plain_prefix_free [of "sort_keys v" "[]" "sort_keys w" "[]"] by (auto simp: dumps_plain)

end
