(* ===== verification/Crypto.thy ===== *)
theory Crypto imports Json begin

text \<open>
  \<open>cq_server/crypto.py\<close>: unpadded base64url, and signing and verifying raw
  messages and canonical JSON with Ed25519. The primitives that are not in the
  repository are the fields of one record: SHA-256, HMAC-SHA256, HKDF-SHA256, Ed25519
  and the RFC 8785 serialiser. Base64 is written out, with the lenient decoder
  Python uses, and proved to decode what it encodes.
\<close>

section \<open>Primitives outside the repository\<close>

record 'k prims =
  sha256 :: "bytes \<Rightarrow> bytes"
  hmac256 :: "bytes \<Rightarrow> bytes \<Rightarrow> bytes"                  \<comment> \<open>key, message\<close>
  hkdf256 :: "nat \<Rightarrow> bytes option \<Rightarrow> bytes \<Rightarrow> bytes \<Rightarrow> bytes"   \<comment> \<open>length, salt, info, key material\<close>
  ed_public :: "'k \<Rightarrow> bytes"
  ed_sign :: "'k \<Rightarrow> bytes \<Rightarrow> bytes"
  ed_verify :: "bytes \<Rightarrow> bytes \<Rightarrow> bytes \<Rightarrow> bool"           \<comment> \<open>public key, signature, message\<close>
  jcs :: "json \<Rightarrow> bytes"

text \<open>What the Ed25519 library documents: public keys have 32 bytes, and a
  signature verifies under the key pair that made it.\<close>

definition ed25519_ok :: "'k prims \<Rightarrow> bool" where
  "ed25519_ok C \<longleftrightarrow> (\<forall>sk. length (ed_public C sk) = 32)
     \<and> (\<forall>sk m. ed_verify C (ed_public C sk) (ed_sign C sk m) m)"

text \<open>One concrete instance, for witnesses: keys are numbers, a signature is the
  key's public byte followed by the message.\<close>

definition demo_prims :: "nat prims" where
  "demo_prims = \<lparr>
     sha256 = (\<lambda>b. if length b < 32 then b @ replicate (32 - length b) 0 else take 32 b),
     hmac256 = (\<lambda>k m. k @ m),
     hkdf256 = (\<lambda>n salt info ikm. take n (ikm @ info @ replicate n 0)),
     ed_public = (\<lambda>sk. replicate 32 (word_of_nat sk)),
     ed_sign = (\<lambda>sk m. word_of_nat sk # m),
     ed_verify = (\<lambda>pub sig m. sig = hd pub # m),
     jcs = (\<lambda>v. utf8 (dumps v))\<rparr>"

lemma demo_prims_ok: "ed25519_ok demo_prims"
  by (simp add: ed25519_ok_def demo_prims_def)

section \<open>Base64url\<close>

definition b64_alphabet :: string where
  "b64_alphabet = ''ABCDEFGHIJKLMNOPQRSTUVWXYZabcdefghijklmnopqrstuvwxyz0123456789-_''"

definition b64_char :: "nat \<Rightarrow> char" where
  "b64_char n = b64_alphabet ! n"

definition b64_value :: "char \<Rightarrow> nat option" where
  "b64_value c = (let n = code_point c in
     if 65 \<le> n \<and> n \<le> 90 then Some (n - 65)
     else if 97 \<le> n \<and> n \<le> 122 then Some (n - 71)
     else if 48 \<le> n \<and> n \<le> 57 then Some (n + 4)
     else if n = 43 \<or> n = 45 then Some 62
     else if n = 47 \<or> n = 95 then Some 63
     else None)"

text \<open>The encoder without its padding (\<open>rstrip(b"=")\<close> removes just the padding).\<close>

fun b64u :: "bytes \<Rightarrow> string" where
  "b64u [] = []"
| "b64u [a] = [b64_char (unat a div 4), b64_char (unat a mod 4 * 16)]"
| "b64u [a, b] =
     [b64_char (unat a div 4), b64_char (unat a mod 4 * 16 + unat b div 16), b64_char (unat b mod 16 * 4)]"
| "b64u (a # b # c # bs) =
     b64_char (unat a div 4) # b64_char (unat a mod 4 * 16 + unat b div 16)
     # b64_char (unat b mod 16 * 4 + unat c div 64) # b64_char (unat c mod 64) # b64u bs"

text \<open>
  The decoder's loop over the characters: \<open>q\<close> is the position in the group of
  four, \<open>l\<close> the bits carried over, \<open>p\<close> the \<open>=\<close> seen in a row. Characters
  outside the alphabet are skipped; None is binascii.Error.
\<close>

fun a2b :: "nat \<Rightarrow> nat \<Rightarrow> nat \<Rightarrow> string \<Rightarrow> bytes option" where
  "a2b q l p [] = (if q = 0 then Some [] else None)"
| "a2b q l p (c # s) =
     (if c = CHR ''='' then
        (if 2 \<le> q \<and> 4 \<le> q + (p + 1) then Some [] else a2b q l (if 2 \<le> q then p + 1 else p) s)
      else (case b64_value c of
          None \<Rightarrow> a2b q l p s
        | Some v \<Rightarrow>
            if q = 0 then a2b 1 v 0 s
            else if q = 1 then map_option ((#) (word_of_nat (l * 4 + v div 16))) (a2b 2 (v mod 16) 0 s)
            else if q = 2 then map_option ((#) (word_of_nat (l * 16 + v div 4))) (a2b 3 (v mod 4) 0 s)
            else map_option ((#) (word_of_nat (l * 64 + v))) (a2b 0 0 0 s)))"

definition b64u_decode :: "string \<Rightarrow> py_exc + bytes" where
  "b64u_decode s =
     (if \<exists>c \<in> set s. 128 \<le> code_point c then Inl ValueError
      else (case a2b 0 0 0 (s @ replicate ((4 - length s mod 4) mod 4) (CHR ''='')) of
              None \<Rightarrow> Inl ValueError | Some b \<Rightarrow> Inr b))"

lemma b64_alphabet_values: "map b64_value b64_alphabet = map Some [0..<64]"
  by code_simp

lemma b64_alphabet_ascii: "list_all (\<lambda>c. c \<noteq> CHR ''='' \<and> code_point c < 128) b64_alphabet"
  by code_simp

lemma length_b64_alphabet: "length b64_alphabet = 64"
  by (simp add: b64_alphabet_def)

lemma b64_char_facts:
  assumes "n < 64"
  shows "b64_value (b64_char n) = Some n \<and> b64_char n \<noteq> CHR ''='' \<and> code_point (b64_char n) < 128"
proof -
  have "map b64_value b64_alphabet ! n = map Some [0..<64] ! n"
    by (simp only: b64_alphabet_values)
  moreover have "b64_char n \<in> set b64_alphabet"
    using assms by (simp add: b64_char_def length_b64_alphabet)
  ultimately show ?thesis
    using assms b64_alphabet_ascii by (simp add: b64_char_def length_b64_alphabet list_all_iff)
qed

lemma byte_less: "unat (b :: 8 word) < 256"
  using unsigned_less [of b, where ?'a = nat] by simp

lemma byte_pieces:
  fixes a b c :: "8 word"
  shows "unat a div 4 < 64" "unat a mod 4 * 16 < 64" "unat a mod 4 * 16 + unat b div 16 < 64"
    "unat b mod 16 * 4 < 64" "unat b mod 16 * 4 + unat c div 64 < 64" "unat c mod 64 < 64"
  using byte_less [of a] byte_less [of b] byte_less [of c] by auto

lemma byte_carry:
  fixes b :: "8 word"
  shows "unat b div 16 div 16 = 0" "unat b div 16 mod 16 = unat b div 16"
    "unat b div 64 div 4 = 0" "unat b div 64 mod 4 = unat b div 64"
  using byte_less [of b] by auto

lemma a2b_b64u:
  "a2b 0 l p (b64u bs @ replicate ((4 - length (b64u bs) mod 4) mod 4) (CHR ''='')) = Some bs"
proof (induction bs arbitrary: l p rule: b64u.induct)
  case (4 a b c bs)
  have "length (b64u (a # b # c # bs)) mod 4 = length (b64u bs) mod 4" by simp
  then show ?case
    using "4.IH" [of 0 0] by (simp add: b64_char_facts byte_pieces byte_carry del: of_nat_add of_nat_mult)
qed (simp_all add: b64_char_facts byte_pieces byte_carry numeral_2_eq_2 del: of_nat_add of_nat_mult)

lemma b64u_ascii: "c \<in> set (b64u bs) \<Longrightarrow> code_point c < 128"
  by (induction bs rule: b64u.induct) (auto simp: b64_char_facts byte_pieces)

text \<open>Decoding what was encoded gives the bytes back.\<close>

lemma b64u_decode_b64u [simp]: "b64u_decode (b64u bs) = Inr bs"
  using b64u_ascii [of _ bs] by (auto simp: b64u_decode_def a2b_b64u dest: leD)

lemma b64u_inject: "b64u a = b64u b \<longleftrightarrow> a = b"
  by (metis b64u_decode_b64u sum.inject(2))

lemma b64u_not_Nil: "bs \<noteq> [] \<Longrightarrow> b64u bs \<noteq> []"
  by (cases bs rule: b64u.cases) auto

lemma b64_alphabet_no_space: "list_all (\<lambda>c. \<not> is_space c) b64_alphabet"
  by code_simp

lemma b64u_no_space: "c \<in> set (b64u bs) \<Longrightarrow> \<not> is_space c"
proof -
  have "n < 64 \<Longrightarrow> \<not> is_space (b64_char n)" for n
    using b64_alphabet_no_space by (simp add: b64_char_def length_b64_alphabet list_all_iff)
  then show "c \<in> set (b64u bs) \<Longrightarrow> \<not> is_space c"
    by (induction bs rule: b64u.induct) (auto simp: byte_pieces)
qed

lemma strip_b64u [simp]: "strip (b64u bs) = b64u bs"
proof -
  have *: "dropWhile is_space s = s" if "\<forall>c \<in> set s. \<not> is_space c" for s
    using that by (cases s) auto
  show ?thesis using * [of "b64u bs"] * [of "rev (b64u bs)"] by (simp add: strip_def lstrip_def b64u_no_space)
qed

section \<open>Signatures\<close>

definition public_key_b64u :: "'k prims \<Rightarrow> 'k \<Rightarrow> string" where
  "public_key_b64u C sk = b64u (ed_public C sk)"

definition fingerprint_sha256 :: "'k prims \<Rightarrow> string \<Rightarrow> py_exc + string" where
  "fingerprint_sha256 C pubkey =
     bind_result (b64u_decode pubkey) (\<lambda>raw. Inr (''sha256:'' @ hex (sha256 C raw)))"

definition sign_raw :: "'k prims \<Rightarrow> 'k \<Rightarrow> bytes \<Rightarrow> string" where
  "sign_raw C sk message = b64u (ed_sign C sk message)"

text \<open>\<open>Ed25519PublicKey.from_public_bytes\<close> raises ValueError unless it gets 32
  bytes; that, a malformed encoding and a bad signature all end in False.\<close>

definition verify_raw :: "'k prims \<Rightarrow> string \<Rightarrow> bytes \<Rightarrow> string \<Rightarrow> bool" where
  "verify_raw C pubkey message signature =
     (case b64u_decode pubkey of
        Inl _ \<Rightarrow> False
      | Inr pub \<Rightarrow>
          if length pub \<noteq> 32 then False
          else (case b64u_decode signature of Inl _ \<Rightarrow> False | Inr sig \<Rightarrow> ed_verify C pub sig message))"

definition verify_envelope_signature :: "'k prims \<Rightarrow> string \<Rightarrow> string \<Rightarrow> string \<Rightarrow> bool" where
  "verify_envelope_signature C pubkey payload_canonical signature =
     (case b64u_decode pubkey of
        Inl _ \<Rightarrow> False
      | Inr pub \<Rightarrow>
          if length pub \<noteq> 32 then False
          else (case b64u_decode signature of
                  Inl _ \<Rightarrow> False
                | Inr sig \<Rightarrow> ed_verify C pub sig (utf8 payload_canonical)))"

lemma verify_raw_sign_raw:
  "ed25519_ok C \<Longrightarrow> verify_raw C (public_key_b64u C sk) m (sign_raw C sk m)"
  by (simp add: verify_raw_def public_key_b64u_def sign_raw_def ed25519_ok_def)

lemma verify_envelope_signature_sign:
  "ed25519_ok C \<Longrightarrow> verify_envelope_signature C (public_key_b64u C sk) s (sign_raw C sk (utf8 s))"
  by (simp add: verify_envelope_signature_def public_key_b64u_def sign_raw_def ed25519_ok_def)

end
