(* ===== verification/Merkle.thy ===== *)
theory Merkle imports PyStrings begin

text \<open>
  \<open>cq_server/merkle.py\<close>: the SHA-256 Merkle tree over the payload hashes of one
  day's reputation events. The hash function is the parameter \<open>H\<close> (\<open>hashlib.sha256\<close>).
  The lemmas: the level loop ends, how the root relates to the list of leaf
  digests (binding at equal length, with the colliding preimages exhibited;
  padding and inner levels as the two ways lists of different length share a
  root), and when the function raises.
\<close>

section \<open>The code\<close>

definition EMPTY_DAY_ROOT :: "(bytes \<Rightarrow> bytes) \<Rightarrow> string" where
  "EMPTY_DAY_ROOT H = ''sha256:'' @ hex (H (utf8 ''8l-reputation-empty-day-v1''))"

definition strip_prefix :: "string \<Rightarrow> py_exc + bytes" where
  "strip_prefix h =
     (if \<not> startswith h ''sha256:'' then Inl ValueError
      else (case fromhex (drop (length ''sha256:'') h) of None \<Rightarrow> Inl ValueError | Some b \<Rightarrow> Inr b))"

definition hash_pair :: "(bytes \<Rightarrow> bytes) \<Rightarrow> bytes \<Rightarrow> bytes \<Rightarrow> bytes" where
  "hash_pair H left right = H (left @ right)"

text \<open>One turn of the loop: an odd level gets its last node again, then
  neighbours are hashed together.\<close>

definition pad_level :: "bytes list \<Rightarrow> bytes list" where
  "pad_level level = (if odd (length level) then level @ [last level] else level)"

fun hash_pairs :: "(bytes \<Rightarrow> bytes) \<Rightarrow> bytes list \<Rightarrow> bytes list" where
  "hash_pairs H (l # r # rest) = hash_pair H l r # hash_pairs H rest"
| "hash_pairs H _ = []"

lemma length_hash_pairs: "length (hash_pairs H level) = length level div 2"
  by (induction H level rule: hash_pairs.induct) auto

lemma length_next_level: "length (hash_pairs H (pad_level level)) = (length level + 1) div 2"
  by (auto simp: length_hash_pairs pad_level_def elim!: oddE evenE)

function merkle_reduce :: "(bytes \<Rightarrow> bytes) \<Rightarrow> bytes list \<Rightarrow> bytes list" where
  "merkle_reduce H level =
     (if 1 < length level then merkle_reduce H (hash_pairs H (pad_level level)) else level)"
  by pat_completeness auto
termination
  by (relation "measure (\<lambda>(H, level). length level)") (auto simp: length_next_level)

declare merkle_reduce.simps [simp del]

fun strip_all :: "string list \<Rightarrow> py_exc + bytes list" where
  "strip_all [] = Inr []"
| "strip_all (h # hs) = bind_result (strip_prefix h) (\<lambda>b. bind_result (strip_all hs) (\<lambda>bs. Inr (b # bs)))"

definition merkle_root :: "(bytes \<Rightarrow> bytes) \<Rightarrow> string list \<Rightarrow> py_exc + string" where
  "merkle_root H leaf_hashes =
     (if leaf_hashes = [] then Inr (EMPTY_DAY_ROOT H)
      else bind_result (strip_all leaf_hashes)
             (\<lambda>level. Inr (''sha256:'' @ hex (hd (merkle_reduce H level)))))"

section \<open>The loop ends in one node\<close>

lemma merkle_reduce_step:
  "1 < length level \<Longrightarrow> merkle_reduce H level = merkle_reduce H (hash_pairs H (pad_level level))"
  by (subst merkle_reduce.simps) simp

lemma merkle_reduce_stop: "\<not> 1 < length level \<Longrightarrow> merkle_reduce H level = level"
  by (subst merkle_reduce.simps) simp

lemma length_merkle_reduce: "level \<noteq> [] \<Longrightarrow> length (merkle_reduce H level) = 1"
proof (induction H level rule: merkle_reduce.induct)
  case (1 H level)
  show ?case
  proof (cases "1 < length level")
    case True
    then have "0 < length (hash_pairs H (pad_level level))"
      unfolding length_next_level by linarith
    with "1.IH" [OF True] show ?thesis by (simp only: merkle_reduce_step [OF True]) simp
  next
    case False
    with "1.prems" have "length level = 1" by (cases level) auto
    then show ?thesis unfolding merkle_reduce_stop [OF False] .
  qed
qed

lemma strip_all_not_Nil: "strip_all hs = Inr bs \<Longrightarrow> length bs = length hs"
  by (induction hs arbitrary: bs) auto

lemma strip_all_error: "(\<exists>e. strip_all hs = Inl e) \<longleftrightarrow> (\<exists>h \<in> set hs. strip_prefix h = Inl ValueError)"
proof (induction hs)
  case Nil
  then show ?case by simp
next
  case (Cons h hs)
  have "strip_prefix h = Inl e \<Longrightarrow> e = ValueError" for e
    by (auto simp: strip_prefix_def split: if_splits option.splits)
  with Cons show ?case
    by (cases "strip_prefix h"; cases "strip_all hs") auto
qed

section \<open>What a root binds\<close>

text \<open>The strings hashed on the way to the root.\<close>

fun pair_inputs :: "bytes list \<Rightarrow> bytes list" where
  "pair_inputs (l # r # rest) = (l @ r) # pair_inputs rest"
| "pair_inputs _ = []"

function merkle_inputs :: "(bytes \<Rightarrow> bytes) \<Rightarrow> bytes list \<Rightarrow> bytes list" where
  "merkle_inputs H level =
     (if 1 < length level
      then pair_inputs (pad_level level) @ merkle_inputs H (hash_pairs H (pad_level level)) else [])"
  by pat_completeness auto
termination
  by (relation "measure (\<lambda>(H, level). length level)") (auto simp: length_next_level)

declare merkle_inputs.simps [simp del]

definition digests32 :: "bytes list \<Rightarrow> bool" where
  "digests32 level \<longleftrightarrow> (\<forall>b \<in> set level. length b = 32)"

text \<open>Two preimages, one from each computation, that \<open>H\<close> maps to one value.\<close>

definition collides :: "(bytes \<Rightarrow> bytes) \<Rightarrow> bytes list \<Rightarrow> bytes list \<Rightarrow> bool" where
  "collides H xs ys \<longleftrightarrow> (\<exists>a \<in> set xs. \<exists>b \<in> set ys. a \<noteq> b \<and> H a = H b)"

lemma collides_append:
  "collides H xs ys \<Longrightarrow> collides H (xs @ xs') (ys @ ys')"
  "collides H xs' ys' \<Longrightarrow> collides H (xs @ xs') (ys @ ys')"
  by (auto simp: collides_def)

lemma collides_Cons: "collides H xs ys \<Longrightarrow> collides H (x # xs) (y # ys)"
  by (auto simp: collides_def)

lemma hash_pairs_binding:
  "length l = length m \<Longrightarrow> even (length l) \<Longrightarrow> digests32 l \<Longrightarrow> digests32 m \<Longrightarrow>
   hash_pairs H l = hash_pairs H m \<Longrightarrow> l = m \<or> collides H (pair_inputs l) (pair_inputs m)"
proof (induction H l arbitrary: m rule: hash_pairs.induct)
  case (1 H x y rest)
  then obtain u v rest' where m: "m = u # v # rest'"
    by (metis length_0_conv list.exhaust list.size(4) nat.distinct(1) length_Suc_conv)
  have len: "length x = length u"
    using "1.prems"(3,4) m by (simp add: digests32_def)
  show ?case
  proof (cases "x @ y = u @ v")
    case True
    with len have "x = u" "y = v" by auto
    with "1.IH" [of rest'] "1.prems" m show ?thesis
      by (auto simp: digests32_def intro: collides_Cons)
  next
    case False
    moreover have "H (x @ y) = H (u @ v)"
      using "1.prems"(5) m by (simp add: hash_pair_def)
    ultimately show ?thesis using m by (auto simp: collides_def)
  qed
qed auto

lemma merkle_inputs_step:
  "1 < length level \<Longrightarrow> merkle_inputs H level
     = pair_inputs (pad_level level) @ merkle_inputs H (hash_pairs H (pad_level level))"
  by (subst merkle_inputs.simps) simp

lemma pad_level_inject: "length l = length m \<Longrightarrow> pad_level l = pad_level m \<Longrightarrow> l = m"
  by (auto simp: pad_level_def split: if_splits)

lemma even_pad_level: "even (length (pad_level l))"
  by (simp add: pad_level_def)

lemma length_pad_level_cong: "length l = length m \<Longrightarrow> length (pad_level l) = length (pad_level m)"
  by (simp add: pad_level_def)

lemma digests32_pad_level: "digests32 l \<Longrightarrow> digests32 (pad_level l)"
  by (cases l) (auto simp: pad_level_def digests32_def)

lemma digests32_hash_pairs: "\<forall>b. length (H b) = 32 \<Longrightarrow> digests32 (hash_pairs H l)"
  by (induction H l rule: hash_pairs.induct) (auto simp: digests32_def hash_pair_def)

lemma level_binding:
  assumes "length l = length m" "digests32 l" "digests32 m"
    and "hash_pairs H (pad_level l) = hash_pairs H (pad_level m)"
  shows "l = m \<or> collides H (pair_inputs (pad_level l)) (pair_inputs (pad_level m))"
  using hash_pairs_binding [OF length_pad_level_cong [OF assms(1)] even_pad_level
      digests32_pad_level [OF assms(2)] digests32_pad_level [OF assms(3)] assms(4)]
    pad_level_inject [OF assms(1)] by blast

lemma merkle_reduce_binding:
  "length l = length m \<Longrightarrow> digests32 l \<Longrightarrow> digests32 m \<Longrightarrow> \<forall>b. length (H b) = 32 \<Longrightarrow>
   merkle_reduce H l = merkle_reduce H m \<Longrightarrow>
   l = m \<or> collides H (merkle_inputs H l) (merkle_inputs H m)"
proof (induction H l arbitrary: m rule: merkle_reduce.induct)
  case (1 H l)
  note len = "1.prems"(1)
  show ?case
  proof (cases "1 < length l")
    case False
    with len "1.prems"(5) show ?thesis by (simp add: merkle_reduce_stop)
  next
    case True
    then have True': "1 < length m" using len by simp
    let ?l = "hash_pairs H (pad_level l)" and ?m = "hash_pairs H (pad_level m)"
    have "?l = ?m \<or> collides H (merkle_inputs H ?l) (merkle_inputs H ?m)"
    proof (rule "1.IH" [OF True _ _ _ "1.prems"(4)])
      show "length ?l = length ?m" by (simp only: length_next_level len)
      show "digests32 ?l" by (rule digests32_hash_pairs [OF "1.prems"(4)])
      show "digests32 ?m" by (rule digests32_hash_pairs [OF "1.prems"(4)])
      show "merkle_reduce H ?l = merkle_reduce H ?m"
        using "1.prems"(5) by (simp only: merkle_reduce_step [OF True] merkle_reduce_step [OF True'])
    qed
    then have "l = m \<or> collides H (pair_inputs (pad_level l)) (pair_inputs (pad_level m))
        \<or> collides H (merkle_inputs H ?l) (merkle_inputs H ?m)"
      using level_binding [OF len "1.prems"(2,3)] by blast
    then show ?thesis
      unfolding merkle_inputs_step [OF True] merkle_inputs_step [OF True']
      using collides_append by blast
  qed
qed

text \<open>The other side: lists of different length that share a root.\<close>

lemma merkle_reduce_pad_level:
  "1 < length l \<Longrightarrow> merkle_reduce H (pad_level l) = merkle_reduce H l"
proof -
  assume l: "1 < length l"
  then have "1 < length (pad_level l)" by (auto simp: pad_level_def)
  moreover have "pad_level (pad_level l) = pad_level l" by (simp add: pad_level_def)
  ultimately show ?thesis using l by (simp add: merkle_reduce_step)
qed

lemma strip_all_append:
  "strip_all (xs @ ys) = bind_result (strip_all xs) (\<lambda>a. bind_result (strip_all ys) (\<lambda>b. Inr (a @ b)))"
proof (induction xs)
  case Nil
  then show ?case by (cases "strip_all ys") auto
next
  case (Cons x xs)
  then show ?case
    by (cases "strip_prefix x"; cases "strip_all xs"; cases "strip_all ys") auto
qed

lemma strip_all_last:
  "strip_all xs = Inr bs \<Longrightarrow> xs \<noteq> [] \<Longrightarrow> strip_prefix (last xs) = Inr (last bs)"
proof (induction xs arbitrary: bs)
  case (Cons x xs)
  then show ?case by (cases xs) auto
qed simp

section \<open>Properties\<close>

definition digest_of :: "string \<Rightarrow> bytes" where
  "digest_of h = (case strip_prefix h of Inr b \<Rightarrow> b | Inl _ \<Rightarrow> [])"

lemma strip_all_digest_of: "strip_all hs = Inr bs \<Longrightarrow> bs = map digest_of hs"
  by (induction hs arbitrary: bs) (auto simp: digest_of_def)

lemma merkle_root_Inr:
  "xs \<noteq> [] \<Longrightarrow> merkle_root H xs = Inr r \<Longrightarrow>
   strip_all xs = Inr (map digest_of xs)
   \<and> r = ''sha256:'' @ hex (hd (merkle_reduce H (map digest_of xs)))"
  by (auto simp: merkle_root_def dest: strip_all_digest_of)

text \<open>
  Binding: two days with the same number of events and the same Merkle
  root have the same leaf digests in the same order, unless the two root
  computations themselves hashed two different strings to one value; in
  particular a published root cannot be met by an edited, reordered or
  replaced event hash without exhibiting a SHA-256 collision.\<close>

theorem merkle_root_binding:
  assumes "length xs = length ys"
    and "merkle_root H xs = Inr r" and "merkle_root H ys = Inr r"
    and "\<forall>x \<in> set (xs @ ys). length (digest_of x) = 32" and "\<forall>b. length (H b) = 32"
  shows "map digest_of xs = map digest_of ys
    \<or> collides H (merkle_inputs H (map digest_of xs)) (merkle_inputs H (map digest_of ys))"
proof (cases "xs = []")
  case True
  with assms(1) show ?thesis by simp
next
  case False
  then have "ys \<noteq> []" using assms(1) by auto
  let ?x = "map digest_of xs" and ?y = "map digest_of ys"
  have "hex (hd (merkle_reduce H ?x)) = hex (hd (merkle_reduce H ?y))"
    using merkle_root_Inr [OF False assms(2)] merkle_root_Inr [OF \<open>ys \<noteq> []\<close> assms(3)] by simp
  then have "hd (merkle_reduce H ?x) = hd (merkle_reduce H ?y)" by (rule hex_inject)
  moreover have "length (merkle_reduce H ?x) = 1" "length (merkle_reduce H ?y) = 1"
    using False \<open>ys \<noteq> []\<close> by (simp_all add: length_merkle_reduce del: One_nat_def)
  ultimately have "merkle_reduce H ?x = merkle_reduce H ?y"
    by (auto simp: length_Suc_conv)
  moreover have "digests32 ?x" "digests32 ?y" using assms(4) by (auto simp: digests32_def)
  ultimately show ?thesis using assms(1,5) by (intro merkle_reduce_binding) simp_all
qed

definition toy_hash :: "bytes \<Rightarrow> bytes" where
  "toy_hash b = take 32 (b @ replicate 32 0)"

definition leaf_a :: string where "leaf_a = ''sha256:'' @ hex (replicate 32 10)"
definition leaf_b :: string where "leaf_b = ''sha256:'' @ hex (replicate 32 11)"

lemma strip_prefix_hex: "strip_prefix (''sha256:'' @ hex b) = Inr b"
  by (simp add: strip_prefix_def)

lemma digest_of_hex [simp]: "digest_of (''sha256:'' @ hex b) = b"
  unfolding digest_of_def strip_prefix_hex by simp

text \<open>The root does not bind the number of leaves: a day with an odd number
  (at least three) of events has the root of the list with its last event
  repeated, the padding of the tree.\<close>

theorem merkle_root_duplicate_last:
  assumes "odd (length xs)" and "1 < length xs"
  shows "merkle_root H (xs @ [last xs]) = merkle_root H xs"
proof -
  have ne: "xs \<noteq> []" using assms(2) by auto
  show ?thesis
  proof (cases "strip_all xs")
    case (Inl e)
    then show ?thesis using ne by (simp add: merkle_root_def strip_all_append)
  next
    case (Inr bs)
    have len: "length bs = length xs" using strip_all_not_Nil [OF Inr] .
    have "strip_all (xs @ [last xs]) = Inr (bs @ [last bs])"
      using Inr strip_all_last [OF Inr ne] by (simp add: strip_all_append)
    moreover have "bs @ [last bs] = pad_level bs"
      using assms(1) len by (simp add: pad_level_def)
    moreover have "merkle_reduce H (pad_level bs) = merkle_reduce H bs"
      using assms(2) len by (intro merkle_reduce_pad_level) simp
    ultimately show ?thesis using Inr ne by (simp add: merkle_root_def)
  qed
qed

text \<open>
  The function is total up to malformed leaves: it raises ValueError
  exactly when some leaf is not \<open>sha256:\<close> followed by valid hex, and returns a
  root in every other case.\<close>

theorem merkle_root_raises_iff:
  "(merkle_root H xs = Inl ValueError) = (\<exists>h \<in> set xs. strip_prefix h = Inl ValueError)
   \<and> (\<exists>r. merkle_root H xs = Inr r) = (\<not> (\<exists>h \<in> set xs. strip_prefix h = Inl ValueError))"
proof (cases "strip_all xs")
  case (Inl e)
  have "strip_all ys = Inl e \<Longrightarrow> e = ValueError" for ys
    by (induction ys)
       (auto simp: bind_result_Inl_iff strip_prefix_def split: if_splits option.splits)
  with Inl have "strip_all xs = Inl ValueError" by blast
  then show ?thesis using strip_all_error [of xs]
    by (cases "xs = []") (auto simp: merkle_root_def)
next
  case (Inr bs)
  then show ?thesis using strip_all_error [of xs] by (auto simp: merkle_root_def)
qed

theorem merkle_root_binding_witness:
  "map digest_of [leaf_a, leaf_b] = map digest_of [leaf_a, leaf_b]
    \<or> collides toy_hash (merkle_inputs toy_hash (map digest_of [leaf_a, leaf_b]))
        (merkle_inputs toy_hash (map digest_of [leaf_a, leaf_b]))"
proof -
  have "\<exists>r. merkle_root toy_hash [leaf_a, leaf_b] = Inr r"
    by (auto simp: merkle_root_def leaf_a_def leaf_b_def strip_prefix_def)
  then obtain r where r: "merkle_root toy_hash [leaf_a, leaf_b] = Inr r" ..
  have l: "\<forall>x \<in> set ([leaf_a, leaf_b] @ [leaf_a, leaf_b]). length (digest_of x) = 32"
    by (auto simp: leaf_a_def leaf_b_def simp del: append.simps)
  have h: "\<forall>b. length (toy_hash b) = 32" by (auto simp: toy_hash_def min_def)
  show ?thesis by (rule merkle_root_binding [OF _ r r l h]) simp
qed

theorem merkle_root_duplicate_last_witness:
  "odd (length [leaf_a, leaf_b, leaf_a])
   \<and> merkle_root toy_hash ([leaf_a, leaf_b, leaf_a] @ [last [leaf_a, leaf_b, leaf_a]])
      = merkle_root toy_hash [leaf_a, leaf_b, leaf_a]"
  using merkle_root_duplicate_last [of "[leaf_a, leaf_b, leaf_a]" toy_hash] by simp

end
