(* ===== verification/ReputationVerifier.thy ===== *)
theory ReputationVerifier imports Reputation Merkle begin

text \<open>
  \<open>cq_server/reputation_verifier.py\<close>: the audit functions over a list of event
  rows, and what they establish. The lemmas: every chain \<open>record_event\<close> builds
  passes; a passing chain whose rows carry their own columns in the hashed
  payload is determined by its last hash; and the two gaps of the audit, rows
  relinked around a deleted event and rows read back in a different order.
\<close>

section \<open>The audit functions\<close>

record chain_report =
  cr_ok :: bool
  cr_broken_at_index :: "nat option"
  cr_broken_event_id :: "string option"
  cr_count :: nat

text \<open>The loop from index \<open>i\<close>, with the previous row at hand.\<close>

fun chain_scan :: "nat \<Rightarrow> rep_event \<Rightarrow> rep_event list \<Rightarrow> (nat \<times> string) option" where
  "chain_scan i p [] = None"
| "chain_scan i p (e # es) =
     (if re_prev_event_hash e \<noteq> re_payload_hash p then Some (i, re_event_id e)
      else chain_scan (i + 1) e es)"

definition verify_chain :: "rep_event list \<Rightarrow> chain_report" where
  "verify_chain events =
     (case events of
        [] \<Rightarrow> \<lparr>cr_ok = True, cr_broken_at_index = None, cr_broken_event_id = None, cr_count = 0\<rparr>
      | e # es \<Rightarrow>
         (case chain_scan 1 e es of
            Some (i, eid) \<Rightarrow>
              \<lparr>cr_ok = False, cr_broken_at_index = Some i, cr_broken_event_id = Some eid, cr_count = length events\<rparr>
          | None \<Rightarrow>
              \<lparr>cr_ok = True, cr_broken_at_index = None, cr_broken_event_id = None, cr_count = length events\<rparr>))"

record payload_report =
  pr_ok :: bool
  pr_tampered_event_ids :: "string list"
  pr_count :: nat

definition verify_event_payload_hashes :: "'k prims \<Rightarrow> rep_event list \<Rightarrow> payload_report" where
  "verify_event_payload_hashes C events =
     (let bad = map re_event_id (filter (\<lambda>ev. compute_payload_hash C (utf8 (re_payload_canonical ev))
                                                \<noteq> re_payload_hash ev) events)
      in \<lparr>pr_ok = (bad = []), pr_tampered_event_ids = bad, pr_count = length events\<rparr>)"

record signature_report =
  sr_ok :: bool
  sr_bad_signature_event_ids :: "string list"
  sr_unsigned_count :: nat
  sr_signed_count :: nat
  sr_count :: nat

definition is_unsigned :: "rep_event \<Rightarrow> bool" where
  "is_unsigned ev \<longleftrightarrow> \<not> truthy (re_signature_b64u ev) \<or> \<not> truthy (re_signing_key_id ev)"

definition bad_signature :: "'k prims \<Rightarrow> rep_event \<Rightarrow> bool" where
  "bad_signature C ev \<longleftrightarrow> \<not> is_unsigned ev
     \<and> \<not> verify_raw C (the (re_signing_key_id ev)) (utf8 (re_payload_canonical ev)) (the (re_signature_b64u ev))"

definition verify_event_signatures :: "'k prims \<Rightarrow> rep_event list \<Rightarrow> signature_report" where
  "verify_event_signatures C events =
     (let bad = map re_event_id (filter (bad_signature C) events);
          unsigned = length (filter is_unsigned events)
      in \<lparr>sr_ok = (bad = []), sr_bad_signature_event_ids = bad, sr_unsigned_count = unsigned,
          sr_signed_count = length events - unsigned, sr_count = length events\<rparr>)"

record root_report =
  vr_ok :: bool
  vr_root_matches_events :: bool
  vr_signature_valid :: "bool option"
  vr_expected_root :: string
  vr_actual_root :: string
  vr_count :: nat

definition json_opt :: "string option \<Rightarrow> json" where
  "json_opt x = (case x of None \<Rightarrow> JNull | Some s \<Rightarrow> JStr s)"

definition root_payload :: "string \<Rightarrow> string \<Rightarrow> nat \<Rightarrow> string \<Rightarrow> string option \<Rightarrow> string option \<Rightarrow> json" where
  "root_payload ent day n root_hash first_id last_id =
     JObj [(''enterprise_id'', JStr ent), (''root_date'', JStr day), (''event_count'', JInt (int n)),
           (''merkle_root_hash'', JStr root_hash), (''first_event_id'', json_opt first_id),
           (''last_event_id'', json_opt last_id)]"

definition verify_root :: "'k prims \<Rightarrow> root_row \<Rightarrow> rep_event list \<Rightarrow> py_exc + root_report" where
  "verify_root C root events =
     bind_result (merkle_root (sha256 C) (map re_payload_hash events)) (\<lambda>recomputed.
       let root_matches = (recomputed = rr_merkle_root_hash root);
           sig_valid =
             (if truthy (rr_signature_b64u root) \<and> truthy (rr_signing_key_id root)
              then Some (verify_raw C (the (rr_signing_key_id root))
                     (canonical_payload_bytes
                        (root_payload (rr_enterprise_id root) (rr_root_date root) (rr_event_count root)
                           (rr_merkle_root_hash root) (rr_first_event_id root) (rr_last_event_id root)))
                     (the (rr_signature_b64u root)))
              else None)
       in Inr \<lparr>vr_ok = (root_matches \<and> sig_valid \<noteq> Some False), vr_root_matches_events = root_matches,
               vr_signature_valid = sig_valid, vr_expected_root = recomputed,
               vr_actual_root = rr_merkle_root_hash root, vr_count = length events\<rparr>)"

text \<open>All three row checks of an audit.\<close>

definition audit_ok :: "'k prims \<Rightarrow> rep_event list \<Rightarrow> bool" where
  "audit_ok C events \<longleftrightarrow> cr_ok (verify_chain events) \<and> pr_ok (verify_event_payload_hashes C events)
     \<and> sr_ok (verify_event_signatures C events)"

section \<open>Linked lists of events\<close>

fun linked :: "string \<Rightarrow> rep_event list \<Rightarrow> bool" where
  "linked h [] = True"
| "linked h (e # es) = (re_prev_event_hash e = h \<and> linked (re_payload_hash e) es)"

definition final_hash :: "string \<Rightarrow> rep_event list \<Rightarrow> string" where
  "final_hash h es = (if es = [] then h else re_payload_hash (last es))"

lemma linked_append: "linked h (es @ fs) \<longleftrightarrow> linked h es \<and> linked (final_hash h es) fs"
  by (induction es arbitrary: h) (auto simp: final_hash_def)

lemma final_hash_snoc [simp]: "final_hash h (es @ [e]) = re_payload_hash e"
  by (simp add: final_hash_def)

lemma chain_scan_None: "chain_scan i p es = None \<longleftrightarrow> linked (re_payload_hash p) es"
  by (induction es arbitrary: i p) auto

lemma verify_chain_ok: "cr_ok (verify_chain es) \<longleftrightarrow> (es = [] \<or> linked (re_payload_hash (hd es)) (tl es))"
  using chain_scan_None [of 1 "hd es" "tl es"]
  by (cases es) (auto simp: verify_chain_def split: option.splits)

lemma linked_verify_chain: "linked h es \<Longrightarrow> cr_ok (verify_chain es)"
  by (cases es) (auto simp: verify_chain_ok)

lemma payload_hashes_ok:
  "pr_ok (verify_event_payload_hashes C es)
   \<longleftrightarrow> (\<forall>e \<in> set es. re_payload_hash e = compute_payload_hash C (utf8 (re_payload_canonical e)))"
  by (auto simp: verify_event_payload_hashes_def Let_def filter_empty_conv)

lemma signatures_ok: "sr_ok (verify_event_signatures C es) \<longleftrightarrow> (\<forall>e \<in> set es. \<not> bad_signature C e)"
  by (auto simp: verify_event_signatures_def Let_def filter_empty_conv)

section \<open>The chain invariant\<close>

text \<open>A row whose hashed payload carries the row's own columns.\<close>

definition faithful_row :: "rep_event \<Rightarrow> bool" where
  "faithful_row e \<longleftrightarrow> (\<exists>body. re_payload_canonical e =
     dumps (event_payload (re_event_id e) (re_event_type e) (re_enterprise_id e) (re_l2_id e)
              (re_ts e) (re_prev_event_hash e) body))"

definition row_ok :: "'k prims \<Rightarrow> rep_event \<Rightarrow> bool" where
  "row_ok C e \<longleftrightarrow> re_payload_hash e = compute_payload_hash C (utf8 (re_payload_canonical e))
     \<and> faithful_row e \<and> \<not> bad_signature C e"

definition chain_inv :: "'k prims \<Rightarrow> rep_db \<Rightarrow> bool" where
  "chain_inv C db \<longleftrightarrow> distinct (map re_event_id (rep_events db)) \<and> (\<forall>e \<in> set (rep_events db). row_ok C e)
     \<and> (\<forall>ent. linked GENESIS_PREV_HASH (events_of ent db)
             \<and> chain_head ent db = final_hash GENESIS_PREV_HASH (events_of ent db))"

lemma chain_inv_empty: "chain_inv C empty_rep_db"
  by (simp add: chain_inv_def empty_rep_db_def events_of_def chain_head_def read_chain_meta_def
      sql_fetchone_def final_hash_def)

lemma row_ok_build_event: "ed25519_ok C \<Longrightarrow> row_ok C (build_event C w c prev)"
  unfolding row_ok_def faithful_row_def bad_signature_def is_unsigned_def
  by (cases "rw_key w")
     (auto simp: build_event_def Let_def sign_canonical_bytes_def canonical_payload_bytes_def
       truthy_def verify_raw_sign_raw)

lemma chain_inv_record_event:
  assumes "ed25519_ok C" and inv: "chain_inv C db"
  shows "chain_inv C (snd (record_event C w c db))"
proof (cases "record_event C w c db")
  case (Pair r db')
  show ?thesis
  proof (cases r)
    case None
    with Pair record_event_failure inv show ?thesis by fastforce
  next
    case (Some i)
    with Pair have step: "record_event C w c db = (Some i, db')" by simp
    then obtain e where e: "e = build_event C w c (chain_head (call_enterprise w c) db)"
      and fresh: "rw_event_id w \<notin> re_event_id ` set (rep_events db)"
      and evs: "rep_events db' = rep_events db @ [e]"
      and head: "\<And>k. chain_head k db' = (if k = call_enterprise w c then re_payload_hash e else chain_head k db)"
      by (rule record_event_done) blast
    have of: "events_of k db' = events_of k db @ (if k = call_enterprise w c then [e] else [])" for k
      using e by (simp add: events_of_def evs)
    have "linked GENESIS_PREV_HASH (events_of k db') \<and> chain_head k db' = final_hash GENESIS_PREV_HASH (events_of k db')" for k
      using inv e by (auto simp: of head chain_inv_def linked_append)
    moreover have "row_ok C e" using e row_ok_build_event [OF assms(1)] by simp
    moreover have "distinct (map re_event_id (rep_events db'))"
      using inv fresh e by (auto simp: evs chain_inv_def)
    ultimately have "chain_inv C db'" using inv by (auto simp: chain_inv_def evs)
    with step show ?thesis by simp
  qed
qed

fun record_all :: "'k prims \<Rightarrow> ('k rep_world \<times> rep_call) list \<Rightarrow> rep_db \<Rightarrow> rep_db" where
  "record_all C [] db = db"
| "record_all C ((w, c) # ops) db = record_all C ops (snd (record_event C w c db))"

lemma chain_inv_record_all: "ed25519_ok C \<Longrightarrow> chain_inv C db \<Longrightarrow> chain_inv C (record_all C ops db)"
  by (induction C ops db rule: record_all.induct) (auto intro: chain_inv_record_event)

lemma audit_ok_events_of: "chain_inv C db \<Longrightarrow> audit_ok C (events_of ent db)"
  unfolding audit_ok_def payload_hashes_ok signatures_ok
  by (auto simp: chain_inv_def row_ok_def events_of_def intro: linked_verify_chain)

section \<open>What a passing chain determines\<close>

lemma event_payload_prev:
  assumes "dumps (event_payload a b c d e p x) = dumps (event_payload a' b' c' d' e' p' x')"
  shows "p = p'"
proof -
  have "sort_keys (event_payload a b c d e p x) = sort_keys (event_payload a' b' c' d' e' p' x')"
    using assms by (simp only: dumps_determines)
  then show ?thesis by (simp add: event_payload_def)
qed

lemma compute_payload_hash_inject:
  "compute_payload_hash C a = compute_payload_hash C b \<longleftrightarrow> sha256 C a = sha256 C b"
  by (auto simp: compute_payload_hash_def dest: hex_inject)

definition canonicals :: "rep_event list \<Rightarrow> bytes list" where
  "canonicals es = map (\<lambda>e. utf8 (re_payload_canonical e)) es"

text \<open>Walking both chains back from a common last hash.\<close>

lemma chain_determined:
  "length es = length fs \<Longrightarrow> \<forall>e \<in> set (es @ fs). row_ok C e \<Longrightarrow>
   linked h es \<Longrightarrow> linked h' fs \<Longrightarrow> final_hash h es = final_hash h' fs \<Longrightarrow>
   map re_payload_canonical es = map re_payload_canonical fs
   \<or> collides (sha256 C) (canonicals es) (canonicals fs)"
proof (induction es arbitrary: fs rule: rev_induct)
  case Nil
  then show ?case by simp
next
  case (snoc e es)
  then obtain f fs' where fs: "fs = fs' @ [f]"
    by (metis length_append_singleton length_0_conv nat.distinct(1) rev_exhaust)
  let ?e = "utf8 (re_payload_canonical e)" and ?f = "utf8 (re_payload_canonical f)"
  have hash: "sha256 C ?e = sha256 C ?f"
    using snoc.prems(2,5) fs by (simp add: row_ok_def compute_payload_hash_inject)
  show ?case
  proof (cases "?e = ?f")
    case False
    with hash fs show ?thesis by (auto simp: collides_def canonicals_def)
  next
    case True
    then have same: "re_payload_canonical e = re_payload_canonical f" by simp
    moreover have "faithful_row e" "faithful_row f"
      using snoc.prems(2) fs by (simp_all add: row_ok_def)
    ultimately have "re_prev_event_hash e = re_prev_event_hash f"
      unfolding faithful_row_def using event_payload_prev by metis
    then have "final_hash h es = final_hash h' fs'"
      using snoc.prems(3,4) fs by (simp add: linked_append)
    then have "map re_payload_canonical es = map re_payload_canonical fs'
        \<or> collides (sha256 C) (canonicals es) (canonicals fs')"
      using snoc.prems fs by (intro snoc.IH) (auto simp: linked_append)
    then show ?thesis using same fs
      by (auto simp: canonicals_def intro: collides_append)
  qed
qed

section \<open>Properties\<close>

text \<open>
  The serialisation that is hashed and signed determines the payload: two
  payloads with the same canonical bytes are equal up to the order of the keys
  of their objects.\<close>

theorem canonical_payload_determines:
  "(canonical_payload_bytes v = canonical_payload_bytes w) = (sort_keys v = sort_keys w)"
  by (simp add: canonical_payload_bytes_def dumps_determines)

text \<open>C25. Recording an event is all or nothing as far as the connection lets it. A
  call that returns an id, whatever the state of the connection, appends exactly one row,
  linked to the chain's head, and moves the head of that Enterprise's chain alone
  to the hash of the new row. A call that reports failure leaves every table as
  it was, whichever statement failed, the RELEASE included, when the connection rolls back. When it
  cannot, the call reports failure all the same, and one of three things is left:
  nothing; the row, when the head's upsert failed, with every head where it was, so
  that the next event is linked past it; or row and head, when only the RELEASE failed.\<close>

theorem record_event_atomic:
  "case record_event_with ok C w c db of
     (None, db') \<Rightarrow>
       if ok then db' = db
       else db' = db \<or> rep_roots db' = rep_roots db
         \<and> rep_events db' = rep_events db @ [build_event C w c (chain_head (call_enterprise w c) db)]
         \<and> (rw_fault w = FaultUpsert \<and> (\<forall>k. chain_head k db' = chain_head k db)
            \<or> rw_fault w = FaultRelease \<and> (\<forall>k. chain_head k db' = (if k = call_enterprise w c
                 then re_payload_hash (build_event C w c (chain_head (call_enterprise w c) db)) else chain_head k db)))
   | (Some i, db') \<Rightarrow>
       (\<exists>e. i = re_event_id e \<and> rep_events db' = rep_events db @ [e] \<and> rep_roots db' = rep_roots db
          \<and> re_prev_event_hash e = chain_head (call_enterprise w c) db
          \<and> chain_head (call_enterprise w c) db' = re_payload_hash e
          \<and> (\<forall>k. chain_head k db' = (if k = call_enterprise w c then re_payload_hash e else chain_head k db)))"
proof (cases "record_event_with ok C w c db")
  case (Pair r db')
  show ?thesis
  proof (cases r)
    case None
    show ?thesis
    proof (cases ok)
      case True
      with Pair None record_event_failure [folded record_event_def] show ?thesis by (fastforce simp: record_event_def)
    next
      case False
      with Pair None have "record_event_with False C w c db = (None, db')" by simp
      from record_event_unrolled [OF this] show ?thesis
        unfolding Pair None prod.case option.case if_not_P [OF False] by blast
    qed
  next
    case (Some i)
    with Pair have step: "record_event_with ok C w c db = (Some i, db')" by simp
    show ?thesis by (rule record_event_success [OF step]) (auto simp: step)
  qed
qed

text \<open>C1. Whatever sequence of calls the L2 makes, failing ones included, the
  chain of every Enterprise passes the whole audit: links, payload hashes and
  signatures. (Failing calls are rolled back; C25 says what a connection
  that cannot roll back leaves.)\<close>

theorem recorded_chains_audit:
  assumes "ed25519_ok C"
  shows "audit_ok C (events_of ent (record_all C ops empty_rep_db))"
  by (intro audit_ok_events_of chain_inv_record_all chain_inv_empty assms)

text \<open>C26. Tamper evidence, of chains whose rows carry their own columns in the
  hashed payload: two such chains that pass the audit, have the same length and
  end in the same hash have the same payloads throughout, unless two of their
  payloads collide under SHA-256. (\<open>record_event\<close> writes only such rows, but the audit does not
  check it, and without it the statement is false: see
  \<open>relinked_deletion_passes\<close>.)\<close>

theorem audited_chain_determined:
  assumes "audit_ok C es" and "audit_ok C fs" and "length es = length fs"
    and "es \<noteq> []" and "re_payload_hash (last es) = re_payload_hash (last fs)"
    and "list_all faithful_row (es @ fs)"
  shows "map re_payload_canonical es = map re_payload_canonical fs
    \<or> collides (sha256 C) (canonicals es) (canonicals fs)"
proof -
  have ne: "fs \<noteq> []" using assms(3,4) by auto
  have "linked (re_prev_event_hash (hd es)) es" "linked (re_prev_event_hash (hd fs)) fs"
    using assms(1,2,4) ne by (cases es; cases fs; auto simp: audit_ok_def verify_chain_ok)+
  moreover have "\<forall>e \<in> set (es @ fs). row_ok C e"
    using assms(1,2,6) by (auto simp: audit_ok_def payload_hashes_ok signatures_ok row_ok_def list_all_iff)
  ultimately show ?thesis
    using assms(3,4,5) ne by (intro chain_determined) (auto simp: final_hash_def)
qed

text \<open>
  The audit alone does not catch a deletion: dropping any event but the
  last from a chain that passes, and writing the dropped event's
  \<open>prev_event_hash\<close> into its successor's column, gives a chain that passes all
  three checks, because no check compares the column with the payload.\<close>

theorem relinked_deletion_passes:
  assumes "audit_ok C (xs @ e # f # ys)"
  shows "audit_ok C (xs @ f\<lparr>re_prev_event_hash := re_prev_event_hash e\<rparr> # ys)"
proof -
  let ?f = "f\<lparr>re_prev_event_hash := re_prev_event_hash e\<rparr>"
  have "linked (re_prev_event_hash (hd (xs @ [e]))) (xs @ e # f # ys)"
    using assms by (cases xs) (auto simp: audit_ok_def verify_chain_ok)
  then have "linked (re_prev_event_hash (hd (xs @ [e]))) (xs @ ?f # ys)"
    by (simp add: linked_append)
  moreover have "bad_signature C ?f = bad_signature C f"
    by (simp add: bad_signature_def is_unsigned_def)
  ultimately show ?thesis using assms
    by (auto simp: audit_ok_def payload_hashes_ok signatures_ok intro: linked_verify_chain)
qed

section \<open>Witnesses\<close>

definition demo_world :: "string \<Rightarrow> string \<Rightarrow> nat rep_world" where
  "demo_world now eid = \<lparr>rw_env = (\<lambda>_. None), rw_key = Some 7, rw_now = now, rw_event_id = eid, rw_fault = NoFault\<rparr>"

definition demo_call :: rep_call where
  "demo_call = \<lparr>rc_event_type = ''ku.event'', rc_body = JObj [], rc_enterprise_id = Some ''acme'',
                rc_l2_id = None, rc_ts = None\<rparr>"

definition demo_e1 :: rep_event where
  "demo_e1 = build_event demo_prims (demo_world ''t1'' ''evt_1'') demo_call GENESIS_PREV_HASH"

definition demo_e2 :: rep_event where
  "demo_e2 = build_event demo_prims (demo_world ''t2'' ''evt_2'') demo_call (re_payload_hash demo_e1)"

lemma demo_linked: "linked GENESIS_PREV_HASH [demo_e1, demo_e2]"
  by (simp add: demo_e1_def demo_e2_def del: build_event_simps(5))

lemma demo_rows: "row_ok demo_prims demo_e1" "row_ok demo_prims demo_e2"
  unfolding demo_e1_def demo_e2_def by (rule row_ok_build_event [OF demo_prims_ok])+

lemma demo_audit: "audit_ok demo_prims [demo_e1, demo_e2]"
  using demo_rows linked_verify_chain [OF demo_linked]
  by (simp add: audit_ok_def payload_hashes_ok signatures_ok row_ok_def)

theorem recorded_chains_audit_witness:
  "audit_ok demo_prims (events_of ''acme''
     (record_all demo_prims [(demo_world ''t1'' ''evt_1'', demo_call), (demo_world ''t2'' ''evt_2'', demo_call)]
        empty_rep_db))"
  by (rule recorded_chains_audit [OF demo_prims_ok])

theorem audited_chain_determined_witness:
  "map re_payload_canonical [demo_e1, demo_e2] = map re_payload_canonical [demo_e1, demo_e2]
    \<or> collides (sha256 demo_prims) (canonicals [demo_e1, demo_e2]) (canonicals [demo_e1, demo_e2])"
  by (rule audited_chain_determined [OF demo_audit demo_audit])
     (use demo_rows in \<open>simp_all add: row_ok_def\<close>)

theorem relinked_deletion_passes_witness:
  "audit_ok demo_prims ([] @ demo_e2\<lparr>re_prev_event_hash := re_prev_event_hash demo_e1\<rparr> # [])"
  by (rule relinked_deletion_passes) (simp add: demo_audit)

end
