(* ===== verification/Users.thy ===== *)
theory Users imports PyStrings begin

text \<open>
  The \<open>users\<close> table (\<open>store/_sqlite.py\<close>), the role check of \<open>auth.py\<close>
  (\<open>is_admin_role\<close>, \<open>require_admin\<close>), write-path tenancy (\<open>tenancy.py\<close>) and the
  read-path scope filter (\<open>auth.scope_filter\<close>). Lemmas: usernames and ids stay
  unique under every operation, a lookup after a creation finds the new row,
  and no operation on one user touches another.
\<close>

section \<open>The users table\<close>

definition DEFAULT_ENTERPRISE_ID :: string where
  "DEFAULT_ENTERPRISE_ID = ''default-enterprise''"

definition DEFAULT_GROUP_ID :: string where
  "DEFAULT_GROUP_ID = ''default-group''"

lemma default_tenancy_not_Nil [simp]:
  "DEFAULT_ENTERPRISE_ID \<noteq> []" "[] \<noteq> DEFAULT_ENTERPRISE_ID" "DEFAULT_GROUP_ID \<noteq> []" "[] \<noteq> DEFAULT_GROUP_ID"
  by (simp_all add: DEFAULT_ENTERPRISE_ID_def DEFAULT_GROUP_ID_def)

record user_row =
  us_id :: nat
  us_username :: string
  us_password_hash :: string
  us_created_at :: string
  us_role :: string
  us_enterprise_id :: string
  us_group_id :: string
  us_email :: "string option"

text \<open>\<open>user_seq\<close> is SQLite's AUTOINCREMENT counter: the next id.\<close>

record user_db =
  db_users :: "user_row list"
  db_user_seq :: nat

definition get_user :: "'a user_db_scheme \<Rightarrow> string \<Rightarrow> user_row option" where
  "get_user db u = sql_fetchone (\<lambda>r. us_username r = u) (db_users db)"

definition get_user_by_email :: "'a user_db_scheme \<Rightarrow> string \<Rightarrow> user_row option" where
  "get_user_by_email db e = sql_fetchone (\<lambda>r. us_email r = Some e) (db_users db)"

text \<open>The row an insert makes: both tenancy columns when the caller gives both,
  the column defaults otherwise.\<close>

definition new_user :: "string \<Rightarrow> nat \<Rightarrow> string \<Rightarrow> string \<Rightarrow> string \<Rightarrow> string option \<Rightarrow> string option \<Rightarrow> user_row" where
  "new_user now uid username password_hash role enterprise_id group_id =
     \<lparr>us_id = uid, us_username = username, us_password_hash = password_hash, us_created_at = now,
      us_role = role,
      us_enterprise_id = (if enterprise_id \<noteq> None \<and> group_id \<noteq> None then the enterprise_id else DEFAULT_ENTERPRISE_ID),
      us_group_id = (if enterprise_id \<noteq> None \<and> group_id \<noteq> None then the group_id else DEFAULT_GROUP_ID),
      us_email = None\<rparr>"

definition create_user :: "string \<Rightarrow> string \<Rightarrow> string \<Rightarrow> string \<Rightarrow> string option \<Rightarrow> string option
    \<Rightarrow> 'a user_db_scheme \<Rightarrow> py_exc + 'a user_db_scheme" where
  "create_user now username password_hash role enterprise_id group_id db =
     (case sql_insert us_username
             (new_user now (db_user_seq db) username password_hash role enterprise_id group_id) (db_users db) of
        Inl x \<Rightarrow> Inl x
      | Inr t \<Rightarrow> Inr (db\<lparr>db_users := t, db_user_seq := db_user_seq db + 1\<rparr>))"

text \<open>Returns whether a row was updated.\<close>

definition set_user_role :: "string \<Rightarrow> string \<Rightarrow> 'a user_db_scheme \<Rightarrow> bool \<times> 'a user_db_scheme" where
  "set_user_role username role db =
     (0 < sql_rowcount (\<lambda>r. us_username r = username) (db_users db),
      db\<lparr>db_users := sql_update (\<lambda>r. us_username r = username) (\<lambda>r. r\<lparr>us_role := role\<rparr>) (db_users db)\<rparr>)"

text \<open>The partial unique index on \<open>email\<close> makes the update fail when another
  user has the address.\<close>

definition set_user_email :: "string \<Rightarrow> string \<Rightarrow> 'a user_db_scheme \<Rightarrow> py_exc + 'a user_db_scheme" where
  "set_user_email username email db =
     (if (\<exists>r \<in> set (db_users db). us_username r = username)
         \<and> (\<exists>r \<in> set (db_users db). us_username r \<noteq> username \<and> us_email r = Some email)
      then Inl IntegrityError
      else Inr (db\<lparr>db_users := sql_update (\<lambda>r. us_username r = username)
                      (\<lambda>r. r\<lparr>us_email := Some email\<rparr>) (db_users db)\<rparr>))"

definition lookup_username :: "'a user_db_scheme \<Rightarrow> nat \<Rightarrow> string option" where
  "lookup_username db i = map_option us_username (sql_fetchone (\<lambda>r. us_id r = i) (db_users db))"

definition user_inv :: "'a user_db_scheme \<Rightarrow> bool" where
  "user_inv db \<longleftrightarrow> unique_key us_username (db_users db) \<and> unique_key us_id (db_users db)
     \<and> (\<forall>r \<in> set (db_users db). us_id r < db_user_seq db)"

lemma get_user_SomeD: "get_user db u = Some r \<Longrightarrow> r \<in> set (db_users db) \<and> us_username r = u"
  unfolding get_user_def by (rule sql_fetchone_SomeD)

lemma new_user_username [simp]: "us_username (new_user now i u ph role e g) = u"
  and new_user_id [simp]: "us_id (new_user now i u ph role e g) = i"
  by (simp_all add: new_user_def)

lemma get_user_create:
  assumes "create_user now u ph role e g db = Inr db'"
  shows "get_user db' v = (if v = u then Some (new_user now (db_user_seq db) u ph role e g) else get_user db v)"
  using assms by (auto simp: create_user_def get_user_def sql_fetchone_insert split: sum.splits)

lemma create_user_taken: "get_user db u = Some r \<Longrightarrow> create_user now u ph role e g db = Inl IntegrityError"
  by (auto simp: create_user_def sql_insert_def dest!: get_user_SomeD)

lemma create_user_fresh: "get_user db u = None \<Longrightarrow> \<exists>db'. create_user now u ph role e g db = Inr db'"
  by (auto simp: create_user_def sql_insert_def get_user_def table_simps)

lemma user_inv_create_user:
  assumes "user_inv db" and "create_user now u ph role e g db = Inr db'"
  shows "user_inv db'"
proof -
  let ?r = "new_user now (db_user_seq db) u ph role e g"
  have t: "sql_insert us_username ?r (db_users db) = Inr (db_users db')"
    and seq: "db_user_seq db' = db_user_seq db + 1"
    using assms(2) by (auto simp: create_user_def split: sum.splits)
  have "unique_key us_username (db_users db')"
    using assms(1) t by (auto simp: user_inv_def intro: unique_key_sql_insert)
  with t seq assms(1) show ?thesis
    by (force simp: user_inv_def table_simps unique_key_def)
qed

lemma user_inv_set_user_role: "user_inv db \<Longrightarrow> user_inv (snd (set_user_role u role db))"
  by (auto simp: set_user_role_def user_inv_def unique_key_sql_update table_simps)

lemma user_inv_set_user_email: "user_inv db \<Longrightarrow> set_user_email u e db = Inr db' \<Longrightarrow> user_inv db'"
  by (auto simp: set_user_email_def user_inv_def unique_key_sql_update table_simps split: if_splits)

section \<open>Roles\<close>

definition ADMIN_ROLES :: "string list" where
  "ADMIN_ROLES = [''admin'', ''enterprise_admin'', ''l2_admin'']"

definition is_admin_role :: "string option \<Rightarrow> bool" where
  "is_admin_role role = (case role of None \<Rightarrow> False | Some r \<Rightarrow> r \<in> set ADMIN_ROLES)"

text \<open>The part of \<open>require_admin\<close> after \<open>get_current_user\<close> has named the caller.\<close>

definition require_admin :: "'a user_db_scheme \<Rightarrow> string \<Rightarrow> http_exc + string" where
  "require_admin db username =
     (case get_user db username of
        None \<Rightarrow> Inl (HTTPException 401)
      | Some u \<Rightarrow> if is_admin_role (Some (us_role u)) then Inr username else Inl (HTTPException 403))"

section \<open>Tenancy of a write\<close>

definition resolve_tenancy :: "env \<Rightarrow> user_row option \<Rightarrow> string \<times> string \<times> string" where
  "resolve_tenancy env user =
     (let row_ent = strip (case user of None \<Rightarrow> [] | Some u \<Rightarrow> us_enterprise_id u);
          row_grp = strip (case user of None \<Rightarrow> [] | Some u \<Rightarrow> us_group_id u);
          row_ent_real = (row_ent \<noteq> [] \<and> row_ent \<noteq> DEFAULT_ENTERPRISE_ID);
          row_grp_real = (row_grp \<noteq> [] \<and> row_grp \<noteq> DEFAULT_GROUP_ID)
      in if row_ent_real \<and> row_grp_real then (row_ent, row_grp, ''row'')
         else let env_ent = strip (getenv env ''CQ_ENTERPRISE'' []);
                  env_grp = strip (getenv env ''CQ_GROUP'' [])
         in if env_ent \<noteq> [] \<and> env_grp \<noteq> [] then (env_ent, env_grp, ''env'')
            else if row_ent \<noteq> [] \<and> row_grp \<noteq> [] then (row_ent, row_grp, ''default'')
            else (DEFAULT_ENTERPRISE_ID, DEFAULT_GROUP_ID, ''default''))"

definition per_l2_isolation_enabled :: "env \<Rightarrow> bool" where
  "per_l2_isolation_enabled env \<longleftrightarrow>
     lower (getenv env ''PER_L2_ISOLATION'' []) \<in> {''1'', ''true'', ''yes''}"

definition scope_filter :: "env \<Rightarrow> string \<Rightarrow> string option \<Rightarrow> string \<times> string option" where
  "scope_filter env enterprise_id group_id =
     (if per_l2_isolation_enabled env then (enterprise_id, group_id) else (enterprise_id, None))"

text \<open>The tenancy an L2 is configured with, when both variables are set.\<close>

definition configured :: "env \<Rightarrow> (string \<times> string) option" where
  "configured env =
     (let e = strip (getenv env ''CQ_ENTERPRISE'' []); g = strip (getenv env ''CQ_GROUP'' [])
      in if e \<noteq> [] \<and> g \<noteq> [] then Some (e, g) else None)"

lemma resolve_tenancy_configured:
  "configured env = Some (e, g) \<Longrightarrow>
   resolve_tenancy env u =
     (case u of None \<Rightarrow> (e, g, ''env'')
      | Some r \<Rightarrow>
          if strip (us_enterprise_id r) \<notin> {[], DEFAULT_ENTERPRISE_ID} \<and> strip (us_group_id r) \<notin> {[], DEFAULT_GROUP_ID}
          then (strip (us_enterprise_id r), strip (us_group_id r), ''row'') else (e, g, ''env''))"
  by (cases u) (simp_all add: configured_def resolve_tenancy_def Let_def split: if_splits)

section \<open>The L2's own identity\<close>

text \<open>\<open>aigrp.enterprise\<close>, \<open>aigrp.group\<close>, \<open>aigrp.self_l2_id\<close>.\<close>

definition aigrp_enterprise :: "env \<Rightarrow> string" where
  "aigrp_enterprise env = getenv env ''CQ_ENTERPRISE'' ''default-enterprise''"

definition aigrp_group :: "env \<Rightarrow> string" where
  "aigrp_group env = getenv env ''CQ_GROUP'' ''default''"

definition self_l2_id :: "env \<Rightarrow> string" where
  "self_l2_id env = aigrp_enterprise env @ CHR ''/'' # aigrp_group env"

lemma slash_in_self_l2_id: "CHR ''/'' \<in> set (self_l2_id env)"
  by (simp add: self_l2_id_def)

end
