(* ===== verification/DailyRoot.thy ===== *)
theory DailyRoot imports ReputationVerifier Users begin

text \<open>
  \<open>cq_server/daily_root.py\<close> and \<open>cq_server/reputation_routes.py\<close>: the signed
  Merkle root of one Enterprise's day, the nightly roll-up over all
  Enterprises, and the endpoints that read events and roots. Timestamps and days
  are strings compared lexicographically, as in the SQL. The lemmas: a root is
  computed once and never changes, the root verifies against the events it was
  computed from, one failing Enterprise does not stop the roll-up of the
  others, and when reading a day back in \<open>(ts, event_id)\<close> order gives the chain.
\<close>

section \<open>One Enterprise, one day\<close>

definition day_window :: "string \<Rightarrow> string \<times> string" where
  "day_window day = (day @ ''T00:00:00Z'', day @ ''T23:59:59Z'')"

definition in_window :: "string \<Rightarrow> rep_event \<Rightarrow> bool" where
  "in_window day e \<longleftrightarrow> fst (day_window day) \<le> re_ts e \<and> re_ts e \<le> snd (day_window day)"

definition read_day_events :: "rep_db \<Rightarrow> string \<Rightarrow> string \<Rightarrow> rep_event list" where
  "read_day_events db ent day =
     order_asc (\<lambda>e. (re_ts e, re_event_id e))
       (filter (\<lambda>e. re_enterprise_id e = ent \<and> in_window day e) (rep_events db))"

definition existing_root :: "rep_db \<Rightarrow> string \<Rightarrow> string \<Rightarrow> root_row option" where
  "existing_root db ent day =
     sql_fetchone (\<lambda>r. (rr_enterprise_id r, rr_root_date r) = (ent, day)) (rep_roots db)"

definition root_of_events :: "'k prims \<Rightarrow> 'k option \<Rightarrow> string \<Rightarrow> string \<Rightarrow> string \<Rightarrow> rep_event list \<Rightarrow> py_exc + root_row" where
  "root_of_events C key now ent day events =
     bind_result (merkle_root (sha256 C) (map re_payload_hash events)) (\<lambda>root_hash.
       let first_id = (if events = [] then None else Some (re_event_id (hd events)));
           last_id = (if events = [] then None else Some (re_event_id (last events)));
           payload = root_payload ent day (length events) root_hash first_id last_id;
           (sig, kid) = sign_canonical_bytes C key (canonical_payload_bytes payload)
       in Inr \<lparr>rr_enterprise_id = ent, rr_root_date = day, rr_event_count = length events,
               rr_merkle_root_hash = root_hash, rr_first_event_id = first_id, rr_last_event_id = last_id,
               rr_signature_b64u = sig, rr_signing_key_id = kid, rr_computed_at = now,
               rr_published_to_directory_at = None\<rparr>)"

text \<open>The bump of \<open>last_root_published_day\<close>, which never moves it back.\<close>

definition bump_root_day :: "string \<Rightarrow> string \<Rightarrow> string \<Rightarrow> rep_db \<Rightarrow> rep_db" where
  "bump_root_day now ent day db =
     db\<lparr>rep_meta := sql_update
          (\<lambda>m. cm_enterprise_id m = ent
             \<and> (case cm_last_root_published_day m of None \<Rightarrow> True | Some d \<Rightarrow> d < day))
          (\<lambda>m. m\<lparr>cm_last_root_published_day := Some day, cm_updated_at := now\<rparr>) (rep_meta db)\<rparr>"

definition compute_root_for_day :: "'k prims \<Rightarrow> 'k option \<Rightarrow> string \<Rightarrow> string \<Rightarrow> string \<Rightarrow> rep_db
    \<Rightarrow> py_exc + root_row \<times> rep_db" where
  "compute_root_for_day C key now ent day db =
     (case existing_root db ent day of
        Some r \<Rightarrow> Inr (r, db)
      | None \<Rightarrow>
          bind_result (root_of_events C key now ent day (read_day_events db ent day)) (\<lambda>r.
            bind_result (sql_insert (\<lambda>q. (rr_enterprise_id q, rr_root_date q)) r (rep_roots db)) (\<lambda>roots.
              Inr (r, bump_root_day now ent day (db\<lparr>rep_roots := roots\<rparr>)))))"

definition all_enterprise_ids :: "rep_db \<Rightarrow> string list" where
  "all_enterprise_ids db = map cm_enterprise_id (rep_meta db)"

text \<open>One midnight of \<open>daily_root_loop\<close>: every Enterprise in turn, committed on
  success, rolled back on an exception. \<open>now\<close> gives the clock reading of each
  Enterprise's computation.\<close>

fun root_each :: "'k prims \<Rightarrow> 'k option \<Rightarrow> (string \<Rightarrow> string) \<Rightarrow> string \<Rightarrow> string list \<Rightarrow> rep_db \<Rightarrow> rep_db" where
  "root_each C key now day [] db = db"
| "root_each C key now day (ent # ents) db =
     root_each C key now day ents
       (case compute_root_for_day C key (now ent) ent day db of Inl _ \<Rightarrow> db | Inr (_, db') \<Rightarrow> db')"

definition daily_root_tick :: "'k prims \<Rightarrow> 'k option \<Rightarrow> (string \<Rightarrow> string) \<Rightarrow> string \<Rightarrow> rep_db \<Rightarrow> rep_db" where
  "daily_root_tick C key now yesterday db = root_each C key now yesterday (all_enterprise_ids db) db"

text \<open>The sleep before it, in microseconds since the epoch.\<close>

definition until_next_utc_midnight :: "int \<Rightarrow> int" where
  "until_next_utc_midnight now = (now div US_PER_DAY + 1) * US_PER_DAY - now"

section \<open>The endpoints\<close>

definition user_enterprise :: "'a user_db_scheme \<Rightarrow> string \<Rightarrow> http_exc + string" where
  "user_enterprise udb username =
     (case get_user udb username of
        None \<Rightarrow> Inl (HTTPException 403)
      | Some u \<Rightarrow> if us_enterprise_id u = [] then Inl (HTTPException 403) else Inr (us_enterprise_id u))"

definition visible_events :: "rep_db \<Rightarrow> string \<Rightarrow> string option \<Rightarrow> rep_event list" where
  "visible_events db ent etype =
     filter (\<lambda>e. re_enterprise_id e = ent \<and> (case etype of None \<Rightarrow> True | Some t \<Rightarrow> re_event_type e = t))
       (rep_events db)"

text \<open>The page and the total; the query parameters' bounds are checked first.\<close>

definition list_reputation_events :: "'a user_db_scheme \<Rightarrow> rep_db \<Rightarrow> string \<Rightarrow> nat \<Rightarrow> nat \<Rightarrow> string option
    \<Rightarrow> http_exc + rep_event list \<times> nat" where
  "list_reputation_events udb db username limit offset etype =
     (if limit < 1 \<or> 500 < limit then Inl (HTTPException 422)
      else bind_result (user_enterprise udb username) (\<lambda>ent.
        Inr (page limit offset (order_desc (\<lambda>e. (re_ts e, re_event_id e)) (visible_events db ent etype)),
             length (visible_events db ent etype))))"

definition list_reputation_roots :: "'a user_db_scheme \<Rightarrow> rep_db \<Rightarrow> string \<Rightarrow> nat \<Rightarrow> http_exc + root_row list \<times> nat" where
  "list_reputation_roots udb db username limit =
     (if limit < 1 \<or> 365 < limit then Inl (HTTPException 422)
      else bind_result (user_enterprise udb username) (\<lambda>ent.
        let rows = filter (\<lambda>r. rr_enterprise_id r = ent) (rep_roots db)
        in Inr (take limit (order_desc rr_root_date rows), length rows)))"

text \<open>An exception inside the handler is a 500.\<close>

definition compute_root_now :: "'k prims \<Rightarrow> 'k option \<Rightarrow> string \<Rightarrow> 'a user_db_scheme \<Rightarrow> string \<Rightarrow> string \<Rightarrow> rep_db
    \<Rightarrow> http_exc + root_row \<times> rep_db" where
  "compute_root_now C key now udb username root_date db =
     bind_result (require_admin udb username) (\<lambda>admin.
       bind_result (user_enterprise udb admin) (\<lambda>ent.
         (case compute_root_for_day C key now ent root_date db of
            Inl _ \<Rightarrow> Inl (HTTPException 500)
          | Inr res \<Rightarrow> Inr res)))"

section \<open>Roots are computed once\<close>

lemma root_of_events_key:
  "root_of_events C key now ent day es = Inr r \<Longrightarrow> rr_enterprise_id r = ent \<and> rr_root_date r = day"
  by (auto simp: root_of_events_def Let_def case_prod_beta)

lemma existing_rootD: "existing_root db ent day = Some r \<Longrightarrow> rr_enterprise_id r = ent \<and> rr_root_date r = day"
  by (auto simp: existing_root_def dest!: sql_fetchone_SomeD)

lemma bump_root_day_simps [simp]:
  "rep_events (bump_root_day now ent day db) = rep_events db"
  "rep_roots (bump_root_day now ent day db) = rep_roots db"
  by (simp_all add: bump_root_day_def)

lemma compute_root_events:
  "compute_root_for_day C key now ent day db = Inr (r, db') \<Longrightarrow> rep_events db' = rep_events db"
  by (auto simp: compute_root_for_day_def split: option.splits)

text \<open>After a computation the root of that day is the returned row, and every
  other root is what it was.\<close>

lemma existing_root_compute:
  assumes "compute_root_for_day C key now ent day db = Inr (r, db')"
  shows "existing_root db' e d = (if (e, d) = (ent, day) then Some r else existing_root db e d)"
proof (cases "existing_root db ent day")
  case (Some q)
  with assms have "r = q" "db' = db" by (auto simp: compute_root_for_day_def)
  with Some show ?thesis by auto
next
  case None
  with assms obtain roots where r: "root_of_events C key now ent day (read_day_events db ent day) = Inr r"
    and ins: "sql_insert (\<lambda>q. (rr_enterprise_id q, rr_root_date q)) r (rep_roots db) = Inr roots"
    and db': "rep_roots db' = roots"
    by (auto simp: compute_root_for_day_def)
  show ?thesis
    using sql_fetchone_insert [OF ins, of "(e, d)"] root_of_events_key [OF r]
    by (auto simp: existing_root_def db')
qed

lemma compute_root_existing:
  "existing_root db ent day = Some r \<Longrightarrow> compute_root_for_day C key now ent day db = Inr (r, db)"
  by (simp add: compute_root_for_day_def)

lemma record_event_roots: "rep_roots (snd (record_event C w c db)) = rep_roots db"
proof (cases "record_event C w c db")
  case (Pair x db')
  then show ?thesis
    by (cases x) (auto dest: record_event_failure elim: record_event_done)
qed

text \<open>Everything that writes the reputation tables.\<close>

datatype 'k rep_op = RecordOp "'k rep_world" rep_call | RootOp "'k option" string string string

fun rep_step :: "'k prims \<Rightarrow> 'k rep_op \<Rightarrow> rep_db \<Rightarrow> rep_db" where
  "rep_step C (RecordOp w c) db = snd (record_event C w c db)"
| "rep_step C (RootOp key now ent day) db =
     (case compute_root_for_day C key now ent day db of Inl _ \<Rightarrow> db | Inr (_, db') \<Rightarrow> db')"

lemma existing_root_record [simp]:
  "existing_root (snd (record_event C w c db)) ent day = existing_root db ent day"
  by (simp add: existing_root_def record_event_roots)

lemma existing_root_step:
  "existing_root db ent day = Some r \<Longrightarrow> existing_root (rep_step C op db) ent day = Some r"
  by (cases op) (auto simp: existing_root_compute compute_root_existing split: sum.splits)

text \<open>A computed root is a terminal state of its Enterprise's day.\<close>

interpretation day_root: lifecycle "rep_step C" "\<lambda>db. existing_root db ent day" "\<lambda>r. r \<noteq> None"
  for C :: "'k prims" and ent day
  by unfold_locales (auto dest: existing_root_step)

section \<open>A root verifies against its events\<close>

lemma verify_root_of_events:
  assumes "ed25519_ok C" and "root_of_events C key now ent day es = Inr r"
  shows "\<exists>rep. verify_root C r es = Inr rep \<and> vr_ok rep \<and> vr_expected_root rep = rr_merkle_root_hash r"
  using assms
  by (cases key) (auto simp: root_of_events_def verify_root_def Let_def sign_canonical_bytes_def
      verify_raw_sign_raw truthy_def)

section \<open>The roll-up over all Enterprises\<close>

lemma compute_root_cong:
  assumes "rep_events db' = rep_events db" and "existing_root db' ent day = existing_root db ent day"
  shows "map_sum id fst (compute_root_for_day C key now ent day db')
       = map_sum id fst (compute_root_for_day C key now ent day db)"
proof -
  have ins: "\<exists>t. sql_insert (\<lambda>q. (rr_enterprise_id q, rr_root_date q)) r (rep_roots d) = Inr t"
    if "existing_root d ent day = None" and "rr_enterprise_id r = ent" "rr_root_date r = day"
    for d :: rep_db and r
    using that by (auto simp: sql_insert_def existing_root_def table_simps)
  show ?thesis
  proof (cases "root_of_events C key now ent day (read_day_events db ent day)")
    case (Inr r)
    with ins [of db r] ins [of db' r] root_of_events_key [OF Inr] assms show ?thesis
      by (auto simp: compute_root_for_day_def read_day_events_def split: option.splits)
  qed (use assms in \<open>auto simp: compute_root_for_day_def read_day_events_def split: option.splits\<close>)
qed

lemma root_each_result:
  assumes "ent \<in> set ents" and "distinct ents"
  shows "existing_root (root_each C key now day ents db) ent day
    = (case compute_root_for_day C key (now ent) ent day db of Inl _ \<Rightarrow> None | Inr (r, _) \<Rightarrow> Some r)"
  using assms
proof (induction ents arbitrary: db)
  case (Cons e es)
  let ?d = "case compute_root_for_day C key (now e) e day db of Inl _ \<Rightarrow> db | Inr (_, db') \<Rightarrow> db'"
  have keep: "existing_root (root_each C key now day es d) e day = existing_root d e day"
    if "e \<notin> set es" for d
    using that
    by (induction es arbitrary: d) (auto split: sum.splits prod.splits simp: existing_root_compute)
  show ?case
  proof (cases "ent = e")
    case True
    with keep [of ?d] Cons.prems(2)
    have d: "existing_root (root_each C key now day (e # es) db) ent day = existing_root ?d ent day" by simp
    show ?thesis
    proof (cases "compute_root_for_day C key (now ent) ent day db")
      case (Inl x)
      then have "existing_root db ent day = None"
        by (auto simp: compute_root_for_day_def split: option.splits)
      with d Inl True show ?thesis by simp
    next
      case (Inr p)
      with d True show ?thesis by (cases p) (simp add: existing_root_compute)
    qed
  next
    case False
    have same: "rep_events ?d = rep_events db" "existing_root ?d ent day = existing_root db ent day"
      using False by (auto split: sum.splits simp: compute_root_events existing_root_compute)
    have "existing_root (root_each C key now day (e # es) db) ent day
      = (case compute_root_for_day C key (now ent) ent day ?d of Inl _ \<Rightarrow> None | Inr (r, _) \<Rightarrow> Some r)"
      using Cons False by simp
    with compute_root_cong [OF same, of C key "now ent"] show ?thesis
      by (auto split: sum.splits)
  qed
qed simp

section \<open>Reading a day back\<close>

text \<open>A convex selection from a chain with rising keys is a chain.\<close>

lemma chain_filter_convex:
  fixes k :: "rep_event \<Rightarrow> 'b::linorder"
  assumes "sorted_wrt (<) (map k es)"
    and "\<And>a b c. P a \<Longrightarrow> P c \<Longrightarrow> k a < k b \<Longrightarrow> k b < k c \<Longrightarrow> P b"
    and "cr_ok (verify_chain es)"
  shows "cr_ok (verify_chain (filter P es))"
  using assms(1,3)
proof (induction es)
  case (Cons e es)
  show ?case
  proof (cases es)
    case Nil
    then show ?thesis by (simp add: verify_chain_ok)
  next
    case (Cons f fs)
    have IH: "cr_ok (verify_chain (filter P es))"
      using Cons.IH Cons.prems \<open>es = f # fs\<close> by (auto simp: verify_chain_ok)
    show ?thesis
    proof (cases "P e \<and> \<not> P f")
      case True
      then have "filter P es = []"
        using Cons.prems(1) \<open>es = f # fs\<close> assms(2) [of e _ f] by (auto simp: filter_empty_conv)
      with True show ?thesis by (simp add: verify_chain_ok)
    next
      case False
      with IH Cons.prems(2) \<open>es = f # fs\<close> show ?thesis by (auto simp: verify_chain_ok)
    qed
  qed
qed (simp add: verify_chain_ok)

section \<open>Properties\<close>

text \<open>
  A day's root is computed once: whatever events are recorded and whatever
  roots are computed afterwards, the stored root of that Enterprise and day is
  the row first returned, and computing it again returns that row and writes
  nothing.\<close>

theorem root_never_changes:
  "case compute_root_for_day C key now ent day db of
     Inl _ \<Rightarrow> existing_root db ent day = None
   | Inr (r, db1) \<Rightarrow>
       (let db2 = fold (rep_step C) ops db1
        in existing_root db2 ent day = Some r \<and> compute_root_for_day C key' now' ent day db2 = Inr (r, db2))"
proof (cases "compute_root_for_day C key now ent day db")
  case (Inl x)
  then show ?thesis by (auto simp: compute_root_for_day_def split: option.splits)
next
  case (Inr p)
  obtain r db1 where p: "p = (r, db1)" by (cases p)
  from Inr p have "existing_root db1 ent day = Some r" by (simp add: existing_root_compute)
  with day_root.run_terminal [of db1 ent day C ops] have "existing_root (fold (rep_step C) ops db1) ent day = Some r"
    by simp
  with Inr p show ?thesis by (simp add: Let_def compute_root_existing)
qed

text \<open>
  The root the server stores for a day it had not rolled up yet passes the
  offline check of \<open>verify_root\<close> against the events of that day, signed or not.\<close>

theorem computed_root_verifies:
  assumes "ed25519_ok C" and "existing_root db ent day = None"
    and "compute_root_for_day C key now ent day db = Inr (r, db')"
  shows "\<exists>rep. verify_root C r (read_day_events db' ent day) = Inr rep \<and> vr_ok rep"
proof -
  have "root_of_events C key now ent day (read_day_events db ent day) = Inr r"
    using assms(2,3) by (auto simp: compute_root_for_day_def)
  moreover have "read_day_events db' ent day = read_day_events db ent day"
    using compute_root_events [OF assms(3)] by (simp add: read_day_events_def)
  ultimately show ?thesis using verify_root_of_events [OF assms(1)] by metis
qed

text \<open>
  The nightly roll-up handles every Enterprise on its own: afterwards each
  Enterprise has the root its own computation gives on the tables as they were
  at midnight, and has none exactly when that computation raised; a failing
  Enterprise does not disturb the others.\<close>

theorem daily_root_tick_complete:
  assumes "unique_key cm_enterprise_id (rep_meta db)" and "ent \<in> set (all_enterprise_ids db)"
  shows "existing_root (daily_root_tick C key now day db) ent day
    = (case compute_root_for_day C key (now ent) ent day db of Inl _ \<Rightarrow> None | Inr (r, _) \<Rightarrow> Some r)"
  using assms unfolding daily_root_tick_def
  by (intro root_each_result) (simp_all add: all_enterprise_ids_def unique_key_def)

text \<open>
  When an Enterprise's events carry strictly rising timestamps, reading any
  day back in \<open>(ts, event_id)\<close> order gives a list that passes \<open>verify_chain\<close>.\<close>

theorem day_reads_back_as_chain:
  assumes "chain_inv C db" and "sorted_wrt (<) (map re_ts (events_of ent db))"
  shows "cr_ok (verify_chain (read_day_events db ent day))"
proof -
  let ?k = "\<lambda>e. (re_ts e, re_event_id e)" and ?es = "filter (in_window day) (events_of ent db)"
  have "sorted_wrt (\<lambda>a b. re_ts a < re_ts b) ?es"
    using assms(2) by (simp add: sorted_wrt_map sorted_wrt_filter)
  then have k: "sorted_wrt (\<lambda>a b. ?k a \<le> ?k b) ?es"
    by (rule sorted_wrt_mono_rel [rotated]) simp
  have "cr_ok (verify_chain (events_of ent db))"
    using audit_ok_events_of [OF assms(1)] by (simp add: audit_ok_def)
  then have "cr_ok (verify_chain ?es)"
    using assms(2) by (intro chain_filter_convex [where k = re_ts]) (auto simp: in_window_def)
  moreover have "filter (\<lambda>e. re_enterprise_id e = ent \<and> in_window day e) (rep_events db) = ?es"
    by (auto simp: events_of_def intro: filter_cong)
  then have "read_day_events db ent day = ?es"
    using order_asc_id [OF k] by (simp add: read_day_events_def)
  ultimately show ?thesis by simp
qed

text \<open>Timestamps have a granularity of one second and ties are broken by the
  random event id: when two consecutive honest events share a timestamp and the
  second has the smaller id, the day reads back in the wrong order and
  \<open>verify_chain\<close> rejects it, although the chain itself is sound.\<close>

theorem same_second_breaks_audit:
  assumes "events_of ent db = [e, f]" and "linked GENESIS_PREV_HASH [e, f]"
    and "re_ts e = re_ts f" and "re_event_id f < re_event_id e" and "in_window day e"
    and "re_payload_hash f \<noteq> GENESIS_PREV_HASH"
  shows "cr_ok (verify_chain (events_of ent db)) \<and> \<not> cr_ok (verify_chain (read_day_events db ent day))"
proof -
  have "filter (\<lambda>e. re_enterprise_id e = ent \<and> in_window day e) (rep_events db) = filter (in_window day) [e, f]"
    unfolding assms(1) [symmetric] events_of_def by (auto intro: filter_cong)
  then have "read_day_events db ent day = [f, e]"
    using assms(3-5) by (simp add: read_day_events_def order_asc_def in_window_def)
  with assms show ?thesis by (simp add: verify_chain_ok)
qed

text \<open>
  The events endpoint shows an authenticated caller only events of the
  caller's own Enterprise, its total counts all of them, and reading pages one
  after the other shows each of them, newest first.\<close>

theorem list_reputation_events_pages:
  assumes "1 \<le> n" and "n \<le> 500" and "user_enterprise udb u = Inr ent"
  shows "\<exists>rows. list_all (\<lambda>e. re_enterprise_id e = ent) rows
    \<and> sorted_wrt (\<ge>) (map re_ts rows)
    \<and> mset rows = mset (visible_events db ent etype)
    \<and> (\<forall>i. list_reputation_events udb db u n (i * n) etype = Inr (page n (i * n) rows, length rows))
    \<and> (\<forall>k. concat (map (\<lambda>i. page n (i * n) rows) [0..<k]) = take (k * n) rows)"
proof (intro exI conjI)
  let ?k = "\<lambda>e. (re_ts e, re_event_id e)"
  let ?rows = "order_desc ?k (visible_events db ent etype)"
  show "list_all (\<lambda>e. re_enterprise_id e = ent) ?rows" by (simp add: visible_events_def list_all_iff)
  show "sorted_wrt (\<ge>) (map re_ts ?rows)"
    using sorted_order_desc [of ?k "visible_events db ent etype"]
    by (auto simp: sorted_wrt_map less_eq_prod_def elim!: sorted_wrt_mono_rel [rotated])
  show "mset ?rows = mset (visible_events db ent etype)" by (simp add: order_desc_def)
  show "\<forall>i. list_reputation_events udb db u n (i * n) etype = Inr (page n (i * n) ?rows, length ?rows)"
    using assms by (simp add: list_reputation_events_def)
  show "\<forall>k. concat (map (\<lambda>i. page n (i * n) ?rows) [0..<k]) = take (k * n) ?rows"
    by (simp add: pages_cover)
qed

section \<open>Witnesses\<close>

theorem computed_root_verifies_witness:
  "let res = compute_root_for_day demo_prims (Some 7) ''now'' ''acme'' ''2026-05-01'' empty_rep_db
   in \<exists>rep. verify_root demo_prims (fst (projr res)) (read_day_events (snd (projr res)) ''acme'' ''2026-05-01'') = Inr rep
        \<and> vr_ok rep"
proof -
  obtain r db' where "compute_root_for_day demo_prims (Some 7) ''now'' ''acme'' ''2026-05-01'' empty_rep_db = Inr (r, db')"
    by (auto simp: compute_root_for_day_def existing_root_def empty_rep_db_def sql_fetchone_def read_day_events_def
        order_asc_def root_of_events_def merkle_root_def sign_canonical_bytes_def Let_def sql_insert_def)
  with computed_root_verifies [OF demo_prims_ok _ this] show ?thesis
    by (simp add: existing_root_def empty_rep_db_def sql_fetchone_def)
qed

definition demo_meta :: chain_meta where
  "demo_meta = \<lparr>cm_enterprise_id = ''acme'', cm_last_event_id = ''evt_1'', cm_last_event_hash = GENESIS_PREV_HASH,
     cm_last_root_published_day = None, cm_updated_at = ''t''\<rparr>"

theorem daily_root_tick_complete_witness:
  "existing_root (daily_root_tick demo_prims (Some 7) (\<lambda>_. ''now'') ''2026-05-01'' (empty_rep_db\<lparr>rep_meta := [demo_meta]\<rparr>))
       ''acme'' ''2026-05-01''
   = (case compute_root_for_day demo_prims (Some 7) ''now'' ''acme'' ''2026-05-01'' (empty_rep_db\<lparr>rep_meta := [demo_meta]\<rparr>) of
        Inl _ \<Rightarrow> None | Inr (r, _) \<Rightarrow> Some r)"
  by (rule daily_root_tick_complete) (simp_all add: unique_key_def all_enterprise_ids_def demo_meta_def)

definition demo_day_event :: "string \<Rightarrow> string \<Rightarrow> string \<Rightarrow> rep_event" where
  "demo_day_event ts eid prev = build_event demo_prims (demo_world ts eid) demo_call prev"

definition demo_pair :: "string \<Rightarrow> string \<Rightarrow> rep_event list" where
  "demo_pair id1 id2 =
     (let e = demo_day_event ''2026-05-01T10:00:00Z'' id1 GENESIS_PREV_HASH
      in [e, demo_day_event ''2026-05-01T10:00:00Z'' id2 (re_payload_hash e)])"

lemma demo_hash_not_genesis:
  "compute_payload_hash demo_prims (utf8 (re_payload_canonical (build_event demo_prims w c h))) \<noteq> GENESIS_PREV_HASH"
proof -
  have "\<exists>s. re_payload_canonical (build_event demo_prims w c h) = CHR ''{'' # s"
    by (simp add: build_event_def Let_def event_payload_def case_prod_beta)
  then obtain s where s: "utf8 (re_payload_canonical (build_event demo_prims w c h)) = 123 # utf8 s"
    by (auto simp: utf8_char_def code_point_def)
  have "\<exists>t. sha256 demo_prims (123 # utf8 s) = 123 # t"
    by (simp add: demo_prims_def take_Cons')
  then obtain t where "sha256 demo_prims (123 # utf8 s) = 123 # t" ..
  moreover have "hex_byte 123 = ''7b''" by code_simp
  moreover have "replicate 64 (CHR ''0'') = CHR ''0'' # replicate 63 (CHR ''0'')"
    by (simp add: replicate_Suc [symmetric] del: replicate_Suc)
  ultimately show ?thesis
    unfolding s compute_payload_hash_def GENESIS_PREV_HASH_def by simp
qed

theorem same_second_breaks_audit_witness:
  "let db = empty_rep_db\<lparr>rep_events := demo_pair ''evt_b'' ''evt_a''\<rparr>
   in cr_ok (verify_chain (events_of ''acme'' db)) \<and> \<not> cr_ok (verify_chain (read_day_events db ''acme'' ''2026-05-01''))"
proof -
  let ?db = "empty_rep_db\<lparr>rep_events := demo_pair ''evt_b'' ''evt_a''\<rparr>"
  let ?e = "demo_day_event ''2026-05-01T10:00:00Z'' ''evt_b'' GENESIS_PREV_HASH"
  let ?f = "demo_day_event ''2026-05-01T10:00:00Z'' ''evt_a'' (re_payload_hash ?e)"
  have "call_enterprise (demo_world ts i) demo_call = ''acme''" for ts i
    by (simp add: call_enterprise_def demo_call_def py_or_def)
  then have "events_of ''acme'' ?db = [?e, ?f]"
    by (simp add: events_of_def demo_pair_def Let_def demo_day_event_def)
  moreover have "linked GENESIS_PREV_HASH [?e, ?f]"
    by (simp add: demo_day_event_def del: build_event_simps(5))
  moreover have "re_payload_hash ?f \<noteq> GENESIS_PREV_HASH"
    unfolding demo_day_event_def build_event_simps(5) by (rule demo_hash_not_genesis)
  moreover have "re_ts ?e = re_ts ?f" "re_event_id ?f < re_event_id ?e" "in_window ''2026-05-01'' ?e"
    by (simp_all add: demo_day_event_def demo_world_def demo_call_def in_window_def day_window_def py_or_def)
  ultimately show ?thesis unfolding Let_def by (intro same_second_breaks_audit)
qed

theorem day_reads_back_as_chain_witness:
  "cr_ok (verify_chain (read_day_events (record_all demo_prims
      [(demo_world ''2026-05-01T10:00:00Z'' ''evt_b'', demo_call),
       (demo_world ''2026-05-01T10:00:01Z'' ''evt_a'', demo_call)] empty_rep_db) ''acme'' ''2026-05-01''))"
proof (rule day_reads_back_as_chain)
  let ?w1 = "demo_world ''2026-05-01T10:00:00Z'' ''evt_b''" and ?w2 = "demo_world ''2026-05-01T10:00:01Z'' ''evt_a''"
  let ?db = "record_all demo_prims [(?w1, demo_call), (?w2, demo_call)] empty_rep_db"
  show "chain_inv demo_prims ?db" by (intro chain_inv_record_all chain_inv_empty demo_prims_ok)
  have w: "rw_fault (demo_world ts i) = NoFault" "rw_event_id (demo_world ts i) = i"
    "rw_now (demo_world ts i) = ts" "rc_ts demo_call = None" for ts i
    by (simp_all add: demo_world_def demo_call_def)
  have "\<exists>h1 h2. rep_events ?db = [build_event demo_prims ?w1 demo_call h1, build_event demo_prims ?w2 demo_call h2]"
    by (auto simp: record_event_fresh w empty_rep_db_def)
  then show "sorted_wrt (<) (map re_ts (events_of ''acme'' ?db))"
    by (auto simp: events_of_def w py_or_def)
qed

definition demo_users :: user_db where
  "demo_users = \<lparr>db_users = [new_user ''t'' 1 ''ann'' ''h'' ''user'' (Some ''acme'') (Some ''eng'')], db_user_seq = 2\<rparr>"

theorem list_reputation_events_pages_witness:
  "\<exists>rows. list_all (\<lambda>e. re_enterprise_id e = ''acme'') rows
    \<and> sorted_wrt (\<ge>) (map re_ts rows)
    \<and> mset rows = mset (visible_events empty_rep_db ''acme'' None)
    \<and> (\<forall>i. list_reputation_events demo_users empty_rep_db ''ann'' 50 (i * 50) None
              = Inr (page 50 (i * 50) rows, length rows))
    \<and> (\<forall>k. concat (map (\<lambda>i. page 50 (i * 50) rows) [0..<k]) = take (k * 50) rows)"
  by (rule list_reputation_events_pages)
     (simp_all add: user_enterprise_def get_user_def demo_users_def sql_fetchone_def new_user_def)

end
