(* ===== verification/Invites.thy ===== *)
theory Invites imports Users begin

text \<open>
  \<open>cq_server/invites.py\<close> and \<open>cq_server/invite_routes.py\<close>: invites minted as signed
  JWTs with one row each, claimed at most once, revoked, listed, and the user a
  claim creates. Instants are microseconds since the epoch. PyJWT and the
  password hash are parameters. The lemmas: an invite's lifecycle, the claim as
  a read followed by a guarded UPDATE, and, over a step relation in which
  claims, revocations and mints interleave freely, that every invite is claimed
  at most once.
\<close>

section \<open>PyJWT\<close>

record jwt_claims =
  jc_sub :: string
  jc_iss :: "string option"
  jc_aud :: "string option"
  jc_exp :: int                              \<comment> \<open>seconds\<close>
  jc_iat :: int
  jc_jti :: "string option"
  jc_role :: "string option"
  jc_target_l2_id :: "string option"

datatype jwt_error = JwtExpired | JwtError

text \<open>\<open>encode secret claims\<close>, and \<open>decode now secret audience issuer token\<close>.\<close>

record jwt_lib =
  jwt_encode :: "string \<Rightarrow> jwt_claims \<Rightarrow> string"
  jwt_decode :: "int \<Rightarrow> string \<Rightarrow> string option \<Rightarrow> string option \<Rightarrow> string \<Rightarrow> jwt_error + jwt_claims"

text \<open>The documented behaviour on a token the same secret signed: expiry, then
  audience and issuer when the caller pins them, then the claims.\<close>

definition jwt_accepts :: "jwt_lib \<Rightarrow> string \<Rightarrow> jwt_claims \<Rightarrow> bool" where
  "jwt_accepts L secret c \<longleftrightarrow> (\<forall>now aud iss.
     jwt_decode L now secret aud iss (jwt_encode L secret c) =
       (if jc_exp c * US_PER_SECOND \<le> now then Inl JwtExpired
        else if (aud \<noteq> None \<and> jc_aud c \<noteq> aud) \<or> (iss \<noteq> None \<and> jc_iss c \<noteq> iss) then Inl JwtError
        else Inr c))"

section \<open>Rows\<close>

record invite =
  iv_id :: nat
  iv_jti :: string
  iv_email :: string
  iv_role :: string
  iv_target_l2_id :: "string option"
  iv_issued_by :: nat
  iv_issued_at :: int
  iv_expires_at :: iso
  iv_claimed_at :: "int option"
  iv_claimed_by :: "nat option"
  iv_revoked_at :: "int option"

record invite_db = user_db +
  db_invites :: "invite list"
  db_invite_seq :: nat

datatype inv_status = InvPending | InvClaimed | InvExpired | InvRevoked

definition invite_status :: "int \<Rightarrow> invite \<Rightarrow> inv_status" where
  "invite_status now i =
     (if iv_revoked_at i \<noteq> None then InvRevoked
      else if iv_claimed_at i \<noteq> None then InvClaimed
      else (case iv_expires_at i of
              IsoBad \<Rightarrow> InvPending
            | IsoAware t \<Rightarrow> if t \<le> now then InvExpired else InvPending
            | IsoNaive t \<Rightarrow> if t \<le> now then InvExpired else InvPending))"

definition get_by_jti :: "'a invite_db_scheme \<Rightarrow> string \<Rightarrow> invite option" where
  "get_by_jti db j = sql_fetchone (\<lambda>i. iv_jti i = j) (db_invites db)"

definition get_by_id :: "'a invite_db_scheme \<Rightarrow> nat \<Rightarrow> invite option" where
  "get_by_id db k = sql_fetchone (\<lambda>i. iv_id i = k) (db_invites db)"

section \<open>Minting\<close>

definition INVITE_ISSUER :: string where "INVITE_ISSUER = ''8th-layer.ai''"
definition INVITE_AUDIENCE :: string where "INVITE_AUDIENCE = ''invite''"

definition US_PER_HOUR :: int where "US_PER_HOUR = 3600 * US_PER_SECOND"

definition invite_ttl_hours :: "env \<Rightarrow> int" where
  "invite_ttl_hours env =
     (let raw = getenv env ''CQ_INVITE_TTL_HOURS'' []
      in if raw = [] then 72 else (case py_int raw of None \<Rightarrow> 72 | Some n \<Rightarrow> n))"

definition invite_claims :: "string \<Rightarrow> string \<Rightarrow> string option \<Rightarrow> int \<Rightarrow> int \<Rightarrow> string \<Rightarrow> jwt_claims" where
  "invite_claims email role target issued_at expires_at jti =
     \<lparr>jc_sub = email, jc_iss = Some INVITE_ISSUER, jc_aud = Some INVITE_AUDIENCE,
      jc_exp = expires_at div US_PER_SECOND, jc_iat = issued_at div US_PER_SECOND, jc_jti = Some jti,
      jc_role = Some role, jc_target_l2_id = target\<rparr>"

text \<open>The uuid is the argument \<open>jti\<close>. The insert fails when the jti is taken or
  \<open>issued_by\<close> names no user (foreign keys are on).\<close>

definition mint_invite :: "jwt_lib \<Rightarrow> string \<Rightarrow> env \<Rightarrow> int \<Rightarrow> string \<Rightarrow> string \<Rightarrow> string \<Rightarrow> string option \<Rightarrow> nat
    \<Rightarrow> int option \<Rightarrow> 'a invite_db_scheme \<Rightarrow> py_exc + invite \<times> string \<times> 'a invite_db_scheme" where
  "mint_invite L secret env now jti email role target_l2_id issued_by ttl_hours db =
     (let target = (if role = ''enterprise_admin'' then None else target_l2_id)
      in if role \<noteq> ''enterprise_admin'' \<and> target = None then Inl ValueError
      else let ttl = (case ttl_hours of None \<Rightarrow> invite_ttl_hours env | Some h \<Rightarrow> h);
               expires_at = now + ttl * US_PER_HOUR;
               token = jwt_encode L secret (invite_claims email role target now expires_at jti);
               row = \<lparr>iv_id = db_invite_seq db, iv_jti = jti, iv_email = email, iv_role = role,
                      iv_target_l2_id = target, iv_issued_by = issued_by, iv_issued_at = now,
                      iv_expires_at = IsoAware expires_at, iv_claimed_at = None, iv_claimed_by = None,
                      iv_revoked_at = None\<rparr>
      in if issued_by \<notin> us_id ` set (db_users db) then Inl IntegrityError
      else bind_result (sql_insert iv_jti row (db_invites db)) (\<lambda>t.
        Inr (row, token, db\<lparr>db_invites := t, db_invite_seq := db_invite_seq db + 1\<rparr>)))"

section \<open>Validating and claiming\<close>

definition decode_invite_jwt :: "jwt_lib \<Rightarrow> string \<Rightarrow> int \<Rightarrow> string \<Rightarrow> jwt_error + jwt_claims" where
  "decode_invite_jwt L secret now token =
     bind_result (jwt_decode L now secret (Some INVITE_AUDIENCE) (Some INVITE_ISSUER) token) (\<lambda>c.
       if jc_iss c = None \<or> jc_aud c = None \<or> jc_jti c = None then Inl JwtError else Inr c)"

definition validate_invite_jwt :: "jwt_lib \<Rightarrow> string \<Rightarrow> int \<Rightarrow> string \<Rightarrow> 'a invite_db_scheme \<Rightarrow> invite option" where
  "validate_invite_jwt L secret now token db =
     (case decode_invite_jwt L secret now token of
        Inl _ \<Rightarrow> None
      | Inr c \<Rightarrow>
         (case jc_jti c of
            None \<Rightarrow> None
          | Some jti \<Rightarrow>
              if jti = [] then None
              else (case get_by_jti db jti of
                      None \<Rightarrow> None
                    | Some i \<Rightarrow> if invite_status now i = InvPending then Some i else None)))"

datatype claim_kind = ClaimOk | ClaimNotFound | ClaimExpired | ClaimRevoked | ClaimAlready

type_synonym claim_outcome = "claim_kind \<times> invite option"

text \<open>The reads before the UPDATE: an early outcome, or the invite to claim.\<close>

definition claim_check :: "jwt_lib \<Rightarrow> string \<Rightarrow> int \<Rightarrow> string \<Rightarrow> 'a invite_db_scheme \<Rightarrow> claim_outcome + invite" where
  "claim_check L secret now token db =
     (case decode_invite_jwt L secret now token of
        Inl JwtExpired \<Rightarrow> Inl (ClaimExpired, None)
      | Inl JwtError \<Rightarrow> Inl (ClaimNotFound, None)
      | Inr c \<Rightarrow>
         (case jc_jti c of
            None \<Rightarrow> Inl (ClaimNotFound, None)
          | Some jti \<Rightarrow>
              if jti = [] then Inl (ClaimNotFound, None)
              else (case get_by_jti db jti of
                      None \<Rightarrow> Inl (ClaimNotFound, None)
                    | Some i \<Rightarrow>
                       (case invite_status now i of
                          InvClaimed \<Rightarrow> Inl (ClaimAlready, Some i)
                        | InvRevoked \<Rightarrow> Inl (ClaimRevoked, Some i)
                        | InvExpired \<Rightarrow> Inl (ClaimExpired, Some i)
                        | InvPending \<Rightarrow> Inr i))))"

text \<open>The UPDATE with its guard, and the outcome by its row count.\<close>

definition claimable :: "nat \<Rightarrow> invite \<Rightarrow> bool" where
  "claimable k i \<longleftrightarrow> iv_id i = k \<and> iv_claimed_at i = None \<and> iv_revoked_at i = None"

definition claim_commit :: "int \<Rightarrow> nat \<Rightarrow> invite \<Rightarrow> 'a invite_db_scheme \<Rightarrow> claim_outcome \<times> 'a invite_db_scheme" where
  "claim_commit now user_id i db =
     (if sql_rowcount (claimable (iv_id i)) (db_invites db) = 0
      then ((case get_by_id db (iv_id i) of
               None \<Rightarrow> (ClaimNotFound, None)
             | Some c \<Rightarrow> if iv_revoked_at c \<noteq> None then (ClaimRevoked, Some c)
                       else if iv_claimed_at c \<noteq> None then (ClaimAlready, Some c)
                       else (ClaimNotFound, Some c)), db)
      else let db' = db\<lparr>db_invites := sql_update (claimable (iv_id i))
                           (\<lambda>r. r\<lparr>iv_claimed_at := Some now, iv_claimed_by := Some user_id\<rparr>) (db_invites db)\<rparr>
           in ((ClaimOk, Some (case get_by_id db' (iv_id i) of None \<Rightarrow> i | Some r \<Rightarrow> r)), db'))"

definition claim_invite :: "jwt_lib \<Rightarrow> string \<Rightarrow> int \<Rightarrow> string \<Rightarrow> nat \<Rightarrow> 'a invite_db_scheme
    \<Rightarrow> claim_outcome \<times> 'a invite_db_scheme" where
  "claim_invite L secret now token user_id db =
     (case claim_check L secret now token db of
        Inl out \<Rightarrow> (out, db)
      | Inr i \<Rightarrow> claim_commit now user_id i db)"

section \<open>Revoking and listing\<close>

definition revoke_invite :: "int \<Rightarrow> nat \<Rightarrow> 'a invite_db_scheme \<Rightarrow> invite option \<times> 'a invite_db_scheme" where
  "revoke_invite now k db =
     (case get_by_id db k of
        None \<Rightarrow> (None, db)
      | Some i \<Rightarrow>
          if iv_revoked_at i \<noteq> None then (Some i, db)
          else let db' = db\<lparr>db_invites := sql_update (\<lambda>r. iv_id r = k \<and> iv_revoked_at r = None)
                              (\<lambda>r. r\<lparr>iv_revoked_at := Some now\<rparr>) (db_invites db)\<rparr>
               in (get_by_id db' k, db'))"

definition list_invites :: "int \<Rightarrow> inv_status option \<Rightarrow> 'a invite_db_scheme \<Rightarrow> invite list" where
  "list_invites now status db =
     (let invites = order_desc iv_issued_at (db_invites db)
      in case status of None \<Rightarrow> invites | Some s \<Rightarrow> filter (\<lambda>i. invite_status now i = s) invites)"

section \<open>The user a claim creates\<close>

definition ensure_user :: "env \<Rightarrow> (string \<Rightarrow> string) \<Rightarrow> string \<Rightarrow> string \<Rightarrow> string \<Rightarrow> string \<Rightarrow> 'a user_db_scheme
    \<Rightarrow> py_exc + nat \<times> 'a user_db_scheme" where
  "ensure_user env hash_password now username password role db =
     (case get_user db username of
        Some u \<Rightarrow> Inr (us_id u, db)
      | None \<Rightarrow>
          let env_ent = strip (getenv env ''CQ_ENTERPRISE'' []);
              env_grp = strip (getenv env ''CQ_GROUP'' []);
              (enterprise_id, group_id) =
                (if env_ent \<noteq> [] \<and> env_grp \<noteq> [] then (Some env_ent, Some env_grp) else (None, None))
          in bind_result (create_user now username (hash_password password) role enterprise_id group_id db) (\<lambda>db'.
               case get_user db' username of
                 None \<Rightarrow> Inl RuntimeErr
               | Some fresh \<Rightarrow> Inr (us_id fresh, db')))"

section \<open>Endpoints\<close>

text \<open>What the mailer answers: an exception, or the \<open>status\<close> of its envelope.\<close>

datatype mail_result = MailRaised | MailStatus string

definition email_shape :: "string \<Rightarrow> string option" where
  "email_shape v =
     (if CHR ''@'' \<notin> set v \<or> startswith v ''@'' \<or> endswith v ''@'' then None else Some (strip v))"

text \<open>The response and the tables; the row stays when the email fails.\<close>

definition create_invite_route :: "jwt_lib \<Rightarrow> string \<Rightarrow> env \<Rightarrow> int \<Rightarrow> string \<Rightarrow> mail_result \<Rightarrow> string
    \<Rightarrow> string \<Rightarrow> string \<Rightarrow> string option \<Rightarrow> 'a invite_db_scheme \<Rightarrow> (http_exc + invite) \<times> 'a invite_db_scheme" where
  "create_invite_route L secret env now jti mail caller email0 role target db =
     (case email_shape email0 of
        None \<Rightarrow> (Inl (HTTPException 422), db)
      | Some email \<Rightarrow>
        if role \<notin> {''enterprise_admin'', ''l2_admin'', ''user''} then (Inl (HTTPException 422), db)
        else (case require_admin db caller of
          Inl e \<Rightarrow> (Inl e, db)
        | Inr admin_username \<Rightarrow>
          (case get_user db admin_username of
             None \<Rightarrow> (Inl (HTTPException 404), db)
           | Some admin \<Rightarrow>
             if role \<noteq> ''enterprise_admin'' \<and> \<not> truthy target then (Inl (HTTPException 422), db)
             else (case mint_invite L secret env now jti email role target (us_id admin) None db of
               Inl ValueError \<Rightarrow> (Inl (HTTPException 422), db)
             | Inl _ \<Rightarrow> (Inl (HTTPException 500), db)
             | Inr (i, token, db') \<Rightarrow>
                 (case mail of
                    MailRaised \<Rightarrow> (Inl (HTTPException 502), db')
                  | MailStatus st \<Rightarrow>
                      if st = ''suppressed'' then (Inl (HTTPException 409), db')
                      else if st = ''error'' then (Inl (HTTPException 502), db')
                      else (Inr i, db'))))))"

definition revoke_invite_route :: "int \<Rightarrow> string \<Rightarrow> nat \<Rightarrow> 'a invite_db_scheme \<Rightarrow> (http_exc + invite) \<times> 'a invite_db_scheme" where
  "revoke_invite_route now caller k db =
     (case require_admin db caller of
        Inl e \<Rightarrow> (Inl e, db)
      | Inr admin_username \<Rightarrow>
        (case get_user db admin_username of
           None \<Rightarrow> (Inl (HTTPException 404), db)
         | Some _ \<Rightarrow> (case revoke_invite now k db of
             (None, db') \<Rightarrow> (Inl (HTTPException 404), db')
           | (Some i, db') \<Rightarrow> (Inr i, db'))))"

text \<open>Why an invite that does not validate is refused; \<open>claimed_code\<close> is 410 on
  the claim page and 409 on the claim itself.\<close>

definition invite_refusal :: "jwt_lib \<Rightarrow> string \<Rightarrow> int \<Rightarrow> nat \<Rightarrow> string \<Rightarrow> 'a invite_db_scheme \<Rightarrow> http_exc" where
  "invite_refusal L secret now claimed_code token db =
     (case jwt_decode L now secret (Some INVITE_AUDIENCE) (Some INVITE_ISSUER) token of
        Inl JwtExpired \<Rightarrow> HTTPException 410
      | Inl JwtError \<Rightarrow> HTTPException 404
      | Inr c \<Rightarrow>
         (case jc_jti c of
            None \<Rightarrow> HTTPException 404
          | Some jti \<Rightarrow>
             (case get_by_jti db jti of
                None \<Rightarrow> HTTPException 404
              | Some row \<Rightarrow>
                  if iv_revoked_at row \<noteq> None then HTTPException 410
                  else if iv_claimed_at row \<noteq> None then HTTPException claimed_code
                  else HTTPException 410)))"

definition get_invite_metadata_route :: "jwt_lib \<Rightarrow> string \<Rightarrow> int \<Rightarrow> string \<Rightarrow> 'a invite_db_scheme
    \<Rightarrow> http_exc + invite \<times> string" where
  "get_invite_metadata_route L secret now token db =
     (case validate_invite_jwt L secret now token db of
        None \<Rightarrow> Inl (invite_refusal L secret now 410 token db)
      | Some i \<Rightarrow> Inr (i, py_or (lookup_username db (iv_issued_by i)) ''admin''))"

section \<open>Facts about one operation\<close>

lemma get_by_id_update:
  "(\<And>i. P i \<Longrightarrow> iv_id (f i) = iv_id i) \<Longrightarrow>
   get_by_id (db\<lparr>db_invites := sql_update P f (db_invites db)\<rparr>) k
     = map_option (\<lambda>i. if P i then f i else i) (get_by_id db k)"
  by (simp add: get_by_id_def sql_fetchone_update)

lemma mint_inviteD:
  assumes "mint_invite L secret env now jti email role target issuer ttl db = Inr (i, token, db')"
  shows "db_invites db' = db_invites db @ [i]" and "iv_id i = db_invite_seq db"
    and "db_invite_seq db' = db_invite_seq db + 1" and "iv_jti i = jti"
    and "iv_claimed_at i = None" "iv_claimed_by i = None" "iv_revoked_at i = None"
    and "jti \<notin> iv_jti ` set (db_invites db)" and "db_users db' = db_users db"
  using assms by (auto simp: mint_invite_def Let_def sql_insert_def image_iff split: if_splits)

lemma get_by_id_mint:
  "mint_invite L secret env now jti email role target issuer ttl db = Inr (i, token, db') \<Longrightarrow>
   get_by_id db k = Some r \<Longrightarrow> get_by_id db' k = Some r"
  using mint_inviteD(1) by (fastforce simp: get_by_id_def sql_fetchone_snoc)

lemma claim_check_InrD:
  assumes "claim_check L secret now token db = Inr i"
  shows "i \<in> set (db_invites db)" and "iv_claimed_at i = None" and "iv_revoked_at i = None"
    and "validate_invite_jwt L secret now token db = Some i"
  using assms
  by (auto simp: claim_check_def validate_invite_jwt_def get_by_jti_def invite_status_def
      split: sum.splits option.splits if_splits jwt_error.splits inv_status.splits dest: sql_fetchone_SomeD)

lemma claim_check_InlD:
  "claim_check L secret now token db = Inl out \<Longrightarrow>
   validate_invite_jwt L secret now token db = None \<and> fst out \<noteq> ClaimOk"
  by (auto simp: claim_check_def validate_invite_jwt_def
      split: sum.splits option.splits if_splits jwt_error.splits inv_status.splits)

lemma claim_commit_cases:
  assumes "claim_commit now u i db = (out, db')"
  obtains (won) r where "out = (ClaimOk, Some r)" "iv_id r = iv_id i"
      "\<exists>q \<in> set (db_invites db). claimable (iv_id i) q"
      "db' = db\<lparr>db_invites := sql_update (claimable (iv_id i))
                 (\<lambda>r. r\<lparr>iv_claimed_at := Some now, iv_claimed_by := Some u\<rparr>) (db_invites db)\<rparr>"
  | (lost) "fst out \<noteq> ClaimOk" "db' = db" "\<forall>q \<in> set (db_invites db). \<not> claimable (iv_id i) q"
proof (cases "sql_rowcount (claimable (iv_id i)) (db_invites db) = 0")
  case True
  with assms show thesis
    by (intro lost) (auto simp: claim_commit_def table_simps split: option.splits if_splits)
next
  case False
  let ?db = "db\<lparr>db_invites := sql_update (claimable (iv_id i))
                 (\<lambda>r. r\<lparr>iv_claimed_at := Some now, iv_claimed_by := Some u\<rparr>) (db_invites db)\<rparr>"
  have "out = (ClaimOk, Some (case get_by_id ?db (iv_id i) of None \<Rightarrow> i | Some r \<Rightarrow> r))" "db' = ?db"
    using assms False by (auto simp: claim_commit_def Let_def)
  moreover have "iv_id (case get_by_id ?db (iv_id i) of None \<Rightarrow> i | Some r \<Rightarrow> r) = iv_id i"
    by (auto simp: get_by_id_def split: option.splits dest: sql_fetchone_SomeD)
  moreover have "\<exists>q \<in> set (db_invites db). claimable (iv_id i) q"
    using False by (simp add: table_simps)
  ultimately show thesis by (intro won)
qed

section \<open>Revoked invites are final\<close>

text \<open>Any request that writes the table, run to completion.\<close>

datatype invite_op = OpClaim int string nat | OpRevoke int nat | OpMint env int string string string "string option" nat "int option"

fun invite_run :: "jwt_lib \<Rightarrow> string \<Rightarrow> invite_op \<Rightarrow> invite_db \<Rightarrow> invite_db" where
  "invite_run L secret (OpClaim now token u) db = snd (claim_invite L secret now token u db)"
| "invite_run L secret (OpRevoke now k) db = snd (revoke_invite now k db)"
| "invite_run L secret (OpMint env now jti email role target issuer ttl) db =
     (case mint_invite L secret env now jti email role target issuer ttl db of Inl _ \<Rightarrow> db | Inr (_, _, db') \<Rightarrow> db')"

lemma claimed_revoked_fixed:
  assumes "get_by_id db k = Some r" and "iv_revoked_at r \<noteq> None"
  shows "get_by_id (invite_run L secret op db) k = Some r"
proof (cases op)
  case (OpClaim now token u)
  show ?thesis
  proof (cases "claim_check L secret now token db")
    case (Inl x)
    with OpClaim assms show ?thesis by (simp add: claim_invite_def)
  next
    case (Inr i)
    obtain out db' where c: "claim_commit now u i db = (out, db')" by (cases "claim_commit now u i db")
    then have "get_by_id db' k = Some r"
      by (cases rule: claim_commit_cases) (use assms in \<open>auto simp: get_by_id_update claimable_def\<close>)
    with c Inr OpClaim show ?thesis by (simp add: claim_invite_def)
  qed
next
  case (OpRevoke now j)
  with assms show ?thesis
    by (auto simp: revoke_invite_def Let_def get_by_id_update split: option.splits)
next
  case (OpMint env now jti email role target issuer ttl)
  with assms get_by_id_mint show ?thesis by (fastforce split: sum.splits)
qed

interpretation revocation: lifecycle "invite_run L secret" "\<lambda>db. get_by_id db k"
  "\<lambda>r. case r of None \<Rightarrow> False | Some i \<Rightarrow> iv_revoked_at i \<noteq> None"
  for L secret k
  by unfold_locales (auto simp: claimed_revoked_fixed split: option.splits)

lemma minted_valid:
  assumes "mint_invite L secret env now jti email role target issuer ttl db = Inr (i, token, db')"
    and "jwt_accepts L secret (invite_claims email role (iv_target_l2_id i) now e jti)"
    and "iv_expires_at i = IsoAware e" and "jti \<noteq> []"
  shows "validate_invite_jwt L secret t token db'
    = (if t < e div US_PER_SECOND * US_PER_SECOND then Some i else None)"
proof -
  note m = mint_inviteD [OF assms(1)]
  have tok: "token = jwt_encode L secret (invite_claims email role (iv_target_l2_id i) now e jti)"
    using assms(1,3) by (auto simp: mint_invite_def Let_def sql_insert_def split: if_splits)
  have "get_by_jti db' jti = Some i"
    using m(1,4,8) by (auto simp: get_by_jti_def sql_fetchone_snoc image_iff split: option.split dest!: sql_fetchone_SomeD)
  moreover have "e div US_PER_SECOND * US_PER_SECOND \<le> e"
    by (simp add: US_PER_SECOND_def)
  ultimately show ?thesis
    using assms(2,4) m(5,7) assms(3)
    by (auto simp: validate_invite_jwt_def decode_invite_jwt_def tok jwt_accepts_def invite_claims_def
        invite_status_def)
qed

lemma validate_claims:
  assumes "validate_invite_jwt L secret now token db = Some i"
  shows "\<exists>r t. claim_invite L secret now token u db = ((ClaimOk, Some r), db\<lparr>db_invites := t\<rparr>)"
proof -
  from assms have check: "claim_check L secret now token db = Inr i"
    by (auto simp: claim_check_def validate_invite_jwt_def split: sum.splits option.splits if_splits)
  note i = claim_check_InrD [OF check]
  obtain out db' where c: "claim_commit now u i db = (out, db')" by (cases "claim_commit now u i db")
  then show ?thesis
  proof (cases rule: claim_commit_cases)
    case (won r)
    with c check show ?thesis by (auto simp: claim_invite_def)
  next
    case lost
    with i(1-3) show ?thesis by (auto simp: claimable_def)
  qed
qed

lemma validate_cong:
  "db_invites db' = db_invites db \<Longrightarrow> validate_invite_jwt L secret now token db' = validate_invite_jwt L secret now token db"
proof -
  assume "db_invites db' = db_invites db"
  then have "get_by_jti db' = get_by_jti db" by (intro ext) (simp add: get_by_jti_def)
  then show ?thesis by (simp only: validate_invite_jwt_def)
qed

lemma ensure_user_fresh:
  assumes "get_user db u = None"
  shows "\<exists>uid us n. ensure_user env hp now u pw role db = Inr (uid, db\<lparr>db_users := us, db_user_seq := n\<rparr>)
    \<and> (\<exists>r. get_user (db\<lparr>db_users := us, db_user_seq := n\<rparr>) u = Some r \<and> us_role r = role \<and> us_id r = uid)"
proof -
  define ten where "ten = (if strip (getenv env ''CQ_ENTERPRISE'' []) \<noteq> [] \<and> strip (getenv env ''CQ_GROUP'' []) \<noteq> []
     then (Some (strip (getenv env ''CQ_ENTERPRISE'' [])), Some (strip (getenv env ''CQ_GROUP'' []))) else (None, None))"
  obtain db' where c: "create_user now u (hp pw) role (fst ten) (snd ten) db = Inr db'"
    using create_user_fresh [OF assms] by blast
  then obtain us n where db': "db' = db\<lparr>db_users := us, db_user_seq := n\<rparr>"
    by (auto simp: create_user_def split: sum.splits)
  have g: "get_user db' u = Some (new_user now (db_user_seq db) u (hp pw) role (fst ten) (snd ten))"
    by (simp add: get_user_create [OF c])
  have "ensure_user env hp now u pw role db = Inr (db_user_seq db, db')"
    using assms c g unfolding ensure_user_def Let_def ten_def by (simp add: case_prod_beta)
  with g db' show ?thesis
    by (intro exI [of _ "db_user_seq db"] exI [of _ us] exI [of _ n]) (simp add: new_user_def)
qed

section \<open>Interleaved claims\<close>

text \<open>
  Requests run concurrently: the reads of one claim, its UPDATE, the
  transactions of others in between. A state holds the tables, the claims that
  have read but not yet written, and the outcomes so far.
\<close>

record claim_state =
  cs_db :: invite_db
  cs_pending :: "(nat \<times> invite) list"
  cs_log :: "(nat \<times> claim_outcome) list"

inductive claim_step :: "jwt_lib \<Rightarrow> string \<Rightarrow> claim_state \<Rightarrow> claim_state \<Rightarrow> bool" for L secret where
  refused: "claim_check L secret now token (cs_db s) = Inl out \<Longrightarrow>
    claim_step L secret s (s\<lparr>cs_log := cs_log s @ [(u, out)]\<rparr>)"
| read: "claim_check L secret now token (cs_db s) = Inr i \<Longrightarrow>
    claim_step L secret s (s\<lparr>cs_pending := (u, i) # cs_pending s\<rparr>)"
| commit: "(u, i) \<in> set (cs_pending s) \<Longrightarrow> claim_commit now u i (cs_db s) = (out, db') \<Longrightarrow>
    claim_step L secret s (s\<lparr>cs_db := db', cs_pending := remove1 (u, i) (cs_pending s), cs_log := cs_log s @ [(u, out)]\<rparr>)"
| revoke: "revoke_invite now k (cs_db s) = (r, db') \<Longrightarrow> claim_step L secret s (s\<lparr>cs_db := db'\<rparr>)"
| mint: "mint_invite L secret env now jti email role target issuer ttl (cs_db s) = Inr (i, token, db') \<Longrightarrow>
    claim_step L secret s (s\<lparr>cs_db := db'\<rparr>)"

fun wins :: "(nat \<times> claim_outcome) list \<Rightarrow> (nat \<times> nat) list" where
  "wins [] = []"
| "wins ((u, (k, i)) # log) =
     (case (k, i) of (ClaimOk, Some r) \<Rightarrow> (u, iv_id r) # wins log | _ \<Rightarrow> wins log)"

lemma wins_append: "wins (xs @ ys) = wins xs @ wins ys"
  by (induction xs rule: wins.induct) (auto split: claim_kind.splits option.splits)

definition race_inv :: "claim_state \<Rightarrow> bool" where
  "race_inv s \<longleftrightarrow> unique_key iv_id (db_invites (cs_db s))
     \<and> (\<forall>r \<in> set (db_invites (cs_db s)). iv_id r < db_invite_seq (cs_db s))
     \<and> distinct (map snd (wins (cs_log s)))
     \<and> (\<forall>(u, k) \<in> set (wins (cs_log s)). \<exists>r \<in> set (db_invites (cs_db s)).
           iv_id r = k \<and> iv_claimed_by r = Some u \<and> iv_claimed_at r \<noteq> None)"

lemma wins_lost: "fst out \<noteq> ClaimOk \<Longrightarrow> wins [(u, out)] = []"
  by (cases out) (auto split: claim_kind.splits option.splits)

lemma race_inv_frame:
  assumes "race_inv s" and "map iv_id (db_invites db') = map iv_id (db_invites (cs_db s))"
    and "db_invite_seq db' = db_invite_seq (cs_db s)"
    and keep: "\<And>r. r \<in> set (db_invites (cs_db s)) \<Longrightarrow> \<exists>q \<in> set (db_invites db').
      iv_id q = iv_id r \<and> iv_claimed_by q = iv_claimed_by r \<and> iv_claimed_at q = iv_claimed_at r"
  shows "race_inv (s\<lparr>cs_db := db'\<rparr>)"
proof -
  have "iv_id ` set (db_invites db') = iv_id ` set (db_invites (cs_db s))"
    using assms(2) by (metis set_map)
  moreover have "\<forall>k \<in> iv_id ` set (db_invites (cs_db s)). k < db_invite_seq (cs_db s)"
    using assms(1) by (simp add: race_inv_def)
  ultimately have "\<forall>k \<in> iv_id ` set (db_invites db'). k < db_invite_seq db'"
    using assms(3) by simp
  then have "\<forall>r \<in> set (db_invites db'). iv_id r < db_invite_seq db'" by simp
  moreover have "\<exists>q \<in> set (db_invites db'). iv_id q = k \<and> iv_claimed_by q = Some u \<and> iv_claimed_at q \<noteq> None"
    if "(u, k) \<in> set (wins (cs_log s))" for u k
  proof -
    from that assms(1) obtain r where r: "r \<in> set (db_invites (cs_db s))" "iv_id r = k"
      "iv_claimed_by r = Some u" "iv_claimed_at r \<noteq> None"
      by (fastforce simp: race_inv_def)
    from keep [OF r(1)] r show ?thesis by metis
  qed
  then have "\<forall>(u, k) \<in> set (wins (cs_log s)). \<exists>q \<in> set (db_invites db').
      iv_id q = k \<and> iv_claimed_by q = Some u \<and> iv_claimed_at q \<noteq> None"
    by blast
  ultimately show ?thesis using assms(1) by (simp add: race_inv_def unique_key_def assms(2))
qed

lemma race_inv_step:
  assumes "claim_step L secret s t" and "race_inv s"
  shows "race_inv t"
  using assms(1)
proof (cases rule: claim_step.cases)
  case (refused now token out u)
  from claim_check_InlD [OF refused(2)] have "wins [(u, out)] = []" by (simp add: wins_lost)
  with assms(2) refused(1) show ?thesis by (simp add: race_inv_def wins_append)
next
  case (read now token i u)
  with assms(2) show ?thesis by (simp add: race_inv_def)
next
  case (commit u i now out db')
  from commit(3) show ?thesis
  proof (cases rule: claim_commit_cases)
    case (won r)
    let ?inv = "db_invites (cs_db s)"
    from won(3) obtain q where q: "q \<in> set ?inv" "claimable (iv_id i) q" by blast
    have new: "(v, iv_id i) \<notin> set (wins (cs_log s))" for v
      using assms(2) q unique_key_eq [of iv_id ?inv q] by (fastforce simp: race_inv_def claimable_def)
    have "\<exists>p \<in> set (db_invites db'). iv_id p = k \<and> iv_claimed_by p = Some v \<and> iv_claimed_at p \<noteq> None"
      if "(v, k) \<in> set (wins (cs_log s)) \<or> (v, k) = (u, iv_id i)" for v k
    proof (cases "k = iv_id i")
      case True
      with that new have "v = u" by auto
      let ?p = "q\<lparr>iv_claimed_at := Some now, iv_claimed_by := Some u\<rparr>"
      have "?p \<in> set (db_invites db')" using q won(4) by (auto simp: in_sql_update)
      with True \<open>v = u\<close> q(2) show ?thesis by (intro bexI [of _ ?p]) (simp_all add: claimable_def)
    next
      case False
      with that assms(2) obtain p where "p \<in> set ?inv" "iv_id p = k" "iv_claimed_by p = Some v" "iv_claimed_at p \<noteq> None"
        by (fastforce simp: race_inv_def)
      with False won(4) show ?thesis by (intro bexI [of _ p]) (auto simp: table_simps claimable_def)
    qed
    moreover have "map iv_id (db_invites db') = map iv_id ?inv"
      using won(4) by (simp add: map_key_sql_update)
    moreover have "\<forall>r \<in> set (db_invites db'). iv_id r < db_invite_seq db'"
      using assms(2) won(4) by (auto simp: race_inv_def table_simps)
    moreover have "iv_id i \<notin> snd ` set (wins (cs_log s))" using new by auto
    ultimately show ?thesis
      using assms(2) commit(1) won(1,2) by (auto simp: race_inv_def wins_append unique_key_def)
  next
    case lost
    with assms(2) commit(1) show ?thesis by (simp add: race_inv_def wins_append wins_lost)
  qed
next
  case (revoke now k r db')
  let ?inv = "db_invites (cs_db s)" and ?f = "\<lambda>r. r\<lparr>iv_revoked_at := Some now\<rparr>"
  from revoke(2) have "db' = cs_db s
      \<or> db' = cs_db s\<lparr>db_invites := sql_update (\<lambda>r. iv_id r = k \<and> iv_revoked_at r = None) ?f ?inv\<rparr>"
    by (auto simp: revoke_invite_def Let_def split: option.splits if_splits)
  then have "race_inv (s\<lparr>cs_db := db'\<rparr>)"
  proof
    assume db': "db' = cs_db s\<lparr>db_invites := sql_update (\<lambda>r. iv_id r = k \<and> iv_revoked_at r = None) ?f ?inv\<rparr>"
    show ?thesis
    proof (rule race_inv_frame [OF assms(2)])
      fix r assume "r \<in> set ?inv"
      then have "(if iv_id r = k \<and> iv_revoked_at r = None then ?f r else r) \<in> set (db_invites db')"
        using db' sql_update_memI [of r ?inv "\<lambda>r. iv_id r = k \<and> iv_revoked_at r = None" ?f] by simp
      then show "\<exists>q \<in> set (db_invites db').
          iv_id q = iv_id r \<and> iv_claimed_by q = iv_claimed_by r \<and> iv_claimed_at q = iv_claimed_at r"
        by (rule bexI [rotated]) simp
    qed (use db' in \<open>simp_all add: map_key_sql_update\<close>)
  qed (use assms(2) in simp)
  with revoke(1) show ?thesis by simp
next
  case (mint env now jti email role target issuer ttl i token db')
  note m = mint_inviteD [OF mint(2)]
  from m(1-3) mint(1) assms(2) show ?thesis
    by (fastforce simp: race_inv_def unique_key_def)
qed

lemma race_inv_steps: "(claim_step L secret)\<^sup>*\<^sup>* s t \<Longrightarrow> race_inv s \<Longrightarrow> race_inv t"
  by (induction rule: rtranclp_induct) (auto intro: race_inv_step)

section \<open>Properties\<close>

text \<open>C5. However claims, revocations and mints interleave, the UPDATE lets each
  invite be claimed at most once, and the row names the user whose claim
  succeeded.\<close>

theorem invite_claimed_once:
  assumes "(claim_step L secret)\<^sup>*\<^sup>* s t" and "cs_log s = []"
    and "unique_key iv_id (db_invites (cs_db s))"
    and "\<forall>r \<in> set (db_invites (cs_db s)). iv_id r < db_invite_seq (cs_db s)"
  shows "distinct (map snd (wins (cs_log t)))
    \<and> list_all (\<lambda>(u, k). \<exists>r. get_by_id (cs_db t) k = Some r \<and> iv_claimed_by r = Some u) (wins (cs_log t))"
proof -
  have "race_inv s" using assms(2-4) by (simp add: race_inv_def)
  with assms(1) have inv: "race_inv t" by (rule race_inv_steps)
  have "\<exists>r. get_by_id (cs_db t) k = Some r \<and> iv_claimed_by r = Some u"
    if win: "(u, k) \<in> set (wins (cs_log t))" for u k
  proof -
    from win inv obtain r where r: "r \<in> set (db_invites (cs_db t))" "iv_id r = k" "iv_claimed_by r = Some u"
      by (fastforce simp: race_inv_def)
    with inv sql_fetchone_key [of iv_id "db_invites (cs_db t)" r] show ?thesis
      by (auto simp: race_inv_def get_by_id_def)
  qed
  with inv show ?thesis by (auto simp: race_inv_def list_all_iff)
qed

text \<open>
  A claim succeeds exactly when the claim page would have shown the invite:
  same token, same instant, same tables. After a success no token, at whatever
  time, validates to that invite again; a failure writes nothing.\<close>

theorem claim_ok_iff_valid:
  assumes "unique_key iv_id (db_invites db)"
  shows "case claim_invite L secret now token u db of
     ((k, iv), db') \<Rightarrow>
       (k = ClaimOk) = (validate_invite_jwt L secret now token db \<noteq> None)
       \<and> (if k = ClaimOk
          then \<forall>now' token'. map_option iv_id (validate_invite_jwt L secret now' token' db') \<noteq> map_option iv_id iv
          else db' = db)"
proof (cases "claim_check L secret now token db")
  case (Inl out)
  with claim_check_InlD [OF Inl] show ?thesis by (cases out) (simp add: claim_invite_def)
next
  case (Inr i)
  note i = claim_check_InrD [OF Inr]
  obtain out db' where c: "claim_commit now u i db = (out, db')" by (cases "claim_commit now u i db")
  have mine: "claimable (iv_id i) i" using i(2,3) by (simp add: claimable_def)
  from c show ?thesis
  proof (cases rule: claim_commit_cases)
    case (won r)
    have "iv_claimed_at q \<noteq> None" if "q \<in> set (db_invites db')" "iv_id q = iv_id i" for q
    proof -
      from that won(4) obtain p where p: "p \<in> set (db_invites db)"
        "q = (if claimable (iv_id i) p then p\<lparr>iv_claimed_at := Some now, iv_claimed_by := Some u\<rparr> else p)"
        by (auto simp: in_sql_update)
      then have "p = i" using that(2) unique_key_eq [OF assms _ i(1), of p] by (auto split: if_splits)
      with p mine show ?thesis by simp
    qed
    moreover have "q \<in> set (db_invites db') \<and> iv_claimed_at q = None"
      if "validate_invite_jwt L secret now' token' db' = Some q" for now' token' q
      using that by (auto simp: validate_invite_jwt_def get_by_jti_def invite_status_def
          split: sum.splits option.splits if_splits dest: sql_fetchone_SomeD)
    ultimately have "map_option iv_id (validate_invite_jwt L secret now' token' db') \<noteq> Some (iv_id i)" for now' token'
      by (cases "validate_invite_jwt L secret now' token' db'") fastforce+
    with won(1,2) c Inr i(4) show ?thesis by (simp add: claim_invite_def)
  next
    case lost
    with i(1) mine show ?thesis by blast
  qed
qed

text \<open>
  A revocation of an unclaimed invite is final: whatever claims, revocations
  and mints follow, the row stays as the revocation left it, unclaimed and with
  the first revocation time.\<close>

theorem revoked_invite_never_claimed:
  assumes "get_by_id db k = Some i" and "iv_revoked_at i = None" and "iv_claimed_at i = None"
  shows "get_by_id (fold (invite_run L secret) ops (snd (revoke_invite now k db))) k
    = Some (i\<lparr>iv_revoked_at := Some now\<rparr>)"
proof -
  have "iv_id i = k" using assms(1) by (auto simp: get_by_id_def dest: sql_fetchone_SomeD)
  then have "get_by_id (snd (revoke_invite now k db)) k = Some (i\<lparr>iv_revoked_at := Some now\<rparr>)"
    using assms by (simp add: revoke_invite_def Let_def get_by_id_update)
  with revocation.run_terminal [of "snd (revoke_invite now k db)" k L secret ops] show ?thesis by simp
qed

text \<open>
  A freshly minted invite validates from its token until the whole second
  of its expiry and never after.\<close>

theorem minted_invite_valid_until_expiry:
  assumes "mint_invite L secret env now jti email role target issuer ttl db = Inr (i, token, db')"
    and "jwt_accepts L secret (invite_claims email role (iv_target_l2_id i) now e jti)"
    and "iv_expires_at i = IsoAware e" and "jti \<noteq> []"
  shows "validate_invite_jwt L secret t token db'
    = (if t < e div US_PER_SECOND * US_PER_SECOND then Some i else None)"
  by (rule minted_valid [OF assms])

text \<open>
  On a configured L2 a new claimer's row carries the L2's own tenancy, and
  every write by that user resolves to the same pair, so the write path and the
  read paths that trust the row agree.\<close>

theorem claimed_user_tenancy_agrees:
  assumes "configured env = Some (e, g)" and "get_user db u = None"
    and "ensure_user env hp now u pw role db = Inr (uid, db')"
  shows "\<exists>r src. get_user db' u = Some r \<and> us_id r = uid \<and> us_role r = role
    \<and> us_enterprise_id r = e \<and> us_group_id r = g
    \<and> resolve_tenancy env (Some r) = (e, g, src) \<and> src \<noteq> ''default''"
proof -
  have eg: "e = strip (getenv env ''CQ_ENTERPRISE'' [])" "g = strip (getenv env ''CQ_GROUP'' [])" "e \<noteq> []" "g \<noteq> []"
    using assms(1) by (auto simp: configured_def Let_def split: if_splits)
  have "create_user now u (hp pw) role (Some e) (Some g) db = Inr db'"
    using assms(2,3) eg by (auto simp: ensure_user_def Let_def split: option.splits)
  from get_user_create [OF this, of u]
  have r: "get_user db' u = Some (new_user now (db_user_seq db) u (hp pw) role (Some e) (Some g))" by simp
  moreover from r assms(2,3) have "uid = db_user_seq db"
    by (auto simp: ensure_user_def Let_def split: option.splits prod.splits if_splits)
  moreover have "strip e = e" "strip g = g" using eg by simp_all
  ultimately show ?thesis
    using resolve_tenancy_configured [OF assms(1), of "get_user db' u"] eg(3,4)
    by (auto simp: new_user_def split: if_splits)
qed

section \<open>Witnesses\<close>

text \<open>A signer for one token.\<close>

definition demo_jwt :: "jwt_claims \<Rightarrow> jwt_lib" where
  "demo_jwt c = \<lparr>jwt_encode = (\<lambda>_ _. ''tok''),
     jwt_decode = (\<lambda>now _ aud iss t.
       if t \<noteq> ''tok'' then Inl JwtError
       else if jc_exp c * US_PER_SECOND \<le> now then Inl JwtExpired
       else if (aud \<noteq> None \<and> jc_aud c \<noteq> aud) \<or> (iss \<noteq> None \<and> jc_iss c \<noteq> iss) then Inl JwtError
       else Inr c)\<rparr>"

lemma demo_jwt_accepts: "jwt_accepts (demo_jwt c) secret c"
  by (simp add: jwt_accepts_def demo_jwt_def)

definition demo_claims :: jwt_claims where
  "demo_claims = invite_claims ''a@b'' ''user'' (Some ''acme/eng'') 0 (2 * US_PER_HOUR) ''j1''"

definition demo_invite_db :: invite_db where
  "demo_invite_db = \<lparr>db_users = [new_user ''t'' 1 ''ann'' ''h'' ''admin'' None None], db_user_seq = 2,
     db_invites = [], db_invite_seq = 1\<rparr>"

definition demo_invite :: invite where
  "demo_invite = \<lparr>iv_id = 1, iv_jti = ''j1'', iv_email = ''a@b'', iv_role = ''user'',
     iv_target_l2_id = Some ''acme/eng'', iv_issued_by = 1, iv_issued_at = 0,
     iv_expires_at = IsoAware (2 * US_PER_HOUR), iv_claimed_at = None, iv_claimed_by = None,
     iv_revoked_at = None\<rparr>"

definition demo_minted :: invite_db where
  "demo_minted = demo_invite_db\<lparr>db_invites := [demo_invite], db_invite_seq := 2\<rparr>"

lemma demo_mint:
  "mint_invite (demo_jwt demo_claims) ''s'' (\<lambda>_. None) 0 ''j1'' ''a@b'' ''user'' (Some ''acme/eng'') 1 (Some 2) demo_invite_db
    = Inr (demo_invite, ''tok'', demo_minted)"
  by (simp add: mint_invite_def Let_def demo_invite_db_def sql_insert_def demo_minted_def demo_invite_def demo_jwt_def)

theorem minted_invite_valid_until_expiry_witness:
  "validate_invite_jwt (demo_jwt demo_claims) ''s'' 5 ''tok'' demo_minted
    = (if 5 < 2 * US_PER_HOUR div US_PER_SECOND * US_PER_SECOND then Some demo_invite else None)"
  by (rule minted_invite_valid_until_expiry [OF demo_mint])
     (simp_all add: demo_invite_def demo_claims_def [symmetric] demo_jwt_accepts)

theorem claim_ok_iff_valid_witness:
  "case claim_invite (demo_jwt demo_claims) ''s'' 5 ''tok'' 1 demo_minted of
     ((k, iv), db') \<Rightarrow>
       (k = ClaimOk) = (validate_invite_jwt (demo_jwt demo_claims) ''s'' 5 ''tok'' demo_minted \<noteq> None)
       \<and> (if k = ClaimOk
          then \<forall>now' token'. map_option iv_id (validate_invite_jwt (demo_jwt demo_claims) ''s'' now' token' db') \<noteq> map_option iv_id iv
          else db' = demo_minted)"
  by (rule claim_ok_iff_valid) (simp add: demo_minted_def unique_key_def)

theorem revoked_invite_never_claimed_witness:
  "get_by_id (fold (invite_run (demo_jwt demo_claims) ''s'') [OpClaim 5 ''tok'' 1, OpRevoke 6 1]
      (snd (revoke_invite 3 1 demo_minted))) 1 = Some (demo_invite\<lparr>iv_revoked_at := Some 3\<rparr>)"
  by (rule revoked_invite_never_claimed)
     (simp_all add: demo_minted_def demo_invite_def get_by_id_def sql_fetchone_def)

text \<open>Two claims that both read before either writes: only the first commit wins.\<close>

definition demo_race :: claim_state where
  "demo_race = \<lparr>cs_db = demo_minted, cs_pending = [], cs_log = []\<rparr>"

definition demo_race2 :: claim_state where
  "demo_race2 = \<lparr>cs_db = demo_minted, cs_pending = [(8, demo_invite), (7, demo_invite)], cs_log = []\<rparr>"

definition demo_race4 :: claim_state where
  "demo_race4 =
     (let (o1, d1) = claim_commit 6 7 demo_invite demo_minted; (o2, d2) = claim_commit 6 8 demo_invite d1
      in \<lparr>cs_db = d2, cs_pending = [], cs_log = [(7, o1), (8, o2)]\<rparr>)"

lemma demo_race_run: "(claim_step (demo_jwt demo_claims) ''s'')\<^sup>*\<^sup>* demo_race demo_race4"
proof -
  let ?S = "claim_step (demo_jwt demo_claims) ''s''"
  have check: "claim_check (demo_jwt demo_claims) ''s'' 5 ''tok'' demo_minted = Inr demo_invite"
    by (simp add: claim_check_def decode_invite_jwt_def demo_jwt_def demo_claims_def invite_claims_def
        get_by_jti_def demo_minted_def demo_invite_def sql_fetchone_def invite_status_def US_PER_HOUR_def
        US_PER_SECOND_def INVITE_AUDIENCE_def INVITE_ISSUER_def)
  have "?S demo_race (demo_race\<lparr>cs_pending := [(7, demo_invite)]\<rparr>)"
    using claim_step.read [of "demo_jwt demo_claims" "''s''" 5 "''tok''" demo_race demo_invite 7] check
    by (simp add: demo_race_def)
  moreover have "?S (demo_race\<lparr>cs_pending := [(7, demo_invite)]\<rparr>) demo_race2"
    using claim_step.read [of "demo_jwt demo_claims" "''s''" 5 "''tok''" "demo_race\<lparr>cs_pending := [(7, demo_invite)]\<rparr>" demo_invite 8] check
    by (simp add: demo_race_def demo_race2_def)
  moreover obtain o1 d1 where 1: "claim_commit 6 7 demo_invite demo_minted = (o1, d1)" by (cases "claim_commit 6 7 demo_invite demo_minted")
  moreover obtain o2 d2 where 2: "claim_commit 6 8 demo_invite d1 = (o2, d2)" by (cases "claim_commit 6 8 demo_invite d1")
  moreover have "?S demo_race2 \<lparr>cs_db = d1, cs_pending = [(8, demo_invite)], cs_log = [(7, o1)]\<rparr>"
    using claim_step.commit [of 7 demo_invite demo_race2 6 o1 d1 "demo_jwt demo_claims" "''s''"] 1
    by (simp add: demo_race2_def)
  moreover have "?S \<lparr>cs_db = d1, cs_pending = [(8, demo_invite)], cs_log = [(7, o1)]\<rparr> demo_race4"
    using claim_step.commit [of 8 demo_invite "\<lparr>cs_db = d1, cs_pending = [(8, demo_invite)], cs_log = [(7, o1)]\<rparr>"
        6 o2 d2 "demo_jwt demo_claims" "''s''"] 1 2
    by (simp add: demo_race4_def)
  ultimately show ?thesis by (meson converse_rtranclp_into_rtranclp rtranclp.rtrancl_refl)
qed

theorem invite_claimed_once_witness:
  "distinct (map snd (wins (cs_log demo_race4)))
    \<and> list_all (\<lambda>(u, k). \<exists>r. get_by_id (cs_db demo_race4) k = Some r \<and> iv_claimed_by r = Some u) (wins (cs_log demo_race4))"
  by (rule invite_claimed_once [OF demo_race_run])
     (simp_all add: demo_race_def demo_minted_def demo_invite_def unique_key_def)

definition demo_env :: env where
  "demo_env v = (if v = ''CQ_ENTERPRISE'' then Some ''acme'' else if v = ''CQ_GROUP'' then Some ''eng'' else None)"

lemma demo_configured: "configured demo_env = Some (''acme'', ''eng'')"
  by code_simp

theorem claimed_user_tenancy_agrees_witness:
  "\<exists>r src. get_user (demo_invite_db\<lparr>db_users := db_users demo_invite_db @
        [new_user ''n'' 2 ''a@b'' ''pw'' ''l2_admin'' (Some ''acme'') (Some ''eng'')], db_user_seq := 3\<rparr>) ''a@b'' = Some r
    \<and> us_id r = 2 \<and> us_role r = ''l2_admin'' \<and> us_enterprise_id r = ''acme'' \<and> us_group_id r = ''eng''
    \<and> resolve_tenancy demo_env (Some r) = (''acme'', ''eng'', src) \<and> src \<noteq> ''default''"
  by (rule claimed_user_tenancy_agrees [OF demo_configured, where hp = id and now = "''n''" and pw = "''pw''" and db = demo_invite_db])
     (code_simp, code_simp)

end
