(* ===== verification/Auth.thy ===== *)
theory Auth imports Invites Crypto begin

text \<open>
  Who is calling: API key tokens (\<open>api_keys.py\<close>), their lifetimes (\<open>ttl.py\<close>) and
  rows (\<open>store/_sqlite.py\<close>), session JWTs and the cookie (\<open>auth.py\<close>,
  \<open>web_session.py\<close>), and the dispatch between them (\<open>auth._resolve_caller\<close>,
  \<open>deps.require_api_key\<close>). Instants are microseconds. The lemmas: a token decodes
  to what was encoded; a key authenticates its owner from creation to expiry or
  revocation and nobody afterwards; no invite token opens a session; the limit
  of active keys per user holds along any sequence of requests.
\<close>

section \<open>Lifetimes\<close>

definition ttl_unit :: "char \<Rightarrow> nat option" where
  "ttl_unit c = (if c = CHR ''s'' then Some 1 else if c = CHR ''m'' then Some 60
     else if c = CHR ''h'' then Some 3600 else if c = CHR ''d'' then Some 86400 else None)"

definition MAX_TTL_SECONDS :: nat where "MAX_TTL_SECONDS = 365 * 86400"

text \<open>Seconds, at most 365 days.\<close>

definition parse_ttl :: "string \<Rightarrow> py_exc + nat" where
  "parse_ttl v =
     (case rev v of
        [] \<Rightarrow> Inl ValueError
      | u # ds \<Rightarrow>
         (case ttl_unit u of
            None \<Rightarrow> Inl ValueError
          | Some k \<Rightarrow>
              if ds = [] \<or> (\<exists>c \<in> set ds. digit_value c = None) then Inl ValueError
              else (case dec_value 0 False (rev ds) of
                      None \<Rightarrow> Inl ValueError
                    | Some q \<Rightarrow> if q \<le> 0 then Inl ValueError
                               else if MAX_TTL_SECONDS < q * k then Inl ValueError
                               else Inr (q * k))))"

lemma parse_ttl_bounds: "parse_ttl v = Inr n \<Longrightarrow> 0 < n \<and> n \<le> MAX_TTL_SECONDS"
  by (auto simp: parse_ttl_def ttl_unit_def split: list.splits option.splits if_splits)

section \<open>Tokens\<close>

definition TOKEN_NAMESPACE :: string where "TOKEN_NAMESPACE = ''cqa''"
definition TOKEN_VERSION :: string where "TOKEN_VERSION = ''v1''"
definition SECRET_LENGTH :: nat where "SECRET_LENGTH = 52"
definition SECRET_ALPHABET :: string where "SECRET_ALPHABET = ''abcdefghijklmnopqrstuvwxyz234567''"

text \<open>Unpadded lowercase base32 over the bits, five at a time.\<close>

definition byte_bits :: "8 word \<Rightarrow> bool list" where
  "byte_bits b = map (\<lambda>i. odd (unat b div 2 ^ i)) [7, 6, 5, 4, 3, 2, 1, 0]"

definition bits_value :: "bool list \<Rightarrow> nat" where
  "bits_value bs = foldl (\<lambda>n b. 2 * n + (if b then 1 else 0)) 0 bs"

fun b32_chars :: "bool list \<Rightarrow> string" where
  "b32_chars (a # b # c # d # e # r) = SECRET_ALPHABET ! bits_value [a, b, c, d, e] # b32_chars r"
| "b32_chars [] = []"
| "b32_chars bs = [SECRET_ALPHABET ! bits_value (take 5 (bs @ [False, False, False, False]))]"

text \<open>The 32 random bytes are the argument.\<close>

definition generate_secret :: "bytes \<Rightarrow> string" where
  "generate_secret raw = b32_chars (concat (map byte_bits raw))"

definition valid_secret :: "string \<Rightarrow> bool" where
  "valid_secret s \<longleftrightarrow> length s = SECRET_LENGTH \<and> (\<forall>c \<in> set s. c \<in> set SECRET_ALPHABET)"

text \<open>A UUID is its number below \<open>2 ^ 128\<close>; \<open>uuid.hex\<close> is 32 digits.\<close>

fun hex_fixed :: "nat \<Rightarrow> nat \<Rightarrow> string" where
  "hex_fixed 0 n = []"
| "hex_fixed (Suc k) n = hex_fixed k (n div 16) @ [hex_digit (n mod 16)]"

definition uuid_hex :: "nat \<Rightarrow> string" where
  "uuid_hex n = hex_fixed 32 n"

fun hex_digits_value :: "nat \<Rightarrow> bool \<Rightarrow> string \<Rightarrow> nat option" where
  "hex_digits_value acc after_digit [] = (if after_digit then Some acc else None)"
| "hex_digits_value acc after_digit (c # s) =
     (if c = CHR ''_'' then (if after_digit then hex_digits_value acc False s else None)
      else (case hex_value c of None \<Rightarrow> None | Some d \<Rightarrow> hex_digits_value (16 * acc + d) True s))"

text \<open>\<open>int(s, 16)\<close>: whitespace, sign, an optional \<open>0x\<close> prefix, digits and single
  underscores.\<close>

definition int16 :: "string \<Rightarrow> int option" where
  "int16 s =
     (let t = strip s;
          (neg, u) = (case t of [] \<Rightarrow> (False, t) | c # r \<Rightarrow>
             if c = CHR ''-'' then (True, r) else if c = CHR ''+'' then (False, r) else (False, t));
          v = (if startswith u ''0x_'' \<or> startswith u ''0X_'' then drop 3 u
               else if startswith u ''0x'' \<or> startswith u ''0X'' then drop 2 u else u)
      in map_option (\<lambda>n. if neg then - int n else int n) (hex_digits_value 0 False v))"

fun remove_all :: "string \<Rightarrow> string \<Rightarrow> string" where
  "remove_all p [] = []"
| "remove_all p (c # s) =
     (if p \<noteq> [] \<and> startswith (c # s) p then remove_all p (drop (length p) (c # s)) else c # remove_all p s)"

definition strip_braces :: "string \<Rightarrow> string" where
  "strip_braces s = (let f = dropWhile (\<lambda>c. c = CHR ''{'' \<or> c = CHR ''}'') in rev (f (rev (f s))))"

text \<open>\<open>uuid.UUID(hex=s)\<close>.\<close>

definition uuid_parse :: "string \<Rightarrow> py_exc + nat" where
  "uuid_parse s =
     (let h = filter (\<lambda>c. c \<noteq> CHR ''-'') (strip_braces (remove_all ''uuid:'' (remove_all ''urn:'' s)))
      in if length h \<noteq> 32 then Inl ValueError
         else (case int16 h of
                 None \<Rightarrow> Inl ValueError
               | Some i \<Rightarrow> if 0 \<le> i \<and> i < 2 ^ 128 then Inr (nat i) else Inl ValueError))"

definition encode_token :: "nat \<Rightarrow> string \<Rightarrow> string" where
  "encode_token key_id secret = join_on (CHR ''.'') [TOKEN_NAMESPACE, TOKEN_VERSION, uuid_hex key_id, secret]"

definition decode_token :: "string \<Rightarrow> py_exc + nat \<times> string" where
  "decode_token token =
     (case split_on (CHR ''.'') token of
        [namespace, version, key_id_hex, secret] \<Rightarrow>
          if namespace \<noteq> TOKEN_NAMESPACE \<or> version \<noteq> TOKEN_VERSION then Inl ValueError
          else if \<not> valid_secret secret then Inl ValueError
          else bind_result (uuid_parse key_id_hex) (\<lambda>k. Inr (k, secret))
      | _ \<Rightarrow> Inl ValueError)"

definition hash_secret :: "'k prims \<Rightarrow> string \<Rightarrow> string \<Rightarrow> string" where
  "hash_secret C secret pepper = hex (hmac256 C (utf8 pepper) (utf8 secret))"

definition secret_prefix :: "string \<Rightarrow> string" where
  "secret_prefix secret = take 8 secret"

section \<open>Facts about tokens\<close>

lemma length_hex_fixed [simp]: "length (hex_fixed k n) = k"
  by (induction k arbitrary: n) auto

definition hex_chars :: string where
  "hex_chars = ''0123456789abcdef''"

lemma hex_digit_in: "n < 16 \<Longrightarrow> hex_digit n \<in> set hex_chars"
  unfolding hex_digit_def hex_chars_def by (rule nth_mem) simp

lemma set_hex_fixed: "c \<in> set (hex_fixed k n) \<Longrightarrow> c \<in> set hex_chars"
  by (induction k arbitrary: n) (auto simp: hex_digit_in)

lemma hex_chars_facts:
  "\<forall>d \<in> set hex_chars. d \<noteq> CHR ''_'' \<and> hex_value d \<noteq> None \<and> \<not> is_space d \<and> d \<noteq> CHR ''-'' \<and> d \<noteq> CHR ''+''
     \<and> d \<noteq> CHR ''x'' \<and> d \<noteq> CHR ''X'' \<and> d \<noteq> CHR ''u'' \<and> d \<noteq> CHR ''{'' \<and> d \<noteq> CHR ''}'' \<and> d \<noteq> CHR ''.''"
  by code_simp

lemma hex_digits_value_append:
  "\<forall>c \<in> set s. c \<in> set hex_chars \<Longrightarrow>
   hex_digits_value acc b (s @ t) = hex_digits_value (foldl (\<lambda>a c. 16 * a + the (hex_value c)) acc s) (s \<noteq> [] \<or> b) t"
proof (induction s arbitrary: acc b)
  case (Cons c s)
  from Cons.prems hex_chars_facts obtain v where "c \<noteq> CHR ''_''" "hex_value c = Some v" by fastforce
  with Cons.IH [of "16 * acc + v" True] Cons.prems show ?case by simp
qed simp

lemma foldl_hex_fixed:
  "foldl (\<lambda>a c. 16 * a + the (hex_value c)) acc (hex_fixed k n) = acc * 16 ^ k + n mod 16 ^ k"
proof (induction k arbitrary: n)
  case (Suc k)
  have "16 * ((n div 16) mod 16 ^ k) + n mod 16 = n mod (16 * 16 ^ k)"
    by (metis add.commute mod_mult2_eq mult.commute)
  with Suc show ?case by (simp add: hex_digit_facts algebra_simps)
qed simp

lemma dropWhile_none: "\<forall>c \<in> set s. \<not> P c \<Longrightarrow> dropWhile P s = s"
  by (cases s) auto

lemma no_braces: "\<forall>c \<in> set s. c \<in> set hex_chars \<Longrightarrow> strip_braces s = s"
  using hex_chars_facts unfolding strip_braces_def Let_def
  by (subst (1 2) dropWhile_none) auto

lemma remove_all_none: "x \<notin> set s \<Longrightarrow> remove_all (x # p) s = s"
  by (induction s) auto

lemma strip_id:
  assumes "s \<noteq> []" and "\<not> is_space (hd s)" and "\<not> is_space (last s)"
  shows "strip s = s"
proof -
  have "dropWhile is_space s = s" "dropWhile is_space (rev s) = rev s"
    using assms by (simp_all add: dropWhile_eq_self_iff hd_rev)
  then show ?thesis by (simp add: strip_def lstrip_def)
qed

lemma not_startswith: "x \<notin> set s \<Longrightarrow> x \<in> set p \<Longrightarrow> \<not> startswith s p"
  by (auto simp: startswith_iff)

lemma int16_hex_chars:
  assumes "s \<noteq> []" and all: "\<forall>c \<in> set s. c \<in> set hex_chars"
  shows "int16 s = map_option int (hex_digits_value 0 False s)"
proof -
  have "strip s = s"
    using assms hex_chars_facts by (intro strip_id) auto
  moreover obtain c r where s: "s = c # r" using assms(1) by (cases s) auto
  moreover have "c \<noteq> CHR ''-''" "c \<noteq> CHR ''+''" using all hex_chars_facts s by auto
  moreover have "CHR ''x'' \<notin> set s" "CHR ''X'' \<notin> set s" using all hex_chars_facts by blast+
  then have "\<not> startswith s ''0x_''" "\<not> startswith s ''0X_''" "\<not> startswith s ''0x''" "\<not> startswith s ''0X''"
    using not_startswith [of _ s] by (auto simp del: startswith.simps)
  ultimately show ?thesis by (simp add: int16_def Let_def del: startswith.simps hex_digits_value.simps)
qed

lemma uuid_parse_hex:
  assumes "k < 2 ^ 128"
  shows "uuid_parse (uuid_hex k) = Inr k"
proof -
  let ?s = "uuid_hex k"
  have all: "\<forall>c \<in> set ?s. c \<in> set hex_chars" using set_hex_fixed by (auto simp: uuid_hex_def)
  have len: "length ?s = 32" by (simp add: uuid_hex_def)
  then have ne: "?s \<noteq> []" by auto
  have "filter (\<lambda>c. c \<noteq> CHR ''-'') ?s = ?s"
    using all hex_chars_facts by (intro filter_True) blast
  moreover have "hex_digits_value 0 False (?s @ []) = Some k"
    unfolding hex_digits_value_append [OF all] using foldl_hex_fixed [of 0 32 k] assms ne
    by (simp add: uuid_hex_def)
  moreover have "CHR ''u'' \<notin> set ?s" using all hex_chars_facts by blast
  ultimately show ?thesis using assms len no_braces [OF all] int16_hex_chars [OF ne all]
    by (simp add: uuid_parse_def remove_all_none nat_less_iff)
qed

text \<open>A token decodes to the key id and secret it was made from.\<close>

lemma decode_encode_token:
  assumes "k < 2 ^ 128" and "valid_secret secret"
  shows "decode_token (encode_token k secret) = Inr (k, secret)"
proof -
  have "CHR ''.'' \<notin> set secret"
  proof -
    have "CHR ''.'' \<notin> set SECRET_ALPHABET" by code_simp
    with assms(2) show ?thesis unfolding valid_secret_def by blast
  qed
  moreover have "CHR ''.'' \<notin> set (uuid_hex k)"
    using set_hex_fixed [of "CHR ''.''"] hex_chars_facts unfolding uuid_hex_def by blast
  ultimately have "split_on (CHR ''.'') (encode_token k secret) = [TOKEN_NAMESPACE, TOKEN_VERSION, uuid_hex k, secret]"
    unfolding encode_token_def by (intro split_on_join_on) (auto simp: TOKEN_NAMESPACE_def TOKEN_VERSION_def)
  then show ?thesis using assms uuid_parse_hex by (simp add: decode_token_def)
qed

lemma bits_value_less: "length bs = 5 \<Longrightarrow> bits_value bs < 32"
  by (auto simp: bits_value_def length_Suc_conv numeral_eq_Suc)

lemma b32_chars_alphabet: "c \<in> set (b32_chars bs) \<Longrightarrow> c \<in> set SECRET_ALPHABET"
proof -
  have in5: "SECRET_ALPHABET ! bits_value xs \<in> set SECRET_ALPHABET" if "length xs = 5" for xs
    using bits_value_less [OF that] by (intro nth_mem) (simp add: SECRET_ALPHABET_def)
  show "c \<in> set (b32_chars bs) \<Longrightarrow> c \<in> set SECRET_ALPHABET"
    by (induction bs rule: b32_chars.induct) (auto simp: in5 numeral_eq_Suc)
qed

lemma length_b32_chars: "length (b32_chars bs) = (length bs + 4) div 5"
  by (induction bs rule: b32_chars.induct) auto

lemma valid_generate_secret: "length raw = 32 \<Longrightarrow> valid_secret (generate_secret raw)"
  using b32_chars_alphabet
  by (auto simp: valid_secret_def generate_secret_def length_b32_chars length_concat comp_def byte_bits_def
      SECRET_LENGTH_def sum_list_triv)

section \<open>The api_keys table\<close>

record key_row =
  ak_id :: string
  ak_user_id :: nat
  ak_name :: string
  ak_labels :: "string list"
  ak_key_prefix :: string
  ak_key_hash :: string
  ak_ttl :: string
  ak_expires_at :: int
  ak_created_at :: int
  ak_last_used_at :: "int option"
  ak_revoked_at :: "int option"

record auth_db = invite_db +
  db_api_keys :: "key_row list"

definition key_active :: "int \<Rightarrow> key_row \<Rightarrow> bool" where
  "key_active now k \<longleftrightarrow> ak_revoked_at k = None \<and> now < ak_expires_at k"

text \<open>The primary key, the unique hash and the foreign key each refuse the row.\<close>

definition create_api_key :: "int \<Rightarrow> string \<Rightarrow> nat \<Rightarrow> string \<Rightarrow> string list \<Rightarrow> string \<Rightarrow> string \<Rightarrow> string \<Rightarrow> int
    \<Rightarrow> 'a auth_db_scheme \<Rightarrow> py_exc + key_row \<times> 'a auth_db_scheme" where
  "create_api_key now key_id user_id name labels key_prefix key_hash ttl expires_at db =
     (let row = \<lparr>ak_id = key_id, ak_user_id = user_id, ak_name = name, ak_labels = labels,
                 ak_key_prefix = key_prefix, ak_key_hash = key_hash, ak_ttl = ttl,
                 ak_expires_at = expires_at, ak_created_at = now, ak_last_used_at = None, ak_revoked_at = None\<rparr>
      in if key_hash \<in> ak_key_hash ` set (db_api_keys db) \<or> user_id \<notin> us_id ` set (db_users db)
         then Inl IntegrityError
         else bind_result (sql_insert ak_id row (db_api_keys db)) (\<lambda>t. Inr (row, db\<lparr>db_api_keys := t\<rparr>)))"

definition count_active_api_keys :: "int \<Rightarrow> nat \<Rightarrow> 'a auth_db_scheme \<Rightarrow> nat" where
  "count_active_api_keys now user_id db =
     sql_rowcount (\<lambda>k. ak_user_id k = user_id \<and> key_active now k) (db_api_keys db)"

text \<open>The row joined with its owner's username.\<close>

definition get_active_api_key_by_id :: "int \<Rightarrow> string \<Rightarrow> 'a auth_db_scheme \<Rightarrow> (key_row \<times> string) option" where
  "get_active_api_key_by_id now key_id db =
     (case sql_fetchone (\<lambda>k. ak_id k = key_id) (db_api_keys db) of
        None \<Rightarrow> None
      | Some k \<Rightarrow>
          if \<not> key_active now k then None
          else map_option (\<lambda>u. (k, u)) (lookup_username db (ak_user_id k)))"

definition get_api_key_for_user :: "nat \<Rightarrow> string \<Rightarrow> 'a auth_db_scheme \<Rightarrow> key_row option" where
  "get_api_key_for_user user_id key_id db =
     sql_fetchone (\<lambda>k. ak_id k = key_id \<and> ak_user_id k = user_id) (db_api_keys db)"

definition list_api_keys_for_user :: "nat \<Rightarrow> 'a auth_db_scheme \<Rightarrow> key_row list" where
  "list_api_keys_for_user user_id db =
     order_desc ak_created_at (filter (\<lambda>k. ak_user_id k = user_id) (db_api_keys db))"

definition revoke_api_key :: "int \<Rightarrow> nat \<Rightarrow> string \<Rightarrow> 'a auth_db_scheme \<Rightarrow> bool \<times> 'a auth_db_scheme" where
  "revoke_api_key now user_id key_id db =
     (let P = (\<lambda>k. ak_id k = key_id \<and> ak_user_id k = user_id \<and> ak_revoked_at k = None)
      in (0 < sql_rowcount P (db_api_keys db),
          db\<lparr>db_api_keys := sql_update P (\<lambda>k. k\<lparr>ak_revoked_at := Some now\<rparr>) (db_api_keys db)\<rparr>))"

definition touch_api_key_last_used :: "int \<Rightarrow> string \<Rightarrow> 'a auth_db_scheme \<Rightarrow> 'a auth_db_scheme" where
  "touch_api_key_last_used now key_id db =
     db\<lparr>db_api_keys := sql_update (\<lambda>k. ak_id k = key_id) (\<lambda>k. k\<lparr>ak_last_used_at := Some now\<rparr>) (db_api_keys db)\<rparr>"

section \<open>Session tokens\<close>

definition SESSION_AUDIENCE :: string where "SESSION_AUDIENCE = ''session''"
definition SESSION_ISSUER :: string where "SESSION_ISSUER = ''8th-layer.ai''"

definition audless_tokens_enabled :: "env \<Rightarrow> bool" where
  "audless_tokens_enabled env =
     (case env ''CQ_DEPRECATED_AUDLESS_TOKENS'' of
        None \<Rightarrow> True
      | Some raw \<Rightarrow> lower raw \<notin> {''0'', ''false'', ''no''})"

definition create_token :: "jwt_lib \<Rightarrow> env \<Rightarrow> string \<Rightarrow> int \<Rightarrow> string \<Rightarrow> int \<Rightarrow> string option \<Rightarrow> string" where
  "create_token L env secret now username ttl_hours aud =
     (let self_l2 = self_l2_id env in
      jwt_encode L secret
        \<lparr>jc_sub = username,
         jc_iss = Some (if aud = None then self_l2 else SESSION_ISSUER),
         jc_aud = Some (case aud of None \<Rightarrow> self_l2 | Some a \<Rightarrow> a),
         jc_exp = (now + ttl_hours * US_PER_HOUR) div US_PER_SECOND, jc_iat = now div US_PER_SECOND,
         jc_jti = None, jc_role = None, jc_target_l2_id = None\<rparr>)"

definition verify_token :: "jwt_lib \<Rightarrow> env \<Rightarrow> string \<Rightarrow> int \<Rightarrow> string option \<Rightarrow> string \<Rightarrow> jwt_error + jwt_claims" where
  "verify_token L env secret now expected_aud token =
     (case expected_aud of
        None \<Rightarrow>
          bind_result (jwt_decode L now secret (Some (self_l2_id env)) (Some (self_l2_id env)) token) (\<lambda>c.
            if jc_iss c = None \<or> jc_aud c = None then Inl JwtError else Inr c)
      | Some expected \<Rightarrow>
          bind_result (jwt_decode L now secret None None token) (\<lambda>c.
            if jc_aud c = Some expected then Inr c
            else if jc_aud c \<noteq> None then
              (if expected = SESSION_AUDIENCE \<and> audless_tokens_enabled env
                  \<and> jc_aud c = Some (self_l2_id env) \<and> jc_iss c = Some (self_l2_id env)
               then Inr c else Inl JwtError)
            else if expected = SESSION_AUDIENCE \<and> audless_tokens_enabled env then Inr c
            else Inl JwtError))"

text \<open>None is the RuntimeError of an unset secret, a 500 in a handler.\<close>

definition get_jwt_secret :: "env \<Rightarrow> string option" where
  "get_jwt_secret env = (case env ''CQ_JWT_SECRET'' of None \<Rightarrow> None | Some s \<Rightarrow> if s = [] then None else Some s)"

definition session_ttl_hours :: "env \<Rightarrow> int" where
  "session_ttl_hours env =
     (let raw = getenv env ''CQ_SESSION_TTL_HOURS'' []
      in if raw = [] then 24
         else (case py_int raw of None \<Rightarrow> 24 | Some n \<Rightarrow> if n \<le> 0 then 24 else n))"

text \<open>The token \<open>mint_session_cookie\<close> returns and puts in the cookie.\<close>

definition mint_session :: "jwt_lib \<Rightarrow> env \<Rightarrow> string \<Rightarrow> int \<Rightarrow> string \<Rightarrow> string" where
  "mint_session L env secret now username =
     create_token L env secret now username (session_ttl_hours env) (Some SESSION_AUDIENCE)"

text \<open>The username behind a valid cookie.\<close>

definition read_session_from_cookie :: "jwt_lib \<Rightarrow> env \<Rightarrow> int \<Rightarrow> string option \<Rightarrow> http_exc + string option" where
  "read_session_from_cookie L env now cookie =
     (if \<not> truthy cookie then Inr None
      else (case get_jwt_secret env of
              None \<Rightarrow> Inl (HTTPException 500)
            | Some secret \<Rightarrow>
                (case verify_token L env secret now (Some SESSION_AUDIENCE) (the cookie) of
                   Inl _ \<Rightarrow> Inr None
                 | Inr c \<Rightarrow> Inr (if jc_sub c = [] then None else Some (jc_sub c)))))"

definition get_current_user_from_session :: "jwt_lib \<Rightarrow> env \<Rightarrow> int \<Rightarrow> string option \<Rightarrow> http_exc + string" where
  "get_current_user_from_session L env now cookie =
     bind_result (read_session_from_cookie L env now cookie) (\<lambda>s.
       case s of None \<Rightarrow> Inl (HTTPException 401) | Some u \<Rightarrow> Inr u)"

section \<open>Resolving the caller\<close>

record caller =
  ci_username :: string
  ci_api_key_id :: "string option"

text \<open>What a request and the server bring: the header and cookie, the pepper in
  the application state.\<close>

record auth_request =
  ar_authorization :: "string option"
  ar_cookie :: "string option"
  ar_pepper :: string

definition api_key_caller :: "'k prims \<Rightarrow> int \<Rightarrow> string \<Rightarrow> string \<Rightarrow> 'a auth_db_scheme \<Rightarrow> http_exc + caller" where
  "api_key_caller C now pepper token db =
     (case decode_token token of
        Inl _ \<Rightarrow> Inl (HTTPException 401)
      | Inr (key_id, secret) \<Rightarrow>
          if pepper = [] then Inl (HTTPException 500)
          else (case get_active_api_key_by_id now (uuid_hex key_id) db of
                  None \<Rightarrow> Inl (HTTPException 401)
                | Some (k, username) \<Rightarrow>
                    if ak_key_hash k \<noteq> hash_secret C secret pepper then Inl (HTTPException 401)
                    else Inr \<lparr>ci_username = username, ci_api_key_id = Some (ak_id k)\<rparr>))"

definition resolve_caller :: "jwt_lib \<Rightarrow> 'k prims \<Rightarrow> env \<Rightarrow> int \<Rightarrow> auth_request \<Rightarrow> 'a auth_db_scheme \<Rightarrow> http_exc + caller" where
  "resolve_caller L C env now req db =
     (let header = (case ar_authorization req of None \<Rightarrow> [] | Some h \<Rightarrow> h)
      in if \<not> startswith header ''Bearer '' then
           bind_result (read_session_from_cookie L env now (ar_cookie req)) (\<lambda>s.
             case s of None \<Rightarrow> Inl (HTTPException 401)
                     | Some u \<Rightarrow> Inr \<lparr>ci_username = u, ci_api_key_id = None\<rparr>)
         else let token = drop 7 header
         in if startswith token ''cqa.v1.'' then api_key_caller C now (ar_pepper req) token db
            else (case get_jwt_secret env of
                    None \<Rightarrow> Inl (HTTPException 500)
                  | Some secret \<Rightarrow>
                      (case verify_token L env secret now (Some SESSION_AUDIENCE) token of
                         Inl _ \<Rightarrow> Inl (HTTPException 401)
                       | Inr c \<Rightarrow> Inr \<lparr>ci_username = jc_sub c, ci_api_key_id = None\<rparr>)))"

text \<open>\<open>get_current_user\<close>: the caller, and the background write of the key's last use.\<close>

definition get_current_user :: "jwt_lib \<Rightarrow> 'k prims \<Rightarrow> env \<Rightarrow> int \<Rightarrow> auth_request \<Rightarrow> 'a auth_db_scheme
    \<Rightarrow> (http_exc + string) \<times> 'a auth_db_scheme" where
  "get_current_user L C env now req db =
     (case resolve_caller L C env now req db of
        Inl e \<Rightarrow> (Inl e, db)
      | Inr c \<Rightarrow> (Inr (ci_username c),
                  (case ci_api_key_id c of None \<Rightarrow> db | Some k \<Rightarrow> touch_api_key_last_used now k db)))"

text \<open>\<open>require_api_key\<close> takes API keys only.\<close>

definition require_api_key :: "'k prims \<Rightarrow> int \<Rightarrow> auth_request \<Rightarrow> 'a auth_db_scheme \<Rightarrow> (http_exc + string) \<times> 'a auth_db_scheme" where
  "require_api_key C now req db =
     (let header = (case ar_authorization req of None \<Rightarrow> [] | Some h \<Rightarrow> h)
      in if \<not> startswith header ''Bearer '' then (Inl (HTTPException 401), db)
         else (case api_key_caller C now (ar_pepper req) (drop 7 header) db of
                 Inl e \<Rightarrow> (Inl e, db)
               | Inr c \<Rightarrow> (Inr (ci_username c), touch_api_key_last_used now (the (ci_api_key_id c)) db)))"

section \<open>Key endpoints\<close>

definition MAX_ACTIVE_API_KEYS_PER_USER :: nat where "MAX_ACTIVE_API_KEYS_PER_USER = 20"

fun norm_labels :: "string list \<Rightarrow> string list \<Rightarrow> string list" where
  "norm_labels seen [] = []"
| "norm_labels seen (l # ls) =
     (let cleaned = strip l
      in if cleaned \<noteq> [] \<and> cleaned \<notin> set seen then cleaned # norm_labels (cleaned # seen) ls
         else norm_labels seen ls)"

definition normalise_labels :: "string list \<Rightarrow> string list" where
  "normalise_labels labels = norm_labels [] labels"

definition require_user_id :: "'a user_db_scheme \<Rightarrow> string \<Rightarrow> http_exc + nat" where
  "require_user_id db username =
     (case get_user db username of None \<Rightarrow> Inl (HTTPException 404) | Some u \<Rightarrow> Inr (us_id u))"

text \<open>The route after authentication; the uuid and the random bytes are arguments.
  It returns the row and the plaintext token.\<close>

definition create_api_key_route :: "'k prims \<Rightarrow> int \<Rightarrow> string \<Rightarrow> nat \<Rightarrow> bytes \<Rightarrow> string \<Rightarrow> string \<Rightarrow> string \<Rightarrow> string list
    \<Rightarrow> 'a auth_db_scheme \<Rightarrow> http_exc + (key_row \<times> string) \<times> 'a auth_db_scheme" where
  "create_api_key_route C now pepper key_id raw username name ttl labels db =
     (if pepper = [] then Inl (HTTPException 500)
      else if length name < 1 \<or> 64 < length name \<or> length ttl < 1 \<or> 16 < length ttl \<or> 16 < length labels
      then Inl (HTTPException 422)
      else (case parse_ttl ttl of
        Inl _ \<Rightarrow> Inl (HTTPException 422)
      | Inr duration \<Rightarrow>
          bind_result (require_user_id db username) (\<lambda>user_id.
            if MAX_ACTIVE_API_KEYS_PER_USER \<le> count_active_api_keys now user_id db then Inl (HTTPException 409)
            else let secret = generate_secret raw;
                     expires_at = now + int duration * US_PER_SECOND
            in (case create_api_key now (uuid_hex key_id) user_id name (normalise_labels labels)
                       (secret_prefix secret) (hash_secret C secret pepper) ttl expires_at db of
                  Inl _ \<Rightarrow> Inl (HTTPException 500)
                | Inr (row, db') \<Rightarrow> Inr ((row, encode_token key_id secret), db')))))"

definition list_api_keys_route :: "string \<Rightarrow> 'a auth_db_scheme \<Rightarrow> http_exc + key_row list" where
  "list_api_keys_route username db =
     bind_result (require_user_id db username) (\<lambda>i. Inr (list_api_keys_for_user i db))"

definition revoke_api_key_route :: "int \<Rightarrow> string \<Rightarrow> string \<Rightarrow> 'a auth_db_scheme \<Rightarrow> (http_exc + unit) \<times> 'a auth_db_scheme" where
  "revoke_api_key_route now username key_id db =
     (case require_user_id db username of
        Inl e \<Rightarrow> (Inl e, db)
      | Inr user_id \<Rightarrow>
          if get_api_key_for_user user_id key_id db = None then (Inl (HTTPException 404), db)
          else (Inr (), snd (revoke_api_key now user_id key_id db)))"

section \<open>Facts about keys\<close>

definition key_of :: "string \<Rightarrow> 'a auth_db_scheme \<Rightarrow> key_row option" where
  "key_of key_id db = sql_fetchone (\<lambda>k. ak_id k = key_id) (db_api_keys db)"

lemma create_api_keyD:
  assumes "create_api_key now kid uid name labels pre h ttl e db = Inr (row, db')"
  shows "db_api_keys db' = db_api_keys db @ [row]" and "db_users db' = db_users db"
    and "ak_id row = kid" and "ak_user_id row = uid" and "ak_key_hash row = h" and "ak_expires_at row = e"
    and "ak_revoked_at row = None" and "kid \<notin> ak_id ` set (db_api_keys db)"
  using assms by (auto simp: create_api_key_def Let_def table_simps split: if_splits)

lemma key_of_create:
  assumes "create_api_key now kid uid name labels pre h ttl e db = Inr (row, db')"
  shows "key_of k db' = (if k = kid then Some row else key_of k db)"
  using create_api_keyD [OF assms] sql_fetchone_insert [of ak_id row "db_api_keys db" "db_api_keys db'" k]
  by (simp add: key_of_def sql_insert_def)

lemma key_of_update:
  "(\<And>k. ak_id (f k) = ak_id k) \<Longrightarrow>
   key_of j (db\<lparr>db_api_keys := sql_update P f (db_api_keys db)\<rparr>)
     = map_option (\<lambda>k. if P k then f k else k) (key_of j db)"
  by (simp add: key_of_def sql_fetchone_update)

lemma get_active_key_of:
  "get_active_api_key_by_id now k db = Some (r, u) \<Longrightarrow> key_of k db = Some r \<and> key_active now r"
  by (auto simp: get_active_api_key_by_id_def key_of_def split: option.splits if_splits)

text \<open>A caller resolved by an API key has an active row.\<close>

lemma api_key_callerD:
  assumes "api_key_caller C now p tok db = Inr c"
  shows "\<exists>kid. ci_api_key_id c = Some kid \<and> get_active_api_key_by_id now kid db \<noteq> None"
proof -
  from assms obtain i k u where a: "get_active_api_key_by_id now i db = Some (k, u)"
    and c: "ci_api_key_id c = Some (ak_id k)"
    by (auto simp: api_key_caller_def split: sum.splits if_splits option.splits)
  from get_active_key_of [OF a] have "ak_id k = i"
    by (auto simp: key_of_def dest: sql_fetchone_SomeD)
  with a c show ?thesis by simp
qed

lemma resolve_caller_key:
  assumes "resolve_caller L C env now req db = Inr c" and "ci_api_key_id c = Some kid"
  shows "get_active_api_key_by_id now kid db \<noteq> None"
proof -
  from assms have "\<exists>tok. api_key_caller C now (ar_pepper req) tok db = Inr c"
    by (auto simp: resolve_caller_def Let_def split: if_splits sum.splits option.splits)
  with assms(2) api_key_callerD show ?thesis by fastforce
qed

lemma create_routeE:
  assumes "create_api_key_route C now pepper kid raw u name ttl labels db = Inr ((row, token), db')"
  obtains user d labels' where "get_user db u = Some user" "parse_ttl ttl = Inr d" "pepper \<noteq> []"
    "token = encode_token kid (generate_secret raw)"
    "count_active_api_keys now (us_id user) db < MAX_ACTIVE_API_KEYS_PER_USER"
    "create_api_key now (uuid_hex kid) (us_id user) name labels' (secret_prefix (generate_secret raw))
       (hash_secret C (generate_secret raw) pepper) ttl (now + int d * US_PER_SECOND) db = Inr (row, db')"
  using assms
  by (auto simp: create_api_key_route_def require_user_id_def Let_def not_le
      split: if_splits sum.splits option.splits)

text \<open>Requests on the table.\<close>

datatype 'k key_op =
    KCreate int string nat bytes string string string "string list"
  | KRevoke int string string
  | KTouch int string

fun key_run :: "'k prims \<Rightarrow> 'k key_op \<Rightarrow> auth_db \<Rightarrow> auth_db" where
  "key_run C (KCreate now pepper kid raw u name ttl labels) db =
     (case create_api_key_route C now pepper kid raw u name ttl labels db of Inl _ \<Rightarrow> db | Inr (_, db') \<Rightarrow> db')"
| "key_run C (KRevoke now u kid) db = snd (revoke_api_key_route now u kid db)"
| "key_run C (KTouch now kid) db = touch_api_key_last_used now kid db"

lemma revoked_key_fixed:
  assumes "key_of k db = Some r" and "ak_revoked_at r = Some t"
  shows "map_option ak_revoked_at (key_of k (key_run C op db)) = Some (Some t)"
proof (cases op)
  case (KCreate now pepper kid raw u name ttl labels)
  show ?thesis
  proof (cases "create_api_key_route C now pepper kid raw u name ttl labels db")
    case (Inl x)
    with KCreate assms show ?thesis by simp
  next
    case (Inr p)
    obtain row token db' where p: "p = ((row, token), db')" by (metis surj_pair)
    with Inr obtain uid l h d where c: "create_api_key now (uuid_hex kid) uid name l
        (secret_prefix (generate_secret raw)) h ttl d db = Inr (row, db')"
      by (auto elim: create_routeE)
    have "uuid_hex kid \<noteq> k"
      using create_api_keyD(8) [OF c] assms(1) by (auto simp: key_of_def dest!: sql_fetchone_SomeD)
    with key_of_create [OF c, of k] KCreate Inr p assms show ?thesis by simp
  qed
next
  case (KRevoke now u kid)
  with assms show ?thesis
    by (auto simp: revoke_api_key_route_def revoke_api_key_def Let_def key_of_update split: sum.splits)
next
  case (KTouch now kid)
  with assms show ?thesis by (simp add: touch_api_key_last_used_def key_of_update)
qed

interpretation key_revocation: lifecycle "key_run C" "\<lambda>db. map_option ak_revoked_at (key_of k db)"
  "\<lambda>r. \<exists>t. r = Some (Some t)" for C :: "'k prims" and k
  by unfold_locales (auto simp: revoked_key_fixed)

section \<open>The limit of active keys\<close>

text \<open>Requests in the order of the clock.\<close>

fun op_time :: "'k key_op \<Rightarrow> int" where
  "op_time (KCreate now _ _ _ _ _ _ _) = now"
| "op_time (KRevoke now _ _) = now"
| "op_time (KTouch now _) = now"

lemma count_active_mono: "t \<le> t' \<Longrightarrow> count_active_api_keys t' u db \<le> count_active_api_keys t u db"
  unfolding count_active_api_keys_def by (rule sql_rowcount_mono) (auto simp: key_active_def)

lemma active_limit_step:
  assumes "\<forall>u. count_active_api_keys (op_time op) u db \<le> MAX_ACTIVE_API_KEYS_PER_USER"
  shows "count_active_api_keys (op_time op) u (key_run C op db) \<le> MAX_ACTIVE_API_KEYS_PER_USER"
proof (cases op)
  case (KCreate now pepper kid raw un name ttl labels)
  show ?thesis
  proof (cases "create_api_key_route C now pepper kid raw un name ttl labels db")
    case (Inl x)
    with KCreate assms show ?thesis by simp
  next
    case (Inr p)
    obtain row token db' where p: "p = ((row, token), db')" by (metis surj_pair)
    with Inr obtain uid l h d where c: "create_api_key now (uuid_hex kid) uid name l
        (secret_prefix (generate_secret raw)) h ttl d db = Inr (row, db')"
      and lim: "count_active_api_keys now uid db < MAX_ACTIVE_API_KEYS_PER_USER"
      by (auto elim: create_routeE)
    from lim assms KCreate show ?thesis
      using create_api_keyD(1,4) [OF c] Inr p
      by (auto simp: count_active_api_keys_def sql_rowcount_snoc)
  qed
next
  case (KRevoke now un kid)
  have "count_active_api_keys now u (snd (revoke_api_key_route now un kid db)) \<le> count_active_api_keys now u db"
    by (auto simp: revoke_api_key_route_def revoke_api_key_def Let_def count_active_api_keys_def key_active_def
        split: sum.splits intro!: sql_rowcount_update_le)
  with KRevoke assms show ?thesis by (auto intro: order_trans)
next
  case (KTouch now kid)
  have "count_active_api_keys now u (touch_api_key_last_used now kid db) \<le> count_active_api_keys now u db"
    by (auto simp: touch_api_key_last_used_def count_active_api_keys_def key_active_def
        intro!: sql_rowcount_update_le)
  with KTouch assms show ?thesis by (auto intro: order_trans)
qed

lemma active_limit_run:
  "sorted (map op_time ops) \<Longrightarrow> \<forall>op \<in> set ops. t0 \<le> op_time op \<Longrightarrow> t0 \<le> t \<Longrightarrow> \<forall>op \<in> set ops. op_time op \<le> t \<Longrightarrow>
   \<forall>u. count_active_api_keys t0 u db \<le> MAX_ACTIVE_API_KEYS_PER_USER \<Longrightarrow>
   count_active_api_keys t u (fold (key_run C) ops db) \<le> MAX_ACTIVE_API_KEYS_PER_USER"
proof (induction ops arbitrary: t0 db)
  case Nil
  with count_active_mono [of t0 t u db] show ?case by (auto intro: order_trans)
next
  case (Cons op ops)
  have "\<forall>u. count_active_api_keys (op_time op) u db \<le> MAX_ACTIVE_API_KEYS_PER_USER"
    using Cons.prems(2,5) count_active_mono [of t0 "op_time op" _ db] by (auto intro: order_trans)
  then have "\<forall>u. count_active_api_keys (op_time op) u (key_run C op db) \<le> MAX_ACTIVE_API_KEYS_PER_USER"
    by (blast intro: active_limit_step)
  with Cons.IH [of "op_time op" "key_run C op db"] Cons.prems show ?case by auto
qed

section \<open>Properties\<close>

text \<open>
  The plaintext token of a new key authenticates its owner, under that key's
  id, at every instant before the expiry the TTL gives and at none after it; a
  cookie that comes along does not matter.\<close>

theorem new_key_authenticates_until_expiry:
  assumes "create_api_key_route C now pepper kid raw u name ttl labels db = Inr ((row, token), db')"
    and "kid < 2 ^ 128" and "length raw = 32" and "user_inv db"
  shows "resolve_caller L C env t \<lparr>ar_authorization = Some (''Bearer '' @ token), ar_cookie = ck, ar_pepper = pepper\<rparr> db'
      = (if t < ak_expires_at row then Inr \<lparr>ci_username = u, ci_api_key_id = Some (uuid_hex kid)\<rparr>
         else Inl (HTTPException 401))
    \<and> now < ak_expires_at row \<and> ak_expires_at row \<le> now + 365 * US_PER_DAY"
proof -
  from assms(1) obtain user d l where user: "get_user db u = Some user" and d: "parse_ttl ttl = Inr d"
    and pep: "pepper \<noteq> []" and tok: "token = encode_token kid (generate_secret raw)"
    and c: "create_api_key now (uuid_hex kid) (us_id user) name l (secret_prefix (generate_secret raw))
       (hash_secret C (generate_secret raw) pepper) ttl (now + int d * US_PER_SECOND) db = Inr (row, db')"
    by (rule create_routeE)
  note k = create_api_keyD [OF c]
  from user have "user \<in> set (db_users db')" "us_username user = u"
    using k(2) by (auto dest: get_user_SomeD)
  then have "lookup_username db' (us_id user) = Some u"
    using sql_fetchone_key [of us_id "db_users db'" user] assms(4) k(2)
    by (simp add: lookup_username_def user_inv_def)
  then have "get_active_api_key_by_id t (uuid_hex kid) db' = (if t < ak_expires_at row then Some (row, u) else None)"
    using key_of_create [OF c, of "uuid_hex kid"] k(4,7)
    by (simp add: get_active_api_key_by_id_def key_of_def key_active_def)
  moreover have "decode_token token = Inr (kid, generate_secret raw)"
    unfolding tok by (rule decode_encode_token [OF assms(2) valid_generate_secret [OF assms(3)]])
  moreover have "startswith token ''cqa.v1.''"
    by (simp add: tok encode_token_def TOKEN_NAMESPACE_def TOKEN_VERSION_def)
  moreover have "0 < d" "d \<le> 365 * 86400"
    using parse_ttl_bounds [OF d] by (simp_all add: MAX_TTL_SECONDS_def)
  ultimately show ?thesis
    using k(3,5,6) pep by (simp add: resolve_caller_def api_key_caller_def US_PER_DAY_def US_PER_SECOND_def)
qed

text \<open>C7. A revoked key is dead: after its owner revokes it, no sequence of
  requests brings it back, and no request at any time resolves to it.\<close>

theorem revoked_key_never_authenticates:
  assumes "key_of kid db = Some r" and "get_user db u = Some user" and "ak_user_id r = us_id user"
  shows "case resolve_caller L C env t req (fold (key_run C) ops (snd (revoke_api_key_route now u kid db))) of
     Inl _ \<Rightarrow> True
   | Inr c \<Rightarrow> ci_api_key_id c \<noteq> Some kid"
proof -
  let ?db = "snd (revoke_api_key_route now u kid db)"
  have r: "r \<in> set (db_api_keys db)" "ak_id r = kid"
    using assms(1) by (auto simp: key_of_def dest: sql_fetchone_SomeD)
  then have "get_api_key_for_user (us_id user) kid db \<noteq> None"
    using assms(3) by (auto simp: get_api_key_for_user_def table_simps)
  then have "?db = snd (revoke_api_key now (us_id user) kid db)"
    using assms(2) by (auto simp: revoke_api_key_route_def require_user_id_def)
  then have "\<exists>s. map_option ak_revoked_at (key_of kid ?db) = Some (Some s)"
    using assms(1,3) r(2) by (cases "ak_revoked_at r") (simp_all add: revoke_api_key_def Let_def key_of_update)
  then have "\<exists>s. map_option ak_revoked_at (key_of kid (fold (key_run C) ops ?db)) = Some (Some s)"
    using key_revocation.run_terminal [of kid ?db C ops] by metis
  then have "get_active_api_key_by_id t kid (fold (key_run C) ops ?db) = None"
    using get_active_key_of [of t kid "fold (key_run C) ops ?db"]
    by (cases "get_active_api_key_by_id t kid (fold (key_run C) ops ?db)") (auto simp: key_active_def)
  then show ?thesis
    using resolve_caller_key [of L C env t req "fold (key_run C) ops ?db" _ kid] by (auto split: sum.split)
qed

text \<open>
  Whatever requests run, one after the other and in the order of the clock,
  no user ever has more than the maximum of active keys.\<close>

theorem active_key_limit:
  assumes "sorted (map op_time ops)" and "\<forall>op \<in> set ops. op_time op \<le> t" and "db_api_keys db = []"
  shows "count_active_api_keys t u (fold (key_run C) ops db) \<le> MAX_ACTIVE_API_KEYS_PER_USER"
proof (cases ops)
  case Nil
  with assms(3) show ?thesis by (simp add: count_active_api_keys_def sql_rowcount_def)
next
  case (Cons op ops')
  then show ?thesis
    using assms by (intro active_limit_run [of ops "op_time op"])
      (auto simp: count_active_api_keys_def sql_rowcount_def)
qed

text \<open>
  An invite token never opens a session: signed with the server's own
  secret and not expired, it is refused as a cookie and as a bearer, in the
  grace period and after it.\<close>

theorem invite_token_is_no_session:
  assumes "jwt_accepts L secret c" and "jc_aud c = Some INVITE_AUDIENCE"
    and "get_jwt_secret env = Some secret" and "\<not> startswith (jwt_encode L secret c) ''cqa.v1.''"
  shows "resolve_caller L C env t \<lparr>ar_authorization = Some (''Bearer '' @ jwt_encode L secret c),
           ar_cookie = ck, ar_pepper = pepper\<rparr> db = Inl (HTTPException 401)
    \<and> get_current_user_from_session L env t (Some (jwt_encode L secret c)) = Inl (HTTPException 401)"
proof -
  have "self_l2_id env \<noteq> INVITE_AUDIENCE"
    using slash_in_self_l2_id [of env] by (auto simp: INVITE_AUDIENCE_def)
  then have "\<exists>e. verify_token L env secret t (Some SESSION_AUDIENCE) (jwt_encode L secret c) = Inl e"
    using assms(1,2) by (auto simp: verify_token_def jwt_accepts_def INVITE_AUDIENCE_def SESSION_AUDIENCE_def)
  with assms(3,4) show ?thesis
    by (auto simp: resolve_caller_def get_current_user_from_session_def read_session_from_cookie_def truthy_def)
qed

section \<open>Witnesses\<close>

definition demo_auth_db :: auth_db where
  "demo_auth_db = \<lparr>db_users = [new_user ''t'' 1 ''ann'' ''h'' ''user'' None None], db_user_seq = 2,
     db_invites = [], db_invite_seq = 1, db_api_keys = []\<rparr>"

lemma demo_ann: "get_user demo_auth_db ''ann'' = Some (new_user ''t'' 1 ''ann'' ''h'' ''user'' None None)"
  by (simp add: get_user_def demo_auth_db_def sql_fetchone_def)

definition demo_key :: key_row where
  "demo_key = \<lparr>ak_id = uuid_hex 5, ak_user_id = 1, ak_name = ''ci'', ak_labels = [],
     ak_key_prefix = secret_prefix (generate_secret (replicate 32 7)),
     ak_key_hash = hash_secret demo_prims (generate_secret (replicate 32 7)) ''pep'', ak_ttl = ''2h'',
     ak_expires_at = 7200 * US_PER_SECOND, ak_created_at = 0, ak_last_used_at = None, ak_revoked_at = None\<rparr>"

lemma parse_2h: "parse_ttl ''2h'' = Inr 7200"
  by (simp add: parse_ttl_def ttl_unit_def digit_value_def code_point_def MAX_TTL_SECONDS_def)

lemma demo_create_key:
  "create_api_key_route demo_prims 0 ''pep'' 5 (replicate 32 7) ''ann'' ''ci'' ''2h'' [] demo_auth_db
    = Inr ((demo_key, encode_token 5 (generate_secret (replicate 32 7))), demo_auth_db\<lparr>db_api_keys := [demo_key]\<rparr>)"
proof -
  have "count_active_api_keys 0 1 demo_auth_db = 0"
    by (simp add: count_active_api_keys_def demo_auth_db_def sql_rowcount_def)
  moreover have "normalise_labels [] = []" by (simp add: normalise_labels_def)
  ultimately show ?thesis
    by (simp add: create_api_key_route_def require_user_id_def demo_ann parse_2h Let_def
        MAX_ACTIVE_API_KEYS_PER_USER_def create_api_key_def sql_insert_def demo_key_def)
       (simp add: demo_auth_db_def)
qed

theorem new_key_authenticates_until_expiry_witness:
  "resolve_caller (demo_jwt demo_claims) demo_prims (\<lambda>_. None) 5
      \<lparr>ar_authorization = Some (''Bearer '' @ encode_token 5 (generate_secret (replicate 32 7))), ar_cookie = None, ar_pepper = ''pep''\<rparr>
      (demo_auth_db\<lparr>db_api_keys := [demo_key]\<rparr>)
    = (if 5 < ak_expires_at demo_key then Inr \<lparr>ci_username = ''ann'', ci_api_key_id = Some (uuid_hex 5)\<rparr>
       else Inl (HTTPException 401))
    \<and> 0 < ak_expires_at demo_key \<and> ak_expires_at demo_key \<le> 0 + 365 * US_PER_DAY"
  by (rule new_key_authenticates_until_expiry [OF demo_create_key])
     (simp_all add: user_inv_def demo_auth_db_def unique_key_def)

theorem revoked_key_never_authenticates_witness:
  "case resolve_caller (demo_jwt demo_claims) demo_prims (\<lambda>_. None) 9
      \<lparr>ar_authorization = Some (''Bearer '' @ encode_token 5 (generate_secret (replicate 32 7))), ar_cookie = None, ar_pepper = ''pep''\<rparr>
      (fold (key_run demo_prims) [KTouch 8 (uuid_hex 5)]
         (snd (revoke_api_key_route 7 ''ann'' (uuid_hex 5) (demo_auth_db\<lparr>db_api_keys := [demo_key]\<rparr>)))) of
     Inl _ \<Rightarrow> True
   | Inr c \<Rightarrow> ci_api_key_id c \<noteq> Some (uuid_hex 5)"
  by (rule revoked_key_never_authenticates [where r = demo_key and user = "new_user ''t'' 1 ''ann'' ''h'' ''user'' None None"])
     (simp_all add: key_of_def sql_fetchone_def demo_key_def get_user_def demo_auth_db_def)

theorem active_key_limit_witness:
  "count_active_api_keys 5 1 (fold (key_run demo_prims)
      [KCreate 0 ''pep'' 5 (replicate 32 7) ''ann'' ''ci'' ''2h'' [], KRevoke 3 ''ann'' (uuid_hex 5)] demo_auth_db)
    \<le> MAX_ACTIVE_API_KEYS_PER_USER"
  by (rule active_key_limit) (simp_all add: demo_auth_db_def)

theorem invite_token_is_no_session_witness:
  "resolve_caller (demo_jwt demo_claims) demo_prims (\<lambda>_. Some ''s'') 5
      \<lparr>ar_authorization = Some (''Bearer '' @ jwt_encode (demo_jwt demo_claims) ''s'' demo_claims),
       ar_cookie = None, ar_pepper = ''pep''\<rparr> demo_auth_db = Inl (HTTPException 401)
    \<and> get_current_user_from_session (demo_jwt demo_claims) (\<lambda>_. Some ''s'') 5
        (Some (jwt_encode (demo_jwt demo_claims) ''s'' demo_claims)) = Inl (HTTPException 401)"
  by (rule invite_token_is_no_session [OF demo_jwt_accepts])
     (simp_all add: demo_claims_def invite_claims_def get_jwt_secret_def demo_jwt_def)

end
