(* ===== verification/Personas.thy ===== *)
theory Personas imports Auth begin

text \<open>
  \<open>cq_server/persona_routes.py\<close>, the persona tables of \<open>store/_sqlite.py\<close>, the login
  and claim endpoints that consult them (\<open>auth.login\<close>,
  \<open>invite_routes.claim_invite_route\<close>) and \<open>agent_key_routes.py\<close>. The lemmas: the
  audit log replays to the table of assignments, the guard of the last admin
  and how it is bypassed, a disabled human gets no new session, and what role
  the invite of a new persona confers.
\<close>

section \<open>Tables\<close>

record persona_row =
  pa_username :: string
  pa_persona :: string
  pa_assigned_at :: int
  pa_assigned_by :: string
  pa_disabled_at :: "int option"

record persona_audit_row =
  pu_username :: string
  pu_old_persona :: "string option"
  pu_new_persona :: "string option"
  pu_changed_by :: string
  pu_action :: string

record persona_db = auth_db +
  db_personas :: "persona_row list"
  db_persona_audit :: "persona_audit_row list"

definition PERSONAS :: "string list" where
  "PERSONAS = [''admin'', ''viewer'', ''agent'', ''external-collaborator'']"

definition get_persona_assignment :: "'a persona_db_scheme \<Rightarrow> string \<Rightarrow> persona_row option" where
  "get_persona_assignment db u = sql_fetchone (\<lambda>p. pa_username p = u) (db_personas db)"

definition user_email_of :: "'a user_db_scheme \<Rightarrow> string \<Rightarrow> string option" where
  "user_email_of db u = (case get_user db u of None \<Rightarrow> None | Some r \<Rightarrow> us_email r)"

definition list_persona_assignments :: "nat \<Rightarrow> nat \<Rightarrow> 'a persona_db_scheme \<Rightarrow> (persona_row \<times> string option) list \<times> nat" where
  "list_persona_assignments limit offset db =
     (map (\<lambda>p. (p, user_email_of db (pa_username p))) (page limit offset (order_desc pa_assigned_at (db_personas db))),
      length (db_personas db))"

text \<open>\<open>INSERT ... ON CONFLICT(username) DO UPDATE\<close>, and the audit row of the same
  transaction.\<close>

definition upsert_persona_assignment :: "string \<Rightarrow> string \<Rightarrow> int \<Rightarrow> string \<Rightarrow> (string \<times> string option) option
    \<Rightarrow> 'a persona_db_scheme \<Rightarrow> 'a persona_db_scheme" where
  "upsert_persona_assignment username persona assigned_at assigned_by audit db =
     (let rows = (if get_persona_assignment db username = None
                  then db_personas db @ [\<lparr>pa_username = username, pa_persona = persona, pa_assigned_at = assigned_at,
                                          pa_assigned_by = assigned_by, pa_disabled_at = None\<rparr>]
                  else sql_update (\<lambda>p. pa_username p = username)
                         (\<lambda>p. p\<lparr>pa_persona := persona, pa_assigned_at := assigned_at,
                                pa_assigned_by := assigned_by, pa_disabled_at := None\<rparr>) (db_personas db))
      in db\<lparr>db_personas := rows,
            db_persona_audit := (case audit of
                 None \<Rightarrow> db_persona_audit db
               | Some (action, old) \<Rightarrow> db_persona_audit db @
                   [\<lparr>pu_username = username, pu_old_persona = old, pu_new_persona = Some persona,
                     pu_changed_by = assigned_by, pu_action = action\<rparr>])\<rparr>)"

definition disable_persona_assignment :: "string \<Rightarrow> int \<Rightarrow> (string \<times> string option) option \<Rightarrow> 'a persona_db_scheme
    \<Rightarrow> 'a persona_db_scheme" where
  "disable_persona_assignment username disabled_at audit db =
     db\<lparr>db_personas := sql_update (\<lambda>p. pa_username p = username) (\<lambda>p. p\<lparr>pa_disabled_at := Some disabled_at\<rparr>) (db_personas db),
        db_persona_audit := (case audit of
             None \<Rightarrow> db_persona_audit db
           | Some (changed_by, old) \<Rightarrow> db_persona_audit db @
               [\<lparr>pu_username = username, pu_old_persona = old, pu_new_persona = None,
                 pu_changed_by = changed_by, pu_action = ''DISABLED''\<rparr>])\<rparr>"

definition count_active_admins :: "'a persona_db_scheme \<Rightarrow> nat" where
  "count_active_admins db = sql_rowcount (\<lambda>p. pa_persona p = ''admin'' \<and> pa_disabled_at p = None) (db_personas db)"

definition count_invites_by_admin :: "string \<Rightarrow> int \<Rightarrow> 'a persona_db_scheme \<Rightarrow> nat" where
  "count_invites_by_admin admin since db =
     sql_rowcount (\<lambda>p. pa_assigned_by p = admin \<and> since \<le> pa_assigned_at p) (db_personas db)"

definition list_persona_audit :: "string \<Rightarrow> 'a persona_db_scheme \<Rightarrow> persona_audit_row list" where
  "list_persona_audit u db = filter (\<lambda>a. pu_username a = u) (db_persona_audit db)"

section \<open>Endpoints\<close>

text \<open>What a request brings from outside: the caller \<open>require_admin\<close> passed, the
  clock, the uuids and hashes, the mailer.\<close>

record persona_world =
  pw_admin :: string
  pw_now :: int
  pw_now_iso :: string
  pw_env :: env
  pw_stub_hash :: string
  pw_jti :: string
  pw_secret :: "string option"
  pw_mail :: mail_result

text \<open>The invite of a new persona, best-effort: whether it was sent, and its token.\<close>

definition persona_invite :: "jwt_lib \<Rightarrow> persona_world \<Rightarrow> string \<Rightarrow> 'a persona_db_scheme
    \<Rightarrow> (bool \<times> string option) \<times> 'a persona_db_scheme" where
  "persona_invite L w email db =
     (case pw_secret w of
        None \<Rightarrow> ((False, None), db)
      | Some secret \<Rightarrow>
         (case mint_invite L secret (pw_env w) (pw_now w) (pw_jti w) email ''enterprise_admin'' None
                 (case get_user db (pw_admin w) of None \<Rightarrow> 0 | Some a \<Rightarrow> us_id a) None db of
            Inl _ \<Rightarrow> ((False, None), db)
          | Inr (i, token, db') \<Rightarrow>
              (if pw_mail w = MailRaised then ((False, Some token), db') else ((True, Some token), db'))))"

text \<open>The stub user of a new assignment: created with its email unless the username
  exists; the exception, if any, and the tables as far as the writes got.\<close>

definition ensure_stub_user :: "persona_world \<Rightarrow> string \<Rightarrow> string \<Rightarrow> 'a persona_db_scheme
    \<Rightarrow> py_exc option \<times> 'a persona_db_scheme" where
  "ensure_stub_user w email username db =
     (if get_user db username \<noteq> None then (None, db)
      else (case create_user (pw_now_iso w) username (pw_stub_hash w) ''user'' None None db of
              Inl e \<Rightarrow> (Some e, db)
            | Inr db1 \<Rightarrow> (case set_user_email username email db1 of
                           Inl e \<Rightarrow> (Some e, db1) | Inr db2 \<Rightarrow> (None, db2))))"

definition create_persona :: "jwt_lib \<Rightarrow> persona_world \<Rightarrow> string \<Rightarrow> string \<Rightarrow> string \<Rightarrow> 'a persona_db_scheme
    \<Rightarrow> (http_exc + bool \<times> string option) \<times> 'a persona_db_scheme" where
  "create_persona L w email0 username persona db =
     (case email_shape email0 of
        None \<Rightarrow> (Inl (HTTPException 422), db)
      | Some email \<Rightarrow>
        if email0 = [] \<or> 320 < length email0 \<or> username = [] \<or> 64 < length username \<or> persona \<notin> set PERSONAS
        then (Inl (HTTPException 422), db)
        else if get_persona_assignment db username \<noteq> None then (Inl (HTTPException 409), db)
        else if 20 \<le> count_invites_by_admin (pw_admin w) (pw_now w - US_PER_HOUR) db then (Inl (HTTPException 429), db)
        else
          (case ensure_stub_user w email username db of
             (Some _, db1) \<Rightarrow> (Inl (HTTPException 500), db1)
           | (None, db1) \<Rightarrow>
               let db2 = upsert_persona_assignment username persona (pw_now w) (pw_admin w) (Some (''CREATED'', None)) db1;
                   (sent, db3) = persona_invite L w email db2
               in (Inr sent, db3)))"

definition patch_persona :: "persona_world \<Rightarrow> string \<Rightarrow> string \<Rightarrow> 'a persona_db_scheme \<Rightarrow> (http_exc + unit) \<times> 'a persona_db_scheme" where
  "patch_persona w username persona db =
     (if persona \<notin> set PERSONAS then (Inl (HTTPException 422), db)
      else (case get_persona_assignment db username of
        None \<Rightarrow> (Inl (HTTPException 404), db)
      | Some p \<Rightarrow>
          if pa_disabled_at p \<noteq> None then (Inl (HTTPException 409), db)
          else (Inr (), upsert_persona_assignment username persona (pw_now w) (pw_admin w)
                          (Some (''CHANGED'', Some (pa_persona p))) db)))"

definition disable_persona :: "persona_world \<Rightarrow> string \<Rightarrow> 'a persona_db_scheme \<Rightarrow> (http_exc + unit) \<times> 'a persona_db_scheme" where
  "disable_persona w username db =
     (case get_persona_assignment db username of
        None \<Rightarrow> (Inl (HTTPException 404), db)
      | Some p \<Rightarrow>
          if pa_disabled_at p \<noteq> None then (Inl (HTTPException 409), db)
          else if pa_persona p = ''admin'' \<and> count_active_admins db \<le> 1 then (Inl (HTTPException 409), db)
          else (Inr (), disable_persona_assignment username (pw_now w) (Some (pw_admin w, Some (pa_persona p))) db))"

section \<open>Opening a session\<close>

definition persona_disabled :: "'a persona_db_scheme \<Rightarrow> string \<Rightarrow> bool" where
  "persona_disabled db u =
     (case get_persona_assignment db u of None \<Rightarrow> False | Some p \<Rightarrow> pa_disabled_at p \<noteq> None)"

text \<open>\<open>POST /auth/login\<close>; \<open>verify_password\<close> is bcrypt's check.\<close>

definition login :: "jwt_lib \<Rightarrow> env \<Rightarrow> (string \<Rightarrow> string \<Rightarrow> bool) \<Rightarrow> int \<Rightarrow> string \<Rightarrow> string \<Rightarrow> 'a persona_db_scheme
    \<Rightarrow> http_exc + string" where
  "login L env verify_password now username password db =
     (case get_user db username of
        None \<Rightarrow> Inl (HTTPException 401)
      | Some u \<Rightarrow>
          if \<not> verify_password password (us_password_hash u) then Inl (HTTPException 401)
          else if persona_disabled db username then Inl (HTTPException 403)
          else (case get_jwt_secret env of
                  None \<Rightarrow> Inl (HTTPException 500)
                | Some secret \<Rightarrow> Inr (mint_session L env secret now username)))"

text \<open>\<open>POST /invites/{token}/claim\<close>: the token and username of the new session.\<close>

definition claim_invite_route :: "jwt_lib \<Rightarrow> env \<Rightarrow> (string \<Rightarrow> string) \<Rightarrow> int \<Rightarrow> string \<Rightarrow> string \<Rightarrow> string \<Rightarrow> 'a persona_db_scheme
    \<Rightarrow> (http_exc + string \<times> string) \<times> 'a persona_db_scheme" where
  "claim_invite_route L env hash_password now now_iso token password db =
     (if length password < 8 \<or> 128 < length password then (Inl (HTTPException 422), db)
      else (case get_jwt_secret env of
        None \<Rightarrow> (Inl (HTTPException 500), db)
      | Some secret \<Rightarrow>
         (case validate_invite_jwt L secret now token db of
            None \<Rightarrow> (Inl (invite_refusal L secret now 409 token db), db)
          | Some metadata \<Rightarrow>
             let username = iv_email metadata in
             (case ensure_user env hash_password now_iso username password (iv_role metadata) db of
                Inl _ \<Rightarrow> (Inl (HTTPException 500), db)
              | Inr (user_id, db1) \<Rightarrow>
                 (case claim_invite L secret now token user_id db1 of
                    ((ClaimOk, _), db2) \<Rightarrow>
                      if persona_disabled db2 username then (Inl (HTTPException 403), db2)
                      else (Inr (mint_session L env secret now username, username), db2)
                  | ((ClaimAlready, _), db2) \<Rightarrow> (Inl (HTTPException 409), db2)
                  | ((ClaimRevoked, _), db2) \<Rightarrow> (Inl (HTTPException 410), db2)
                  | ((ClaimExpired, _), db2) \<Rightarrow> (Inl (HTTPException 410), db2)
                  | ((ClaimNotFound, _), db2) \<Rightarrow> (Inl (HTTPException 404), db2))))))"

section \<open>Agent keys\<close>

definition is_alnum_lower :: "char \<Rightarrow> bool" where
  "is_alnum_lower c = (let n = code_point c in 48 \<le> n \<and> n \<le> 57 \<or> 97 \<le> n \<and> n \<le> 122)"

text \<open>\<open>re.sub("[^a-z0-9]+", "-", s)\<close>.\<close>

fun sub_hyphens :: "bool \<Rightarrow> string \<Rightarrow> string" where
  "sub_hyphens in_run [] = []"
| "sub_hyphens in_run (c # s) =
     (if is_alnum_lower c then c # sub_hyphens False s
      else if in_run then sub_hyphens True s else CHR ''-'' # sub_hyphens True s)"

definition strip_hyphens :: "string \<Rightarrow> string" where
  "strip_hyphens s = (let f = dropWhile (\<lambda>c. c = CHR ''-'') in rev (f (rev (f s))))"

definition slugify_agent_name :: "string \<Rightarrow> string option" where
  "slugify_agent_name agent_name =
     (let slug = strip_hyphens (take 48 (strip_hyphens (sub_hyphens False (lower (strip agent_name)))))
      in if slug = [] then None else Some slug)"

definition resolve_admin_tenancy :: "env \<Rightarrow> string \<Rightarrow> 'a user_db_scheme \<Rightarrow> string \<times> string" where
  "resolve_admin_tenancy env admin db =
     (let (e, g, _) = resolve_tenancy env (get_user db admin) in (e, g))"

definition HARNESSES :: "string list" where
  "HARNESSES = [''claude-code'', ''claude-desktop'', ''openclaw'', ''other'']"

text \<open>The user, the assignment and the key, each its own transaction; the plaintext
  token, the agent's username and tenancy are returned.\<close>

definition mint_agent_key :: "'k prims \<Rightarrow> persona_world \<Rightarrow> string \<Rightarrow> nat \<Rightarrow> bytes \<Rightarrow> string \<Rightarrow> string \<Rightarrow> string
    \<Rightarrow> 'a persona_db_scheme \<Rightarrow> (http_exc + string \<times> string \<times> string \<times> string) \<times> 'a persona_db_scheme" where
  "mint_agent_key C w pepper key_id raw agent_name harness ttl db =
     (if pepper = [] then (Inl (HTTPException 500), db)
      else if length agent_name < 1 \<or> 64 < length agent_name \<or> length ttl < 1 \<or> 16 < length ttl
        \<or> harness \<notin> set HARNESSES then (Inl (HTTPException 422), db)
      else (case parse_ttl ttl of
        Inl _ \<Rightarrow> (Inl (HTTPException 422), db)
      | Inr duration \<Rightarrow>
        (case slugify_agent_name agent_name of
          None \<Rightarrow> (Inl (HTTPException 422), db)
        | Some slug \<Rightarrow>
          let username = ''agent-'' @ slug in
          if get_user db username \<noteq> None then (Inl (HTTPException 409), db)
          else let (ent, grp) = resolve_admin_tenancy (pw_env w) (pw_admin w) db in
          (case create_user (pw_now_iso w) username (pw_stub_hash w) ''user'' (Some ent) (Some grp) db of
            Inl _ \<Rightarrow> (Inl (HTTPException 409), db)
          | Inr db1 \<Rightarrow>
            let db2 = upsert_persona_assignment username ''agent'' (pw_now w) (pw_admin w) (Some (''CREATED'', None)) db1 in
            (case get_user db2 username of
              None \<Rightarrow> (Inl (HTTPException 500), db2)
            | Some nu \<Rightarrow>
              let secret = generate_secret raw in
              (case create_api_key (pw_now w) (uuid_hex key_id) (us_id nu) agent_name
                      [''harness:'' @ harness, ''persona:agent''] (secret_prefix secret)
                      (hash_secret C secret pepper) ttl (pw_now w + int duration * US_PER_SECOND) db2 of
                 Inl _ \<Rightarrow> (Inl (HTTPException 500), db2)
               | Inr (row, db3) \<Rightarrow> (Inr (encode_token key_id secret, username, ent, grp), db3)))))))"

definition list_agent_api_keys :: "string \<Rightarrow> string \<Rightarrow> 'a persona_db_scheme \<Rightarrow> (key_row \<times> string) list" where
  "list_agent_api_keys ent grp db =
     (let owner = (\<lambda>k. sql_fetchone (\<lambda>u. us_id u = ak_user_id k) (db_users db));
          keep = (\<lambda>k. case owner k of
                        None \<Rightarrow> False
                      | Some u \<Rightarrow> (case get_persona_assignment db (us_username u) of
                                    None \<Rightarrow> False | Some p \<Rightarrow> pa_persona p = ''agent'')
                                \<and> us_enterprise_id u = ent \<and> us_group_id u = grp)
      in map (\<lambda>k. (k, us_username (the (owner k)))) (order_desc ak_created_at (filter keep (db_api_keys db))))"

definition list_agent_keys :: "env \<Rightarrow> string \<Rightarrow> 'a persona_db_scheme \<Rightarrow> (key_row \<times> string) list" where
  "list_agent_keys env admin db =
     (let (ent, grp) = resolve_admin_tenancy env admin db in list_agent_api_keys ent grp db)"

section \<open>What the audit log records\<close>

type_synonym persona_view = "string \<Rightarrow> (string \<times> bool) option"

text \<open>The abstract state: a username's persona and whether it is active.\<close>

definition persona_view :: "'a persona_db_scheme \<Rightarrow> persona_view" where
  "persona_view db u = map_option (\<lambda>p. (pa_persona p, pa_disabled_at p = None)) (get_persona_assignment db u)"

definition apply_audit :: "persona_audit_row \<Rightarrow> persona_view \<Rightarrow> persona_view" where
  "apply_audit a m =
     (case pu_new_persona a of
        Some p \<Rightarrow> m(pu_username a \<mapsto> (p, True))
      | None \<Rightarrow> (case m (pu_username a) of None \<Rightarrow> m | Some (p, _) \<Rightarrow> m(pu_username a \<mapsto> (p, False))))"

text \<open>Every row names the persona its user had at that point of the log.\<close>

fun audit_consistent :: "persona_view \<Rightarrow> persona_audit_row list \<Rightarrow> bool" where
  "audit_consistent m [] = True"
| "audit_consistent m (a # as) =
     (pu_old_persona a = map_option fst (m (pu_username a)) \<and> audit_consistent (apply_audit a m) as)"

lemma audit_consistent_snoc:
  "audit_consistent m (as @ [a]) \<longleftrightarrow>
   audit_consistent m as \<and> pu_old_persona a = map_option fst (fold apply_audit as m (pu_username a))"
  by (induction as arbitrary: m) auto

lemma get_persona_upsert:
  "get_persona_assignment (upsert_persona_assignment u p t who a db) v =
     (if v = u then Some \<lparr>pa_username = u, pa_persona = p, pa_assigned_at = t, pa_assigned_by = who, pa_disabled_at = None\<rparr>
      else get_persona_assignment db v)"
proof (cases "get_persona_assignment db u")
  case None
  then show ?thesis
    by (auto simp: upsert_persona_assignment_def Let_def get_persona_assignment_def sql_fetchone_snoc split: option.split)
next
  case (Some q)
  then have "pa_username q = u" by (auto simp: get_persona_assignment_def dest: sql_fetchone_SomeD)
  with Some show ?thesis
    by (auto simp: upsert_persona_assignment_def Let_def get_persona_assignment_def sql_fetchone_update
        map_option_case split: option.split dest!: sql_fetchone_SomeD)
qed

lemma persona_view_upsert: "persona_view (upsert_persona_assignment u p t who a db) = (persona_view db)(u \<mapsto> (p, True))"
  by (rule ext) (simp add: persona_view_def get_persona_upsert)

lemma get_persona_disable:
  "get_persona_assignment (disable_persona_assignment u t a db) v =
     map_option (\<lambda>p. if v = u then p\<lparr>pa_disabled_at := Some t\<rparr> else p) (get_persona_assignment db v)"
  by (auto simp: disable_persona_assignment_def get_persona_assignment_def sql_fetchone_update
      split: option.split dest!: sql_fetchone_SomeD intro!: option.map_cong)

lemma create_user_personas:
  "create_user now u ph role e g db = Inr db' \<Longrightarrow>
   db_personas db' = db_personas db \<and> db_persona_audit db' = db_persona_audit db"
  by (auto simp: create_user_def split: sum.splits)

lemma set_user_email_personas:
  "set_user_email u e db = Inr db' \<Longrightarrow> db_personas db' = db_personas db \<and> db_persona_audit db' = db_persona_audit db"
  by (auto simp: set_user_email_def split: if_splits)

lemma get_user_set_email: "set_user_email u e db = Inr db' \<Longrightarrow> (get_user db' v = None) = (get_user db v = None)"
  by (auto simp: set_user_email_def get_user_def sql_fetchone_update split: if_splits)

lemma persona_invite_personas:
  "persona_invite L w email db = (r, db') \<Longrightarrow>
   db_personas db' = db_personas db \<and> db_persona_audit db' = db_persona_audit db \<and> db_users db' = db_users db"
  by (auto simp: persona_invite_def mint_invite_def Let_def split: option.splits sum.splits if_splits prod.splits)

lemma create_api_key_personas:
  "create_api_key now kid uid name l pre h ttl e db = Inr (row, db') \<Longrightarrow>
   db_personas db' = db_personas db \<and> db_persona_audit db' = db_persona_audit db \<and> db_users db' = db_users db"
  by (auto simp: create_api_key_def Let_def split: if_splits)

text \<open>The requests that change personas.\<close>

datatype 'k persona_op =
    PCreate jwt_lib persona_world string string string
  | PPatch persona_world string string
  | PDisable persona_world string
  | PMintAgent "'k prims" persona_world string nat bytes string string string

fun persona_run :: "'k persona_op \<Rightarrow> persona_db \<Rightarrow> persona_db" where
  "persona_run (PCreate L w email u p) db = snd (create_persona L w email u p db)"
| "persona_run (PPatch w u p) db = snd (patch_persona w u p db)"
| "persona_run (PDisable w u) db = snd (disable_persona w u db)"
| "persona_run (PMintAgent C w pepper kid raw name harness ttl) db = snd (mint_agent_key C w pepper kid raw name harness ttl db)"

definition persona_inv :: "persona_db \<Rightarrow> bool" where
  "persona_inv db \<longleftrightarrow> persona_view db = fold apply_audit (db_persona_audit db) Map.empty
     \<and> audit_consistent Map.empty (db_persona_audit db)
     \<and> (\<forall>u. get_persona_assignment db u \<noteq> None \<longrightarrow> get_user db u \<noteq> None)"

text \<open>Changes that leave personas alone and lose no user.\<close>

lemma persona_inv_cong:
  assumes "persona_inv db" and "db_personas db' = db_personas db" and "db_persona_audit db' = db_persona_audit db"
    and "\<And>u. get_user db u \<noteq> None \<Longrightarrow> get_user db' u \<noteq> None"
  shows "persona_inv db'"
proof -
  have "get_persona_assignment db' = get_persona_assignment db"
    using assms(2) by (intro ext) (simp add: get_persona_assignment_def)
  then show ?thesis using assms unfolding persona_inv_def persona_view_def by auto
qed

lemma persona_inv_upsert:
  assumes "persona_inv db" and "get_user db u \<noteq> None" and "map_option fst (persona_view db u) = old"
  shows "persona_inv (upsert_persona_assignment u p t who (Some (act, old)) db)"
proof -
  let ?db = "upsert_persona_assignment u p t who (Some (act, old)) db"
  have audit: "db_persona_audit ?db = db_persona_audit db @ [\<lparr>pu_username = u, pu_old_persona = old,
      pu_new_persona = Some p, pu_changed_by = who, pu_action = act\<rparr>]"
    by (simp add: upsert_persona_assignment_def Let_def)
  have users: "get_user ?db v = get_user db v" for v
    by (simp add: upsert_persona_assignment_def Let_def get_user_def)
  show ?thesis
    using assms unfolding persona_inv_def
    by (auto simp: audit users persona_view_upsert apply_audit_def audit_consistent_snoc get_persona_upsert
        split: if_splits)
qed

lemma persona_inv_disable:
  assumes "persona_inv db" and "get_persona_assignment db u = Some q"
  shows "persona_inv (disable_persona_assignment u t (Some (who, Some (pa_persona q))) db)"
proof -
  let ?db = "disable_persona_assignment u t (Some (who, Some (pa_persona q))) db"
  have audit: "db_persona_audit ?db = db_persona_audit db @ [\<lparr>pu_username = u, pu_old_persona = Some (pa_persona q),
      pu_new_persona = None, pu_changed_by = who, pu_action = ''DISABLED''\<rparr>]"
    by (simp add: disable_persona_assignment_def)
  have users: "get_user ?db v = get_user db v" for v
    by (simp add: disable_persona_assignment_def get_user_def)
  have q: "persona_view db u = Some (pa_persona q, pa_disabled_at q = None)"
    using assms(2) by (simp add: persona_view_def)
  have "persona_view ?db = (persona_view db)(u \<mapsto> (pa_persona q, False))"
    using assms(2) by (intro ext) (auto simp: persona_view_def get_persona_disable map_option_case split: option.split)
  with assms q show ?thesis unfolding persona_inv_def
    by (auto simp: audit users apply_audit_def audit_consistent_snoc get_persona_disable)
qed

lemma ensure_stub_user_keeps:
  assumes "ensure_stub_user w email u db = (e, db1)"
  shows "db_personas db1 = db_personas db" and "db_persona_audit db1 = db_persona_audit db"
    and "get_user db v \<noteq> None \<Longrightarrow> get_user db1 v \<noteq> None" and "e = None \<Longrightarrow> get_user db1 u \<noteq> None"
proof -
  have "db_personas db1 = db_personas db \<and> db_persona_audit db1 = db_persona_audit db
    \<and> (get_user db v \<noteq> None \<longrightarrow> get_user db1 v \<noteq> None) \<and> (e = None \<longrightarrow> get_user db1 u \<noteq> None)" for v
  proof (cases "get_user db u")
    case (Some r)
    with assms show ?thesis by (auto simp: ensure_stub_user_def)
  next
    case None
    show ?thesis
    proof (cases "create_user (pw_now_iso w) u (pw_stub_hash w) ''user'' None None db")
      case (Inl x)
      with None assms show ?thesis by (auto simp: ensure_stub_user_def)
    next
      case c: (Inr d)
      show ?thesis
      proof (cases "set_user_email u email d")
        case (Inl x)
        with None assms c have "db1 = d" "e = Some x" by (simp_all add: ensure_stub_user_def)
        with create_user_personas [OF c] show ?thesis by (simp add: get_user_create [OF c])
      next
        case (Inr d')
        with None assms c have "db1 = d'" by (simp add: ensure_stub_user_def)
        with set_user_email_personas [OF Inr] get_user_set_email [OF Inr] create_user_personas [OF c]
        show ?thesis by (simp add: get_user_create [OF c])
      qed
    qed
  qed
  from this [of v] show "db_personas db1 = db_personas db" "db_persona_audit db1 = db_persona_audit db"
    "get_user db v \<noteq> None \<Longrightarrow> get_user db1 v \<noteq> None" "e = None \<Longrightarrow> get_user db1 u \<noteq> None" by simp_all
qed

lemma create_persona_cases:
  obtains (stay) e where "create_persona L w em u p db = (Inl e, db)"
  | (failed) email e db1 where "ensure_stub_user w email u db = (Some e, db1)"
      "create_persona L w em u p db = (Inl (HTTPException 500), db1)"
  | (ok) email db1 where "email_shape em = Some email" "get_persona_assignment db u = None"
      "ensure_stub_user w email u db = (None, db1)"
      "create_persona L w em u p db = map_prod Inr id (persona_invite L w email
         (upsert_persona_assignment u p (pw_now w) (pw_admin w) (Some (''CREATED'', None)) db1))"
proof (cases "email_shape em")
  case None
  then show thesis by (intro stay) (simp add: create_persona_def)
next
  case (Some email)
  obtain e db1 where r: "ensure_stub_user w email u db = (e, db1)" by (metis surj_pair)
  show thesis
  proof (cases "em = [] \<or> 320 < length em \<or> u = [] \<or> 64 < length u \<or> p \<notin> set PERSONAS
      \<or> get_persona_assignment db u \<noteq> None \<or> 20 \<le> count_invites_by_admin (pw_admin w) (pw_now w - US_PER_HOUR) db")
    case True
    with Some have "\<exists>e. create_persona L w em u p db = (Inl e, db)" by (auto simp: create_persona_def)
    then show thesis using stay by blast
  next
    case False
    then show thesis
    proof (cases e)
      case None
      with False Some r show thesis
        by (intro ok [of email db1]) (auto simp: create_persona_def Let_def case_prod_beta map_prod_def)
    next
      case (Some x)
      with False \<open>email_shape em = Some email\<close> r show thesis
        by (intro failed [of email x db1]) (auto simp: create_persona_def)
    qed
  qed
qed

lemma persona_inv_create:
  assumes "persona_inv db"
  shows "persona_inv (snd (create_persona L w em u p db))"
proof (cases rule: create_persona_cases [where L = L and w = w and em = em and u = u and p = p and db = db])
  case stay
  with assms show ?thesis by simp
next
  case (failed email e db1)
  note k = ensure_stub_user_keeps [OF failed(1)]
  from assms k(1-3) have "persona_inv db1" by (rule persona_inv_cong)
  with failed(2) show ?thesis by simp
next
  case (ok email db1)
  note k = ensure_stub_user_keeps [OF ok(3)]
  let ?d = "upsert_persona_assignment u p (pw_now w) (pw_admin w) (Some (''CREATED'', None)) db1"
  from assms k(1-3) have "persona_inv db1" by (rule persona_inv_cong)
  moreover have "persona_view db1 u = None"
    using ok(2) k(1) by (simp add: persona_view_def get_persona_assignment_def)
  ultimately have inv: "persona_inv ?d" using k(4) by (intro persona_inv_upsert) auto
  obtain r db2 where i: "persona_invite L w email ?d = (r, db2)" by (metis surj_pair)
  note j = persona_invite_personas [OF i]
  have "persona_inv db2"
    using j by (intro persona_inv_cong [OF inv]) (simp_all add: get_user_def)
  with ok(4) i show ?thesis by simp
qed

lemma persona_inv_patch:
  assumes "persona_inv db"
  shows "persona_inv (snd (patch_persona w u p db))"
proof (cases "get_persona_assignment db u")
  case None
  with assms show ?thesis by (simp add: patch_persona_def)
next
  case (Some q)
  then have "map_option fst (persona_view db u) = Some (pa_persona q)" by (simp add: persona_view_def)
  moreover from assms Some have "get_user db u \<noteq> None" by (auto simp: persona_inv_def)
  ultimately show ?thesis using assms Some by (auto simp: patch_persona_def intro: persona_inv_upsert)
qed

lemma persona_inv_disable_route: "persona_inv db \<Longrightarrow> persona_inv (snd (disable_persona w u db))"
  by (auto simp: disable_persona_def split: option.splits intro: persona_inv_disable)

lemma persona_inv_agent_user:
  assumes "persona_inv db" and "get_user db u = None" and c: "create_user now u ph role e g db = Inr db1"
  shows "persona_inv (upsert_persona_assignment u p t who (Some (''CREATED'', None)) db1)"
proof (rule persona_inv_upsert)
  from c have keep: "db_personas db1 = db_personas db" "db_persona_audit db1 = db_persona_audit db"
    by (simp_all add: create_user_personas)
  with assms(1) show "persona_inv db1"
    by (rule persona_inv_cong) (simp_all add: get_user_create [OF c])
  show "get_user db1 u \<noteq> None" by (simp add: get_user_create [OF c])
  have "get_persona_assignment db u = None" using assms(1,2) by (auto simp: persona_inv_def)
  with keep show "map_option fst (persona_view db1 u) = None"
    by (simp add: persona_view_def get_persona_assignment_def)
qed

lemma persona_inv_key:
  assumes "persona_inv db" and "create_api_key now kid uid name l pre h ttl e db = Inr (row, db')"
  shows "persona_inv db'"
  using assms(1) create_api_key_personas [OF assms(2)]
  by (intro persona_inv_cong [OF assms(1)]) (auto simp: get_user_def)

lemma persona_inv_mint_agent:
  assumes "persona_inv db"
  shows "persona_inv (snd (mint_agent_key C w pepper kid raw name harness ttl db))"
  using assms
  by (auto simp: mint_agent_key_def Let_def case_prod_beta split: sum.split option.split
      intro: persona_inv_agent_user [OF assms] persona_inv_key [OF persona_inv_agent_user [OF assms]])

lemma persona_inv_run: "persona_inv db \<Longrightarrow> persona_inv (persona_run op db)"
  by (cases op) (simp_all add: persona_inv_create persona_inv_patch persona_inv_disable_route persona_inv_mint_agent)

lemma persona_inv_fold: "persona_inv db \<Longrightarrow> persona_inv (fold persona_run ops db)"
  by (induction ops arbitrary: db) (simp_all add: persona_inv_run)

lemma distinct_replicate_le: "distinct (replicate n x) \<Longrightarrow> n \<le> 1"
proof (cases n)
  case (Suc m)
  then show "distinct (replicate n x) \<Longrightarrow> n \<le> 1" by (cases m) auto
qed simp

lemma sql_rowcount_two:
  assumes "unique_key key t" and "1 < sql_rowcount P t"
  shows "\<exists>r \<in> set t. P r \<and> key r \<noteq> k"
proof (rule ccontr)
  assume "\<not> ?thesis"
  then have all: "\<forall>r \<in> set (filter P t). key r = k" by auto
  have "distinct (map key (filter P t))"
    using assms(1) by (simp add: unique_key_def distinct_map_filter)
  moreover from all have "map key (filter P t) = replicate (length (filter P t)) k"
    by (simp add: map_replicate_const [symmetric] cong: map_cong)
  ultimately have "distinct (replicate (length (filter P t)) k)" by simp
  then have "length (filter P t) \<le> 1"
    by (rule distinct_replicate_le)
  with assms(2) show False by (simp add: sql_rowcount_def)
qed

section \<open>Properties\<close>

text \<open>C24. The audit log is complete: after any sequence of persona requests the
  table of assignments, who has which persona and who is disabled, is exactly
  what replaying the log from nothing gives, and every entry names the persona
  its user had at that moment.\<close>

theorem persona_audit_replays:
  assumes "db_personas db = []" and "db_persona_audit db = []"
  shows "let db' = fold persona_run ops db
    in persona_view db' = fold apply_audit (db_persona_audit db') Map.empty
       \<and> audit_consistent Map.empty (db_persona_audit db')"
proof -
  have "persona_inv db"
    using assms by (simp add: persona_inv_def persona_view_def get_persona_assignment_def sql_fetchone_def fun_eq_iff)
  from persona_inv_fold [OF this, of ops] show ?thesis by (simp add: persona_inv_def Let_def)
qed

text \<open>
  Disabling never removes the last active admin: as long as one is active
  before a disable request, one is active after it.\<close>

theorem disable_keeps_an_admin:
  assumes "0 < count_active_admins db" and "unique_key pa_username (db_personas db)"
  shows "0 < count_active_admins (snd (disable_persona w u db))"
proof -
  let ?adm = "\<lambda>p. pa_persona p = ''admin'' \<and> pa_disabled_at p = None"
  let ?f = "\<lambda>p. p\<lparr>pa_disabled_at := Some (pw_now w)\<rparr>"
  show ?thesis
  proof (cases "fst (disable_persona w u db)")
    case (Inl e)
    then have "snd (disable_persona w u db) = db"
      by (auto simp: disable_persona_def split: option.splits if_splits)
    with assms(1) show ?thesis by simp
  next
    case (Inr x)
    then obtain p where p: "get_persona_assignment db u = Some p" "pa_disabled_at p = None"
        "\<not> (pa_persona p = ''admin'' \<and> count_active_admins db \<le> 1)"
      and snd: "db_personas (snd (disable_persona w u db)) = sql_update (\<lambda>p. pa_username p = u) ?f (db_personas db)"
      by (auto simp: disable_persona_def disable_persona_assignment_def split: option.splits if_splits)
    have "\<exists>r \<in> set (db_personas db). ?adm r \<and> pa_username r \<noteq> u"
    proof (cases "pa_persona p = ''admin''")
      case True
      with p(3) show ?thesis
        using sql_rowcount_two [OF assms(2), of ?adm u] by (auto simp: count_active_admins_def)
    next
      case False
      from assms(1) obtain r where r: "r \<in> set (db_personas db)" "?adm r"
        by (auto simp: count_active_admins_def table_simps)
      have "pa_username r \<noteq> u"
      proof
        assume "pa_username r = u"
        with sql_fetchone_key [OF assms(2) r(1)] p(1) have "p = r"
          by (simp add: get_persona_assignment_def)
        with r False show False by simp
      qed
      with r show ?thesis by blast
    qed
    then obtain r where r: "r \<in> set (db_personas db)" "?adm r" "pa_username r \<noteq> u" by blast
    then have "r \<in> set (db_personas (snd (disable_persona w u db)))"
      using snd sql_update_memI [of r "db_personas db" "\<lambda>p. pa_username p = u" ?f] by simp
    with r(2) show ?thesis unfolding count_active_admins_def sql_rowcount_pos by blast
  qed
qed

text \<open>Changing a persona has no such guard: a PATCH that moves the one active
  admin to another persona leaves the L2 with none.\<close>

theorem patch_removes_last_admin:
  assumes "get_persona_assignment db u = Some p" and "pa_persona p = ''admin''" and "pa_disabled_at p = None"
    and "count_active_admins db = 1" and "unique_key pa_username (db_personas db)"
    and "q \<in> set PERSONAS" and "q \<noteq> ''admin''"
  shows "fst (patch_persona w u q db) = Inr () \<and> count_active_admins (snd (patch_persona w u q db)) = 0"
proof -
  let ?adm = "\<lambda>p. pa_persona p = ''admin'' \<and> pa_disabled_at p = None"
  have only: "pa_username r = u" if "r \<in> set (db_personas db)" "?adm r" for r
  proof (rule ccontr)
    assume "pa_username r \<noteq> u"
    moreover have "p \<in> set (db_personas db)" "pa_username p = u"
      using assms(1) by (auto simp: get_persona_assignment_def dest: sql_fetchone_SomeD)
    ultimately have "{p, r} \<subseteq> set (filter ?adm (db_personas db))" "p \<noteq> r"
      using that assms(2,3) by auto
    then have "2 \<le> card (set (filter ?adm (db_personas db)))"
      using card_mono [of "set (filter ?adm (db_personas db))" "{p, r}"] by simp
    then have "2 \<le> length (filter ?adm (db_personas db))"
      using card_length le_trans by blast
    with assms(4) show False by (simp add: count_active_admins_def sql_rowcount_def)
  qed
  have "snd (patch_persona w u q db) = upsert_persona_assignment u q (pw_now w) (pw_admin w)
      (Some (''CHANGED'', Some (pa_persona p))) db" and "fst (patch_persona w u q db) = Inr ()"
    using assms(1,3,6) by (simp_all add: patch_persona_def)
  moreover have "\<not> ?adm r" if "r \<in> set (db_personas (upsert_persona_assignment u q t who a db))" for r t who a
  proof -
    from that assms(1) obtain r0 where "r0 \<in> set (db_personas db)"
      "r = (if pa_username r0 = u then r0\<lparr>pa_persona := q, pa_assigned_at := t, pa_assigned_by := who, pa_disabled_at := None\<rparr> else r0)"
      by (auto simp: upsert_persona_assignment_def Let_def in_sql_update)
    with only [of r0] assms(7) show ?thesis by (cases "pa_disabled_at r0") auto
  qed
  ultimately show ?thesis by (simp add: count_active_admins_def sql_rowcount_0)
qed

text \<open>
  A disabled human opens no new session: neither the password nor any invite
  addressed to them yields one.\<close>

theorem disabled_human_gets_no_session:
  assumes "persona_disabled db u"
  shows "(case login L env check now u pw db of Inl _ \<Rightarrow> True | Inr _ \<Rightarrow> False)
    \<and> (case fst (claim_invite_route L env hp now now_iso token pw' db) of Inl _ \<Rightarrow> True | Inr (_, v) \<Rightarrow> v \<noteq> u)"
proof
  show "case login L env check now u pw db of Inl _ \<Rightarrow> True | Inr _ \<Rightarrow> False"
    using assms by (auto simp: login_def split: option.split)
  have "v \<noteq> u" if "fst (claim_invite_route L env hp now now_iso token pw' db) = Inr (t, v)" for t v
  proof -
    from that have "\<exists>secret (i :: invite) uid db1 r db2. ensure_user env hp now_iso v pw' (iv_role i) db = Inr (uid, db1)
      \<and> claim_invite L secret now token uid db1 = ((ClaimOk, r), db2) \<and> \<not> persona_disabled db2 v"
    proof -
      from that obtain secret i where s: "get_jwt_secret env = Some secret"
        "validate_invite_jwt L secret now token db = Some i"
        by (auto simp: claim_invite_route_def split: if_splits option.splits)
      from that s obtain uid db1 where e: "ensure_user env hp now_iso (iv_email i) pw' (iv_role i) db = Inr (uid, db1)"
        by (cases "ensure_user env hp now_iso (iv_email i) pw' (iv_role i) db")
           (auto simp: claim_invite_route_def Let_def split: if_splits)
      obtain k r db2 where c: "claim_invite L secret now token uid db1 = ((k, r), db2)" by (metis surj_pair)
      from that s e c have "k = ClaimOk \<and> \<not> persona_disabled db2 (iv_email i) \<and> v = iv_email i"
        by (cases k) (auto simp: claim_invite_route_def Let_def split: if_splits)
      with e c show ?thesis by blast
    qed
    then obtain secret uid db1 r db2 and i :: invite where
      e: "ensure_user env hp now_iso v pw' (iv_role i) db = Inr (uid, db1)"
      and c: "claim_invite L secret now token uid db1 = ((ClaimOk, r), db2)" and en: "\<not> persona_disabled db2 v"
      by blast
    have "db_personas db1 = db_personas db"
      using e by (auto simp: ensure_user_def Let_def case_prod_beta split: option.splits if_splits
          dest: create_user_personas)
    moreover have "db_personas db2 = db_personas db1"
      using c by (auto simp: claim_invite_def claim_commit_def Let_def split: sum.splits if_splits)
    ultimately have "persona_disabled db2 v = persona_disabled db v"
      by (simp add: persona_disabled_def get_persona_assignment_def)
    with en assms show ?thesis by auto
  qed
  then show "case fst (claim_invite_route L env hp now now_iso token pw' db) of Inl _ \<Rightarrow> True | Inr (_, v) \<Rightarrow> v \<noteq> u"
    by (auto split: sum.split)
qed

text \<open>
  The invite sent for a new human always carries the role
  \<open>enterprise_admin\<close>: whatever persona the admin chose, \<open>viewer\<close> included, when
  the addressee claims it with a new account, that account passes
  \<open>require_admin\<close>.\<close>

theorem persona_invite_makes_admin:
  assumes "create_persona L w email0 u persona db = (Inr (True, Some token), db')"
    and "email_shape email0 = Some email" and "pw_secret w = Some secret" and "get_jwt_secret env = Some secret"
    and "jwt_accepts L secret (invite_claims email ''enterprise_admin'' None (pw_now w)
           (pw_now w + invite_ttl_hours (pw_env w) * US_PER_HOUR) (pw_jti w))" and "pw_jti w \<noteq> []"
    and "t < (pw_now w + invite_ttl_hours (pw_env w) * US_PER_HOUR) div US_PER_SECOND * US_PER_SECOND"
    and "get_user db' email = None" and "\<not> persona_disabled db' email" and "8 \<le> length pass" and "length pass \<le> 128"
  shows "\<exists>session db''. claim_invite_route L env hp t now_iso token pass db' = (Inr (session, email), db'')
    \<and> require_admin db'' email = Inr email"
proof -
  obtain d where p: "persona_invite L w email d = ((True, Some token), db')"
    using assms(1,2)
  proof (cases rule: create_persona_cases [where L = L and w = w and em = email0 and u = u and p = persona and db = db])
    case (ok em db1)
    then show thesis using assms(1,2) by (intro that) (auto simp: map_prod_def case_prod_beta prod_eq_iff)
  qed (use assms(1) in auto)
  define admin_id where "admin_id = (case get_user d (pw_admin w) of None \<Rightarrow> 0 | Some a \<Rightarrow> us_id a)"
  obtain i where m: "mint_invite L secret (pw_env w) (pw_now w) (pw_jti w) email ''enterprise_admin'' None admin_id None d
      = Inr (i, token, db')"
    using p assms(3) by (auto simp: persona_invite_def admin_id_def split: sum.splits if_splits)
  then have i: "iv_email i = email" "iv_role i = ''enterprise_admin''" "iv_target_l2_id i = None"
    "iv_expires_at i = IsoAware (pw_now w + invite_ttl_hours (pw_env w) * US_PER_HOUR)"
    by (auto simp: mint_invite_def Let_def split: if_splits)
  have valid: "validate_invite_jwt L secret t token db' = Some i"
    using minted_valid [OF m _ i(4) assms(6), of t] assms(5,7) i(3) by simp
  obtain uid db1 where e: "ensure_user env hp now_iso email pass ''enterprise_admin'' db' = Inr (uid, db1)"
      and u1: "\<exists>r. get_user db1 email = Some r \<and> us_role r = ''enterprise_admin''"
      and inv1: "db_invites db1 = db_invites db'" and per1: "db_personas db1 = db_personas db'"
  proof -
    from ensure_user_fresh [OF assms(8)] obtain uid us n r where
      "ensure_user env hp now_iso email pass ''enterprise_admin'' db' = Inr (uid, db'\<lparr>db_users := us, db_user_seq := n\<rparr>)"
      "get_user (db'\<lparr>db_users := us, db_user_seq := n\<rparr>) email = Some r" "us_role r = ''enterprise_admin''"
      by blast
    then show thesis by (intro that [of uid "db'\<lparr>db_users := us, db_user_seq := n\<rparr>"]) auto
  qed
  from validate_cong [OF inv1] valid have "validate_invite_jwt L secret t token db1 = Some i" by metis
  from validate_claims [OF this] obtain r tb where c:
    "claim_invite L secret t token uid db1 = ((ClaimOk, Some r), db1\<lparr>db_invites := tb\<rparr>)" by blast
  have "\<not> persona_disabled (db1\<lparr>db_invites := tb\<rparr>) email"
    using assms(9) per1 by (simp add: persona_disabled_def get_persona_assignment_def)
  moreover have "require_admin (db1\<lparr>db_invites := tb\<rparr>) email = Inr email"
    using u1 by (auto simp: require_admin_def get_user_def is_admin_role_def ADMIN_ROLES_def)
  ultimately show ?thesis
    using assms(4,10,11) valid e c i(1,2) by (simp add: claim_invite_route_def Let_def)
qed

section \<open>Witnesses\<close>

definition demo_pworld :: persona_world where
  "demo_pworld = \<lparr>pw_admin = ''ann'', pw_now = 0, pw_now_iso = ''n'', pw_env = (\<lambda>_. None), pw_stub_hash = ''x'',
     pw_jti = ''j9'', pw_secret = Some ''s'', pw_mail = MailStatus ''sent''\<rparr>"

definition demo_persona_db :: persona_db where
  "demo_persona_db = \<lparr>db_users = [new_user ''t'' 1 ''ann'' ''h'' ''admin'' None None], db_user_seq = 2,
     db_invites = [], db_invite_seq = 1, db_api_keys = [],
     db_personas = [\<lparr>pa_username = ''ann'', pa_persona = ''admin'', pa_assigned_at = 0, pa_assigned_by = ''ann'',
                     pa_disabled_at = None\<rparr>],
     db_persona_audit = []\<rparr>"

definition demo_pclaims :: jwt_claims where
  "demo_pclaims = invite_claims ''v@x'' ''enterprise_admin'' None 0 (72 * US_PER_HOUR) ''j9''"

theorem persona_audit_replays_witness:
  "let db' = fold persona_run [PCreate (demo_jwt demo_pclaims) demo_pworld ''v@x'' ''vic'' ''viewer'',
        PPatch demo_pworld ''vic'' ''agent'', PDisable demo_pworld ''vic''] (demo_persona_db\<lparr>db_personas := []\<rparr>)
    in persona_view db' = fold apply_audit (db_persona_audit db') Map.empty
       \<and> audit_consistent Map.empty (db_persona_audit db')"
  by (rule persona_audit_replays) (simp_all add: demo_persona_db_def)

theorem disable_keeps_an_admin_witness:
  "0 < count_active_admins (snd (disable_persona demo_pworld ''ann'' demo_persona_db))"
  by (rule disable_keeps_an_admin)
     (simp_all add: demo_persona_db_def count_active_admins_def sql_rowcount_def unique_key_def)

theorem patch_removes_last_admin_witness:
  "fst (patch_persona demo_pworld ''ann'' ''viewer'' demo_persona_db) = Inr ()
    \<and> count_active_admins (snd (patch_persona demo_pworld ''ann'' ''viewer'' demo_persona_db)) = 0"
  by (rule patch_removes_last_admin [where p = "hd (db_personas demo_persona_db)"])
     (simp_all add: demo_persona_db_def count_active_admins_def sql_rowcount_def unique_key_def PERSONAS_def
       get_persona_assignment_def sql_fetchone_def)

theorem disabled_human_gets_no_session_witness:
  "let db = disable_persona_assignment ''ann'' 5 None demo_persona_db
   in (case login (demo_jwt demo_pclaims) (\<lambda>_. Some ''s'') (\<lambda>_ _. True) 6 ''ann'' ''pw'' db of Inl _ \<Rightarrow> True | Inr _ \<Rightarrow> False)
    \<and> (case fst (claim_invite_route (demo_jwt demo_pclaims) (\<lambda>_. Some ''s'') id 6 ''n'' ''tok'' ''password'' db) of
         Inl _ \<Rightarrow> True | Inr (_, v) \<Rightarrow> v \<noteq> ''ann'')"
  unfolding Let_def
  by (rule disabled_human_gets_no_session)
     (simp add: persona_disabled_def get_persona_disable demo_persona_db_def get_persona_assignment_def sql_fetchone_def
       disable_persona_assignment_def)

definition demo_created :: "(http_exc + bool \<times> string option) \<times> persona_db" where
  "demo_created = create_persona (demo_jwt demo_pclaims) demo_pworld ''v@x'' ''vic'' ''viewer'' demo_persona_db"

lemma demo_created_facts:
  "fst demo_created = Inr (True, Some ''tok'')"
  "get_user (snd demo_created) ''v@x'' = None" "\<not> persona_disabled (snd demo_created) ''v@x''"
  by code_simp+

theorem persona_invite_makes_admin_witness:
  "\<exists>session db''. claim_invite_route (demo_jwt demo_pclaims) (\<lambda>_. Some ''s'') id 5 ''n'' ''tok'' ''password'' (snd demo_created)
      = (Inr (session, ''v@x''), db'') \<and> require_admin db'' ''v@x'' = Inr ''v@x''"
proof (rule persona_invite_makes_admin)
  show "create_persona (demo_jwt demo_pclaims) demo_pworld ''v@x'' ''vic'' ''viewer'' demo_persona_db
    = (Inr (True, Some ''tok''), snd demo_created)"
    using demo_created_facts(1) by (simp add: demo_created_def prod_eq_iff)
  show "email_shape ''v@x'' = Some ''v@x''" by code_simp
  show "jwt_accepts (demo_jwt demo_pclaims) ''s'' (invite_claims ''v@x'' ''enterprise_admin'' None (pw_now demo_pworld)
      (pw_now demo_pworld + invite_ttl_hours (pw_env demo_pworld) * US_PER_HOUR) (pw_jti demo_pworld))"
    using demo_jwt_accepts [of demo_pclaims "''s''"]
    by (simp add: demo_pworld_def demo_pclaims_def invite_ttl_hours_def getenv_def)
qed (use demo_created_facts in \<open>simp_all add: demo_pworld_def get_jwt_secret_def invite_ttl_hours_def getenv_def
       US_PER_HOUR_def US_PER_SECOND_def\<close>)

end
