(* ===== verification/Envelope.thy ===== *)
theory Envelope imports Crypto begin

text \<open>
  \<open>cq_server/aigrp/pair_secret.py\<close> and \<open>cq_server/aigrp/envelope.py\<close>: the secret
  two L2s derive from the enterprise root, and the signed message envelope with
  its replay cache. The last section runs a receiver over a sequence of
  deliveries and shows that no envelope gets through twice.
\<close>

section \<open>Pair secrets\<close>

definition INFO_PREFIX :: bytes where "INFO_PREFIX = utf8 ''aigrp-pair:''"
definition ROOT_BYTES :: nat where "ROOT_BYTES = 32"
definition PAIR_SECRET_BYTES :: nat where "PAIR_SECRET_BYTES = 32"

definition lex_min_canonical :: "string \<Rightarrow> string \<Rightarrow> py_exc + bytes" where
  "lex_min_canonical a b =
     (if a = [] \<or> b = [] then Inl ValueError
      else if a = b then Inl ValueError
      else (let lo = min a b; hi = max a b
            in Inr (INFO_PREFIX @ utf8 lo @ utf8 '':'' @ utf8 hi)))"

definition derive_pair_secret :: "'k prims \<Rightarrow> bytes \<Rightarrow> string \<Rightarrow> string \<Rightarrow> py_exc + bytes" where
  "derive_pair_secret C root a b =
     (if length root \<noteq> ROOT_BYTES then Inl ValueError
      else bind_result (lex_min_canonical a b)
        (\<lambda>info. Inr (hkdf256 C PAIR_SECRET_BYTES (Some (sha256 C (utf8 ''aigrp-pair-v1''))) info root)))"

lemma lex_min_canonical_sym: "lex_min_canonical a b = lex_min_canonical b a"
  by (simp add: lex_min_canonical_def min.commute max.commute)

lemma derive_pair_secret_sym: "derive_pair_secret C root a b = derive_pair_secret C root b a"
  by (simp add: derive_pair_secret_def lex_min_canonical_sym [of a b])

lemma derive_pair_secret_Inr:
  "derive_pair_secret C root a b = Inr s \<longleftrightarrow>
     length root = ROOT_BYTES \<and> (\<exists>info. lex_min_canonical a b = Inr info
       \<and> s = hkdf256 C PAIR_SECRET_BYTES (Some (sha256 C (utf8 ''aigrp-pair-v1''))) info root)"
  by (auto simp: derive_pair_secret_def)

section \<open>Signing\<close>

definition canonical_pair_id :: "string \<Rightarrow> string \<Rightarrow> py_exc + string" where
  "canonical_pair_id src dst =
     bind_result (lex_min_canonical src dst)
       (\<lambda>b. case utf8_decode b of None \<Rightarrow> Inl ValueError | Some s \<Rightarrow> Inr s)"

text \<open>\<open>mac_bytes\<close> is the MAC input: every field but the MAC itself.\<close>

definition mac_bytes :: "'k prims \<Rightarrow> (string \<times> json) list \<Rightarrow> bytes" where
  "mac_bytes C kvs = jcs C (JObj (filter (\<lambda>kv. fst kv \<noteq> ''mac'') kvs))"

text \<open>The three optional overrides of the signature are the last three
  arguments; \<open>now_iso\<close>, \<open>rand\<close> and \<open>uuid\<close> are what the clock and the random
  generators return when an override is absent or empty.\<close>

definition sign_envelope :: "'k prims \<Rightarrow> string \<Rightarrow> bytes \<Rightarrow> string \<Rightarrow> bytes \<Rightarrow> string \<Rightarrow> string \<Rightarrow> json
    \<Rightarrow> string option \<Rightarrow> bytes option \<Rightarrow> string option \<Rightarrow> py_exc + json" where
  "sign_envelope C now_iso rand uuid secret src dst payload ts nonce msg_id =
     (if length secret \<noteq> 32 then Inl ValueError
      else bind_result (canonical_pair_id src dst) (\<lambda>pair.
        let env = [(''version'', JStr ''v1''), (''pair_id'', JStr pair),
                   (''src_l2_id'', JStr src), (''dst_l2_id'', JStr dst),
                   (''ts'', JStr (py_or ts now_iso)),
                   (''nonce'', JStr (b64u (case nonce of None \<Rightarrow> rand | Some n \<Rightarrow> if n = [] then rand else n))),
                   (''msg_id'', JStr (py_or msg_id uuid)),
                   (''payload'', payload)]
        in Inr (JObj (env @ [(''mac'', JStr (b64u (hmac256 C secret (jcs C (JObj env)))))]))))"

section \<open>The replay cache\<close>

text \<open>The \<open>OrderedDict\<close> is the list of its entries, oldest insertion first. Times
  are microseconds on the monotonic clock.\<close>

type_synonym replay_cache = "((string \<times> string) \<times> int) list"

definition REPLAY_TS_TOLERANCE :: int where "REPLAY_TS_TOLERANCE = 300 * US_PER_SECOND"
definition REPLAY_CACHE_TTL :: int where "REPLAY_CACHE_TTL = 600 * US_PER_SECOND"
definition REPLAY_CACHE_MAX :: nat where "REPLAY_CACHE_MAX = 100000"

definition evict_expired :: "int \<Rightarrow> int \<Rightarrow> replay_cache \<Rightarrow> replay_cache" where
  "evict_expired ttl now c = dropWhile (\<lambda>e. snd e < now - ttl) c"

definition check_and_record :: "int \<Rightarrow> nat \<Rightarrow> replay_cache \<Rightarrow> string \<Rightarrow> string \<Rightarrow> int \<Rightarrow> bool \<times> replay_cache" where
  "check_and_record ttl mx c src msg_id now =
     (let c1 = evict_expired ttl now c
      in if (src, msg_id) \<in> fst ` set c1 then (False, c1)
         else (let c2 = c1 @ [((src, msg_id), now)]
               in (True, if mx < length c2 then tl c2 else c2)))"

section \<open>Verifying\<close>

datatype env_reason = Malformed | BadVersion | DstMismatch | PairMismatch | TsOutOfBounds | BadMac | Replay

text \<open>What leaves \<open>verify_envelope\<close>: its own exception with a reason, or another
  one that escapes.\<close>

datatype env_exc = EnvelopeVerificationError env_reason | Escaped py_exc

definition required_fields :: "string list" where
  "required_fields = [''version'', ''pair_id'', ''src_l2_id'', ''dst_l2_id'', ''ts'', ''nonce'', ''msg_id'', ''payload'', ''mac'']"

definition is_b64 :: "json \<Rightarrow> bool" where
  "is_b64 v = (case v of JStr s \<Rightarrow> (case b64u_decode s of Inl _ \<Rightarrow> False | Inr _ \<Rightarrow> True) | _ \<Rightarrow> False)"

text \<open>The checks on source, destination and pair, in the order of the code; the
  result is the source. \<open>f\<close> looks up a field that is known to be there.\<close>

definition verify_pair :: "(string \<Rightarrow> json) \<Rightarrow> string \<Rightarrow> env_exc + string" where
  "verify_pair f expected =
     (case (f ''src_l2_id'', f ''dst_l2_id'') of
        (JStr src, JStr dst) \<Rightarrow>
          if src = [] \<or> dst = [] then Inl (EnvelopeVerificationError Malformed)
          else if dst \<noteq> expected then Inl (EnvelopeVerificationError DstMismatch)
          else (case canonical_pair_id src dst of
                  Inl e \<Rightarrow> Inl (Escaped e)
                | Inr pair \<Rightarrow>
                    if f ''pair_id'' \<noteq> JStr pair then Inl (EnvelopeVerificationError PairMismatch) else Inr src)
      | _ \<Rightarrow> Inl (EnvelopeVerificationError Malformed))"

definition verify_ts :: "(string \<Rightarrow> iso) \<Rightarrow> json \<Rightarrow> int \<Rightarrow> env_exc + unit" where
  "verify_ts fromiso v now =
     (case v of
        JStr s \<Rightarrow>
          (case fromiso (replace_Z s) of
             IsoBad \<Rightarrow> Inl (EnvelopeVerificationError Malformed)
           | IsoNaive _ \<Rightarrow> Inl (EnvelopeVerificationError Malformed)
           | IsoAware t \<Rightarrow>
               if REPLAY_TS_TOLERANCE < \<bar>now - t\<bar> then Inl (EnvelopeVerificationError TsOutOfBounds) else Inr ())
      | _ \<Rightarrow> Inl (Escaped AttributeError))"

definition verify_mac :: "'k prims \<Rightarrow> bytes \<Rightarrow> (string \<times> json) list \<Rightarrow> json \<Rightarrow> env_exc + unit" where
  "verify_mac C secret kvs v =
     (case v of
        JStr s \<Rightarrow>
          (case b64u_decode s of
             Inl _ \<Rightarrow> Inl (EnvelopeVerificationError Malformed)
           | Inr mac \<Rightarrow>
               if hmac256 C secret (mac_bytes C kvs) = mac then Inr () else Inl (EnvelopeVerificationError BadMac))
      | _ \<Rightarrow> Inl (EnvelopeVerificationError Malformed))"

text \<open>Everything before the replay check: source, message id and payload.\<close>

definition verify_checks :: "'k prims \<Rightarrow> (string \<Rightarrow> iso) \<Rightarrow> json \<Rightarrow> bytes \<Rightarrow> string \<Rightarrow> int
    \<Rightarrow> env_exc + (string \<times> string \<times> json)" where
  "verify_checks C fromiso envelope secret expected now =
     (case envelope of
        JObj kvs \<Rightarrow>
          (let f = (\<lambda>k. the (map_of kvs k)) in
           if \<exists>k \<in> set required_fields. map_of kvs k = None then Inl (EnvelopeVerificationError Malformed)
           else if f ''version'' \<noteq> JStr ''v1'' then Inl (EnvelopeVerificationError BadVersion)
           else bind_result (verify_pair f expected) (\<lambda>src.
             (case f ''msg_id'' of
                JStr m \<Rightarrow>
                  if m = [] then Inl (EnvelopeVerificationError Malformed)
                  else if \<not> is_b64 (f ''nonce'') then Inl (EnvelopeVerificationError Malformed)
                  else bind_result (verify_ts fromiso (f ''ts'') now) (\<lambda>_.
                       bind_result (verify_mac C secret kvs (f ''mac'')) (\<lambda>_.
                         Inr (src, m, f ''payload'')))
              | _ \<Rightarrow> Inl (EnvelopeVerificationError Malformed))))
      | _ \<Rightarrow> Inl (EnvelopeVerificationError Malformed))"

definition verify_envelope :: "'k prims \<Rightarrow> (string \<Rightarrow> iso) \<Rightarrow> json \<Rightarrow> bytes \<Rightarrow> string \<Rightarrow> int \<Rightarrow> int \<Rightarrow> replay_cache
    \<Rightarrow> (env_exc + json) \<times> replay_cache" where
  "verify_envelope C fromiso envelope secret expected now mtime c =
     (case verify_checks C fromiso envelope secret expected now of
        Inl e \<Rightarrow> (Inl e, c)
      | Inr (src, m, payload) \<Rightarrow>
          (case check_and_record REPLAY_CACHE_TTL REPLAY_CACHE_MAX c src m mtime of
             (True, c') \<Rightarrow> (Inr payload, c')
           | (False, c') \<Rightarrow> (Inl (EnvelopeVerificationError Replay), c')))"

section \<open>A signed envelope verifies\<close>

lemma canonical_pair_id_Inr:
  "src \<noteq> [] \<Longrightarrow> dst \<noteq> [] \<Longrightarrow> src \<noteq> dst \<Longrightarrow>
   canonical_pair_id src dst = Inr (''aigrp-pair:'' @ min src dst @ CHR '':'' # max src dst)"
proof -
  assume "src \<noteq> []" "dst \<noteq> []" "src \<noteq> dst"
  moreover have "INFO_PREFIX @ utf8 a @ utf8 '':'' @ utf8 b = utf8 (''aigrp-pair:'' @ a @ CHR '':'' # b)" for a b
    unfolding INFO_PREFIX_def by (simp only: utf8_append append_assoc [symmetric] flip: append_Cons) simp
  ultimately show ?thesis
    by (simp only: canonical_pair_id_def lex_min_canonical_def Let_def if_False simp_thms
        bind_result.simps utf8_decode_utf8 option.case)
qed

lemma sign_checks:
  assumes "sign_envelope C now_iso rand uuid secret src dst payload ts nonce msg_id = Inr env"
    and "src \<noteq> []" and "dst \<noteq> []" and "src \<noteq> dst" and "py_or msg_id uuid \<noteq> []"
    and "fromiso (replace_Z (py_or ts now_iso)) = IsoAware t" and "\<bar>now - t\<bar> \<le> REPLAY_TS_TOLERANCE"
  shows "verify_checks C fromiso env secret dst now = Inr (src, py_or msg_id uuid, payload)"
  using assms
  by (auto simp: sign_envelope_def canonical_pair_id_Inr Let_def verify_checks_def required_fields_def
      verify_pair_def is_b64_def verify_ts_def verify_mac_def mac_bytes_def split: if_splits)


lemma derive_length:
  "derive_pair_secret C root a b = Inr s \<Longrightarrow> \<forall>n salt info ikm. length (hkdf256 C n salt info ikm) = n \<Longrightarrow> length s = 32"
  by (auto simp: derive_pair_secret_Inr PAIR_SECRET_BYTES_def)

lemma derive_ids:
  "derive_pair_secret C root a b = Inr s \<Longrightarrow> a \<noteq> [] \<and> b \<noteq> [] \<and> a \<noteq> b"
  by (auto simp: derive_pair_secret_Inr lex_min_canonical_def split: if_splits)

text \<open>C27. End to end: the sender derives the pair secret from the enterprise root
  as (self, peer), signs, and the receiver derives it on its own as (self,
  peer), that is with the ids swapped. The receiver then accepts the envelope,
  returns the payload and records the message id, whatever the two ids, the
  payload and the rest of the cache are, as long as its clock is within the
  tolerance of the time stamp and the id is not in the cache.\<close>

theorem envelope_roundtrip:
  assumes "derive_pair_secret C root src dst = Inr secret"
    and "derive_pair_secret C root dst src = Inr secret'"
    and "\<forall>n salt info ikm. length (hkdf256 C n salt info ikm) = n"
    and "msg_id \<noteq> []" and "ts \<noteq> []"
    and "fromiso (replace_Z ts) = IsoAware t" and "\<bar>now - t\<bar> \<le> REPLAY_TS_TOLERANCE"
    and "(src, msg_id) \<notin> fst ` set c"
  shows "\<exists>env c'. sign_envelope C now_iso rand uuid secret src dst payload (Some ts) nonce (Some msg_id) = Inr env
    \<and> verify_envelope C fromiso env secret' dst now mtime c = (Inr payload, c')"
proof -
  have same: "secret' = secret"
    using assms(1,2) by (simp add: derive_pair_secret_sym [of C root dst src])
  note ids = derive_ids [OF assms(1)]
  obtain env where env: "sign_envelope C now_iso rand uuid secret src dst payload (Some ts) nonce (Some msg_id) = Inr env"
    using derive_length [OF assms(1,3)] ids by (auto simp: sign_envelope_def canonical_pair_id_Inr Let_def)
  have "verify_checks C fromiso env secret dst now = Inr (src, msg_id, payload)"
    using sign_checks [OF env] ids assms(4-7) by (simp add: py_or_def)
  moreover have "(src, msg_id) \<notin> fst ` set (evict_expired REPLAY_CACHE_TTL mtime c)"
    using assms(8) by (auto simp: evict_expired_def dest: set_dropWhileD)
  ultimately have "\<exists>c'. verify_envelope C fromiso env secret dst now mtime c = (Inr payload, c')"
    by (auto simp: verify_envelope_def check_and_record_def Let_def)
  with env same show ?thesis by blast
qed

definition demo_fromiso :: "string \<Rightarrow> iso" where
  "demo_fromiso s = (if s = ''T0'' then IsoAware 0 else IsoBad)"

lemma envelope_roundtrip_witness:
  "\<exists>env c'. sign_envelope demo_prims ''T0'' [] ''id'' (replicate 32 7) ''acme/a'' ''acme/b'' (JInt 5)
       (Some ''T0'') None (Some ''m1'') = Inr env
    \<and> verify_envelope demo_prims demo_fromiso env (replicate 32 7) ''acme/b'' 12 99 [] = (Inr (JInt 5), c')"
proof (rule envelope_roundtrip [where root = "replicate 32 7" and t = 0])
  show "derive_pair_secret demo_prims (replicate 32 7) ''acme/a'' ''acme/b'' = Inr (replicate 32 7)"
    by code_simp
  show "derive_pair_secret demo_prims (replicate 32 7) ''acme/b'' ''acme/a'' = Inr (replicate 32 7)"
    by code_simp
  show "\<forall>n salt info ikm. length (hkdf256 demo_prims n salt info ikm) = n"
    by (auto simp: demo_prims_def)
qed (simp_all add: demo_fromiso_def replace_Z_def REPLAY_TS_TOLERANCE_def US_PER_SECOND_def)

section \<open>What an accepted envelope is\<close>

lemma verify_pair_Inr:
  "verify_pair f expected = Inr src \<Longrightarrow>
   \<exists>pair. f ''src_l2_id'' = JStr src \<and> f ''dst_l2_id'' = JStr expected
     \<and> canonical_pair_id src expected = Inr pair \<and> f ''pair_id'' = JStr pair"
  by (auto simp: verify_pair_def split: json.splits if_splits sum.splits)

lemma verify_ts_Inr:
  "verify_ts fromiso v now = Inr u \<Longrightarrow>
   \<exists>s t. v = JStr s \<and> fromiso (replace_Z s) = IsoAware t \<and> \<bar>now - t\<bar> \<le> REPLAY_TS_TOLERANCE"
  by (auto simp: verify_ts_def split: json.splits if_splits iso.splits)

lemma verify_mac_Inr:
  "verify_mac C secret kvs v = Inr u \<Longrightarrow>
   \<exists>s. v = JStr s \<and> b64u_decode s = Inr (hmac256 C secret (mac_bytes C kvs))"
  by (auto simp: verify_mac_def split: json.splits if_splits sum.splits)

lemma verify_checks_Inr:
  assumes "verify_checks C fromiso env secret expected now = Inr (src, m, payload)"
  shows "\<exists>kvs pair ts t mac.
     env = JObj kvs \<and> map_of kvs ''version'' = Some (JStr ''v1'')
   \<and> map_of kvs ''src_l2_id'' = Some (JStr src) \<and> map_of kvs ''dst_l2_id'' = Some (JStr expected)
   \<and> canonical_pair_id src expected = Inr pair \<and> map_of kvs ''pair_id'' = Some (JStr pair)
   \<and> map_of kvs ''msg_id'' = Some (JStr m) \<and> m \<noteq> []
   \<and> map_of kvs ''ts'' = Some (JStr ts) \<and> fromiso (replace_Z ts) = IsoAware t \<and> \<bar>now - t\<bar> \<le> REPLAY_TS_TOLERANCE
   \<and> map_of kvs ''mac'' = Some (JStr mac) \<and> b64u_decode mac = Inr (hmac256 C secret (mac_bytes C kvs))
   \<and> map_of kvs ''payload'' = Some payload"
proof -
  from assms obtain kvs where env: "env = JObj kvs"
    by (cases env) (auto simp: verify_checks_def)
  define f where "f = (\<lambda>k. the (map_of kvs k))"
  define rest where "rest = bind_result (verify_pair f expected) (\<lambda>src.
             (case f ''msg_id'' of
                JStr m \<Rightarrow>
                  if m = [] then Inl (EnvelopeVerificationError Malformed)
                  else if \<not> is_b64 (f ''nonce'') then Inl (EnvelopeVerificationError Malformed)
                  else bind_result (verify_ts fromiso (f ''ts'') now) (\<lambda>_.
                       bind_result (verify_mac C secret kvs (f ''mac'')) (\<lambda>_.
                         Inr (src, m, f ''payload'')))
              | _ \<Rightarrow> Inl (EnvelopeVerificationError Malformed)))"
  have unfold: "verify_checks C fromiso env secret expected now =
      (if \<exists>k \<in> set required_fields. map_of kvs k = None then Inl (EnvelopeVerificationError Malformed)
       else if f ''version'' \<noteq> JStr ''v1'' then Inl (EnvelopeVerificationError BadVersion) else rest)"
    unfolding verify_checks_def env json.case Let_def rest_def f_def by (rule refl)
  have none: "\<not> (\<exists>k \<in> set required_fields. map_of kvs k = None)"
    and ver: "f ''version'' = JStr ''v1''"
    and rest: "rest = Inr (src, m, payload)"
    using assms unfolding unfold by (simp_all only: split: if_splits) simp_all
  have present: "\<forall>k \<in> set required_fields. map_of kvs k = Some (f k)"
    using none by (auto simp: f_def)
  have run: "f ''version'' = JStr ''v1'' \<and> verify_pair f expected = Inr src \<and> f ''msg_id'' = JStr m \<and> m \<noteq> []
      \<and> (\<exists>u. verify_ts fromiso (f ''ts'') now = Inr u) \<and> (\<exists>u. verify_mac C secret kvs (f ''mac'') = Inr u)
      \<and> f ''payload'' = payload"
    using rest ver by (cases "f ''msg_id''") (auto simp: rest_def split: if_splits)
  from run verify_pair_Inr [of f expected src] verify_ts_Inr [of fromiso "f ''ts''" now]
      verify_mac_Inr [of C secret kvs "f ''mac''"]
  have "\<exists>pair ts t mac. f ''src_l2_id'' = JStr src \<and> f ''dst_l2_id'' = JStr expected
     \<and> canonical_pair_id src expected = Inr pair \<and> f ''pair_id'' = JStr pair
     \<and> f ''ts'' = JStr ts \<and> fromiso (replace_Z ts) = IsoAware t \<and> \<bar>now - t\<bar> \<le> REPLAY_TS_TOLERANCE
     \<and> f ''mac'' = JStr mac \<and> b64u_decode mac = Inr (hmac256 C secret (mac_bytes C kvs))"
    by blast
  with run env present show ?thesis by (auto simp: required_fields_def)
qed

lemma verify_envelope_Inr:
  "fst (verify_envelope C fromiso env secret expected now mtime c) = Inr payload \<longleftrightarrow>
   (\<exists>src m. verify_checks C fromiso env secret expected now = Inr (src, m, payload)
     \<and> (src, m) \<notin> fst ` set (evict_expired REPLAY_CACHE_TTL mtime c))"
  by (auto simp: verify_envelope_def check_and_record_def Let_def split: sum.splits prod.splits)

text \<open>Whatever a receiver accepts was made for it: the envelope names this
  receiver as destination, another L2 as source, the canonical pair of the two,
  carries a time stamp within five minutes of the receiver's clock and a MAC
  that is the HMAC of exactly the other fields under the pair secret; the
  payload returned is the envelope's. An envelope sent in the other direction,
  or by the receiver itself, is never accepted.\<close>

theorem accepted_envelope:
  assumes "fst (verify_envelope C fromiso env secret expected now mtime c) = Inr payload"
  shows "\<exists>kvs src pair ts t mac.
     env = JObj kvs \<and> map_of kvs ''payload'' = Some payload
   \<and> map_of kvs ''src_l2_id'' = Some (JStr src) \<and> map_of kvs ''dst_l2_id'' = Some (JStr expected) \<and> src \<noteq> expected
   \<and> canonical_pair_id src expected = Inr pair \<and> map_of kvs ''pair_id'' = Some (JStr pair)
   \<and> map_of kvs ''ts'' = Some (JStr ts) \<and> fromiso (replace_Z ts) = IsoAware t
   \<and> t - 300 * US_PER_SECOND \<le> now \<and> now \<le> t + 300 * US_PER_SECOND
   \<and> map_of kvs ''mac'' = Some (JStr mac) \<and> b64u_decode mac = Inr (hmac256 C secret (mac_bytes C kvs))"
proof -
  from assms obtain src m where "verify_checks C fromiso env secret expected now = Inr (src, m, payload)"
    by (auto simp: verify_envelope_Inr)
  from verify_checks_Inr [OF this] obtain kvs pair ts t mac where *:
    "env = JObj kvs" "map_of kvs ''payload'' = Some payload"
    "map_of kvs ''src_l2_id'' = Some (JStr src)" "map_of kvs ''dst_l2_id'' = Some (JStr expected)"
    "canonical_pair_id src expected = Inr pair" "map_of kvs ''pair_id'' = Some (JStr pair)"
    "map_of kvs ''ts'' = Some (JStr ts)" "fromiso (replace_Z ts) = IsoAware t" "\<bar>now - t\<bar> \<le> REPLAY_TS_TOLERANCE"
    "map_of kvs ''mac'' = Some (JStr mac)" "b64u_decode mac = Inr (hmac256 C secret (mac_bytes C kvs))"
    by auto
  moreover have "src \<noteq> expected"
    using *(5) by (auto simp: canonical_pair_id_def lex_min_canonical_def split: if_splits)
  moreover have "t - 300 * US_PER_SECOND \<le> now \<and> now \<le> t + 300 * US_PER_SECOND"
    using *(9) by (auto simp: REPLAY_TS_TOLERANCE_def abs_le_iff)
  ultimately show ?thesis by blast
qed

definition demo_env :: "bytes \<Rightarrow> json" where
  "demo_env secret =
     (case sign_envelope demo_prims ''T0'' [1] ''id'' secret ''a'' ''b'' (JInt 5) None None None of
        Inl _ \<Rightarrow> JNull | Inr e \<Rightarrow> e)"

definition demo_secret :: bytes where "demo_secret = replicate 32 7"

lemma demo_env_checks:
  "verify_checks demo_prims demo_fromiso (demo_env demo_secret) demo_secret ''b'' 12 = Inr (''a'', ''id'', JInt 5)"
  by code_simp

lemma demo_env_accepted:
  "fst (verify_envelope demo_prims demo_fromiso (demo_env demo_secret) demo_secret ''b'' 12 99 []) = Inr (JInt 5)"
  by (simp add: verify_envelope_Inr demo_env_checks evict_expired_def)

lemma accepted_envelope_witness:
  "case demo_env demo_secret of JObj kvs \<Rightarrow> map_of kvs ''dst_l2_id'' = Some (JStr ''b'') | _ \<Rightarrow> False"
  using accepted_envelope [OF demo_env_accepted] by auto


section \<open>No envelope gets through twice\<close>

text \<open>A receiver's history: deliveries, each with the pair secret it is checked
  under, the wall clock and the monotonic clock.\<close>

record delivery =
  d_env :: json
  d_secret :: bytes
  d_now :: int
  d_mono :: int

fun deliver_all :: "'k prims \<Rightarrow> (string \<Rightarrow> iso) \<Rightarrow> string \<Rightarrow> replay_cache \<Rightarrow> delivery list \<Rightarrow> (env_exc + json) list" where
  "deliver_all C fromiso me c [] = []"
| "deliver_all C fromiso me c (d # ds) =
     (case verify_envelope C fromiso (d_env d) (d_secret d) me (d_now d) (d_mono d) c of
        (r, c') \<Rightarrow> r # deliver_all C fromiso me c' ds)"

definition accepted :: "'e + 'a \<Rightarrow> bool" where
  "accepted r = (case r of Inl _ \<Rightarrow> False | Inr _ \<Rightarrow> True)"

definition deliver_cache :: "'k prims \<Rightarrow> (string \<Rightarrow> iso) \<Rightarrow> string \<Rightarrow> replay_cache \<Rightarrow> delivery \<Rightarrow> replay_cache" where
  "deliver_cache C fromiso me c d = snd (verify_envelope C fromiso (d_env d) (d_secret d) me (d_now d) (d_mono d) c)"

lemma deliver_all_Cons:
  "deliver_all C fromiso me c (d # ds) =
     fst (verify_envelope C fromiso (d_env d) (d_secret d) me (d_now d) (d_mono d) c)
     # deliver_all C fromiso me (deliver_cache C fromiso me c d) ds"
  by (simp add: deliver_cache_def case_prod_beta)

lemma deliver_all_nth:
  "i < length ds \<Longrightarrow> deliver_all C fromiso me c ds ! i =
     fst (verify_envelope C fromiso (d_env (ds ! i)) (d_secret (ds ! i)) me (d_now (ds ! i)) (d_mono (ds ! i))
       (fold (\<lambda>d c. deliver_cache C fromiso me c d) (take i ds) c))"
proof (induction ds arbitrary: c i)
  case (Cons d ds)
  then show ?case by (cases i) (simp_all add: deliver_all_Cons del: deliver_all.simps(2))
qed simp

text \<open>The entry of a key recorded at time \<open>t\<close> has at most \<open>n\<close> younger entries.\<close>

definition holds :: "nat \<Rightarrow> (string \<times> string) \<Rightarrow> int \<Rightarrow> nat \<Rightarrow> replay_cache \<Rightarrow> bool" where
  "holds mx k t n c \<longleftrightarrow> (\<exists>pre post. c = pre @ (k, t) # post \<and> length post \<le> n) \<and> length c \<le> mx"

lemma holdsI: "c = pre @ (k, t) # post \<Longrightarrow> length post \<le> n \<Longrightarrow> length c \<le> mx \<Longrightarrow> holds mx k t n c"
  unfolding holds_def by blast

lemma holds_mono:
  assumes "holds mx k t n c" and "n \<le> n'"
  shows "holds mx k t n' c"
proof -
  from assms(1) obtain pre post where "c = pre @ (k, t) # post" "length post \<le> n" "length c \<le> mx"
    by (auto simp: holds_def)
  with assms(2) show ?thesis by (intro holdsI [of c pre k t post]) simp_all
qed

lemma holds_evict:
  assumes "holds mx k t n c" and "now - ttl \<le> t"
  shows "holds mx k t n (evict_expired ttl now c)"
proof -
  from assms(1) obtain pre post where c: "c = pre @ (k, t) # post" "length post \<le> n" "length c \<le> mx"
    by (auto simp: holds_def)
  have "evict_expired ttl now c = dropWhile (\<lambda>e. snd e < now - ttl) pre @ (k, t) # post"
    using assms(2) unfolding c(1) evict_expired_def by (induction pre) auto
  moreover have "length (evict_expired ttl now c) \<le> mx"
    using c(3) length_dropWhile_le [of _ c] unfolding evict_expired_def by (meson le_trans)
  ultimately show ?thesis using c(2) by (auto simp: holds_def)
qed

lemma holds_check_and_record:
  assumes "holds mx k t n c" and "now - ttl \<le> t" and "n + 1 < mx"
  shows "holds mx k t (n + 1) (snd (check_and_record ttl mx c src m now))"
proof -
  define c1 where "c1 = evict_expired ttl now c"
  from holds_evict [OF assms(1,2)] obtain pre post where
    c1: "c1 = pre @ (k, t) # post" "length post \<le> n" "length c1 \<le> mx"
    by (auto simp: holds_def c1_def)
  show ?thesis
  proof (cases "(src, m) \<in> fst ` set c1")
    case True
    then have "snd (check_and_record ttl mx c src m now) = c1"
      by (simp add: check_and_record_def Let_def flip: c1_def)
    moreover have "holds mx k t (n + 1) c1" using c1 by (intro holdsI [of c1 pre k t post]) simp_all
    ultimately show ?thesis by simp
  next
    case False
    let ?e = "((src, m), now)"
    have c2: "c1 @ [?e] = pre @ (k, t) # (post @ [?e])" using c1 by simp
    have "holds mx k t (n + 1) (if mx < length (c1 @ [?e]) then tl (c1 @ [?e]) else c1 @ [?e])"
    proof (cases "mx < length (c1 @ [?e])")
      case True
      with c1 assms(3) obtain p ps where "pre = p # ps" by (cases pre) auto
      with True c1 show ?thesis unfolding c2
        by (auto intro!: holdsI [of _ ps k t "post @ [?e]"])
    next
      case False
      with c1 show ?thesis unfolding c2
        by (auto intro!: holdsI [of _ pre k t "post @ [?e]"])
    qed
    with False show ?thesis by (simp add: check_and_record_def Let_def flip: c1_def)
  qed
qed

lemma deliver_cache_cases:
  "deliver_cache C fromiso me c d = c \<or> (\<exists>src m. deliver_cache C fromiso me c d =
     snd (check_and_record REPLAY_CACHE_TTL REPLAY_CACHE_MAX c src m (d_mono d)))"
  by (auto simp: deliver_cache_def verify_envelope_def case_prod_beta split: sum.splits bool.splits)

lemma holds_deliveries:
  assumes "holds REPLAY_CACHE_MAX k t n c" and "\<forall>d \<in> set ds. d_mono d - REPLAY_CACHE_TTL \<le> t"
    and "n + length ds < REPLAY_CACHE_MAX"
  shows "holds REPLAY_CACHE_MAX k t (n + length ds) (fold (\<lambda>d c. deliver_cache C fromiso me c d) ds c)"
  using assms
proof (induction ds arbitrary: c n)
  case (Cons d ds)
  have "holds REPLAY_CACHE_MAX k t (n + 1) (deliver_cache C fromiso me c d)"
    using deliver_cache_cases [of C fromiso me c d] Cons.prems
      holds_check_and_record [OF Cons.prems(1), of "d_mono d" REPLAY_CACHE_TTL] holds_mono [OF Cons.prems(1)]
    by fastforce
  from Cons.IH [OF this] Cons.prems show ?case by simp
qed simp

lemma check_and_record_length:
  "length c \<le> mx \<Longrightarrow> length (snd (check_and_record ttl mx c src m now)) \<le> mx"
  using length_dropWhile_le [of "\<lambda>e. snd e < now - ttl" c]
  by (auto simp: check_and_record_def evict_expired_def Let_def)

lemma deliver_cache_length:
  "length c \<le> REPLAY_CACHE_MAX \<Longrightarrow> length (fold (\<lambda>d c. deliver_cache C fromiso me c d) ds c) \<le> REPLAY_CACHE_MAX"
proof (induction ds arbitrary: c)
  case (Cons d ds)
  have "length (deliver_cache C fromiso me c d) \<le> REPLAY_CACHE_MAX"
    using deliver_cache_cases [of C fromiso me c d] Cons.prems check_and_record_length by metis
  with Cons.IH show ?case by simp
qed simp

lemma recorded_holds:
  assumes "fst (check_and_record ttl mx c src m now)" and "length c \<le> mx" and "0 < mx"
  shows "holds mx (src, m) now 0 (snd (check_and_record ttl mx c src m now))"
proof -
  define c1 where "c1 = evict_expired ttl now c"
  have len: "length c1 \<le> mx"
    using assms(2) length_dropWhile_le [of "\<lambda>e. snd e < now - ttl" c] by (simp add: c1_def evict_expired_def)
  have new: "(src, m) \<notin> fst ` set c1"
    using assms(1) by (simp add: check_and_record_def Let_def flip: c1_def split: if_splits)
  show ?thesis
  proof (cases c1)
    case Nil
    then show ?thesis using new assms(3) by (auto simp: check_and_record_def Let_def holds_def simp flip: c1_def)
  next
    case (Cons e es)
    have "tl (c1 @ [((src, m), now)]) = es @ [((src, m), now)]" using Cons by simp
    then show ?thesis using new len Cons
      by (auto simp: check_and_record_def Let_def holds_def simp flip: c1_def)
  qed
qed

text \<open>Two acceptances of one envelope have clocks at most ten minutes apart.\<close>

lemma accepted_same_src_msg:
  assumes "verify_checks C fromiso env s me now = Inr (src, m, p)"
    and "verify_checks C fromiso env s' me now' = Inr (src', m', p')"
  shows "src' = src \<and> m' = m \<and> \<bar>now' - now\<bar> \<le> REPLAY_CACHE_TTL"
proof -
  obtain kvs ts t where 1: "env = JObj kvs" "map_of kvs ''src_l2_id'' = Some (JStr src)" "map_of kvs ''msg_id'' = Some (JStr m)"
    "map_of kvs ''ts'' = Some (JStr ts)" "fromiso (replace_Z ts) = IsoAware t" "\<bar>now - t\<bar> \<le> REPLAY_TS_TOLERANCE"
    using verify_checks_Inr [OF assms(1)] by auto
  obtain kvs' ts' t' where 2: "env = JObj kvs'" "map_of kvs' ''src_l2_id'' = Some (JStr src')" "map_of kvs' ''msg_id'' = Some (JStr m')"
    "map_of kvs' ''ts'' = Some (JStr ts')" "fromiso (replace_Z ts') = IsoAware t'" "\<bar>now' - t'\<bar> \<le> REPLAY_TS_TOLERANCE"
    using verify_checks_Inr [OF assms(2)] by auto
  from 1 2 show ?thesis by (auto simp: REPLAY_TS_TOLERANCE_def REPLAY_CACHE_TTL_def)
qed


text \<open>C8. Replay protection over a whole history. If a receiver's wall clock and
  monotonic clock advance together and the monotonic clock never runs
  backwards, then of two deliveries of the same envelope that are at most
  100,000 deliveries apart, at most one is accepted: the ten-minute window of
  the cache covers every pair of clocks that the five-minute tolerance on the
  time stamp lets through.\<close>

theorem envelope_accepted_once:
  assumes "i < j" and "j < length ds" and "j - i \<le> REPLAY_CACHE_MAX"
    and "d_env (ds ! i) = d_env (ds ! j)"
    and "sorted (map d_mono ds)"
    and "\<forall>d \<in> set ds. d_now d - d_mono d = offset"
    and "accepted (deliver_all C fromiso me [] ds ! i)"
  shows "\<not> accepted (deliver_all C fromiso me [] ds ! j)"
proof
  assume acc2: "accepted (deliver_all C fromiso me [] ds ! j)"
  let ?run = "\<lambda>ds c. fold (\<lambda>d c. deliver_cache C fromiso me c d) ds c"
  define ci where "ci = ?run (take i ds) []"
  define cj where "cj = ?run (take j ds) []"
  obtain src m p where ok1: "verify_checks C fromiso (d_env (ds ! i)) (d_secret (ds ! i)) me (d_now (ds ! i)) = Inr (src, m, p)"
    and fresh: "(src, m) \<notin> fst ` set (evict_expired REPLAY_CACHE_TTL (d_mono (ds ! i)) ci)"
    using assms(1,2,7) verify_envelope_Inr [of C fromiso "d_env (ds ! i)"]
    by (auto simp: accepted_def deliver_all_nth ci_def split: sum.splits)
  obtain src' m' p' where ok2: "verify_checks C fromiso (d_env (ds ! j)) (d_secret (ds ! j)) me (d_now (ds ! j)) = Inr (src', m', p')"
    and fresh2: "(src', m') \<notin> fst ` set (evict_expired REPLAY_CACHE_TTL (d_mono (ds ! j)) cj)"
    using assms(2) acc2 verify_envelope_Inr [of C fromiso "d_env (ds ! j)"]
    by (auto simp: accepted_def deliver_all_nth cj_def split: sum.splits)
  from accepted_same_src_msg [OF ok1 [unfolded assms(4)] ok2] have
    same: "src' = src" "m' = m" and gap: "d_now (ds ! j) - d_now (ds ! i) \<le> REPLAY_CACHE_TTL" by auto
  have "ds ! i \<in> set ds" "ds ! j \<in> set ds" using assms(1,2) by simp_all
  with assms(6) have "d_now (ds ! i) - d_mono (ds ! i) = d_now (ds ! j) - d_mono (ds ! j)" by metis
  with gap have gap': "d_mono (ds ! j) - REPLAY_CACHE_TTL \<le> d_mono (ds ! i)" by linarith
  define mid where "mid = take (j - Suc i) (drop (Suc i) ds)"
  have split: "take j ds = take i ds @ ds ! i # mid"
    using assms(1,2) id_take_nth_drop [of i "take j ds"] by (simp add: mid_def min_def drop_take)
  have mid_len: "length mid = j - Suc i" using assms(1,2) by (simp add: mid_def)
  have "deliver_cache C fromiso me ci (ds ! i)
      = snd (check_and_record REPLAY_CACHE_TTL REPLAY_CACHE_MAX ci src m (d_mono (ds ! i)))"
    and rec: "fst (check_and_record REPLAY_CACHE_TTL REPLAY_CACHE_MAX ci src m (d_mono (ds ! i)))"
    using ok1 fresh by (simp_all add: deliver_cache_def verify_envelope_def check_and_record_def Let_def)
  moreover have "length ci \<le> REPLAY_CACHE_MAX"
    unfolding ci_def by (rule deliver_cache_length) simp
  ultimately have "holds REPLAY_CACHE_MAX (src, m) (d_mono (ds ! i)) 0 (deliver_cache C fromiso me ci (ds ! i))"
    using recorded_holds [OF rec] by (simp add: REPLAY_CACHE_MAX_def)
  moreover have "\<forall>d \<in> set mid. d_mono d - REPLAY_CACHE_TTL \<le> d_mono (ds ! i)"
  proof
    fix d assume "d \<in> set mid"
    then have "d \<in> set (take j ds)" using split by simp
    then obtain l where "l < j" "d = ds ! l" using assms(2) by (auto simp: in_set_conv_nth)
    with assms(2,5) have "d_mono d \<le> d_mono (ds ! j)" by (auto simp: sorted_iff_nth_mono)
    with gap' show "d_mono d - REPLAY_CACHE_TTL \<le> d_mono (ds ! i)" by simp
  qed
  moreover have "0 + length mid < REPLAY_CACHE_MAX" using assms(1,3) mid_len by simp
  ultimately have "holds REPLAY_CACHE_MAX (src, m) (d_mono (ds ! i)) (0 + length mid) cj"
    unfolding cj_def split fold_append fold_Cons comp_def ci_def [symmetric]
    by (rule holds_deliveries)
  from holds_evict [OF this gap'] have "(src, m) \<in> fst ` set (evict_expired REPLAY_CACHE_TTL (d_mono (ds ! j)) cj)"
    by (force simp: holds_def)
  with fresh2 same show False by simp
qed

definition demo_delivery :: "int \<Rightarrow> delivery" where
  "demo_delivery t = \<lparr>d_env = demo_env demo_secret, d_secret = demo_secret, d_now = t, d_mono = t\<rparr>"

lemma envelope_accepted_once_witness:
  "\<not> accepted (deliver_all demo_prims demo_fromiso ''b'' [] [demo_delivery 12, demo_delivery 13] ! 1)"
proof (rule envelope_accepted_once [where i = 0 and offset = 0])
  show "accepted (deliver_all demo_prims demo_fromiso ''b'' [] [demo_delivery 12, demo_delivery 13] ! 0)"
  proof -
    have "fst (verify_envelope demo_prims demo_fromiso (demo_env demo_secret) demo_secret ''b'' 12 12 []) = Inr (JInt 5)"
      by (simp add: verify_envelope_Inr demo_env_checks evict_expired_def)
    then show ?thesis by (simp add: deliver_all_Cons demo_delivery_def accepted_def del: deliver_all.simps(2))
  qed
qed (simp_all add: demo_delivery_def REPLAY_CACHE_MAX_def)

section \<open>Errors that escape\<close>

text \<open>The documentation of \<open>verify_envelope\<close> says it raises
  \<open>EnvelopeVerificationError\<close> on any failure. Two kinds of envelope make it raise
  something else, before any MAC is checked: one that names the receiver itself
  as its source raises ValueError from the pair id, and one whose time stamp is
  a JSON number raises AttributeError from \<open>ts.replace\<close>.\<close>

theorem verify_envelope_escapes:
  "(\<exists>env. \<forall>C fromiso secret now mtime c.
      verify_envelope C fromiso env secret ''me'' now mtime c = (Inl (Escaped ValueError), c))
   \<and> (\<exists>env. \<forall>C fromiso secret now mtime c.
      verify_envelope C fromiso env secret ''me'' now mtime c = (Inl (Escaped AttributeError), c))"
proof (rule conjI)
  let ?env = "\<lambda>src pair ts. JObj [(''version'', JStr ''v1''), (''pair_id'', JStr pair), (''src_l2_id'', JStr src),
      (''dst_l2_id'', JStr ''me''), (''ts'', ts), (''nonce'', JStr []), (''msg_id'', JStr ''m''),
      (''payload'', JNull), (''mac'', JStr [])]"
  have 1: "canonical_pair_id ''me'' ''me'' = Inl ValueError" by code_simp
  have 2: "canonical_pair_id ''a'' ''me'' = Inr ''aigrp-pair:a:me''" by code_simp
  have 3: "b64u_decode [] = Inr []" by code_simp
  show "\<exists>env. \<forall>C fromiso secret now mtime c.
      verify_envelope C fromiso env secret ''me'' now mtime c = (Inl (Escaped ValueError), c)"
    by (rule exI [of _ "?env ''me'' [] JNull"])
      (simp add: verify_envelope_def verify_checks_def required_fields_def verify_pair_def 1)
  show "\<exists>env. \<forall>C fromiso secret now mtime c.
      verify_envelope C fromiso env secret ''me'' now mtime c = (Inl (Escaped AttributeError), c)"
    by (rule exI [of _ "?env ''a'' ''aigrp-pair:a:me'' (JInt 0)"])
      (simp add: verify_envelope_def verify_checks_def required_fields_def verify_pair_def verify_ts_def
        is_b64_def 2 3)
qed

end
