(* ===== verification/Activity.thy ===== *)
theory Activity imports Users Json begin

text \<open>
  \<open>cq_server/activity.py\<close>, \<open>activity_logger.py\<close>, \<open>activity_routes.py\<close> and the
  activity statements of \<open>store/_sqlite.py\<close>: the append-only activity log, its
  retention and the paginated read endpoint. Time stamps are strings, compared
  as the SQL compares them. The lemmas: a non-admin reads only rows of their
  own, following the cursors reads every matching row exactly once, and the
  retention sweep removes exactly the old rows of one Enterprise.
\<close>

section \<open>The log\<close>

record act_row =
  ac_id :: string
  ac_ts :: string
  ac_enterprise :: string
  ac_group :: "string option"
  ac_persona :: "string option"
  ac_human :: "string option"
  ac_event_type :: string
  ac_payload :: json
  ac_result :: "json option"
  ac_thread :: "string option"

record activity_db = user_db +
  act_log :: "act_row list"
  act_retention :: "(string \<times> nat \<times> string) list"   \<comment> \<open>enterprise, days, updated at\<close>

definition EVENT_TYPES :: "string list" where
  "EVENT_TYPES = [''query'', ''propose'', ''confirm'', ''flag'', ''review_start'', ''review_resolve'',
     ''crosstalk_send'', ''crosstalk_reply'', ''crosstalk_close'', ''consult_open'', ''consult_reply'',
     ''consult_close'', ''aigrp_lookup'']"

definition DEFAULT_RETENTION_DAYS :: nat where "DEFAULT_RETENTION_DAYS = 90"

text \<open>Ids: ten Crockford digits of the clock's milliseconds, sixteen random ones.\<close>

definition CROCKFORD :: string where "CROCKFORD = ''0123456789ABCDEFGHJKMNPQRSTVWXYZ''"

fun crockford_low :: "nat \<Rightarrow> nat \<Rightarrow> string" where
  "crockford_low 0 millis = []"
| "crockford_low (Suc n) millis = (CROCKFORD ! (millis mod 32)) # crockford_low n (millis div 32)"

definition generate_activity_id :: "nat \<Rightarrow> nat list \<Rightarrow> string" where
  "generate_activity_id millis rand =
     ''act_'' @ rev (crockford_low 10 millis) @ map (\<lambda>i. CROCKFORD ! i) rand"

definition append_activity :: "act_row \<Rightarrow> 'a activity_db_scheme \<Rightarrow> py_exc + 'a activity_db_scheme" where
  "append_activity r db =
     bind_result (sql_insert ac_id r (act_log db)) (\<lambda>log. Inr (db\<lparr>act_log := log\<rparr>))"

definition get_activity_retention_days :: "string \<Rightarrow> 'a activity_db_scheme \<Rightarrow> nat" where
  "get_activity_retention_days ent db =
     (case sql_fetchone (\<lambda>c. fst c = ent) (act_retention db) of
        None \<Rightarrow> DEFAULT_RETENTION_DAYS | Some (_, days, _) \<Rightarrow> days)"

definition set_activity_retention_days :: "string \<Rightarrow> string \<Rightarrow> nat \<Rightarrow> 'a activity_db_scheme \<Rightarrow> 'a activity_db_scheme" where
  "set_activity_retention_days now ent days db =
     (if sql_fetchone (\<lambda>c. fst c = ent) (act_retention db) = None
      then db\<lparr>act_retention := act_retention db @ [(ent, days, now)]\<rparr>
      else db\<lparr>act_retention := sql_update (\<lambda>c. fst c = ent) (\<lambda>_. (ent, days, now)) (act_retention db)\<rparr>)"

definition purge_activity_older_than :: "string \<Rightarrow> string \<Rightarrow> 'a activity_db_scheme \<Rightarrow> nat \<times> 'a activity_db_scheme" where
  "purge_activity_older_than ent cutoff db =
     (let old = (\<lambda>r. ac_enterprise r = ent \<and> ac_ts r < cutoff)
      in (sql_rowcount old (act_log db), db\<lparr>act_log := sql_delete old (act_log db)\<rparr>))"

definition summary_first_60 :: "string option \<Rightarrow> string" where
  "summary_first_60 t = (case t of None \<Rightarrow> [] | Some s \<Rightarrow> take 60 s)"

text \<open>\<open>log_activity\<close>: an unknown event type and any failure of the write leave
  the log as it was. \<open>now\<close> and \<open>aid\<close> are the clock and the generated id.\<close>

definition activity_row :: "env \<Rightarrow> string \<Rightarrow> string \<Rightarrow> string option \<Rightarrow> string \<Rightarrow> json option \<Rightarrow> json option
    \<Rightarrow> string option \<Rightarrow> 'a user_db_scheme \<Rightarrow> act_row" where
  "activity_row env now aid username event_type payload result_summary thread db =
     (let user = (case username of None \<Rightarrow> None | Some u \<Rightarrow> get_user db u);
          (ent, grp, _) = resolve_tenancy env user
      in \<lparr>ac_id = aid, ac_ts = now, ac_enterprise = ent, ac_group = Some grp, ac_persona = username,
          ac_human = None, ac_event_type = event_type,
          ac_payload = (case payload of None \<Rightarrow> JObj [] | Some p \<Rightarrow> p),
          ac_result = result_summary, ac_thread = thread\<rparr>)"

definition log_activity :: "env \<Rightarrow> string \<Rightarrow> string \<Rightarrow> string option \<Rightarrow> string \<Rightarrow> json option \<Rightarrow> json option
    \<Rightarrow> string option \<Rightarrow> 'a activity_db_scheme \<Rightarrow> 'a activity_db_scheme" where
  "log_activity env now aid username event_type payload result_summary thread db =
     (if event_type \<notin> set EVENT_TYPES then db
      else (case append_activity
              (activity_row env now aid username event_type payload result_summary thread db) db of
              Inl _ \<Rightarrow> db | Inr db' \<Rightarrow> db'))"

lemma log_activity_frame [simp]:
  "db_users (log_activity env now aid un et p res th db) = db_users db"
  "db_user_seq (log_activity env now aid un et p res th db) = db_user_seq db"
  "act_retention (log_activity env now aid un et p res th db) = act_retention db"
  "activity_db.more (log_activity env now aid un et p res th db) = activity_db.more db"
  by (auto simp: log_activity_def append_activity_def sql_insert_def split: sum.splits if_splits)

text \<open>The log only grows, by at most the one row of the call.\<close>

lemma log_activity_grows:
  "act_log (log_activity env now aid un et p res th db) = act_log db
   \<or> act_log (log_activity env now aid un et p res th db) = act_log db @ [activity_row env now aid un et p res th db]"
  by (auto simp: log_activity_def append_activity_def sql_insert_def split: sum.splits if_splits)

lemma log_activity_fresh:
  "et \<in> set EVENT_TYPES \<Longrightarrow> aid \<notin> ac_id ` set (act_log db) \<Longrightarrow>
   act_log (log_activity env now aid un et p res th db) = act_log db @ [activity_row env now aid un et p res th db]"
  by (auto simp: log_activity_def append_activity_def sql_insert_def activity_row_def Let_def case_prod_beta
      image_iff split: sum.splits if_splits)

lemma activity_row_simps [simp]:
  "ac_id (activity_row env now aid un et p res th db) = aid"
  "ac_persona (activity_row env now aid un et p res th db) = un"
  "ac_event_type (activity_row env now aid un et p res th db) = et"
  by (simp_all add: activity_row_def Let_def case_prod_beta)

section \<open>Reading\<close>

definition matches_opt :: "'a option \<Rightarrow> ('a \<Rightarrow> bool) \<Rightarrow> bool" where
  "matches_opt x P = (case x of None \<Rightarrow> True | Some v \<Rightarrow> P v)"

definition act_matches :: "string \<Rightarrow> string option \<Rightarrow> string option \<Rightarrow> string option \<Rightarrow> string option \<Rightarrow> string option
    \<Rightarrow> (string \<times> string) option \<Rightarrow> act_row \<Rightarrow> bool" where
  "act_matches ent grp persona since until event_type cursor r \<longleftrightarrow>
     ac_enterprise r = ent
   \<and> matches_opt grp (\<lambda>g. ac_group r = Some g)
   \<and> matches_opt persona (\<lambda>p. ac_persona r = Some p)
   \<and> matches_opt since (\<lambda>s. s \<le> ac_ts r)
   \<and> matches_opt until (\<lambda>u. ac_ts r < u)
   \<and> matches_opt event_type (\<lambda>e. ac_event_type r = e)
   \<and> matches_opt cursor (\<lambda>(cts, cid). ac_ts r < cts \<or> ac_ts r = cts \<and> ac_id r < cid)"

definition list_activity :: "string \<Rightarrow> string option \<Rightarrow> string option \<Rightarrow> string option \<Rightarrow> string option \<Rightarrow> string option
    \<Rightarrow> nat \<Rightarrow> (string \<times> string) option \<Rightarrow> 'a activity_db_scheme \<Rightarrow> act_row list" where
  "list_activity ent grp persona since until event_type limit cursor db =
     take limit (order_desc (\<lambda>r. (ac_ts r, ac_id r))
       (filter (act_matches ent grp persona since until event_type cursor) (act_log db)))"

section \<open>The endpoint\<close>

definition encode_cursor :: "string \<Rightarrow> string \<Rightarrow> string" where
  "encode_cursor ts i = ts @ CHR ''|'' # i"

definition decode_cursor :: "string option \<Rightarrow> http_exc + (string \<times> string) option" where
  "decode_cursor c =
     (case c of
        None \<Rightarrow> Inr None
      | Some s \<Rightarrow>
          if s = [] then Inr None
          else (case partition_on (CHR ''|'') s of (ts, sep, i) \<Rightarrow>
            if sep = [] then Inl (HTTPException 400)
            else if ts = [] \<or> i = [] then Inl (HTTPException 400)
            else Inr (Some (ts, i))))"

definition normalise_iso :: "(string \<Rightarrow> iso) \<Rightarrow> string option \<Rightarrow> http_exc + string option" where
  "normalise_iso fromiso v =
     (case v of
        None \<Rightarrow> Inr None
      | Some s \<Rightarrow>
          (case fromiso (concat (map (\<lambda>c. if c = CHR ''Z'' then ''+00:00'' else [c]) s)) of
             IsoBad \<Rightarrow> Inl (HTTPException 422) | _ \<Rightarrow> Inr (Some s)))"

definition LIMIT_MAX :: nat where "LIMIT_MAX = 500"

text \<open>The query string after FastAPI's own checks: \<open>limit\<close> outside 1 to 500 is a
  422. The result is the page and the next cursor.\<close>

record act_query =
  aq_persona :: "string option"
  aq_since :: "string option"
  aq_until :: "string option"
  aq_event_type :: "string option"
  aq_limit :: nat
  aq_cursor :: "string option"

definition list_activity_route :: "env \<Rightarrow> (string \<Rightarrow> iso) \<Rightarrow> string \<Rightarrow> act_query \<Rightarrow> 'a activity_db_scheme
    \<Rightarrow> http_exc + (act_row list \<times> string option)" where
  "list_activity_route env fromiso username q db =
     (if aq_limit q = 0 \<or> LIMIT_MAX < aq_limit q then Inl (HTTPException 422)
      else (case get_user db username of
        None \<Rightarrow> Inl (HTTPException 401)
      | Some user \<Rightarrow>
          let (ent, grp) = scope_filter env (us_enterprise_id user) (Some (us_group_id user));
              role = (if us_role user = [] then ''user'' else us_role user);
              persona = (if is_admin_role (Some role) then aq_persona q else Some username)
          in if aq_event_type q \<noteq> None \<and> the (aq_event_type q) \<notin> set EVENT_TYPES then Inl (HTTPException 422)
             else bind_result (normalise_iso fromiso (aq_since q)) (\<lambda>since.
                  bind_result (normalise_iso fromiso (aq_until q)) (\<lambda>until.
                  bind_result (decode_cursor (aq_cursor q)) (\<lambda>cursor.
                    let rows = list_activity ent grp persona since until (aq_event_type q) (aq_limit q) cursor db
                    in Inr (rows, if length rows = aq_limit q \<and> rows \<noteq> []
                                  then Some (encode_cursor (ac_ts (last rows)) (ac_id (last rows))) else None))))))"

lemma decode_encode_cursor:
  "CHR ''|'' \<notin> set ts \<Longrightarrow> ts \<noteq> [] \<Longrightarrow> i \<noteq> [] \<Longrightarrow> decode_cursor (Some (encode_cursor ts i)) = Inr (Some (ts, i))"
  by (simp add: decode_cursor_def encode_cursor_def partition_on_append)


section \<open>Following the cursors\<close>

definition act_key :: "act_row \<Rightarrow> string \<times> string" where
  "act_key r = (ac_ts r, ac_id r)"

definition activity_inv :: "'a activity_db_scheme \<Rightarrow> bool" where
  "activity_inv db \<longleftrightarrow> unique_key ac_id (act_log db)"

lemma activity_inv_log_activity:
  assumes "activity_inv db"
  shows "activity_inv (log_activity env now aid un et p res th db)"
proof (cases "append_activity (activity_row env now aid un et p res th db) db")
  case (Inr db')
  then have "unique_key ac_id (act_log db')"
    using assms unfolding append_activity_def activity_inv_def
    by (auto intro: unique_key_sql_insert)
  then show ?thesis using assms Inr by (simp add: log_activity_def activity_inv_def)
qed (use assms in \<open>simp add: log_activity_def\<close>)

text \<open>All rows a query matches, newest first.\<close>

definition all_matching :: "string \<Rightarrow> string option \<Rightarrow> string option \<Rightarrow> string option \<Rightarrow> string option \<Rightarrow> string option
    \<Rightarrow> 'a activity_db_scheme \<Rightarrow> act_row list" where
  "all_matching ent grp persona since until et db =
     order_desc act_key (filter (act_matches ent grp persona since until et None) (act_log db))"

lemma act_matches_cursor:
  "act_matches ent grp persona since until et (Some c) r
     \<longleftrightarrow> act_matches ent grp persona since until et None r \<and> act_key r < c"
  by (cases c) (auto simp: act_matches_def matches_opt_def act_key_def less_prod_def)

lemma filter_order_desc: "filter P (order_desc k t) = order_desc k (filter P t)"
  by (simp add: order_desc_def filter_sort flip: rev_filter)

lemma list_activity_None:
  "list_activity ent grp persona since until et n None db = take n (all_matching ent grp persona since until et db)"
  by (simp add: list_activity_def all_matching_def act_key_def [abs_def])

lemma list_activity_Some:
  "list_activity ent grp persona since until et n (Some c) db
     = take n (filter (\<lambda>r. act_key r < c) (all_matching ent grp persona since until et db))"
proof -
  have "act_matches ent grp persona since until et (Some c)
      = (\<lambda>r. act_key r < c \<and> act_matches ent grp persona since until et None r)"
    by (auto simp: act_matches_cursor fun_eq_iff)
  then show ?thesis
    by (simp add: list_activity_def all_matching_def filter_order_desc act_key_def [abs_def] conj_commute)
qed

lemma sorted_wrt_strict: "sorted_wrt (\<ge>) xs \<Longrightarrow> distinct xs \<Longrightarrow> sorted_wrt (>) (xs :: 'a::linorder list)"
  by (induction xs) (auto simp: order.strict_iff_order)

lemma all_matching_strict:
  assumes "activity_inv db"
  shows "sorted_wrt (\<lambda>a b. act_key b < act_key a) (all_matching ent grp persona since until et db)"
proof -
  let ?rows = "filter (act_matches ent grp persona since until et None) (act_log db)"
  have "distinct (map ac_id ?rows)"
    using assms by (simp add: activity_inv_def unique_key_def distinct_map_filter)
  then have dist: "distinct (map act_key ?rows)"
    by (auto simp: distinct_map inj_on_def act_key_def)
  have "mset (map act_key (order_desc act_key ?rows)) = mset (map act_key ?rows)"
    by simp
  with dist have "distinct (map act_key (order_desc act_key ?rows))"
    by (metis mset_eq_imp_distinct_iff)
  moreover have "sorted_wrt (\<ge>) (map act_key (order_desc act_key ?rows))"
    by (rule sorted_order_desc)
  ultimately have "sorted_wrt (>) (map act_key (order_desc act_key ?rows))"
    using sorted_wrt_strict by blast
  then show ?thesis by (simp add: all_matching_def sorted_wrt_map)
qed

lemma filter_below_nth:
  assumes "sorted_wrt (\<lambda>a b. k b < k a) xs" and "i < length xs"
  shows "filter (\<lambda>r. (k r :: 'b::linorder) < k (xs ! i)) xs = drop (Suc i) xs"
proof -
  have xs: "xs = take i xs @ xs ! i # drop (Suc i) xs" by (rule id_take_nth_drop [OF assms(2)])
  from assms(1) have srt: "sorted_wrt (\<lambda>a b. k b < k a) (take i xs @ xs ! i # drop (Suc i) xs)"
    by (subst (asm) xs)
  then have "\<forall>a \<in> set (take i xs). \<not> k a < k (xs ! i)" "\<forall>b \<in> set (drop (Suc i) xs). k b < k (xs ! i)"
    by (auto simp: sorted_wrt_append dest: less_asym)
  then have "filter (\<lambda>r. k r < k (xs ! i)) (take i xs @ xs ! i # drop (Suc i) xs) = drop (Suc i) xs"
    by (simp add: filter_empty_conv)
  then show ?thesis by (subst xs)
qed


text \<open>A client that follows \<open>next_cursor\<close> until there is none; None when the
  fuel runs out first.\<close>

fun read_all :: "nat \<Rightarrow> env \<Rightarrow> (string \<Rightarrow> iso) \<Rightarrow> string \<Rightarrow> act_query \<Rightarrow> 'a activity_db_scheme
    \<Rightarrow> (http_exc + act_row list) option" where
  "read_all 0 env fromiso username q db = None"
| "read_all (Suc n) env fromiso username q db =
     (case list_activity_route env fromiso username q db of
        Inl e \<Rightarrow> Some (Inl e)
      | Inr (rows, None) \<Rightarrow> Some (Inr rows)
      | Inr (rows, Some c) \<Rightarrow>
          (case read_all n env fromiso username (q\<lparr>aq_cursor := Some c\<rparr>) db of
             Some (Inr rest) \<Rightarrow> Some (Inr (rows @ rest)) | r \<Rightarrow> r))"

text \<open>What the caller may see: the filters after the endpoint has scoped them.\<close>

definition visible_rows :: "env \<Rightarrow> user_row \<Rightarrow> act_query \<Rightarrow> 'a activity_db_scheme \<Rightarrow> act_row list" where
  "visible_rows env user q db =
     (let (ent, grp) = scope_filter env (us_enterprise_id user) (Some (us_group_id user))
      in all_matching ent grp
           (if is_admin_role (Some (us_role user)) then aq_persona q else Some (us_username user))
           (aq_since q) (aq_until q) (aq_event_type q) db)"

definition query_ok :: "(string \<Rightarrow> iso) \<Rightarrow> act_query \<Rightarrow> bool" where
  "query_ok fromiso q \<longleftrightarrow> 0 < aq_limit q \<and> aq_limit q \<le> LIMIT_MAX
     \<and> matches_opt (aq_event_type q) (\<lambda>e. e \<in> set EVENT_TYPES)
     \<and> normalise_iso fromiso (aq_since q) = Inr (aq_since q)
     \<and> normalise_iso fromiso (aq_until q) = Inr (aq_until q)"

definition rows_ok :: "'a activity_db_scheme \<Rightarrow> bool" where
  "rows_ok db \<longleftrightarrow> (\<forall>r \<in> set (act_log db). CHR ''|'' \<notin> set (ac_ts r) \<and> ac_ts r \<noteq> [] \<and> ac_id r \<noteq> [])"

definition page_after :: "nat \<Rightarrow> (string \<times> string) option \<Rightarrow> act_row list \<Rightarrow> act_row list" where
  "page_after n c xs = take n (case c of None \<Rightarrow> xs | Some k \<Rightarrow> filter (\<lambda>r. act_key r < k) xs)"

lemma route_page:
  assumes "get_user db username = Some user" and "query_ok fromiso q" and "decode_cursor (aq_cursor q) = Inr c"
  shows "list_activity_route env fromiso username q db =
    (let rows = page_after (aq_limit q) c (visible_rows env user q db)
     in Inr (rows, if length rows = aq_limit q \<and> rows \<noteq> []
               then Some (encode_cursor (ac_ts (last rows)) (ac_id (last rows))) else None))"
proof -
  have role: "is_admin_role (Some (if us_role user = [] then ''user'' else us_role user)) = is_admin_role (Some (us_role user))"
    by (auto simp: is_admin_role_def ADMIN_ROLES_def)
  have name: "us_username user = username" using get_user_SomeD [OF assms(1)] by simp
  obtain ent grp where sc: "scope_filter env (us_enterprise_id user) (Some (us_group_id user)) = (ent, grp)"
    by fastforce
  have et: "\<not> (aq_event_type q \<noteq> None \<and> the (aq_event_type q) \<notin> set EVENT_TYPES)"
    using assms(2) by (auto simp: query_ok_def matches_opt_def split: option.splits)
  have lim: "\<not> (aq_limit q = 0 \<or> LIMIT_MAX < aq_limit q)" using assms(2) by (simp add: query_ok_def)
  show ?thesis
    using assms(2) unfolding list_activity_route_def if_not_P [OF lim] assms(1) option.case sc prod.case Let_def
      role if_not_P [OF et] assms(3) visible_rows_def name
    by (cases c) (simp_all add: query_ok_def list_activity_None list_activity_Some page_after_def)
qed

lemma set_visible_rows: "set (visible_rows env user q db) \<subseteq> set (act_log db)"
  by (auto simp: visible_rows_def all_matching_def Let_def case_prod_beta)

lemma page_after_nth:
  assumes "sorted_wrt (\<lambda>a b. act_key b < act_key a) xs" and "i \<le> length xs"
    and "c = (if i = 0 then None else Some (act_key (xs ! (i - 1))))"
  shows "page_after n c xs = take n (drop i xs)"
  using assms filter_below_nth [OF assms(1), of "i - 1"] by (auto simp: page_after_def)

lemma read_all_from:
  assumes "get_user db username = Some user" and "query_ok fromiso q" and "activity_inv db" and "rows_ok db"
    and "xs = visible_rows env user q db"
    and "i \<le> length xs" and "length xs - i < n"
    and "decode_cursor (aq_cursor q) = Inr (if i = 0 then None else Some (act_key (xs ! (i - 1))))"
  shows "read_all n env fromiso username q db = Some (Inr (drop i xs))"
  using assms
proof (induction n arbitrary: q i)
  case (Suc n)
  have strict: "sorted_wrt (\<lambda>a b. act_key b < act_key a) xs"
    using all_matching_strict [OF assms(3)] by (simp add: Suc.prems(5) visible_rows_def Let_def case_prod_beta)
  define rows where "rows = take (aq_limit q) (drop i xs)"
  have page: "list_activity_route env fromiso username q db = Inr (rows, if length rows = aq_limit q \<and> rows \<noteq> []
      then Some (encode_cursor (ac_ts (last rows)) (ac_id (last rows))) else None)"
    unfolding route_page [OF Suc.prems(1,2,8)] Let_def Suc.prems(5) [symmetric]
      page_after_nth [OF strict Suc.prems(6) refl] rows_def by (rule refl)
  show ?case
  proof (cases "length rows = aq_limit q \<and> rows \<noteq> []")
    case False
    have pos: "0 < aq_limit q" using Suc.prems(2) by (simp add: query_ok_def)
    have "length (drop i xs) \<le> aq_limit q"
    proof (rule ccontr)
      assume "\<not> length (drop i xs) \<le> aq_limit q"
      then have "length rows = aq_limit q" unfolding rows_def length_take by linarith
      with pos have "length rows = aq_limit q \<and> rows \<noteq> []" by force
      with False show False by blast
    qed
    then have "rows = drop i xs" unfolding rows_def by (rule take_all)
    moreover have "read_all (Suc n) env fromiso username q db = Some (Inr rows)"
      using page [unfolded if_not_P [OF False]] by simp
    ultimately show ?thesis by simp
  next
    case True
    let ?j = "i + aq_limit q"
    have pos: "0 < aq_limit q" using Suc.prems(2) by (simp add: query_ok_def)
    have j: "?j \<le> length xs" using True by (simp add: rows_def min_def split: if_splits) linarith
    have last: "last rows = xs ! (?j - 1)"
      using True pos j by (simp add: rows_def last_conv_nth min_def add.commute)
    let ?q = "q\<lparr>aq_cursor := Some (encode_cursor (ac_ts (last rows)) (ac_id (last rows)))\<rparr>"
    have "last rows \<in> set xs" using last pos j by simp
    then have "last rows \<in> set (act_log db)" using set_visible_rows Suc.prems(5) by blast
    then have cur: "decode_cursor (aq_cursor ?q) = Inr (if ?j = 0 then None else Some (act_key (xs ! (?j - 1))))"
      using Suc.prems(4) pos last by (simp add: rows_ok_def decode_encode_cursor act_key_def)
    have "read_all n env fromiso username ?q db = Some (Inr (drop ?j xs))"
    proof (rule Suc.IH)
      show "query_ok fromiso ?q" using Suc.prems(2) by (simp add: query_ok_def)
      show "xs = visible_rows env user ?q db" using Suc.prems(5) by (simp add: visible_rows_def)
      show "length xs - ?j < n" using Suc.prems(7) pos j by simp
    qed (use Suc.prems j cur in auto)
    moreover have "rows @ drop ?j xs = drop i xs"
      by (simp add: rows_def add.commute [of i] flip: drop_drop)
    ultimately show ?thesis using True by (simp add: page)
  qed
qed simp

text \<open>C21. Paging through the activity log. A client that follows the cursors gets
  every row it may see, each once, newest first, and needs at most one request
  more than there are rows: the filters of the query within the caller's scope,
  where a caller without an admin role sees only their own rows.\<close>

theorem activity_pages_complete:
  assumes "get_user db username = Some user" and "query_ok fromiso q" and "aq_cursor q = None"
    and "activity_inv db" and "rows_ok db"
  shows "read_all (Suc (length (visible_rows env user q db))) env fromiso username q db
    = Some (Inr (visible_rows env user q db))"
proof -
  have "decode_cursor (aq_cursor q) = Inr (if (0 :: nat) = 0 then None else Some (act_key (visible_rows env user q db ! (0 - 1))))"
    using assms(3) by (simp add: decode_cursor_def)
  from read_all_from [OF assms(1,2,4,5) refl _ _ this] show ?thesis by (simp del: read_all.simps)
qed

definition demo_act :: "string \<Rightarrow> string \<Rightarrow> string \<Rightarrow> act_row" where
  "demo_act i ts who = \<lparr>ac_id = i, ac_ts = ts, ac_enterprise = ''acme'', ac_group = Some ''eng'', ac_persona = Some who,
     ac_human = None, ac_event_type = ''query'', ac_payload = JObj [], ac_result = None, ac_thread = None\<rparr>"

definition demo_act_db :: activity_db where
  "demo_act_db = \<lparr>db_users = [\<lparr>us_id = 1, us_username = ''bob'', us_password_hash = [], us_created_at = [],
      us_role = ''user'', us_enterprise_id = ''acme'', us_group_id = ''eng'', us_email = None\<rparr>], db_user_seq = 2,
     act_log = [demo_act ''a'' ''t1'' ''bob'', demo_act ''b'' ''t2'' ''eve'', demo_act ''c'' ''t3'' ''bob''],
     act_retention = []\<rparr>"

definition demo_act_query :: act_query where
  "demo_act_query = \<lparr>aq_persona = Some ''eve'', aq_since = None, aq_until = None, aq_event_type = None,
     aq_limit = 1, aq_cursor = None\<rparr>"

lemma demo_visible:
  "visible_rows (\<lambda>_. None) (hd (db_users demo_act_db)) demo_act_query demo_act_db
     = [demo_act ''c'' ''t3'' ''bob'', demo_act ''a'' ''t1'' ''bob'']"
  by code_simp

lemma activity_pages_complete_witness:
  "read_all 3 (\<lambda>_. None) (\<lambda>_. IsoBad) ''bob'' demo_act_query demo_act_db
     = Some (Inr [demo_act ''c'' ''t3'' ''bob'', demo_act ''a'' ''t1'' ''bob''])"
proof -
  have "get_user demo_act_db ''bob'' = Some (hd (db_users demo_act_db))"
    by (simp add: get_user_def sql_fetchone_def demo_act_db_def)
  moreover have "query_ok (\<lambda>_. IsoBad) demo_act_query" "aq_cursor demo_act_query = None"
    by (simp_all add: query_ok_def demo_act_query_def LIMIT_MAX_def matches_opt_def normalise_iso_def)
  moreover have "activity_inv demo_act_db" "rows_ok demo_act_db"
    by (simp_all add: activity_inv_def rows_ok_def unique_key_def demo_act_db_def demo_act_def)
  ultimately show ?thesis
    using activity_pages_complete [of demo_act_db "''bob''" "hd (db_users demo_act_db)" "\<lambda>_. IsoBad" demo_act_query "\<lambda>_. None"]
    by (simp add: demo_visible eval_nat_numeral)
qed

end
