(* ===== verification/UnitStore.thy ===== *)
theory UnitStore imports Units "HOL-Library.Option_ord" begin

text \<open>
  The statements of \<open>store/_sqlite.py\<close> and \<open>store/_queries.py\<close> on the tables
  \<open>knowledge_units\<close> and \<open>knowledge_unit_domains\<close>: writing, the review status,
  the pending-review tier, the reads and the aggregates. Each operation has its
  scope arguments, the Enterprise and the group, as the code has them. The
  lemmas: the two tables agree under every write, a terminal status is final,
  and a scoped operation neither returns nor changes a row out of scope.
\<close>

section \<open>The tables\<close>

record ku_row =
  kr_id :: string
  kr_data :: ku
  kr_status :: string
  kr_reviewed_by :: "string option"
  kr_reviewed_at :: "string option"
  kr_created_at :: string
  kr_tier :: tier
  kr_enterprise :: string
  kr_group :: string
  kr_cross_group :: bool
  kr_embedding :: "bytes option"
  kr_embedding_model :: "string option"
  kr_pr_reason :: "string option"
  kr_pr_expires :: "string option"

record ku_db = activity_db +
  ku_rows :: "ku_row list"
  ku_index :: "(string \<times> string) list"   \<comment> \<open>unit id, domain\<close>
  ku_rep :: rep_db

definition in_scope :: "string option \<Rightarrow> string option \<Rightarrow> ku_row \<Rightarrow> bool" where
  "in_scope ent grp r \<longleftrightarrow>
     matches_opt ent (\<lambda>e. kr_enterprise r = e \<and> matches_opt grp (\<lambda>g. kr_group r = g))"

text \<open>\<open>LIMIT n OFFSET k\<close>, where SQLite reads a negative limit as none.\<close>

definition sql_limit :: "int \<Rightarrow> int \<Rightarrow> 'a list \<Rightarrow> 'a list" where
  "sql_limit n k xs = (let ys = drop (nat k) xs in if n < 0 then ys else take (nat n) ys)"

section \<open>Writing units\<close>

fun insert_domains :: "string \<Rightarrow> string list \<Rightarrow> (string \<times> string) list \<Rightarrow> py_exc + (string \<times> string) list" where
  "insert_domains i [] t = Inr t"
| "insert_domains i (d # ds) t = bind_result (sql_insert (\<lambda>r. r) (i, d) t) (insert_domains i ds)"

definition new_ku_row :: "string \<Rightarrow> ku \<Rightarrow> string option \<Rightarrow> string option \<Rightarrow> ku_row" where
  "new_ku_row now u ent grp =
     \<lparr>kr_id = ku_id u, kr_data = u, kr_status = ''pending'', kr_reviewed_by = None, kr_reviewed_at = None,
      kr_created_at = (case ev_first_observed (ku_evidence u) of None \<Rightarrow> now | Some t \<Rightarrow> t),
      kr_tier = ku_tier u,
      kr_enterprise = (if ent \<noteq> None \<and> grp \<noteq> None then the ent else DEFAULT_ENTERPRISE_ID),
      kr_group = (if ent \<noteq> None \<and> grp \<noteq> None then the grp else DEFAULT_GROUP_ID),
      kr_cross_group = False, kr_embedding = None, kr_embedding_model = None,
      kr_pr_reason = None, kr_pr_expires = None\<rparr>"

definition insert_unit :: "string \<Rightarrow> ku \<Rightarrow> (bytes \<times> string) option \<Rightarrow> string option \<Rightarrow> string option
    \<Rightarrow> 'a ku_db_scheme \<Rightarrow> py_exc + 'a ku_db_scheme" where
  "insert_unit now u embedding ent grp db =
     (let domains = normalize_domains (ku_domains u)
      in if domains = [] then Inl ValueError
         else let u' = u\<lparr>ku_domains := domains\<rparr>
         in bind_result (sql_insert kr_id (new_ku_row now u' ent grp) (ku_rows db)) (\<lambda>rows.
            bind_result (insert_domains (ku_id u') domains (ku_index db)) (\<lambda>index.
              let rows' = (case embedding of None \<Rightarrow> rows
                           | Some (e, m) \<Rightarrow> sql_update (\<lambda>r. kr_id r = ku_id u')
                               (\<lambda>r. r\<lparr>kr_embedding := Some e, kr_embedding_model := Some m\<rparr>) rows)
              in Inr (db\<lparr>ku_rows := rows', ku_index := index\<rparr>))))"

definition update_unit :: "ku \<Rightarrow> 'a ku_db_scheme \<Rightarrow> py_exc + 'a ku_db_scheme" where
  "update_unit u db =
     (let domains = normalize_domains (ku_domains u)
      in if domains = [] then Inl ValueError
         else let u' = u\<lparr>ku_domains := domains\<rparr>
         in if sql_rowcount (\<lambda>r. kr_id r = ku_id u') (ku_rows db) = 0 then Inl KeyError
         else bind_result (insert_domains (ku_id u') domains (sql_delete (\<lambda>r. fst r = ku_id u') (ku_index db)))
           (\<lambda>index. Inr (db\<lparr>ku_rows := sql_update (\<lambda>r. kr_id r = ku_id u')
                                (\<lambda>r. r\<lparr>kr_data := u', kr_tier := ku_tier u'\<rparr>) (ku_rows db),
                            ku_index := index\<rparr>)))"

definition set_embedding :: "string \<Rightarrow> bytes \<Rightarrow> string \<Rightarrow> 'a ku_db_scheme \<Rightarrow> bool \<times> 'a ku_db_scheme" where
  "set_embedding i e m db =
     (0 < sql_rowcount (\<lambda>r. kr_id r = i) (ku_rows db),
      db\<lparr>ku_rows := sql_update (\<lambda>r. kr_id r = i)
           (\<lambda>r. r\<lparr>kr_embedding := Some e, kr_embedding_model := Some m\<rparr>) (ku_rows db)\<rparr>)"

definition set_ku_cross_group_allowed :: "string \<Rightarrow> bool \<Rightarrow> 'a ku_db_scheme \<Rightarrow> bool \<times> 'a ku_db_scheme" where
  "set_ku_cross_group_allowed i allowed db =
     (0 < sql_rowcount (\<lambda>r. kr_id r = i) (ku_rows db),
      db\<lparr>ku_rows := sql_update (\<lambda>r. kr_id r = i) (\<lambda>r. r\<lparr>kr_cross_group := allowed\<rparr>) (ku_rows db)\<rparr>)"

definition delete_unit :: "string \<Rightarrow> string option \<Rightarrow> string option \<Rightarrow> 'a ku_db_scheme \<Rightarrow> bool \<times> 'a ku_db_scheme" where
  "delete_unit i ent grp db =
     (if ent \<noteq> None \<and> sql_fetchone (\<lambda>r. kr_id r = i \<and> in_scope ent grp r) (ku_rows db) = None then (False, db)
      else (0 < sql_rowcount (\<lambda>r. kr_id r = i) (ku_rows db),
            db\<lparr>ku_index := sql_delete (\<lambda>r. fst r = i) (ku_index db),
               ku_rows := sql_delete (\<lambda>r. kr_id r = i) (ku_rows db)\<rparr>))"

section \<open>Review status\<close>

definition TERMINAL_STATUS :: "string list" where
  "TERMINAL_STATUS = [''approved'', ''rejected'', ''dropped'']"

definition get_any :: "string \<Rightarrow> string option \<Rightarrow> string option \<Rightarrow> 'a ku_db_scheme \<Rightarrow> ku option" where
  "get_any i ent grp db = map_option kr_data (sql_fetchone (\<lambda>r. kr_id r = i \<and> in_scope ent grp r) (ku_rows db))"

definition get_unit :: "string \<Rightarrow> 'a ku_db_scheme \<Rightarrow> ku option" where
  "get_unit i db = map_option kr_data (sql_fetchone (\<lambda>r. kr_id r = i \<and> kr_status r = ''approved'') (ku_rows db))"

definition review_of :: "ku_row \<Rightarrow> string \<times> string option \<times> string option" where
  "review_of r = (kr_status r, kr_reviewed_by r, kr_reviewed_at r)"

definition get_review_status :: "string \<Rightarrow> string option \<Rightarrow> string option \<Rightarrow> 'a ku_db_scheme
    \<Rightarrow> (string \<times> string option \<times> string option) option" where
  "get_review_status i ent grp db =
     map_option review_of (sql_fetchone (\<lambda>r. kr_id r = i \<and> in_scope ent grp r) (ku_rows db))"

definition set_review_status :: "string \<Rightarrow> string \<Rightarrow> string \<Rightarrow> string \<Rightarrow> string option \<Rightarrow> string option
    \<Rightarrow> 'a ku_db_scheme \<Rightarrow> (py_exc + bool) \<times> 'a ku_db_scheme" where
  "set_review_status now i status reviewed_by ent grp db =
     (let P = (\<lambda>r. kr_id r = i \<and> in_scope ent grp r \<and> kr_status r \<notin> set TERMINAL_STATUS);
          db' = db\<lparr>ku_rows := sql_update P
                  (\<lambda>r. r\<lparr>kr_status := status, kr_reviewed_by := Some reviewed_by, kr_reviewed_at := Some now\<rparr>)
                  (ku_rows db)\<rparr>
      in if 0 < sql_rowcount P (ku_rows db) then (Inr True, db')
         else if sql_fetchone (\<lambda>r. kr_id r = i \<and> in_scope ent grp r) (ku_rows db) = None then (Inl KeyError, db)
         else (Inr False, db))"

section \<open>The pending-review tier\<close>

text \<open>The insert commits on its own; \<open>second_fails\<close> says that the second
  transaction, the update, raises.\<close>

definition submit_pending_review :: "bool \<Rightarrow> string \<Rightarrow> ku \<Rightarrow> string \<Rightarrow> string \<Rightarrow> string \<Rightarrow> string
    \<Rightarrow> 'a ku_db_scheme \<Rightarrow> (py_exc + unit) \<times> 'a ku_db_scheme" where
  "submit_pending_review second_fails now u reason expires_at ent grp db =
     (case insert_unit now u None (Some ent) (Some grp) db of
        Inl x \<Rightarrow> (Inl x, db)
      | Inr db1 \<Rightarrow>
          if second_fails then (Inl RuntimeErr, db1)
          else (Inr (), db1\<lparr>ku_rows := sql_update (\<lambda>r. kr_id r = ku_id u)
                  (\<lambda>r. r\<lparr>kr_status := ''pending_review'', kr_pr_reason := Some reason,
                         kr_pr_expires := Some expires_at\<rparr>) (ku_rows db1)\<rparr>))"

definition pending_review_visible :: "string \<Rightarrow> string \<Rightarrow> string option \<Rightarrow> ku_row \<Rightarrow> bool" where
  "pending_review_visible now ent grp r \<longleftrightarrow>
     kr_status r = ''pending_review'' \<and> in_scope (Some ent) grp r \<and> matches_opt (kr_pr_expires r) (\<lambda>t. now < t)"

text \<open>SQLite sorts NULL first in ascending order, as \<open>None\<close> is least here.\<close>

definition list_pending_review :: "string \<Rightarrow> string \<Rightarrow> int \<Rightarrow> int \<Rightarrow> string option \<Rightarrow> 'a ku_db_scheme \<Rightarrow> ku_row list" where
  "list_pending_review now ent limit offset grp db =
     sql_limit limit offset (order_asc kr_pr_expires (filter (pending_review_visible now ent grp) (ku_rows db)))"

definition count_pending_review :: "string \<Rightarrow> string \<Rightarrow> string option \<Rightarrow> 'a ku_db_scheme \<Rightarrow> nat" where
  "count_pending_review now ent grp db = sql_rowcount (pending_review_visible now ent grp) (ku_rows db)"

definition expire_pending_reviews :: "string \<Rightarrow> string \<Rightarrow> string \<Rightarrow> 'a ku_db_scheme \<Rightarrow> string list \<times> 'a ku_db_scheme" where
  "expire_pending_reviews reviewed_at ent now_iso db =
     (let ids = map kr_id (filter (\<lambda>r. kr_status r = ''pending_review'' \<and> kr_enterprise r = ent
                  \<and> (case kr_pr_expires r of None \<Rightarrow> False | Some t \<Rightarrow> t < now_iso)) (ku_rows db))
      in (ids, if ids = [] then db
               else db\<lparr>ku_rows := sql_update (\<lambda>r. kr_id r \<in> set ids)
                      (\<lambda>r. r\<lparr>kr_status := ''dropped'', kr_reviewed_by := Some ''ttl_expired_sweeper'',
                             kr_reviewed_at := Some reviewed_at\<rparr>) (ku_rows db)\<rparr>))"

section \<open>Queues and listings\<close>

text \<open>Oldest first without a scope, newest first with one.\<close>

definition pending_queue :: "int \<Rightarrow> int \<Rightarrow> string option \<Rightarrow> string option \<Rightarrow> 'a ku_db_scheme \<Rightarrow> ku_row list" where
  "pending_queue limit offset ent grp db =
     (let rows = filter (\<lambda>r. kr_status r = ''pending'' \<and> in_scope ent grp r) (ku_rows db)
      in sql_limit limit offset (if ent = None then order_asc kr_created_at rows else order_desc kr_created_at rows))"

definition pending_count :: "string option \<Rightarrow> string option \<Rightarrow> 'a ku_db_scheme \<Rightarrow> nat" where
  "pending_count ent grp db = sql_rowcount (\<lambda>r. kr_status r = ''pending'' \<and> in_scope ent grp r) (ku_rows db)"

text \<open>The loop over the fetched rows stops once \<open>limit\<close> results are collected,
  which it checks after each append.\<close>

fun take_units :: "int \<Rightarrow> int \<Rightarrow> (ku_row \<Rightarrow> bool) \<Rightarrow> ku_row list \<Rightarrow> ku_row list" where
  "take_units limit n keep [] = []"
| "take_units limit n keep (r # rs) =
     (if keep r then r # (if limit \<le> n + 1 then [] else take_units limit (n + 1) keep rs)
      else take_units limit n keep rs)"

definition confidence_between :: "rat option \<Rightarrow> rat option \<Rightarrow> ku \<Rightarrow> bool" where
  "confidence_between lo hi u =
     (let c = ev_confidence (ku_evidence u)
      in \<not> (case lo of None \<Rightarrow> False | Some l \<Rightarrow> c < l)
       \<and> \<not> (case hi of None \<Rightarrow> False | Some h \<Rightarrow> h < c \<or> h \<le> c \<and> h < 1))"

definition list_units :: "string option \<Rightarrow> rat option \<Rightarrow> rat option \<Rightarrow> string option \<Rightarrow> int
    \<Rightarrow> string option \<Rightarrow> string option \<Rightarrow> 'a ku_db_scheme \<Rightarrow> ku_row list" where
  "list_units domain cmin cmax status limit ent grp db =
     (let dom' = (case domain of None \<Rightarrow> None | Some d \<Rightarrow> if strip d = [] then None else Some (lower (strip d)));
          st = (case status of None \<Rightarrow> None | Some s \<Rightarrow> if strip s = [] then None else Some s);
          rows = order_desc kr_created_at (filter (\<lambda>r.
                   matches_opt st (\<lambda>s. kr_status r = s)
                 \<and> matches_opt dom' (\<lambda>d. (kr_id r, d) \<in> set (ku_index db))
                 \<and> matches_opt ent (\<lambda>e. kr_enterprise r = e)
                 \<and> matches_opt grp (\<lambda>g. kr_group r = g)) (ku_rows db));
          fetched = (if cmin \<noteq> None \<or> cmax \<noteq> None then rows else sql_limit limit 0 rows)
      in take_units limit 0 (\<lambda>r. confidence_between cmin cmax (kr_data r)) fetched)"

section \<open>Search\<close>

definition query_visible :: "string option \<Rightarrow> string option \<Rightarrow> ku_row \<Rightarrow> bool" where
  "query_visible ent grp r \<longleftrightarrow>
     matches_opt ent (\<lambda>e. kr_enterprise r = e \<and> matches_opt grp (\<lambda>g. kr_group r = g \<or> kr_cross_group r))"

definition query_score :: "string list \<Rightarrow> string list option \<Rightarrow> string list option \<Rightarrow> string \<Rightarrow> ku \<Rightarrow> rat" where
  "query_score domains languages frameworks pattern u =
     calculate_relevance u domains languages frameworks pattern * ev_confidence (ku_evidence u)"

definition query :: "string list \<Rightarrow> string list option \<Rightarrow> string list option \<Rightarrow> string \<Rightarrow> int
    \<Rightarrow> string option \<Rightarrow> string option \<Rightarrow> 'a ku_db_scheme \<Rightarrow> py_exc + ku list" where
  "query domains languages frameworks pattern limit ent grp db =
     (if limit \<le> 0 then Inl ValueError
      else let normalized = normalize_domains domains
      in if normalized = [] then Inr []
      else let rows = filter (\<lambda>r. kr_status r = ''approved''
                          \<and> (\<exists>d \<in> set normalized. (kr_id r, d) \<in> set (ku_index db))
                          \<and> query_visible ent grp r) (ku_rows db)
      in Inr (take (nat limit)
           (order_desc (\<lambda>u. (query_score normalized languages frameworks pattern u, ku_id u)) (map kr_data rows))))"

text \<open>\<open>similarity\<close> is numpy's cosine of the stored vector with the query vector;
  None when the stored vector is empty or zero. \<open>query_zero\<close>: the query vector is zero.\<close>

definition semantic_query :: "bool \<Rightarrow> (bytes \<Rightarrow> rat option) \<Rightarrow> nat \<Rightarrow> string \<Rightarrow> 'a ku_db_scheme \<Rightarrow> (ku \<times> rat) list" where
  "semantic_query query_zero similarity limit status db =
     (if query_zero then []
      else take limit (order_desc snd (concat (map (\<lambda>r.
             case kr_embedding r of None \<Rightarrow> []
             | Some e \<Rightarrow> (case similarity e of None \<Rightarrow> [] | Some s \<Rightarrow> [(kr_data r, s)]))
             (filter (\<lambda>r. kr_status r = status) (ku_rows db))))))"

definition or_default :: "string \<Rightarrow> string \<Rightarrow> string" where
  "or_default s d = (if s = [] then d else s)"

record scoped_hit =
  sh_unit :: ku
  sh_similarity :: rat
  sh_enterprise :: string
  sh_group :: string
  sh_cross_group :: bool

definition semantic_query_with_scope :: "bool \<Rightarrow> (bytes \<Rightarrow> rat option) \<Rightarrow> nat \<Rightarrow> string \<Rightarrow> 'a ku_db_scheme
    \<Rightarrow> scoped_hit list" where
  "semantic_query_with_scope query_zero similarity limit status db =
     (if query_zero then []
      else take limit (order_desc sh_similarity (concat (map (\<lambda>r.
             case kr_embedding r of None \<Rightarrow> []
             | Some e \<Rightarrow> (case similarity e of None \<Rightarrow> [] | Some s \<Rightarrow>
                 [\<lparr>sh_unit = kr_data r, sh_similarity = s,
                   sh_enterprise = or_default (kr_enterprise r) DEFAULT_ENTERPRISE_ID,
                   sh_group = or_default (kr_group r) DEFAULT_GROUP_ID, sh_cross_group = kr_cross_group r\<rparr>]))
             (filter (\<lambda>r. kr_status r = status) (ku_rows db))))))"

definition iter_unembedded :: "string \<Rightarrow> int \<Rightarrow> 'a ku_db_scheme \<Rightarrow> (string \<times> ku) list" where
  "iter_unembedded status limit db =
     map (\<lambda>r. (kr_id r, kr_data r)) (sql_limit limit 0
       (filter (\<lambda>r. kr_embedding r = None \<and> kr_status r = status) (ku_rows db)))"

definition approved_embeddings :: "'a ku_db_scheme \<Rightarrow> bytes list" where
  "approved_embeddings db =
     filter (\<lambda>e. e \<noteq> []) (concat (map (\<lambda>r. case kr_embedding r of None \<Rightarrow> [] | Some e \<Rightarrow> [e])
       (filter (\<lambda>r. kr_status r = ''approved'') (ku_rows db))))"

definition approved_domains :: "'a ku_db_scheme \<Rightarrow> string set" where
  "approved_domains db = set (map snd (filter (\<lambda>(i, d). d \<noteq> []
     \<and> list_ex (\<lambda>r. kr_id r = i \<and> kr_status r = ''approved'') (ku_rows db)) (ku_index db)))"

section \<open>Aggregates\<close>

text \<open>\<open>GROUP BY\<close>: one entry per key with the number of its rows.\<close>

definition group_counts :: "'k list \<Rightarrow> ('k \<times> nat) list" where
  "group_counts ks = map (\<lambda>k. (k, count_list ks k)) (dedup ks)"

definition count_units :: "'a ku_db_scheme \<Rightarrow> nat" where
  "count_units db = length (ku_rows db)"

definition count_in_enterprise :: "string \<Rightarrow> 'a ku_db_scheme \<Rightarrow> nat" where
  "count_in_enterprise ent db = sql_rowcount (\<lambda>r. kr_enterprise r = ent) (ku_rows db)"

definition counts_by_status :: "string option \<Rightarrow> string option \<Rightarrow> 'a ku_db_scheme \<Rightarrow> (string \<times> nat) list" where
  "counts_by_status ent grp db = group_counts (map kr_status (filter (in_scope ent grp) (ku_rows db)))"

text \<open>The method takes the Enterprise and drops it.\<close>

definition counts_by_tier :: "string option \<Rightarrow> 'a ku_db_scheme \<Rightarrow> (tier \<times> nat) list" where
  "counts_by_tier ent db = group_counts (map kr_tier (filter (\<lambda>r. kr_status r = ''approved'') (ku_rows db)))"

definition domain_counts :: "string option \<Rightarrow> string option \<Rightarrow> 'a ku_db_scheme \<Rightarrow> (string \<times> nat) list" where
  "domain_counts ent grp db =
     order_desc snd (group_counts (concat (map (\<lambda>(i, d). map (\<lambda>_. d)
       (filter (\<lambda>r. kr_id r = i \<and> kr_status r = ''approved'' \<and> in_scope ent grp r) (ku_rows db))) (ku_index db))))"

definition confidence_bucket :: "rat \<Rightarrow> string" where
  "confidence_bucket c =
     (if c < 3/10 then ''0.0-0.3'' else if c < 6/10 then ''0.3-0.6'' else if c < 8/10 then ''0.6-0.8'' else ''0.8-1.0'')"

definition confidence_distribution :: "string option \<Rightarrow> string option \<Rightarrow> 'a ku_db_scheme \<Rightarrow> (string \<times> nat) list" where
  "confidence_distribution ent grp db =
     (let cs = map (\<lambda>r. confidence_bucket (ev_confidence (ku_evidence (kr_data r))))
                 (filter (\<lambda>r. kr_status r = ''approved'' \<and> in_scope ent grp r) (ku_rows db))
      in map (\<lambda>b. (b, count_list cs b)) [''0.0-0.3'', ''0.3-0.6'', ''0.6-0.8'', ''0.8-1.0''])"

text \<open>One entry of the activity feed: type, unit, summary, reviewer, time stamp.\<close>

definition activity_entry :: "ku_row \<Rightarrow> string \<times> string \<times> string \<times> string option \<times> string" where
  "activity_entry r =
     (let proposed = (case ev_first_observed (ku_evidence (kr_data r)) of None \<Rightarrow> [] | Some t \<Rightarrow> t);
          summary = in_summary (ku_insight (kr_data r))
      in if kr_status r \<in> {''approved'', ''rejected''}
         then (kr_status r, kr_id r, summary, kr_reviewed_by r, py_or (kr_reviewed_at r) proposed)
         else (''proposed'', kr_id r, summary, None, proposed))"

definition recent_activity :: "nat \<Rightarrow> string option \<Rightarrow> string option \<Rightarrow> 'a ku_db_scheme
    \<Rightarrow> (string \<times> string \<times> string \<times> string option \<times> string) list" where
  "recent_activity limit ent grp db =
     take limit (map activity_entry (take (2 * limit)
       (order_desc (\<lambda>r. case kr_reviewed_at r of None \<Rightarrow> kr_created_at r | Some t \<Rightarrow> t)
         (filter (in_scope ent grp) (ku_rows db)))))"


section \<open>The two tables agree\<close>

definition index_of :: "ku_row list \<Rightarrow> (string \<times> string) set" where
  "index_of rows = (\<Union>r \<in> set rows. Pair (kr_id r) ` set (ku_domains (kr_data r)))"

definition unit_ok :: "ku_row \<Rightarrow> bool" where
  "unit_ok r \<longleftrightarrow> kr_id r = ku_id (kr_data r) \<and> ku_domains (kr_data r) \<noteq> [] \<and> distinct (ku_domains (kr_data r))
     \<and> confidence_ok (kr_data r)"

definition ku_inv :: "'a ku_db_scheme \<Rightarrow> bool" where
  "ku_inv db \<longleftrightarrow> unique_key kr_id (ku_rows db) \<and> (\<forall>r \<in> set (ku_rows db). unit_ok r)
     \<and> distinct (ku_index db) \<and> set (ku_index db) = index_of (ku_rows db)"

lemma insert_domains_Inr:
  "insert_domains i ds t = Inr t' \<Longrightarrow>
   t' = t @ map (Pair i) ds \<and> distinct ds \<and> (\<forall>d \<in> set ds. (i, d) \<notin> set t)"
proof (induction ds arbitrary: t)
  case (Cons d ds)
  then obtain t1 where "sql_insert (\<lambda>r. r) (i, d) t = Inr t1" "insert_domains i ds t1 = Inr t'" by auto
  with Cons.IH [OF this(2)] show ?case by (auto simp: table_simps)
qed simp

lemma insert_domains_ok:
  "distinct ds \<Longrightarrow> \<forall>d \<in> set ds. (i, d) \<notin> set t \<Longrightarrow> insert_domains i ds t = Inr (t @ map (Pair i) ds)"
proof (induction ds arbitrary: t)
  case (Cons d ds)
  then have "sql_insert (\<lambda>r. r) (i, d) t = Inr (t @ [(i, d)])" by (simp add: table_simps)
  moreover have "insert_domains i ds (t @ [(i, d)]) = Inr ((t @ [(i, d)]) @ map (Pair i) ds)"
    by (rule Cons.IH) (use Cons.prems in auto)
  ultimately show ?case by simp
qed simp

lemma distinct_map_Pair: "distinct (map (Pair i) ds) = distinct ds"
  by (simp add: distinct_map inj_on_def)

text \<open>What a successful insert does.\<close>

lemma insert_unit_Inr:
  assumes "insert_unit now u None ent grp db = Inr db'"
  shows "normalize_domains (ku_domains u) \<noteq> [] \<and> ku_id u \<notin> kr_id ` set (ku_rows db)
    \<and> db' = db\<lparr>ku_rows := ku_rows db @ [new_ku_row now (u\<lparr>ku_domains := normalize_domains (ku_domains u)\<rparr>) ent grp],
               ku_index := ku_index db @ map (Pair (ku_id u)) (normalize_domains (ku_domains u))\<rparr>"
  using assms
  by (auto simp: insert_unit_def Let_def table_simps new_ku_row_def split: if_splits dest!: insert_domains_Inr)

lemma insert_unit_fresh:
  assumes "ku_inv db" and "normalize_domains (ku_domains u) \<noteq> []" and "ku_id u \<notin> kr_id ` set (ku_rows db)"
  shows "\<exists>db'. insert_unit now u None ent grp db = Inr db'"
proof -
  have "(ku_id u, d) \<notin> set (ku_index db)" for d
    using assms(1,3) by (auto simp: ku_inv_def index_of_def)
  then show ?thesis
    using assms(2,3) by (auto simp: insert_unit_def Let_def sql_insert_def new_ku_row_def insert_domains_ok)
qed

lemma ku_inv_insert:
  assumes "ku_inv db" and "confidence_ok u" and "insert_unit now u None ent grp db = Inr db'"
  shows "ku_inv db'"
proof -
  note * = insert_unit_Inr [OF assms(3)]
  then have idx: "(ku_id u, d) \<notin> set (ku_index db)" for d
    using assms(1) by (auto simp: ku_inv_def index_of_def)
  let ?r = "new_ku_row now (u\<lparr>ku_domains := normalize_domains (ku_domains u)\<rparr>) ent grp"
  have r: "kr_id ?r = ku_id u" "kr_data ?r = u\<lparr>ku_domains := normalize_domains (ku_domains u)\<rparr>"
    by (simp_all add: new_ku_row_def)
  have "unit_ok ?r" using * assms(2) by (simp add: unit_ok_def r confidence_ok_def)
  moreover have "unique_key kr_id (ku_rows db @ [?r])"
    using assms(1) * by (auto simp: ku_inv_def unique_key_def r)
  moreover have "distinct (ku_index db @ map (Pair (ku_id u)) (normalize_domains (ku_domains u)))"
    using assms(1) idx by (auto simp: ku_inv_def distinct_map_Pair)
  moreover have "index_of (ku_rows db @ [?r]) = index_of (ku_rows db) \<union> Pair (ku_id u) ` set (normalize_domains (ku_domains u))"
    by (auto simp: index_of_def r)
  ultimately show ?thesis using assms(1) * by (auto simp: ku_inv_def)
qed

text \<open>An update that keeps the id and the unit keeps the invariant.\<close>

lemma index_of_update:
  "(\<And>r. kr_id (f r) = kr_id r \<and> kr_data (f r) = kr_data r) \<Longrightarrow> index_of (sql_update P f rows) = index_of rows"
  by (induction rows) (auto simp: index_of_def)

lemma ku_inv_touch:
  assumes "ku_inv db" and "\<And>r. kr_id (f r) = kr_id r \<and> kr_data (f r) = kr_data r"
  shows "ku_inv (db\<lparr>ku_rows := sql_update P f (ku_rows db)\<rparr>)"
proof -
  have "unit_ok (if P r then f r else r) = unit_ok r" for r
    using assms(2) [of r] by (simp add: unit_ok_def)
  then have "\<forall>r \<in> set (sql_update P f (ku_rows db)). unit_ok r"
    using assms(1) by (auto simp: ku_inv_def in_sql_update)
  moreover have "unique_key kr_id (sql_update P f (ku_rows db)) = unique_key kr_id (ku_rows db)"
    by (rule unique_key_sql_update) (simp add: assms(2))
  moreover have "index_of (sql_update P f (ku_rows db)) = index_of (ku_rows db)"
    by (rule index_of_update) (rule assms(2))
  ultimately show ?thesis using assms(1) by (simp add: ku_inv_def)
qed

lemma ku_inv_set_embedding: "ku_inv db \<Longrightarrow> ku_inv (snd (set_embedding i e m db))"
  unfolding set_embedding_def snd_conv by (rule ku_inv_touch) simp_all

lemma ku_inv_set_cross_group: "ku_inv db \<Longrightarrow> ku_inv (snd (set_ku_cross_group_allowed i a db))"
  unfolding set_ku_cross_group_allowed_def snd_conv by (rule ku_inv_touch) simp_all

lemma ku_inv_set_review_status: "ku_inv db \<Longrightarrow> ku_inv (snd (set_review_status now i st un ent grp db))"
  by (auto simp: set_review_status_def Let_def intro!: ku_inv_touch)

lemma ku_inv_expire: "ku_inv db \<Longrightarrow> ku_inv (snd (expire_pending_reviews t ent now db))"
  by (auto simp: expire_pending_reviews_def Let_def intro!: ku_inv_touch)

lemma ku_inv_submit:
  assumes "ku_inv db" and "confidence_ok u"
  shows "ku_inv (snd (submit_pending_review crash now u reason ex ent grp db))"
  using assms ku_inv_insert [OF assms]
  by (auto simp: submit_pending_review_def split: sum.split intro!: ku_inv_touch)

lemma index_of_delete: "index_of (sql_delete (\<lambda>r. kr_id r = i) rows) = {p \<in> index_of rows. fst p \<noteq> i}"
  by (auto simp: index_of_def table_simps)

lemma ku_inv_delete:
  assumes "ku_inv db"
  shows "ku_inv (snd (delete_unit i ent grp db))"
  using assms
  by (auto simp: delete_unit_def ku_inv_def unique_key_sql_delete index_of_delete table_simps)

lemma update_unit_Inr:
  assumes "update_unit u db = Inr db'"
  shows "normalize_domains (ku_domains u) \<noteq> [] \<and> ku_id u \<in> kr_id ` set (ku_rows db)
    \<and> db' = db\<lparr>ku_rows := sql_update (\<lambda>r. kr_id r = ku_id u)
                 (\<lambda>r. r\<lparr>kr_data := u\<lparr>ku_domains := normalize_domains (ku_domains u)\<rparr>, kr_tier := ku_tier u\<rparr>) (ku_rows db),
               ku_index := sql_delete (\<lambda>r. fst r = ku_id u) (ku_index db)
                 @ map (Pair (ku_id u)) (normalize_domains (ku_domains u))\<rparr>"
proof -
  have "ku_id u \<in> kr_id ` set (ku_rows db)"
    using assms sql_rowcount_0 [of "\<lambda>r. kr_id r = ku_id u" "ku_rows db"]
    by (auto simp: update_unit_def Let_def image_iff split: if_splits) metis
  with assms show ?thesis
    by (auto simp: update_unit_def Let_def split: if_splits dest!: insert_domains_Inr)
qed

lemma index_of_replace:
  assumes "ku_id u \<in> kr_id ` set rows" and "\<And>r. kr_id (f r) = kr_id r \<and> kr_data (f r) = u"
  shows "index_of (sql_update (\<lambda>r. kr_id r = ku_id u) f rows)
    = {p \<in> index_of rows. fst p \<noteq> ku_id u} \<union> Pair (ku_id u) ` set (ku_domains u)"
proof -
  let ?g = "\<lambda>r. Pair (kr_id r) ` set (ku_domains (kr_data r))"
  have f: "?g (f r) = Pair (ku_id u) ` set (ku_domains u)" if "kr_id r = ku_id u" for r
    using assms(2) [of r] that by simp
  have "index_of (sql_update (\<lambda>r. kr_id r = ku_id u) f rows)
      = (\<Union>r \<in> {r \<in> set rows. kr_id r = ku_id u}. ?g (f r)) \<union> (\<Union>r \<in> {r \<in> set rows. kr_id r \<noteq> ku_id u}. ?g r)"
    by (simp add: index_of_def set_sql_update UN_Un)
  also have "(\<Union>r \<in> {r \<in> set rows. kr_id r = ku_id u}. ?g (f r)) = Pair (ku_id u) ` set (ku_domains u)"
    using assms(1) f by (auto 0 3)
  also have "(\<Union>r \<in> {r \<in> set rows. kr_id r \<noteq> ku_id u}. ?g r) = {p \<in> index_of rows. fst p \<noteq> ku_id u}"
    by (auto simp: index_of_def)
  finally show ?thesis by blast
qed

lemma ku_inv_update:
  assumes "ku_inv db" and "confidence_ok u" and "update_unit u db = Inr db'"
  shows "ku_inv db'"
proof -
  note * = update_unit_Inr [OF assms(3)]
  let ?u = "u\<lparr>ku_domains := normalize_domains (ku_domains u)\<rparr>"
  let ?f = "\<lambda>r. r\<lparr>kr_data := ?u, kr_tier := ku_tier u\<rparr>"
  have rows: "ku_rows db' = sql_update (\<lambda>r. kr_id r = ku_id ?u) ?f (ku_rows db)" using * by simp
  have "index_of (ku_rows db') = {p \<in> index_of (ku_rows db). fst p \<noteq> ku_id ?u} \<union> Pair (ku_id ?u) ` set (ku_domains ?u)"
    unfolding rows by (rule index_of_replace) (use * in auto)
  moreover have "\<forall>r \<in> set (ku_rows db'). unit_ok r"
    using assms(1,2) * unfolding rows set_sql_update by (auto simp: ku_inv_def unit_ok_def confidence_ok_def)
  moreover have "unique_key kr_id (ku_rows db')"
    using assms(1) unfolding rows by (simp add: ku_inv_def unique_key_sql_update)
  moreover have "distinct (ku_index db')"
    using assms(1) * by (auto simp: ku_inv_def distinct_map_Pair in_sql_delete)
  ultimately show ?thesis
    using assms(1) * by (auto simp: ku_inv_def table_simps)
qed

end
