(* ===== verification/UnitRoutes.thy ===== *)
theory UnitRoutes imports UnitStore begin

text \<open>
  The endpoints on knowledge units: propose, confirm, flag, query and stats of
  \<open>app.py\<close>, and the review endpoints of \<open>review.py\<close>. A handler maps the request
  and the database to a response and the database after it, background tasks
  included; an exception no handler catches is the status 500. The last
  sections hold the properties that span the tables: what any sequence of
  requests keeps, and what two administrators who decide at the same time get.
\<close>

section \<open>Requests and their world\<close>

text \<open>Clock, generators and the embedding service as one request sees them. The
  reputation hook's world is the first part.\<close>

record 'k ku_world = "'k rep_world" +
  kw_now :: string
  kw_now_z :: string
  kw_act_id :: string
  kw_act_id2 :: string
  kw_hexid :: string
  kw_embed :: "(bytes \<times> string) option"

definition log_for :: "'k ku_world \<Rightarrow> string \<Rightarrow> string \<Rightarrow> string \<Rightarrow> json \<Rightarrow> json option \<Rightarrow> string option
    \<Rightarrow> 'a ku_db_scheme \<Rightarrow> 'a ku_db_scheme" where
  "log_for w aid username event_type payload res thread db =
     log_activity (rw_env w) (kw_now_z w) aid (Some username) event_type (Some payload) res thread db"

section \<open>Proposing\<close>

record propose_request =
  pq_domains :: "string list"
  pq_insight :: insight
  pq_context :: unit_context
  pq_tier :: "tier option"

definition default_ku_tier :: "env \<Rightarrow> tier" where
  "default_ku_tier env =
     (let raw = lower (strip (getenv env ''CQ_DEFAULT_KU_TIER'' []))
      in if raw = ''local'' then TierLocal else if raw = ''public'' then TierPublic else TierPrivate)"

definition resolve_write_tenancy :: "env \<Rightarrow> user_row \<Rightarrow> http_exc + string \<times> string" where
  "resolve_write_tenancy env user =
     (case resolve_tenancy env (Some user) of (ent, grp, source) \<Rightarrow>
        if source = ''default'' \<and> \<not> (strip (us_enterprise_id user) \<noteq> [] \<and> strip (us_group_id user) \<noteq> [])
        then Inl (HTTPException 400) else Inr (ent, grp))"

definition auto_approve_enabled :: "env \<Rightarrow> bool" where
  "auto_approve_enabled env \<longleftrightarrow> lower (getenv env ''CQ_AUTO_APPROVE_PROPOSE'' []) \<in> {''1'', ''true'', ''yes''}"

definition propose_store :: "'k ku_world \<Rightarrow> string \<Rightarrow> ku \<Rightarrow> string \<Rightarrow> string \<Rightarrow> 'a ku_db_scheme
    \<Rightarrow> py_exc + 'a ku_db_scheme" where
  "propose_store w username u ent grp db =
     bind_result (insert_unit (kw_now w) u None (Some ent) (Some grp) db) (\<lambda>db1.
       Inr (case kw_embed w of None \<Rightarrow> db1 | Some (e, m) \<Rightarrow> snd (set_embedding (ku_id u) e m db1)))"

definition auto_approve :: "'k ku_world \<Rightarrow> string \<Rightarrow> string \<Rightarrow> 'a ku_db_scheme \<Rightarrow> 'a ku_db_scheme" where
  "auto_approve w username i db =
     (if auto_approve_enabled (rw_env w)
      then (case set_review_status (kw_now w) i ''approved'' username None None db of
              (Inr True, db') \<Rightarrow> log_for w (kw_act_id2 w) username ''review_resolve''
                 (JObj [(''ku_id'', JStr i), (''resolution'', JStr ''approved''), (''auto'', JBool True)]) None (Some i) db'
            | (_, db') \<Rightarrow> db')
      else db)"

definition propose_unit :: "'k ku_world \<Rightarrow> propose_request \<Rightarrow> string \<Rightarrow> 'a ku_db_scheme
    \<Rightarrow> (http_exc + ku) \<times> 'a ku_db_scheme" where
  "propose_unit w req username db =
     (if pq_domains req = [] then (Inl (HTTPException 422), db)
      else case get_user db username of
        None \<Rightarrow> (Inl (HTTPException 401), db)
      | Some user \<Rightarrow>
      if us_enterprise_id user = [] \<or> us_group_id user = [] then (Inl (HTTPException 500), db)
      else case resolve_write_tenancy (rw_env w) user of
        Inl e \<Rightarrow> (Inl e, db)
      | Inr (ent, grp) \<Rightarrow>
      let normalized = normalize_domains (pq_domains req)
      in if normalized = [] then (Inl (HTTPException 422), db)
      else if check_propose_quality normalized (pq_insight req) \<noteq> None then (Inl (HTTPException 422), db)
      else case create_knowledge_unit (kw_now w) (kw_hexid w) normalized (pq_insight req) (pq_context req)
                  (case pq_tier req of None \<Rightarrow> default_ku_tier (rw_env w) | Some t \<Rightarrow> t) username of
        Inl _ \<Rightarrow> (Inl (HTTPException 500), db)
      | Inr u \<Rightarrow>
      case propose_store w username u ent grp db of
        Inl _ \<Rightarrow> (Inl (HTTPException 500), db)
      | Inr db1 \<Rightarrow>
          let db2 = log_for w (kw_act_id w) username ''propose''
                (JObj [(''ku_id'', JStr (ku_id u)),
                       (''summary_first_60_chars'', JStr (summary_first_60 (Some (in_summary (pq_insight req))))),
                       (''domains'', JArr (map JStr normalized))]) None None db1
          in (Inr u, auto_approve w username (ku_id u) db2))"

section \<open>Confirming and flagging\<close>

definition reason_name :: "flag_reason \<Rightarrow> string" where
  "reason_name r = (case r of Stale \<Rightarrow> ''stale'' | Incorrect \<Rightarrow> ''incorrect'' | Duplicate \<Rightarrow> ''duplicate'')"

definition confirm_unit :: "'k ku_world \<Rightarrow> string \<Rightarrow> string \<Rightarrow> 'a ku_db_scheme \<Rightarrow> (http_exc + ku) \<times> 'a ku_db_scheme" where
  "confirm_unit w i username db =
     (case get_unit i db of
        None \<Rightarrow> (Inl (HTTPException 404), db)
      | Some u \<Rightarrow>
          let confirmed = apply_confirmation (kw_now w) u
          in (case update_unit confirmed db of
                Inl _ \<Rightarrow> (Inl (HTTPException 500), db)
              | Inr db1 \<Rightarrow> (Inr confirmed,
                  log_for w (kw_act_id w) username ''confirm'' (JObj [(''ku_id'', JStr i)]) None None db1)))"

definition flag_unit :: "'k ku_world \<Rightarrow> string \<Rightarrow> flag_reason \<Rightarrow> string \<Rightarrow> 'a ku_db_scheme \<Rightarrow> (http_exc + ku) \<times> 'a ku_db_scheme" where
  "flag_unit w i reason username db =
     (case get_unit i db of
        None \<Rightarrow> (Inl (HTTPException 404), db)
      | Some u \<Rightarrow>
          (case apply_flag (kw_now w) reason u of
             Inl _ \<Rightarrow> (Inl (HTTPException 500), db)
           | Inr flagged \<Rightarrow>
               (case update_unit flagged db of
                  Inl _ \<Rightarrow> (Inl (HTTPException 500), db)
                | Inr db1 \<Rightarrow> (Inr flagged,
                    log_for w (kw_act_id w) username ''flag''
                      (JObj [(''ku_id'', JStr i), (''reason'', JStr (reason_name reason))]) None None db1))))"

section \<open>Searching\<close>

definition json_strs :: "string list option \<Rightarrow> json" where
  "json_strs x = JArr (case x of None \<Rightarrow> [] | Some l \<Rightarrow> map JStr l)"

definition query_units :: "'k ku_world \<Rightarrow> string list \<Rightarrow> string list option \<Rightarrow> string list option \<Rightarrow> string option \<Rightarrow> int
    \<Rightarrow> string \<Rightarrow> 'a ku_db_scheme \<Rightarrow> (http_exc + ku list) \<times> 'a ku_db_scheme" where
  "query_units w domains languages frameworks pattern limit username db =
     (if limit \<le> 0 then (Inl (HTTPException 422), db)
      else case get_user db username of
        None \<Rightarrow> (Inl (HTTPException 401), db)
      | Some user \<Rightarrow>
          (case query domains languages frameworks (py_or pattern []) limit
                  (Some (us_enterprise_id user)) (Some (us_group_id user)) db of
             Inl _ \<Rightarrow> (Inl (HTTPException 500), db)
           | Inr results \<Rightarrow> (Inr results,
               log_for w (kw_act_id w) username ''query''
                 (JObj [(''domains'', JArr (map JStr domains)), (''languages'', json_strs languages),
                        (''frameworks'', json_strs frameworks), (''pattern'', JStr (py_or pattern [])),
                        (''limit'', JInt limit)])
                 (Some (JObj [(''ku_ids'', JArr (map (\<lambda>u. JStr (ku_id u)) results)), (''cache_hit'', JBool False)]))
                 None db)))"

definition stats :: "string \<Rightarrow> 'a ku_db_scheme \<Rightarrow> http_exc + (nat \<times> (tier \<times> nat) list \<times> (string \<times> nat) list)" where
  "stats username db =
     (case get_user db username of
        None \<Rightarrow> Inl (HTTPException 401)
      | Some user \<Rightarrow>
          Inr (count_in_enterprise (us_enterprise_id user) db,
               counts_by_tier (Some (us_enterprise_id user)) db,
               domain_counts (Some (us_enterprise_id user)) None db))"

section \<open>Reviewing\<close>

definition admin_scope :: "env \<Rightarrow> string \<Rightarrow> 'a ku_db_scheme \<Rightarrow> http_exc + string \<times> string option" where
  "admin_scope env username db =
     bind_result (require_admin db username) (\<lambda>_.
       case get_user db username of
         None \<Rightarrow> Inl (HTTPException 401)
       | Some u \<Rightarrow> Inr (scope_filter env (us_enterprise_id u) (Some (us_group_id u))))"

text \<open>The first half of \<open>approve_unit\<close> and \<open>reject_unit\<close>, up to the decision to
  write: the scope and the status it read.\<close>

definition review_check :: "env \<Rightarrow> string \<Rightarrow> string \<Rightarrow> 'a ku_db_scheme \<Rightarrow> http_exc + (string \<times> string option \<times> string)" where
  "review_check env i username db =
     bind_result (admin_scope env username db) (\<lambda>(ent, grp).
       case get_review_status i (Some ent) grp db of
         None \<Rightarrow> Inl (HTTPException 404)
       | Some (status, _, _) \<Rightarrow>
           if status \<notin> {''pending'', ''pending_review''} then Inl (HTTPException 409)
           else Inr (ent, grp, status))"

text \<open>The second half: the guarded write and, when it won, the reputation event
  and the activity row.\<close>

definition review_commit :: "'k prims \<Rightarrow> 'k ku_world \<Rightarrow> string \<Rightarrow> string \<Rightarrow> string \<Rightarrow> string \<Rightarrow> string \<Rightarrow> string option
    \<Rightarrow> json \<Rightarrow> 'a ku_db_scheme \<Rightarrow> (http_exc + (string \<times> string option \<times> string option)) \<times> 'a ku_db_scheme" where
  "review_commit C w verb target i username ent grp payload db =
     (case set_review_status (kw_now w) i target username (Some ent) grp db of
        (Inl _, db1) \<Rightarrow> (Inl (HTTPException 404), db1)
      | (Inr False, db1) \<Rightarrow> (Inl (HTTPException 409), db1)
      | (Inr True, db1) \<Rightarrow>
          (case get_review_status i (Some ent) grp db1 of
             None \<Rightarrow> (Inl (HTTPException 500), db1)
           | Some updated \<Rightarrow>
               let call = \<lparr>rc_event_type = ''ku.event'',
                     rc_body = JObj [(''unit_id'', JStr i), (''verb'', JStr verb), (''enterprise_id'', JStr ent), (''by'', JStr username)],
                     rc_enterprise_id = Some ent, rc_l2_id = None, rc_ts = None\<rparr>;
                   db2 = db1\<lparr>ku_rep := snd (record_event C (rep_world.truncate w) call (ku_rep db1))\<rparr>
               in (Inr updated, log_for w (kw_act_id w) username ''review_resolve'' payload None (Some i) db2)))"

definition approve_unit :: "'k prims \<Rightarrow> 'k ku_world \<Rightarrow> string \<Rightarrow> string \<Rightarrow> 'a ku_db_scheme
    \<Rightarrow> (http_exc + (string \<times> string option \<times> string option)) \<times> 'a ku_db_scheme" where
  "approve_unit C w i username db =
     (case review_check (rw_env w) i username db of
        Inl e \<Rightarrow> (Inl e, db)
      | Inr (ent, grp, _) \<Rightarrow>
          review_commit C w ''approve'' ''approved'' i username ent grp
            (JObj [(''ku_id'', JStr i), (''decision'', JStr ''approve'')]) db)"

definition reject_target :: "string \<Rightarrow> string" where
  "reject_target status = (if status = ''pending_review'' then ''dropped'' else ''rejected'')"

definition reject_payload :: "string \<Rightarrow> string \<Rightarrow> string option \<Rightarrow> json" where
  "reject_payload i target reason =
     JObj ([(''ku_id'', JStr i), (''decision'', JStr ''reject''), (''resulting_status'', JStr target)]
       @ (if truthy reason then [(''reason'', JStr (the reason))] else []))"

definition reject_unit :: "'k prims \<Rightarrow> 'k ku_world \<Rightarrow> string \<Rightarrow> string option \<Rightarrow> string \<Rightarrow> 'a ku_db_scheme
    \<Rightarrow> (http_exc + (string \<times> string option \<times> string option)) \<times> 'a ku_db_scheme" where
  "reject_unit C w i reason username db =
     (case review_check (rw_env w) i username db of
        Inl e \<Rightarrow> (Inl e, db)
      | Inr (ent, grp, status) \<Rightarrow>
          review_commit C w ''reject'' (reject_target status) i username ent grp
            (reject_payload i (reject_target status) reason) db)"

definition review_queue :: "env \<Rightarrow> int \<Rightarrow> int \<Rightarrow> string \<Rightarrow> 'a ku_db_scheme \<Rightarrow> http_exc + (ku_row list \<times> nat)" where
  "review_queue env limit offset username db =
     bind_result (admin_scope env username db) (\<lambda>(ent, grp).
       Inr (pending_queue limit offset (Some ent) grp db, pending_count (Some ent) grp db))"

text \<open>The read, then the sweep in the background; \<open>sweep_fails\<close> when it raises.\<close>

definition pending_review_queue :: "'k ku_world \<Rightarrow> bool \<Rightarrow> int \<Rightarrow> int \<Rightarrow> string \<Rightarrow> 'a ku_db_scheme
    \<Rightarrow> (http_exc + (ku_row list \<times> nat)) \<times> 'a ku_db_scheme" where
  "pending_review_queue w sweep_fails limit offset username db =
     (case admin_scope (rw_env w) username db of
        Inl e \<Rightarrow> (Inl e, db)
      | Inr (ent, grp) \<Rightarrow>
          (Inr (list_pending_review (kw_now w) ent limit offset grp db, count_pending_review (kw_now w) ent grp db),
           if sweep_fails then db else snd (expire_pending_reviews (kw_now w) ent (kw_now w) db)))"

definition delete_unit_route :: "env \<Rightarrow> string \<Rightarrow> string \<Rightarrow> 'a ku_db_scheme \<Rightarrow> (http_exc + unit) \<times> 'a ku_db_scheme" where
  "delete_unit_route env i username db =
     (case admin_scope env username db of
        Inl e \<Rightarrow> (Inl e, db)
      | Inr (ent, grp) \<Rightarrow>
          (case delete_unit i (Some ent) grp db of
             (True, db') \<Rightarrow> (Inr (), db') | (False, db') \<Rightarrow> (Inl (HTTPException 404), db')))"

definition status_count :: "string \<Rightarrow> (string \<times> nat) list \<Rightarrow> nat" where
  "status_count k cs = (case map_of cs k of None \<Rightarrow> 0 | Some n \<Rightarrow> n)"

definition review_stats :: "env \<Rightarrow> string \<Rightarrow> 'a ku_db_scheme
    \<Rightarrow> http_exc + ((nat \<times> nat \<times> nat) \<times> (string \<times> nat) list \<times> (string \<times> nat) list
        \<times> (string \<times> string \<times> string \<times> string option \<times> string) list)" where
  "review_stats env username db =
     bind_result (admin_scope env username db) (\<lambda>(ent, grp).
       let cs = counts_by_status (Some ent) grp db
       in Inr ((status_count ''pending'' cs, status_count ''approved'' cs, status_count ''rejected'' cs),
               domain_counts (Some ent) grp db, confidence_distribution (Some ent) grp db,
               recent_activity 20 (Some ent) grp db))"

definition list_units_route :: "env \<Rightarrow> string option \<Rightarrow> rat option \<Rightarrow> rat option \<Rightarrow> string option \<Rightarrow> int \<Rightarrow> string
    \<Rightarrow> 'a ku_db_scheme \<Rightarrow> http_exc + ku_row list" where
  "list_units_route env domain cmin cmax status limit username db =
     bind_result (admin_scope env username db) (\<lambda>(ent, grp).
       Inr (list_units domain cmin cmax status limit (Some ent) grp db))"

definition get_unit_route :: "env \<Rightarrow> string \<Rightarrow> string \<Rightarrow> 'a ku_db_scheme
    \<Rightarrow> http_exc + (ku \<times> string \<times> string option \<times> string option)" where
  "get_unit_route env i username db =
     bind_result (admin_scope env username db) (\<lambda>(ent, grp).
       case get_any i (Some ent) grp db of
         None \<Rightarrow> Inl (HTTPException 404)
       | Some u \<Rightarrow>
           (case get_review_status i (Some ent) grp db of
              None \<Rightarrow> Inl (HTTPException 500) | Some r \<Rightarrow> Inr (u, r)))"

end
