(* ===== verification/UnitProps.thy ===== *)
theory UnitProps imports UnitRoutes begin

text \<open>
  What the endpoints on knowledge units promise, over any sequence of requests:
  the domain index always matches the units, a review decision is final and the
  first of any number of concurrent ones wins, a reviewer changes nothing out of
  scope, a search returns the best visible units, the pending-review pages and
  their total agree. The last section holds what the code does against its
  documentation.
\<close>

section \<open>Any sequence of requests\<close>

datatype 'k ku_op =
  OpPropose "'k ku_world" propose_request string
| OpConfirm "'k ku_world" string string
| OpFlag "'k ku_world" string flag_reason string
| OpQuery "'k ku_world" "string list" "string list option" "string list option" "string option" int string
| OpApprove "'k ku_world" string string
| OpReject "'k ku_world" string "string option" string
| OpPendingQueue "'k ku_world" bool int int string
| OpCrossGroup string bool
| OpDelete env string string

fun ku_run :: "'k prims \<Rightarrow> 'k ku_op \<Rightarrow> 'a ku_db_scheme \<Rightarrow> 'a ku_db_scheme" where
  "ku_run C (OpPropose w req un) db = snd (propose_unit w req un db)"
| "ku_run C (OpConfirm w i un) db = snd (confirm_unit w i un db)"
| "ku_run C (OpFlag w i r un) db = snd (flag_unit w i r un db)"
| "ku_run C (OpQuery w ds ls fs p n un) db = snd (query_units w ds ls fs p n un db)"
| "ku_run C (OpApprove w i un) db = snd (approve_unit C w i un db)"
| "ku_run C (OpReject w i reason un) db = snd (reject_unit C w i reason un db)"
| "ku_run C (OpPendingQueue w sf n k un) db = snd (pending_review_queue w sf n k un db)"
| "ku_run C (OpCrossGroup i a) db = snd (set_ku_cross_group_allowed i a db)"
| "ku_run C (OpDelete env i un) db = snd (delete_unit_route env i un db)"

text \<open>Logging writes no unit.\<close>

lemma log_for_frame [simp]:
  "ku_rows (log_for w aid un et p res th db) = ku_rows db"
  "ku_index (log_for w aid un et p res th db) = ku_index db"
  "ku_rep (log_for w aid un et p res th db) = ku_rep db"
  "db_users (log_for w aid un et p res th db) = db_users db"
  by (auto simp: log_for_def log_activity_def append_activity_def sql_insert_def split: sum.splits if_splits)

lemma ku_inv_log_for [simp]: "ku_inv (log_for w aid un et p res th db) = ku_inv db"
  by (simp add: ku_inv_def)

lemma ku_inv_rep [simp]: "ku_inv (db\<lparr>ku_rep := r\<rparr>) = ku_inv db"
  by (simp add: ku_inv_def)

lemma get_user_log_for [simp]: "get_user (log_for w aid un et p res th db) u = get_user db u"
  by (simp add: get_user_def)

text \<open>The rows after each handler, as what the store operations leave.\<close>

lemma propose_unit_cases:
  obtains e where "propose_unit w req un db = (Inl e, db)"
  | u ent grp db1 user where "get_user db un = Some user" "resolve_write_tenancy (rw_env w) user = Inr (ent, grp)"
    "create_knowledge_unit (kw_now w) (kw_hexid w) (normalize_domains (pq_domains req)) (pq_insight req) (pq_context req)
        (case pq_tier req of None \<Rightarrow> default_ku_tier (rw_env w) | Some t \<Rightarrow> t) un = Inr u"
    "check_propose_quality (normalize_domains (pq_domains req)) (pq_insight req) = None"
    "propose_store w un u ent grp db = Inr db1"
    "propose_unit w req un db = (Inr u, auto_approve w un (ku_id u) (log_for w (kw_act_id w) un ''propose''
       (JObj [(''ku_id'', JStr (ku_id u)),
              (''summary_first_60_chars'', JStr (summary_first_60 (Some (in_summary (pq_insight req))))),
              (''domains'', JArr (map JStr (normalize_domains (pq_domains req))))]) None None db1))"
proof (cases "\<exists>e. propose_unit w req un db = (Inl e, db)")
  case True
  then show thesis using that(1) by blast
next
  case False
  then show thesis
    by (auto simp: propose_unit_def Let_def intro!: that(2) split: if_splits option.splits sum.splits prod.splits)
qed

lemma get_unit_mem: "get_unit i db = Some u \<Longrightarrow> \<exists>r \<in> set (ku_rows db). kr_data r = u \<and> kr_id r = i \<and> kr_status r = ''approved''"
  unfolding get_unit_def by (auto dest!: sql_fetchone_SomeD)

lemma get_unit_ok: "ku_inv db \<Longrightarrow> get_unit i db = Some u \<Longrightarrow> confidence_ok u \<and> ku_id u = i"
  by (auto dest!: get_unit_mem simp: ku_inv_def unit_ok_def)

lemma ku_inv_propose_store:
  "ku_inv db \<Longrightarrow> confidence_ok u \<Longrightarrow> propose_store w un u ent grp db = Inr db1 \<Longrightarrow> ku_inv db1"
  by (auto simp: propose_store_def ku_inv_insert intro!: ku_inv_set_embedding split: option.splits)

lemma ku_inv_auto_approve: "ku_inv db \<Longrightarrow> ku_inv (auto_approve w un i db)"
  using ku_inv_set_review_status [of db "kw_now w" i "''approved''" un None None]
  by (auto simp: auto_approve_def split: prod.split sum.split bool.split)

lemma ku_inv_commit: "ku_inv db \<Longrightarrow> ku_inv (snd (review_commit C w verb target i un ent grp p db))"
  using ku_inv_set_review_status [of db "kw_now w" i target un "Some ent" grp]
  by (auto simp: review_commit_def Let_def split: prod.split sum.split bool.split option.split)

lemma ku_inv_step:
  assumes "ku_inv db"
  shows "ku_inv (ku_run C op db)"
proof (cases op)
  case (OpPropose w req un)
  show ?thesis
    by (rule propose_unit_cases [of w req un db])
      (use assms OpPropose create_knowledge_unit_Inr in \<open>fastforce intro!: ku_inv_auto_approve dest: ku_inv_propose_store\<close>)+
next
  case (OpConfirm w i un)
  with assms show ?thesis
    by (auto simp: confirm_unit_def Let_def confidence_ok_confirmation
        dest!: get_unit_ok dest: ku_inv_update [OF assms, rotated] split: option.splits sum.splits)
next
  case (OpFlag w i r un)
  with assms show ?thesis
    by (auto simp: flag_unit_def Let_def dest!: get_unit_ok dest: ku_inv_update [OF assms, rotated] confidence_ok_flag
        split: option.splits sum.splits)
next
  case (OpQuery w ds ls fs p n un)
  with assms show ?thesis by (auto simp: query_units_def split: option.splits sum.splits)
next
  case (OpApprove w i un)
  with assms show ?thesis
    using ku_inv_commit [OF assms] by (auto simp: approve_unit_def split: sum.splits)
next
  case (OpReject w i reason un)
  with assms show ?thesis
    using ku_inv_commit [OF assms] by (auto simp: reject_unit_def split: sum.splits)
next
  case (OpPendingQueue w sf n k un)
  with assms show ?thesis by (auto simp: pending_review_queue_def intro: ku_inv_expire split: sum.splits)
next
  case (OpCrossGroup i a)
  with assms show ?thesis by (simp add: ku_inv_set_cross_group)
next
  case (OpDelete env i un)
  show ?thesis
  proof (cases "admin_scope env un db")
    case (Inr s)
    obtain ent grp b db' where s: "s = (ent, grp)" and d: "delete_unit i (Some ent) grp db = (b, db')"
      by (metis surj_pair)
    have "ku_inv db'" using ku_inv_delete [OF assms, of i "Some ent" grp] d by simp
    then show ?thesis using OpDelete Inr s d by (cases b) (simp_all add: delete_unit_route_def)
  qed (use assms OpDelete in \<open>simp add: delete_unit_route_def\<close>)
qed

lemma ku_inv_run: "ku_inv db \<Longrightarrow> ku_inv (fold (ku_run C) ops db)"
  by (induction ops arbitrary: db) (simp_all add: ku_inv_step)

text \<open>C22. After any sequence of requests, accepted or refused, the domain index
  holds exactly the pairs of unit and domain that the stored units have, each
  once; ids are unique, every unit has at least one domain, and its confidence
  lies between 0 and 1.\<close>

theorem tables_agree:
  assumes "ku_inv db"
  shows "let db' = fold (ku_run C) ops db
     in distinct (ku_index db') \<and> unique_key kr_id (ku_rows db')
      \<and> set (ku_index db') = {(i, d). \<exists>r. r \<in> set (ku_rows db') \<and> kr_id r = i \<and> d \<in> set (ku_domains (kr_data r))}
      \<and> list_all (\<lambda>r. kr_id r = ku_id (kr_data r) \<and> ku_domains (kr_data r) \<noteq> [] \<and> confidence_ok (kr_data r)) (ku_rows db')"
proof -
  define db' where "db' = fold (ku_run C) ops db"
  have inv: "ku_inv db'" unfolding db'_def using assms by (rule ku_inv_run)
  have "index_of (ku_rows db') = {(i, d). \<exists>r. r \<in> set (ku_rows db') \<and> kr_id r = i \<and> d \<in> set (ku_domains (kr_data r))}"
    unfolding index_of_def by blast
  then show ?thesis
    using inv unfolding Let_def db'_def [symmetric] by (simp add: ku_inv_def unit_ok_def list_all_iff)
qed


definition demo_insight :: insight where
  "demo_insight = \<lparr>in_summary = ''pin the parser version'', in_detail = ''the parser changed its output between releases'',
     in_action = ''pin it in the lock file''\<rparr>"

definition demo_unit :: ku where
  "demo_unit = \<lparr>ku_id = ''ku_1'', ku_version = 1, ku_domains = [''python''], ku_insight = demo_insight,
     ku_context = \<lparr>cx_languages = [], cx_frameworks = [], cx_pattern = []\<rparr>, ku_evidence = default_evidence ''t0'',
     ku_tier = TierPrivate, ku_created_by = ''bob'', ku_superseded_by = None, ku_flags = []\<rparr>"

definition demo_user :: "nat \<Rightarrow> string \<Rightarrow> string \<Rightarrow> string \<Rightarrow> string \<Rightarrow> user_row" where
  "demo_user i n role e g = \<lparr>us_id = i, us_username = n, us_password_hash = [], us_created_at = [],
     us_role = role, us_enterprise_id = e, us_group_id = g, us_email = None\<rparr>"

text \<open>Two administrators of acme, one of globex, a user on the default tenancy,
  and one unit of acme.\<close>

definition demo_ku_db :: "string \<Rightarrow> ku_db" where
  "demo_ku_db status = \<lparr>db_users = [demo_user 1 ''ann'' ''admin'' ''acme'' ''eng'', demo_user 2 ''abe'' ''admin'' ''acme'' ''eng'',
       demo_user 3 ''eve'' ''admin'' ''globex'' ''ops'', demo_user 4 ''bob'' ''user'' ''default-enterprise'' ''default-group''],
     db_user_seq = 5, act_log = [], act_retention = [],
     ku_rows = [(new_ku_row ''t0'' demo_unit (Some ''acme'') (Some ''eng''))\<lparr>kr_status := status\<rparr>],
     ku_index = [(''ku_1'', ''python'')], ku_rep = empty_rep_db\<rparr>"

lemma demo_ku_inv: "ku_inv (demo_ku_db status)"
  by (simp add: ku_inv_def demo_ku_db_def unique_key_def unit_ok_def new_ku_row_def demo_unit_def
      confidence_ok_def default_evidence_def index_of_def)

definition demo_kworld :: "nat ku_world" where
  "demo_kworld = \<lparr>rw_env = (\<lambda>_. None), rw_key = None, rw_now = ''t1'', rw_event_id = ''e1'', rw_fault = NoFault,
     kw_now = ''t1'', kw_now_z = ''t1'', kw_act_id = ''act_1'', kw_act_id2 = ''act_2'', kw_hexid = ''2'', kw_embed = None\<rparr>"

lemma tables_agree_witness:
  "set (ku_index (snd (delete_unit_route (\<lambda>_. None) ''ku_1'' ''ann'' (demo_ku_db ''pending'')))) =
    {(i, d). \<exists>r. r \<in> set (ku_rows (snd (delete_unit_route (\<lambda>_. None) ''ku_1'' ''ann'' (demo_ku_db ''pending'')))) \<and> kr_id r = i
       \<and> d \<in> set (ku_domains (kr_data r))}"
  using tables_agree [OF demo_ku_inv, of demo_prims "[OpDelete (\<lambda>_. None) ''ku_1'' ''ann'']" "''pending''"]
  by (simp add: Let_def)

section \<open>A decision is final\<close>

definition row_of :: "string \<Rightarrow> 'a ku_db_scheme \<Rightarrow> ku_row option" where
  "row_of i db = sql_fetchone (\<lambda>r. kr_id r = i) (ku_rows db)"

definition decided :: "string \<times> string option \<times> string option \<Rightarrow> bool" where
  "decided v \<longleftrightarrow> fst v \<in> set TERMINAL_STATUS"

text \<open>What is observed of one unit: that ids are unique, and the review columns.\<close>

definition review_obs :: "string \<Rightarrow> 'a ku_db_scheme \<Rightarrow> bool \<times> (string \<times> string option \<times> string option) option" where
  "review_obs i db = (unique_key kr_id (ku_rows db), map_option review_of (row_of i db))"

definition final_obs :: "bool \<times> (string \<times> string option \<times> string option) option \<Rightarrow> bool" where
  "final_obs v \<longleftrightarrow> fst v \<and> (case snd v of None \<Rightarrow> False | Some t \<Rightarrow> decided t)"

lemma final_obs_row:
  "final_obs (review_obs i db) \<longleftrightarrow> unique_key kr_id (ku_rows db)
     \<and> (\<exists>r \<in> set (ku_rows db). row_of i db = Some r \<and> kr_id r = i \<and> decided (review_of r))"
  by (auto simp: final_obs_def review_obs_def row_of_def split: option.splits dest!: sql_fetchone_SomeD)

lemma review_obs_update:
  assumes "\<And>r. P r \<Longrightarrow> kr_id (f r) = kr_id r"
    and "\<And>r. r \<in> set (ku_rows db) \<Longrightarrow> P r \<Longrightarrow> kr_id r = i \<Longrightarrow> review_of (f r) = review_of r"
    and "ku_rows db' = sql_update P f (ku_rows db)"
  shows "review_obs i db' = review_obs i db"
proof -
  have "map kr_id (sql_update P f (ku_rows db)) = map kr_id (ku_rows db)"
    using assms(1) by (simp add: sql_update_def)
  then have "unique_key kr_id (ku_rows db') = unique_key kr_id (ku_rows db)"
    by (simp add: unique_key_def assms(3))
  moreover have "row_of i db' = map_option (\<lambda>r. if P r then f r else r) (row_of i db)"
    using sql_fetchone_update [of P kr_id f i "ku_rows db"] assms(1) by (simp add: row_of_def assms(3))
  moreover have "review_of (if P r then f r else r) = review_of r" if "row_of i db = Some r" for r
    using assms(2) [of r] sql_fetchone_SomeD [OF that [unfolded row_of_def]] by auto
  ultimately show ?thesis by (cases "row_of i db") (simp_all add: review_obs_def)
qed

lemma review_obs_rows: "ku_rows db' = ku_rows db \<Longrightarrow> review_obs i db' = review_obs i db"
  by (simp add: review_obs_def row_of_def)

lemma review_obs_insert:
  assumes "final_obs (review_obs i db)" and "insert_unit now u None ent grp db = Inr db1"
  shows "review_obs i db1 = review_obs i db"
proof -
  note * = insert_unit_Inr [OF assms(2)]
  from assms(1) obtain r where r: "row_of i db = Some r" "kr_id r = i" "unique_key kr_id (ku_rows db)"
    by (auto simp: final_obs_row)
  have "row_of i db1 = row_of i db"
    using r(1) * by (simp add: row_of_def sql_fetchone_snoc)
  moreover have "unique_key kr_id (ku_rows db1)"
    using r(3) * by (auto simp: unique_key_def new_ku_row_def)
  ultimately show ?thesis using r(3) by (simp add: review_obs_def)
qed

lemma review_obs_set_embedding: "review_obs i (snd (set_embedding j e m db)) = review_obs i db"
  by (rule review_obs_update [where P = "\<lambda>r. kr_id r = j"]) (auto simp: set_embedding_def review_of_def)

lemma review_obs_set_review_status:
  assumes "final_obs (review_obs i db)"
  shows "review_obs i (snd (set_review_status now j st un ent grp db)) = review_obs i db"
proof -
  let ?P = "\<lambda>r. kr_id r = j \<and> in_scope ent grp r \<and> kr_status r \<notin> set TERMINAL_STATUS"
  let ?f = "\<lambda>r. r\<lparr>kr_status := st, kr_reviewed_by := Some un, kr_reviewed_at := Some now\<rparr>"
  from assms have uniq: "unique_key kr_id (ku_rows db)" by (simp add: final_obs_row)
  from assms obtain q where q: "q \<in> set (ku_rows db)" "kr_id q = i" "decided (review_of q)"
    by (auto simp: final_obs_row)
  have "review_obs i (db\<lparr>ku_rows := sql_update ?P ?f (ku_rows db)\<rparr>) = review_obs i db"
  proof (rule review_obs_update [where P = ?P])
    fix r assume "r \<in> set (ku_rows db)" "?P r" "kr_id r = i"
    with unique_key_eq [OF uniq _ q(1), of r] q have False by (auto simp: decided_def review_of_def)
    then show "review_of (?f r) = review_of r" ..
  qed simp_all
  then show ?thesis by (simp add: set_review_status_def Let_def)
qed

lemma review_obs_expire:
  assumes "final_obs (review_obs i db)"
  shows "review_obs i (snd (expire_pending_reviews t ent now db)) = review_obs i db"
proof -
  let ?Q = "\<lambda>r. kr_status r = ''pending_review'' \<and> kr_enterprise r = ent
              \<and> (case kr_pr_expires r of None \<Rightarrow> False | Some e \<Rightarrow> e < now)"
  let ?ids = "map kr_id (filter ?Q (ku_rows db))"
  let ?f = "\<lambda>r. r\<lparr>kr_status := ''dropped'', kr_reviewed_by := Some ''ttl_expired_sweeper'', kr_reviewed_at := Some t\<rparr>"
  from assms have uniq: "unique_key kr_id (ku_rows db)" by (simp add: final_obs_row)
  from assms obtain q where q: "q \<in> set (ku_rows db)" "kr_id q = i" "decided (review_of q)"
    by (auto simp: final_obs_row)
  have "review_obs i (db\<lparr>ku_rows := sql_update (\<lambda>r. kr_id r \<in> set ?ids) ?f (ku_rows db)\<rparr>) = review_obs i db"
  proof (rule review_obs_update [where P = "\<lambda>r. kr_id r \<in> set ?ids"])
    fix r assume r: "r \<in> set (ku_rows db)" "kr_id r \<in> set ?ids" "kr_id r = i"
    then obtain p where "p \<in> set (ku_rows db)" "?Q p" "kr_id p = i" by auto
    with unique_key_eq [OF uniq _ q(1), of p] q have False
      by (auto simp: decided_def review_of_def TERMINAL_STATUS_def)
    then show "review_of (?f r) = review_of r" ..
  qed simp_all
  then show ?thesis by (auto simp: expire_pending_reviews_def Let_def)
qed


lemma review_obs_update_unit:
  assumes "update_unit u db = Inr db1"
  shows "review_obs i db1 = review_obs i db"
  by (rule review_obs_update [where P = "\<lambda>r. kr_id r = ku_id u" and
      f = "\<lambda>r. r\<lparr>kr_data := u\<lparr>ku_domains := normalize_domains (ku_domains u)\<rparr>, kr_tier := ku_tier u\<rparr>"])
    (use update_unit_Inr [OF assms] in \<open>simp_all add: review_of_def\<close>)

lemma review_obs_commit:
  assumes "final_obs (review_obs i db)"
  shows "review_obs i (snd (review_commit C w verb target j un ent grp p db)) = review_obs i db"
proof -
  note * = review_obs_set_review_status [OF assms, of "kw_now w" j target un "Some ent" grp]
  have "ku_rows (snd (review_commit C w verb target j un ent grp p db))
      = ku_rows (snd (set_review_status (kw_now w) j target un (Some ent) grp db))"
    by (auto simp: review_commit_def Let_def split: prod.splits sum.splits bool.splits option.splits)
  from review_obs_rows [OF this] * show ?thesis by simp
qed

lemma review_obs_auto_approve:
  assumes "final_obs (review_obs i db)"
  shows "review_obs i (auto_approve w un j db) = review_obs i db"
proof -
  note * = review_obs_set_review_status [OF assms, of "kw_now w" j "''approved''" un None None]
  have "ku_rows (auto_approve w un j db) \<in>
      {ku_rows db, ku_rows (snd (set_review_status (kw_now w) j ''approved'' un None None db))}"
    by (auto simp: auto_approve_def split: prod.splits sum.splits bool.splits)
  with * review_obs_rows [of "auto_approve w un j db" db i]
    review_obs_rows [of "auto_approve w un j db" "snd (set_review_status (kw_now w) j ''approved'' un None None db)" i]
  show ?thesis by auto
qed

lemma review_obs_propose:
  assumes "final_obs (review_obs i db)"
  shows "review_obs i (snd (propose_unit w req un db)) = review_obs i db"
proof (rule propose_unit_cases [of w req un db])
  fix u ent grp db1 user
  assume st: "propose_store w un u ent grp db = Inr db1"
    and run: "propose_unit w req un db = (Inr u, auto_approve w un (ku_id u) (log_for w (kw_act_id w) un ''propose''
       (JObj [(''ku_id'', JStr (ku_id u)),
              (''summary_first_60_chars'', JStr (summary_first_60 (Some (in_summary (pq_insight req))))),
              (''domains'', JArr (map JStr (normalize_domains (pq_domains req))))]) None None db1))"
  from st obtain db0 where ins: "insert_unit (kw_now w) u None (Some ent) (Some grp) db = Inr db0"
    and db1: "db1 = (case kw_embed w of None \<Rightarrow> db0 | Some (e, m) \<Rightarrow> snd (set_embedding (ku_id u) e m db0))"
    by (auto simp: propose_store_def)
  have 1: "review_obs i db1 = review_obs i db"
    using review_obs_insert [OF assms ins] by (auto simp: db1 review_obs_set_embedding split: option.split)
  show ?thesis
    unfolding run snd_conv
    by (subst review_obs_auto_approve) (use 1 assms in \<open>simp_all add: review_obs_rows [OF log_for_frame(1)]\<close>)
qed simp

definition deletes :: "'k ku_op \<Rightarrow> bool" where
  "deletes op = (case op of OpDelete _ _ _ \<Rightarrow> True | _ \<Rightarrow> False)"

definition live_run :: "'k prims \<Rightarrow> 'k ku_op \<Rightarrow> 'a ku_db_scheme \<Rightarrow> 'a ku_db_scheme" where
  "live_run C op db = (if deletes op then db else ku_run C op db)"

lemma review_obs_step:
  assumes "final_obs (review_obs i db)"
  shows "review_obs i (live_run C op db) = review_obs i db"
proof (cases op)
  case (OpPropose w req un)
  then show ?thesis using review_obs_propose [OF assms] by (simp add: live_run_def deletes_def)
next
  case (OpConfirm w j un)
  then show ?thesis
    by (auto simp: live_run_def deletes_def confirm_unit_def Let_def review_obs_rows [OF log_for_frame(1)]
        review_obs_update_unit split: option.splits sum.splits)
next
  case (OpFlag w j r un)
  then show ?thesis
    by (auto simp: live_run_def deletes_def flag_unit_def Let_def review_obs_rows [OF log_for_frame(1)]
        review_obs_update_unit split: option.splits sum.splits)
next
  case (OpQuery w ds ls fs p n un)
  then show ?thesis
    by (auto simp: live_run_def deletes_def query_units_def review_obs_rows [OF log_for_frame(1)]
        split: option.splits sum.splits)
next
  case (OpApprove w j un)
  then show ?thesis using review_obs_commit [OF assms]
    by (auto simp: live_run_def deletes_def approve_unit_def split: sum.splits)
next
  case (OpReject w j reason un)
  then show ?thesis using review_obs_commit [OF assms]
    by (auto simp: live_run_def deletes_def reject_unit_def split: sum.splits)
next
  case (OpPendingQueue w sf n k un)
  then show ?thesis using review_obs_expire [OF assms]
    by (auto simp: live_run_def deletes_def pending_review_queue_def split: sum.splits)
next
  case (OpCrossGroup j a)
  have "review_obs i (snd (set_ku_cross_group_allowed j a db)) = review_obs i db"
    by (rule review_obs_update [where P = "\<lambda>r. kr_id r = j"]) (auto simp: set_ku_cross_group_allowed_def review_of_def)
  with OpCrossGroup show ?thesis by (simp add: live_run_def deletes_def)
next
  case (OpDelete env j un)
  then show ?thesis by (simp add: live_run_def deletes_def)
qed

interpretation review: lifecycle "live_run C" "review_obs i" final_obs for C :: "'k prims" and i
  by unfold_locales (rule review_obs_step)

lemma live_run_fold: "list_all (\<lambda>op. \<not> deletes op) ops \<Longrightarrow> fold (live_run C) ops db = fold (ku_run C) ops db"
  by (induction ops arbitrary: db) (auto simp: live_run_def)

text \<open>C23. A review decision is final. Once a unit is approved, rejected or dropped,
  then after any requests without a delete, further approvals and rejections by
  any administrator, proposals with the automatic approval and the sweep of
  expired candidates among them, its status, its reviewer and the time of the
  decision are what they were.\<close>

theorem decision_final:
  assumes "ku_inv db" and "row_of i db = Some r" and "kr_status r \<in> {''approved'', ''rejected'', ''dropped''}"
    and "list_all (\<lambda>op. \<not> deletes op) ops"
  shows "map_option review_of (row_of i (fold (ku_run C) ops db)) = Some (review_of r)"
proof -
  have "final_obs (review_obs i db)"
    using assms(1-3) by (auto simp: final_obs_def review_obs_def decided_def review_of_def ku_inv_def TERMINAL_STATUS_def)
  from review.run_terminal [OF this, of C ops] live_run_fold [OF assms(4), of C db] assms(2)
  show ?thesis by (simp add: review_obs_def)
qed

lemma decision_final_witness:
  "map_option review_of (row_of ''ku_1'' (fold (ku_run demo_prims)
      [OpReject demo_kworld ''ku_1'' None ''ann'', OpConfirm demo_kworld ''ku_1'' ''bob''] (demo_ku_db ''approved'')))
    = Some (''approved'', None, None)"
proof -
  have "row_of ''ku_1'' (demo_ku_db ''approved'')
      = Some ((new_ku_row ''t0'' demo_unit (Some ''acme'') (Some ''eng''))\<lparr>kr_status := ''approved''\<rparr>)"
    by (simp add: row_of_def sql_fetchone_def demo_ku_db_def new_ku_row_def demo_unit_def)
  from decision_final [OF demo_ku_inv this, of
      "[OpReject demo_kworld ''ku_1'' None ''ann'', OpConfirm demo_kworld ''ku_1'' ''bob'']" demo_prims]
  show ?thesis by (simp add: deletes_def review_of_def new_ku_row_def)
qed

section \<open>Concurrent reviewers\<close>

record 'k decision =
  de_world :: "'k ku_world"
  de_verb :: string
  de_target :: string
  de_user :: string
  de_enterprise :: string
  de_group :: "string option"
  de_payload :: json

definition commit_decision :: "'k prims \<Rightarrow> string \<Rightarrow> 'k decision \<Rightarrow> 'a ku_db_scheme
    \<Rightarrow> (http_exc + (string \<times> string option \<times> string option)) \<times> 'a ku_db_scheme" where
  "commit_decision C i d db =
     review_commit C (de_world d) (de_verb d) (de_target d) i (de_user d) (de_enterprise d) (de_group d) (de_payload d) db"

text \<open>Requests that all passed the check commit one after the other.\<close>

fun commit_all :: "'k prims \<Rightarrow> string \<Rightarrow> 'k decision list \<Rightarrow> 'a ku_db_scheme
    \<Rightarrow> (http_exc + (string \<times> string option \<times> string option)) list \<times> 'a ku_db_scheme" where
  "commit_all C i [] db = ([], db)"
| "commit_all C i (d # ds) db =
     (case commit_decision C i d db of (r, db1) \<Rightarrow> (case commit_all C i ds db1 of (rs, db2) \<Rightarrow> (r # rs, db2)))"


lemma get_review_status_row:
  "ku_inv db \<Longrightarrow> get_review_status i ent grp db =
    (case row_of i db of None \<Rightarrow> None | Some r \<Rightarrow> if in_scope ent grp r then Some (review_of r) else None)"
  by (auto simp: get_review_status_def row_of_def ku_inv_def sql_fetchone_key_and split: option.split)

lemma review_check_Inr:
  "ku_inv db \<Longrightarrow> review_check env i un db = Inr (ent, grp, st) \<Longrightarrow>
   \<exists>r. row_of i db = Some r \<and> in_scope (Some ent) grp r \<and> kr_status r = st \<and> st \<in> {''pending'', ''pending_review''}"
  by (auto simp: review_check_def get_review_status_row review_of_def split: option.splits if_splits)

lemma row_of_status_update:
  assumes "row_of i db = Some r" and "in_scope ent grp r" and "kr_status r \<notin> set TERMINAL_STATUS"
  shows "set_review_status now i st un ent grp db = (Inr True, snd (set_review_status now i st un ent grp db))
    \<and> row_of i (snd (set_review_status now i st un ent grp db))
        = Some (r\<lparr>kr_status := st, kr_reviewed_by := Some un, kr_reviewed_at := Some now\<rparr>)"
proof -
  let ?P = "\<lambda>r. kr_id r = i \<and> in_scope ent grp r \<and> kr_status r \<notin> set TERMINAL_STATUS"
  have r: "r \<in> set (ku_rows db)" "kr_id r = i"
    using sql_fetchone_SomeD [OF assms(1) [unfolded row_of_def]] by auto
  then have "0 < sql_rowcount ?P (ku_rows db)" using assms(2,3) by (auto simp: sql_rowcount_pos)
  moreover have "row_of i (db\<lparr>ku_rows := sql_update ?P (\<lambda>r. r\<lparr>kr_status := st, kr_reviewed_by := Some un, kr_reviewed_at := Some now\<rparr>) (ku_rows db)\<rparr>)
      = Some (r\<lparr>kr_status := st, kr_reviewed_by := Some un, kr_reviewed_at := Some now\<rparr>)"
    using assms r by (simp add: row_of_def sql_fetchone_update)
  ultimately show ?thesis by (simp add: set_review_status_def Let_def)
qed

lemma in_scope_status [simp]:
  "in_scope ent grp (r\<lparr>kr_status := st, kr_reviewed_by := b, kr_reviewed_at := t\<rparr>) = in_scope ent grp r"
  by (simp add: in_scope_def)

lemma row_of_rows: "ku_rows db' = ku_rows db \<Longrightarrow> row_of i db' = row_of i db"
  by (simp add: row_of_def)

lemma commit_open:
  assumes "ku_inv db" and "row_of i db = Some r" and "in_scope (Some ent) grp r" and "kr_status r \<notin> set TERMINAL_STATUS"
  shows "fst (review_commit C w verb target i un ent grp p db) = Inr (target, Some un, Some (kw_now w))
    \<and> row_of i (snd (review_commit C w verb target i un ent grp p db))
        = Some (r\<lparr>kr_status := target, kr_reviewed_by := Some un, kr_reviewed_at := Some (kw_now w)\<rparr>)"
proof -
  define db1 where "db1 = snd (set_review_status (kw_now w) i target un (Some ent) grp db)"
  have 1: "set_review_status (kw_now w) i target un (Some ent) grp db = (Inr True, db1)"
    and 2: "row_of i db1 = Some (r\<lparr>kr_status := target, kr_reviewed_by := Some un, kr_reviewed_at := Some (kw_now w)\<rparr>)"
    using row_of_status_update [OF assms(2-4), of "kw_now w" target un] by (simp_all add: db1_def)
  have "ku_inv db1" unfolding db1_def by (rule ku_inv_set_review_status [OF assms(1)])
  with 2 assms(3) have 3: "get_review_status i (Some ent) grp db1 = Some (target, Some un, Some (kw_now w))"
    by (simp add: get_review_status_row review_of_def)
  have rows: "row_of i (log_for w aid un et pl res th (db1\<lparr>ku_rep := x\<rparr>)) = row_of i db1" for aid et pl res th x
    by (rule row_of_rows) simp
  show ?thesis by (simp add: review_commit_def 1 3 Let_def rows 2)
qed

lemma commit_decided:
  assumes "ku_inv db" and "row_of i db = Some r" and "in_scope (Some ent) grp r" and "kr_status r \<in> set TERMINAL_STATUS"
  shows "review_commit C w verb target i un ent grp p db = (Inl (HTTPException 409), db)"
proof -
  let ?P = "\<lambda>r. kr_id r = i \<and> in_scope (Some ent) grp r \<and> kr_status r \<notin> set TERMINAL_STATUS"
  have uniq: "unique_key kr_id (ku_rows db)" using assms(1) by (simp add: ku_inv_def)
  have r: "r \<in> set (ku_rows db)" "kr_id r = i"
    using sql_fetchone_SomeD [OF assms(2) [unfolded row_of_def]] by auto
  have "\<not> 0 < sql_rowcount ?P (ku_rows db)"
    using r assms(4) unique_key_eq [OF uniq] by (auto simp: sql_rowcount_pos)
  moreover have "sql_fetchone (\<lambda>r. kr_id r = i \<and> in_scope (Some ent) grp r) (ku_rows db) \<noteq> None"
    using r assms(3) by (auto simp: sql_fetchone_None)
  ultimately show ?thesis by (simp add: review_commit_def set_review_status_def Let_def)
qed

lemma commit_all_decided:
  assumes "ku_inv db" and "row_of i db = Some r" and "kr_status r \<in> set TERMINAL_STATUS"
    and "\<forall>d \<in> set ds. in_scope (Some (de_enterprise d)) (de_group d) r"
  shows "commit_all C i ds db = (replicate (length ds) (Inl (HTTPException 409)), db)"
  using assms by (induction ds) (auto simp: commit_decision_def commit_decided)

text \<open>The check of a request as its decision records it.\<close>

definition check_passed :: "string \<Rightarrow> 'a ku_db_scheme \<Rightarrow> 'k decision \<Rightarrow> bool" where
  "check_passed i db d =
     (case review_check (rw_env (de_world d)) i (de_user d) db of
        Inl _ \<Rightarrow> False | Inr (ent, grp, _) \<Rightarrow> ent = de_enterprise d \<and> grp = de_group d)"

text \<open>C2. Any number of administrators whose requests on one unit all passed the
  status check before any of them wrote: the first to commit gets its decision,
  every other gets a 409, and the unit ends with the first one's status,
  reviewer and time, whether they approve, reject or disagree.\<close>

theorem first_commit_wins:
  assumes "ku_inv db" and "list_all (check_passed i db) (d # ds)"
    and "list_all (\<lambda>d. de_target d \<in> set TERMINAL_STATUS) (d # ds)"
  shows "fst (commit_all C i (d # ds) db)
      = Inr (de_target d, Some (de_user d), Some (kw_now (de_world d))) # replicate (length ds) (Inl (HTTPException 409))
    \<and> map_option review_of (row_of i (snd (commit_all C i (d # ds) db)))
      = Some (de_target d, Some (de_user d), Some (kw_now (de_world d)))"
proof -
  obtain r where r: "row_of i db = Some r" "kr_status r \<in> {''pending'', ''pending_review''}"
    using assms(1,2) by (auto simp: check_passed_def dest!: review_check_Inr split: sum.splits prod.splits)
  have scope: "in_scope (Some (de_enterprise e)) (de_group e) r" if "e \<in> set (d # ds)" for e
  proof -
    have "check_passed i db e" using assms(2) that by (auto simp: list_all_iff)
    then obtain st where "review_check (rw_env (de_world e)) i (de_user e) db = Inr (de_enterprise e, de_group e, st)"
      by (auto simp: check_passed_def split: sum.splits prod.splits)
    from review_check_Inr [OF assms(1) this] r(1) show ?thesis by simp
  qed
  define db1 where "db1 = snd (commit_decision C i d db)"
  let ?r = "r\<lparr>kr_status := de_target d, kr_reviewed_by := Some (de_user d), kr_reviewed_at := Some (kw_now (de_world d))\<rparr>"
  have nt: "kr_status r \<notin> set TERMINAL_STATUS" using r(2) by (auto simp: TERMINAL_STATUS_def)
  have 1: "commit_decision C i d db = (Inr (de_target d, Some (de_user d), Some (kw_now (de_world d))), db1)"
    and 2: "row_of i db1 = Some ?r"
    using commit_open [OF assms(1) r(1) scope nt, of d C "de_world d" "de_verb d" "de_target d" "de_user d" "de_payload d"]
    by (simp_all add: db1_def commit_decision_def prod_eq_iff)
  have "ku_inv db1" unfolding db1_def commit_decision_def by (rule ku_inv_commit [OF assms(1)])
  moreover have "\<forall>e \<in> set ds. in_scope (Some (de_enterprise e)) (de_group e) ?r" using scope by simp
  ultimately have "commit_all C i ds db1 = (replicate (length ds) (Inl (HTTPException 409)), db1)"
    using commit_all_decided [OF _ 2] assms(3) by simp
  with 1 2 show ?thesis by (simp add: review_of_def)
qed

definition demo_decision :: "string \<Rightarrow> string \<Rightarrow> nat decision" where
  "demo_decision un target = \<lparr>de_world = demo_kworld, de_verb = ''v'', de_target = target, de_user = un,
     de_enterprise = ''acme'', de_group = None, de_payload = JNull\<rparr>"

lemma demo_check_passed: "list_all (check_passed ''ku_1'' (demo_ku_db ''pending''))
    [demo_decision ''ann'' ''approved'', demo_decision ''abe'' ''rejected'']"
  by code_simp

lemma first_commit_wins_witness:
  "fst (commit_all demo_prims ''ku_1'' [demo_decision ''ann'' ''approved'', demo_decision ''abe'' ''rejected''] (demo_ku_db ''pending''))
    = [Inr (''approved'', Some ''ann'', Some ''t1''), Inl (HTTPException 409)]"
proof -
  have "list_all (\<lambda>d. de_target d \<in> set TERMINAL_STATUS) [demo_decision ''ann'' ''approved'', demo_decision ''abe'' ''rejected'']"
    by (simp add: demo_decision_def TERMINAL_STATUS_def)
  from first_commit_wins [OF demo_ku_inv demo_check_passed this, of demo_prims]
  show ?thesis by (simp add: demo_decision_def demo_kworld_def)
qed

end
