(* ===== verification/UnitReads.thy ===== *)
theory UnitReads imports UnitProps begin

text \<open>
  Scope and search: what a reviewer can touch, what a search returns, how the
  pages of the pending-review queue fit its total, and how a proposal is audited.
  The last section holds the places where the endpoints on knowledge units do not
  do what their documentation says.
\<close>

section \<open>A reviewer stays in scope\<close>

lemma commit_rows:
  "ku_rows (snd (review_commit C w verb target i un ent grp p db))
    = ku_rows (snd (set_review_status (kw_now w) i target un (Some ent) grp db))"
  by (auto simp: review_commit_def Let_def split: prod.splits sum.splits bool.splits option.splits)

lemma set_review_status_frame:
  "filter (\<lambda>r. \<not> in_scope ent grp r) (ku_rows (snd (set_review_status now i st un ent grp db)))
    = filter (\<lambda>r. \<not> in_scope ent grp r) (ku_rows db)"
  by (auto simp: set_review_status_def Let_def intro!: sql_update_frame)

lemma delete_unit_frame:
  assumes "ku_inv db"
  shows "filter (\<lambda>r. \<not> in_scope (Some ent) grp r) (ku_rows (snd (delete_unit i (Some ent) grp db)))
    = filter (\<lambda>r. \<not> in_scope (Some ent) grp r) (ku_rows db)"
proof (cases "sql_fetchone (\<lambda>r. kr_id r = i \<and> in_scope (Some ent) grp r) (ku_rows db)")
  case (Some q)
  have uniq: "unique_key kr_id (ku_rows db)" using assms by (simp add: ku_inv_def)
  from sql_fetchone_SomeD [OF Some] have q: "q \<in> set (ku_rows db)" "kr_id q = i" "in_scope (Some ent) grp q" by auto
  have "\<forall>r \<in> set (ku_rows db). \<not> in_scope (Some ent) grp r \<longrightarrow> kr_id r \<noteq> i"
    using unique_key_eq [OF uniq _ q(1)] q(2,3) by auto
  with Some show ?thesis by (simp add: delete_unit_def sql_delete_frame)
qed (simp add: delete_unit_def)

text \<open>The sweep behind the list of pending reviews goes by the Enterprise alone.\<close>

definition swept_from :: "string \<Rightarrow> string \<Rightarrow> ku_row \<Rightarrow> ku_row \<Rightarrow> bool" where
  "swept_from ent now r r' \<longleftrightarrow> r' = r \<or> kr_enterprise r = ent \<and> kr_status r = ''pending_review'' \<and> kr_status r' = ''dropped''
     \<and> (case kr_pr_expires r of None \<Rightarrow> False | Some t \<Rightarrow> t < now)"

lemma expire_sweeps:
  assumes "ku_inv db"
  shows "list_all2 (swept_from ent now) (ku_rows db) (ku_rows (snd (expire_pending_reviews ts ent now db)))"
proof -
  let ?P = "\<lambda>r. kr_status r = ''pending_review'' \<and> kr_enterprise r = ent
      \<and> (case kr_pr_expires r of None \<Rightarrow> False | Some t \<Rightarrow> t < now)"
  define ids where "ids = map kr_id (filter ?P (ku_rows db))"
  have uniq: "unique_key kr_id (ku_rows db)" using assms by (simp add: ku_inv_def)
  have "?P r" if "r \<in> set (ku_rows db)" "kr_id r \<in> set ids" for r
    using that(2) unique_key_eq [OF uniq that(1)] by (auto simp: ids_def)
  then have one: "swept_from ent now r (if kr_id r \<in> set ids then f r else r)"
    if "r \<in> set (ku_rows db)" "\<And>r. kr_status (f r) = ''dropped''" for r f
    using that by (simp add: swept_from_def)
  have "list_all2 (swept_from ent now) (ku_rows db) (sql_update (\<lambda>r. kr_id r \<in> set ids) f (ku_rows db))"
    if "\<And>r. kr_status (f r) = ''dropped''" for f
    unfolding sql_update_def list.rel_map by (intro list.rel_refl_strong one that)
  moreover have "list_all2 (swept_from ent now) rows rows" for rows by (rule list_all2_refl) (simp add: swept_from_def)
  ultimately show ?thesis unfolding expire_pending_reviews_def Let_def ids_def [symmetric] by simp
qed

lemma out_of_scope_check:
  assumes "admin_scope env un db = Inr (ent, grp)" and "\<forall>r \<in> set (ku_rows db). kr_id r = i \<longrightarrow> \<not> in_scope (Some ent) grp r"
  shows "review_check env i un db = Inl (HTTPException 404)"
    and "delete_unit i (Some ent) grp db = (False, db)"
    and "get_any i (Some ent) grp db = None"
proof -
  have "sql_fetchone (\<lambda>r. kr_id r = i \<and> in_scope (Some ent) grp r) (ku_rows db) = None"
    using assms(2) by (auto simp: sql_fetchone_None)
  then show "review_check env i un db = Inl (HTTPException 404)"
    "delete_unit i (Some ent) grp db = (False, db)" "get_any i (Some ent) grp db = None"
    by (simp_all add: review_check_def assms(1) get_review_status_def delete_unit_def get_any_def)
qed

text \<open>C15. Tenant isolation of the review endpoints. Approving, rejecting or deleting
  a unit leaves every row outside the administrator's Enterprise, and with
  per-L2 isolation outside their group, as it was; for an id that exists only
  out of scope, or not at all, all of them and the read of the unit answer 404.
  Listing the pending reviews, which sweeps the whole Enterprise, changes only
  overdue ones of the administrator's Enterprise, of any group, to dropped.\<close>

theorem reviewer_stays_in_scope:
  assumes "ku_inv db" and "admin_scope (rw_env w) un db = Inr (ent, grp)"
  shows "filter (\<lambda>r. \<not> in_scope (Some ent) grp r) (ku_rows (snd (approve_unit C w i un db)))
        = filter (\<lambda>r. \<not> in_scope (Some ent) grp r) (ku_rows db)
    \<and> filter (\<lambda>r. \<not> in_scope (Some ent) grp r) (ku_rows (snd (reject_unit C w i reason un db)))
        = filter (\<lambda>r. \<not> in_scope (Some ent) grp r) (ku_rows db)
    \<and> filter (\<lambda>r. \<not> in_scope (Some ent) grp r) (ku_rows (snd (delete_unit_route (rw_env w) i un db)))
        = filter (\<lambda>r. \<not> in_scope (Some ent) grp r) (ku_rows db)
    \<and> ((\<exists>r. r \<in> set (ku_rows db) \<and> kr_id r = i \<and> in_scope (Some ent) grp r)
       \<or> approve_unit C w i un db = (Inl (HTTPException 404), db)
         \<and> reject_unit C w i reason un db = (Inl (HTTPException 404), db)
         \<and> delete_unit_route (rw_env w) i un db = (Inl (HTTPException 404), db)
         \<and> get_unit_route (rw_env w) i un db = Inl (HTTPException 404))
    \<and> list_all2 (swept_from ent (kw_now w)) (ku_rows db) (ku_rows (snd (pending_review_queue w sweep_fails limit offset un db)))"
proof (intro conjI)
  have "list_all2 (swept_from ent (kw_now w)) rows rows" for rows by (rule list_all2_refl) (simp add: swept_from_def)
  with expire_sweeps [OF assms(1)]
  show "list_all2 (swept_from ent (kw_now w)) (ku_rows db) (ku_rows (snd (pending_review_queue w sweep_fails limit offset un db)))"
    by (simp add: pending_review_queue_def assms(2))
  have scope: "ent' = ent \<and> grp' = grp" if "review_check (rw_env w) i un db = Inr (ent', grp', st)" for ent' grp' st
    using that assms(2) by (auto simp: review_check_def split: option.splits if_splits)
  show "filter (\<lambda>r. \<not> in_scope (Some ent) grp r) (ku_rows (snd (approve_unit C w i un db)))
        = filter (\<lambda>r. \<not> in_scope (Some ent) grp r) (ku_rows db)"
    by (auto simp: approve_unit_def commit_rows set_review_status_frame dest!: scope split: sum.splits)
  show "filter (\<lambda>r. \<not> in_scope (Some ent) grp r) (ku_rows (snd (reject_unit C w i reason un db)))
        = filter (\<lambda>r. \<not> in_scope (Some ent) grp r) (ku_rows db)"
    by (auto simp: reject_unit_def commit_rows set_review_status_frame dest!: scope split: sum.splits)
  obtain b db' where d: "delete_unit i (Some ent) grp db = (b, db')" by fastforce
  show "filter (\<lambda>r. \<not> in_scope (Some ent) grp r) (ku_rows (snd (delete_unit_route (rw_env w) i un db)))
        = filter (\<lambda>r. \<not> in_scope (Some ent) grp r) (ku_rows db)"
    using delete_unit_frame [OF assms(1), of ent grp i] d
    by (cases b) (simp_all add: delete_unit_route_def assms(2))
  show "(\<exists>r. r \<in> set (ku_rows db) \<and> kr_id r = i \<and> in_scope (Some ent) grp r)
       \<or> approve_unit C w i un db = (Inl (HTTPException 404), db)
         \<and> reject_unit C w i reason un db = (Inl (HTTPException 404), db)
         \<and> delete_unit_route (rw_env w) i un db = (Inl (HTTPException 404), db)
         \<and> get_unit_route (rw_env w) i un db = Inl (HTTPException 404)"
  proof (rule disjCI, rule ccontr)
    assume out: "\<not> (approve_unit C w i un db = (Inl (HTTPException 404), db)
         \<and> reject_unit C w i reason un db = (Inl (HTTPException 404), db)
         \<and> delete_unit_route (rw_env w) i un db = (Inl (HTTPException 404), db)
         \<and> get_unit_route (rw_env w) i un db = Inl (HTTPException 404))"
      and no: "\<not> (\<exists>r. r \<in> set (ku_rows db) \<and> kr_id r = i \<and> in_scope (Some ent) grp r)"
    from no have "\<forall>r \<in> set (ku_rows db). kr_id r = i \<longrightarrow> \<not> in_scope (Some ent) grp r" by blast
    note * = out_of_scope_check [OF assms(2) this]
    from out show False
      by (simp add: approve_unit_def reject_unit_def delete_unit_route_def get_unit_route_def assms(2) *)
  qed
qed

lemma reviewer_stays_in_scope_witness:
  "approve_unit demo_prims demo_kworld ''ku_1'' ''eve'' (demo_ku_db ''pending'')
    = (Inl (HTTPException 404), demo_ku_db ''pending'')"
proof -
  have "admin_scope (rw_env demo_kworld) ''eve'' (demo_ku_db ''pending'') = Inr (''globex'', None)" by code_simp
  from reviewer_stays_in_scope [OF demo_ku_inv this, of demo_prims "''ku_1''" None]
  show ?thesis by (simp add: demo_ku_db_def new_ku_row_def in_scope_def matches_opt_def)
qed

section \<open>Search\<close>

text \<open>The rows a search may return for a user.\<close>

definition searchable :: "string list \<Rightarrow> user_row \<Rightarrow> 'a ku_db_scheme \<Rightarrow> ku_row \<Rightarrow> bool" where
  "searchable domains user db r \<longleftrightarrow> r \<in> set (ku_rows db) \<and> kr_status r = ''approved''
     \<and> kr_enterprise r = us_enterprise_id user \<and> (kr_group r = us_group_id user \<or> kr_cross_group r)
     \<and> (\<exists>d. d \<in> set (normalize_domains domains) \<and> (kr_id r, d) \<in> set (ku_index db))"

lemma query_units_Inr:
  assumes "get_user db un = Some user" and "fst (query_units w ds ls fs p n un db) = Inr results"
  shows "0 < n \<and> (\<exists>rows. set rows = {r. searchable ds user db r}
     \<and> results = take (nat n) (order_desc (\<lambda>u. (query_score (normalize_domains ds) ls fs (py_or p []) u, ku_id u)) (map kr_data rows)))"
proof -
  let ?P = "\<lambda>r. kr_status r = ''approved'' \<and> (\<exists>d \<in> set (normalize_domains ds). (kr_id r, d) \<in> set (ku_index db))
      \<and> query_visible (Some (us_enterprise_id user)) (Some (us_group_id user)) r"
  let ?rows = "filter ?P (ku_rows db)"
  have n: "0 < n" using assms by (auto simp: query_units_def split: if_splits)
  have set: "set ?rows = {r. searchable ds user db r}"
    by (auto simp: searchable_def query_visible_def matches_opt_def)
  have q: "query ds ls fs (py_or p []) n (Some (us_enterprise_id user)) (Some (us_group_id user)) db = Inr results"
    using assms n by (auto simp: query_units_def split: sum.splits)
  show ?thesis
  proof (cases "normalize_domains ds = []")
    case True
    then have "results = []" using q n by (simp add: query_def)
    moreover have "{r. searchable ds user db r} = {}" using True by (simp add: searchable_def)
    ultimately show ?thesis using n by (intro conjI exI [of _ "[]"]) (simp_all add: order_desc_def)
  next
    case False
    then have "results = take (nat n) (order_desc (\<lambda>u. (query_score (normalize_domains ds) ls fs (py_or p []) u, ku_id u)) (map kr_data ?rows))"
      using q n by (simp add: query_def Let_def)
    with n set show ?thesis by blast
  qed
qed

text \<open>C16. What a search returns: only approved units of the caller's Enterprise, of
  their own group or shared across groups, with a domain in common; at most the
  limit, best score first; and when a searchable unit is missing, the limit is
  reached and no returned unit scores less.\<close>

theorem search_best_visible:
  assumes "get_user db un = Some user" and "fst (query_units w ds ls fs p n un db) = Inr results"
  shows "list_all (\<lambda>u. \<exists>r. searchable ds user db r \<and> kr_data r = u) results
    \<and> length results \<le> nat n
    \<and> sorted_wrt (\<ge>) (map (query_score (normalize_domains ds) ls fs (py_or p [])) results)
    \<and> (searchable ds user db r \<longrightarrow> kr_data r \<in> set results
        \<or> length results = nat n \<and> list_all (\<lambda>u. query_score (normalize_domains ds) ls fs (py_or p []) (kr_data r)
              \<le> query_score (normalize_domains ds) ls fs (py_or p []) u) results)"
proof -
  let ?score = "query_score (normalize_domains ds) ls fs (py_or p [])"
  let ?key = "\<lambda>u. (?score u, ku_id u)"
  from query_units_Inr [OF assms] obtain rows where rows: "set rows = {r. searchable ds user db r}"
    and res: "results = take (nat n) (order_desc ?key (map kr_data rows))" by blast
  let ?all = "order_desc ?key (map kr_data rows)"
  have srt: "sorted_wrt (\<lambda>a b. ?key b \<le> ?key a) ?all" by (rule order_desc_ge)
  have "list_all (\<lambda>u. \<exists>r. searchable ds user db r \<and> kr_data r = u) results"
    unfolding list_all_iff res using rows by (auto dest!: in_set_takeD)
  moreover have "length results \<le> nat n" by (simp add: res)
  moreover have "sorted_wrt (\<lambda>a b. ?score b \<le> ?score a) results"
    unfolding res by (rule sorted_wrt_take, rule sorted_wrt_mono_rel [OF _ srt]) auto
  moreover have "kr_data r \<in> set results \<or> length results = nat n \<and> list_all (\<lambda>u. ?score (kr_data r) \<le> ?score u) results"
    if "searchable ds user db r"
  proof -
    have "kr_data r \<in> set ?all" using that rows by simp
    from take_best [OF srt this, of "nat n"] show ?thesis by (auto simp: res list_all_iff)
  qed
  ultimately show ?thesis by (simp add: sorted_wrt_map)
qed


definition demo_ku_db2 :: ku_db where
  "demo_ku_db2 = (demo_ku_db ''approved'')\<lparr>db_users := [demo_user 2 ''abe'' ''admin'' ''acme'' ''eng'']\<rparr>"

lemma demo_query: "fst (query_units demo_kworld [''Python ''] None None None 3 ''abe'' demo_ku_db2) = Inr [demo_unit]"
proof -
  have "normalize_domains [''Python ''] = [''python'']" by code_simp
  then show ?thesis
    by (simp add: query_units_def demo_ku_db2_def demo_ku_db_def get_user_def sql_fetchone_def demo_user_def query_def
        query_visible_def matches_opt_def new_ku_row_def demo_unit_def order_desc_def)
qed

lemma search_best_visible_witness:
  "list_all (\<lambda>u. \<exists>r. searchable [''Python ''] (demo_user 2 ''abe'' ''admin'' ''acme'' ''eng'') demo_ku_db2 r \<and> kr_data r = u) [demo_unit]"
proof -
  have "get_user demo_ku_db2 ''abe'' = Some (demo_user 2 ''abe'' ''admin'' ''acme'' ''eng'')"
    by (simp add: demo_ku_db2_def get_user_def sql_fetchone_def demo_user_def)
  from search_best_visible [OF this demo_query] show ?thesis by blast
qed

section \<open>The pending-review pages\<close>

lemma sql_limit_page: "0 < limit \<Longrightarrow> sql_limit (int limit) (int (k * limit)) xs = page limit (k * limit) xs"
  by (simp add: sql_limit_def page_def Let_def del: of_nat_mult)

lemma count_filter: "sql_rowcount P t = length (filter P t)"
  by (simp add: sql_rowcount_def)

lemma filter_update_other:
  "(\<And>r. P r \<Longrightarrow> \<not> Q r) \<Longrightarrow> (\<And>r. P r \<Longrightarrow> \<not> Q (f r)) \<Longrightarrow> filter Q (sql_update P f t) = filter Q t"
  by (induction t) auto

text \<open>
  The pending-review queue. At one time, its pages in order are cut from one
  list of the candidates in scope whose time has not run out, closest to expiring
  first; enough pages give exactly as many rows as the total says; and the sweep
  the read starts in the background takes none of them away.\<close>

theorem pending_review_pages:
  assumes "ku_inv db" and "admin_scope (rw_env w) un db = Inr (ent, grp)" and "0 < limit"
    and "tot \<le> k * limit"
    and "tot = count_pending_review (kw_now w) ent grp db"
  shows "let pages = map (\<lambda>i. fst (pending_review_queue w sf (int limit) (int (i * limit)) un db)) [0..<k]
     in \<exists>rows. concat (map (\<lambda>p. case p of Inl _ \<Rightarrow> [] | Inr (items, _) \<Rightarrow> items) pages) = rows
       \<and> length rows = tot \<and> sorted_wrt (\<lambda>a b. kr_pr_expires a \<le> kr_pr_expires b) rows
       \<and> set rows = {r \<in> set (ku_rows db). pending_review_visible (kw_now w) ent grp r}
       \<and> filter (pending_review_visible (kw_now w) ent grp) (ku_rows (snd (pending_review_queue w sf (int limit) n un db)))
          = filter (pending_review_visible (kw_now w) ent grp) (ku_rows db)"
proof -
  let ?V = "pending_review_visible (kw_now w) ent grp"
  let ?all = "order_asc kr_pr_expires (filter ?V (ku_rows db))"
  have items: "(\<lambda>i. case fst (pending_review_queue w sf (int limit) (int (i * limit)) un db) of Inl _ \<Rightarrow> [] | Inr (items, _) \<Rightarrow> items)
      = (\<lambda>i. page limit (i * limit) ?all)"
    using sql_limit_page [OF assms(3)]
    by (auto simp: pending_review_queue_def assms(2) list_pending_review_def simp del: of_nat_mult)
  have "concat (map (\<lambda>p. case p of Inl _ \<Rightarrow> [] | Inr (items, _) \<Rightarrow> items)
      (map (\<lambda>i. fst (pending_review_queue w sf (int limit) (int (i * limit)) un db)) [0..<k]))
      = take (k * limit) ?all"
    unfolding map_map comp_def items by (rule pages_cover)
  also have "\<dots> = ?all"
    using assms(4,5) by (simp add: count_pending_review_def sql_rowcount_def)
  finally have all: "concat (map (\<lambda>p. case p of Inl _ \<Rightarrow> [] | Inr (items, _) \<Rightarrow> items)
      (map (\<lambda>i. fst (pending_review_queue w sf (int limit) (int (i * limit)) un db)) [0..<k])) = ?all" .
  have srt: "sorted_wrt (\<lambda>a b. kr_pr_expires a \<le> kr_pr_expires b) ?all"
    using sorted_order_asc [of kr_pr_expires "filter ?V (ku_rows db)"] by (simp add: sorted_wrt_map)
  have sweep: "filter ?V (ku_rows (snd (expire_pending_reviews (kw_now w) ent (kw_now w) db))) = filter ?V (ku_rows db)"
  proof -
    let ?Q = "\<lambda>r. kr_status r = ''pending_review'' \<and> kr_enterprise r = ent
              \<and> (case kr_pr_expires r of None \<Rightarrow> False | Some e \<Rightarrow> e < kw_now w)"
    let ?ids = "set (map kr_id (filter ?Q (ku_rows db)))"
    let ?f = "\<lambda>r. r\<lparr>kr_status := ''dropped'', kr_reviewed_by := Some ''ttl_expired_sweeper'', kr_reviewed_at := Some (kw_now w)\<rparr>"
    have uniq: "unique_key kr_id (ku_rows db)" using assms(1) by (simp add: ku_inv_def)
    have "\<not> ?V r" if r: "r \<in> set (ku_rows db)" "kr_id r \<in> ?ids" for r
    proof -
      from r(2) obtain q where "q \<in> set (ku_rows db)" "?Q q" "kr_id q = kr_id r" by auto
      with unique_key_eq [OF uniq _ r(1), of q] have "?Q r" by auto
      then show ?thesis by (auto simp: pending_review_visible_def matches_opt_def split: option.splits dest: less_asym)
    qed
    moreover have "\<not> ?V (?f r)" for r by (simp add: pending_review_visible_def)
    ultimately have "filter ?V (sql_update (\<lambda>r. kr_id r \<in> ?ids) ?f rows) = filter ?V rows"
      if "set rows \<subseteq> set (ku_rows db)" for rows using that by (induction rows) auto
    then show ?thesis by (auto simp: expire_pending_reviews_def Let_def)
  qed
  show ?thesis
    unfolding Let_def all using srt sweep assms(5)
    by (intro exI [of _ ?all]) (auto simp: count_pending_review_def sql_rowcount_def pending_review_queue_def assms(2))
qed

definition demo_pending_row :: ku_row where
  "demo_pending_row = (new_ku_row ''t0'' demo_unit (Some ''acme'') (Some ''eng''))
     \<lparr>kr_status := ''pending_review'', kr_pr_expires := Some ''t9''\<rparr>"

lemma pending_review_pages_witness:
  "filter (pending_review_visible ''t1'' ''acme'' None)
     (ku_rows (snd (pending_review_queue demo_kworld False 1 0 ''ann'' ((demo_ku_db ''pending'')\<lparr>ku_rows := [demo_pending_row]\<rparr>))))
   = [demo_pending_row]"
proof -
  let ?db = "(demo_ku_db ''pending'')\<lparr>ku_rows := [demo_pending_row]\<rparr>"
  have inv: "ku_inv ?db"
    by (simp add: ku_inv_def demo_ku_db_def demo_pending_row_def unique_key_def unit_ok_def new_ku_row_def demo_unit_def
        confidence_ok_def default_evidence_def index_of_def)
  have scope: "admin_scope (rw_env demo_kworld) ''ann'' ?db = Inr (''acme'', None)" by code_simp
  have vis: "pending_review_visible ''t1'' ''acme'' None demo_pending_row" by code_simp
  then have "1 = count_pending_review (kw_now demo_kworld) ''acme'' None ?db"
    by (simp add: count_pending_review_def sql_rowcount_def demo_kworld_def)
  from pending_review_pages [OF inv scope _ _ this, of 1 1 False 0] vis show ?thesis
    by (simp add: demo_kworld_def)
qed


section \<open>Proposals\<close>

text \<open>The row a proposal leaves, before the review columns.\<close>

lemma row_of_set_review:
  assumes "ku_rows db' = sql_update P f (ku_rows db)" and "\<And>r. kr_id (f r) = kr_id r"
  shows "row_of i db' = map_option (\<lambda>r. if P r then f r else r) (row_of i db)"
  using assms by (simp add: row_of_def sql_fetchone_update)

lemma auto_approve_rows:
  "\<exists>P f. ku_rows (auto_approve w un i db) = sql_update P f (ku_rows db)
     \<and> (\<forall>r. kr_id (f r) = kr_id r \<and> kr_data (f r) = kr_data r \<and> kr_enterprise (f r) = kr_enterprise r \<and> kr_group (f r) = kr_group r)"
proof -
  have "ku_rows db = sql_update (\<lambda>_. False) (\<lambda>r. r) (ku_rows db)" by (simp add: sql_update_def)
  then show ?thesis
    by (auto simp: auto_approve_def set_review_status_def Let_def split: prod.splits sum.splits bool.splits if_splits)
      (fastforce intro: exI [of _ "\<lambda>_. False"] exI [of _ "\<lambda>r. r"])+
qed

lemma propose_store_row:
  assumes "propose_store w un u ent grp db = Inr db1"
  shows "\<exists>r. row_of (ku_id u) db1 = Some r \<and> kr_enterprise r = ent \<and> kr_group r = grp
    \<and> kr_data r = u\<lparr>ku_domains := normalize_domains (ku_domains u)\<rparr>"
proof -
  from assms obtain db0 where ins: "insert_unit (kw_now w) u None (Some ent) (Some grp) db = Inr db0"
    and db1: "db1 = (case kw_embed w of None \<Rightarrow> db0 | Some (e, m) \<Rightarrow> snd (set_embedding (ku_id u) e m db0))"
    by (auto simp: propose_store_def)
  let ?r = "new_ku_row (kw_now w) (u\<lparr>ku_domains := normalize_domains (ku_domains u)\<rparr>) (Some ent) (Some grp)"
  note * = insert_unit_Inr [OF ins]
  have "sql_fetchone (\<lambda>r. kr_id r = ku_id u) (ku_rows db) = None"
    using * by (auto simp: sql_fetchone_None image_iff)
  then have "row_of (ku_id u) db0 = Some ?r"
    using * by (simp add: row_of_def sql_fetchone_snoc new_ku_row_def)
  moreover have "row_of (ku_id u) (snd (set_embedding (ku_id u) e m db0))
      = map_option (\<lambda>r. if kr_id r = ku_id u then r\<lparr>kr_embedding := Some e, kr_embedding_model := Some m\<rparr> else r) (row_of (ku_id u) db0)" for e m
    by (rule row_of_set_review) (simp_all add: set_embedding_def)
  ultimately show ?thesis by (auto simp: db1 new_ku_row_def split: option.split)
qed

lemma propose_row:
  assumes "propose_unit w req un db = (Inr u, db')"
  obtains r user ent grp db1 pl where "get_user db un = Some user" "resolve_write_tenancy (rw_env w) user = Inr (ent, grp)"
    "row_of (ku_id u) db' = Some r" "kr_enterprise r = ent" "kr_group r = grp" "ku_id (kr_data r) = ku_id u"
    "ku_id u = ''ku_'' @ kw_hexid w" "check_propose_quality (normalize_domains (pq_domains req)) (pq_insight req) = None"
    "propose_store w un u ent grp db = Inr db1"
    "db' = auto_approve w un (ku_id u) (log_for w (kw_act_id w) un ''propose'' pl None None db1)"
proof (rule propose_unit_cases [of w req un db])
  fix e assume "propose_unit w req un db = (Inl e, db)"
  with assms show thesis by simp
next
  fix v ent grp db1 user
  assume *: "get_user db un = Some user" "resolve_write_tenancy (rw_env w) user = Inr (ent, grp)"
    "create_knowledge_unit (kw_now w) (kw_hexid w) (normalize_domains (pq_domains req)) (pq_insight req) (pq_context req)
        (case pq_tier req of None \<Rightarrow> default_ku_tier (rw_env w) | Some t \<Rightarrow> t) un = Inr v"
    "check_propose_quality (normalize_domains (pq_domains req)) (pq_insight req) = None"
    "propose_store w un v ent grp db = Inr db1"
    "propose_unit w req un db = (Inr v, auto_approve w un (ku_id v) (log_for w (kw_act_id w) un ''propose''
       (JObj [(''ku_id'', JStr (ku_id v)),
              (''summary_first_60_chars'', JStr (summary_first_60 (Some (in_summary (pq_insight req))))),
              (''domains'', JArr (map JStr (normalize_domains (pq_domains req))))]) None None db1))"
  then have v: "v = u" and db': "db' = auto_approve w un (ku_id u) (log_for w (kw_act_id w) un ''propose''
       (JObj [(''ku_id'', JStr (ku_id u)),
              (''summary_first_60_chars'', JStr (summary_first_60 (Some (in_summary (pq_insight req))))),
              (''domains'', JArr (map JStr (normalize_domains (pq_domains req))))]) None None db1)"
    using assms by auto
  from propose_store_row [OF *(5)] obtain r where r: "row_of (ku_id u) db1 = Some r" "kr_enterprise r = ent"
    "kr_group r = grp" "ku_id (kr_data r) = ku_id u" unfolding v by auto
  obtain P f where upd: "ku_rows db' = sql_update P f (ku_rows db1)"
    and f: "\<And>q. kr_id (f q) = kr_id q \<and> kr_data (f q) = kr_data q \<and> kr_enterprise (f q) = kr_enterprise q \<and> kr_group (f q) = kr_group q"
    using auto_approve_rows [of w un "ku_id u"] unfolding db' by (metis log_for_frame(1))
  have "row_of (ku_id u) db' = Some (if P r then f r else r)"
    using row_of_set_review [OF upd] f r(1) by simp
  then show thesis
    using that [OF *(1,2) _ _ _ _ _ *(4) *(5) [unfolded v] db'] f [of r] r create_knowledge_unit_Inr [OF *(3)] v by auto
qed

lemma resolve_write_tenancy_Inr:
  "resolve_write_tenancy env user = Inr (ent, grp) \<Longrightarrow>
   resolve_tenancy env (Some user) = (ent, grp, snd (snd (resolve_tenancy env (Some user))))"
  by (auto simp: resolve_write_tenancy_def split: prod.splits if_splits)

lemma log_for_log: "set (act_log db) \<subseteq> set (act_log (log_for w aid un et p res th db))"
  using log_activity_grows [of "rw_env w" "kw_now_z w" aid "Some un" et "Some p" res th db] by (auto simp: log_for_def)

lemma auto_approve_log: "set (act_log db) \<subseteq> set (act_log (auto_approve w un i db))"
proof -
  define db1 where "db1 = snd (set_review_status (kw_now w) i ''approved'' un None None db)"
  have "act_log db1 = act_log db" by (simp add: db1_def set_review_status_def Let_def)
  moreover have "auto_approve w un i db \<in> {db, db1} \<or> (\<exists>aid et p th. auto_approve w un i db = log_for w aid un et p None th db1)"
    by (auto simp: auto_approve_def db1_def split: prod.split sum.split bool.split)
  ultimately show ?thesis using log_for_log [of db1] by fastforce
qed

lemma auto_approve_users [simp]: "db_users (auto_approve w un i db) = db_users db"
  by (auto simp: auto_approve_def set_review_status_def Let_def split: prod.splits sum.splits bool.splits if_splits)

lemma propose_store_users: "propose_store w un u ent grp db = Inr db1 \<Longrightarrow> db_users db1 = db_users db"
  by (auto simp: propose_store_def set_embedding_def dest!: insert_unit_Inr split: option.splits)

lemma propose_users: "propose_unit w req un db = (Inr u, db') \<Longrightarrow> db_users db' = db_users db"
  by (rule propose_unit_cases [of w req un db]) (auto simp: propose_store_users)

text \<open>
  An accepted proposal and its audit row agree. The unit is stored under
  the id returned, passed the quality guards, and the activity log has a row of
  type propose that names the caller and carries the very Enterprise and group
  the unit is stored under, automatic approval or not.\<close>

theorem proposal_audited:
  assumes "propose_unit w req un db = (Inr u, db')" and "kw_act_id w \<notin> ac_id ` set (act_log db)"
  shows "\<exists>r a. row_of (ku_id u) db' = Some r \<and> ku_id (kr_data r) = ku_id u
    \<and> check_propose_quality (normalize_domains (pq_domains req)) (pq_insight req) = None
    \<and> a \<in> set (act_log db') \<and> ac_event_type a = ''propose'' \<and> ac_persona a = Some un
    \<and> ac_enterprise a = kr_enterprise r \<and> ac_group a = Some (kr_group r)"
proof -
  obtain r user ent grp db1 pl where r: "get_user db un = Some user" "resolve_write_tenancy (rw_env w) user = Inr (ent, grp)"
    "row_of (ku_id u) db' = Some r" "kr_enterprise r = ent" "kr_group r = grp" "ku_id (kr_data r) = ku_id u"
    "check_propose_quality (normalize_domains (pq_domains req)) (pq_insight req) = None"
    and st: "propose_store w un u ent grp db = Inr db1"
    and run: "db' = auto_approve w un (ku_id u) (log_for w (kw_act_id w) un ''propose'' pl None None db1)"
    by (rule propose_row [OF assms(1)])
  have same: "db_users db1 = db_users db" "act_log db1 = act_log db"
    using st by (auto simp: propose_store_def set_embedding_def dest!: insert_unit_Inr split: option.splits)
  let ?a = "activity_row (rw_env w) (kw_now_z w) (kw_act_id w) (Some un) ''propose'' (Some pl) None None db1"
  have "act_log (log_for w (kw_act_id w) un ''propose'' pl None None db1) = act_log db1 @ [?a]"
    unfolding log_for_def by (rule log_activity_fresh) (use assms(2) same in \<open>simp_all add: EVENT_TYPES_def\<close>)
  then have "?a \<in> set (act_log db')"
    unfolding run by (intro subsetD [OF auto_approve_log]) simp
  moreover have "get_user db1 un = Some user" using r(1) same by (simp add: get_user_def)
  then have "ac_enterprise ?a = ent \<and> ac_group ?a = Some grp"
    using resolve_write_tenancy_Inr [OF r(2)] by (auto simp: activity_row_def Let_def split: prod.splits)
  ultimately show ?thesis using r by (intro exI [of _ r] exI [of _ ?a]) auto
qed


definition demo_request :: propose_request where
  "demo_request = \<lparr>pq_domains = ['' Python''], pq_insight = demo_insight,
     pq_context = \<lparr>cx_languages = [], cx_frameworks = [], cx_pattern = []\<rparr>, pq_tier = None\<rparr>"

text \<open>An L2 configured as acme/eng with automatic approval, where bob's row has
  the default tenancy.\<close>

definition demo_kenv :: env where
  "demo_kenv = [''CQ_ENTERPRISE'' \<mapsto> ''acme'', ''CQ_GROUP'' \<mapsto> ''eng'', ''CQ_AUTO_APPROVE_PROPOSE'' \<mapsto> ''true'']"

definition demo_kworld2 :: "nat ku_world" where
  "demo_kworld2 = demo_kworld\<lparr>rw_env := demo_kenv\<rparr>"

definition demo_proposed :: "(http_exc + ku) \<times> ku_db" where
  "demo_proposed = propose_unit demo_kworld2 demo_request ''bob'' (demo_ku_db ''pending'')"

lemma demo_proposed_ok:
  "\<exists>u. propose_unit demo_kworld2 demo_request ''bob'' (demo_ku_db ''pending'') = (Inr u, snd demo_proposed) \<and> ku_id u = ''ku_2''"
proof -
  have "case fst demo_proposed of Inl _ \<Rightarrow> False | Inr u \<Rightarrow> ku_id u = ''ku_2''" by code_simp
  then obtain u where "fst demo_proposed = Inr u" "ku_id u = ''ku_2''"
    by (cases "fst demo_proposed") simp_all
  then show ?thesis by (metis demo_proposed_def surjective_pairing)
qed

lemma proposal_audited_witness:
  "\<exists>r a. row_of ''ku_2'' (snd demo_proposed) = Some r \<and> a \<in> set (act_log (snd demo_proposed))
     \<and> ac_persona a = Some ''bob'' \<and> ac_enterprise a = kr_enterprise r"
proof -
  obtain u where *: "propose_unit demo_kworld2 demo_request ''bob'' (demo_ku_db ''pending'') = (Inr u, snd demo_proposed)"
    "ku_id u = ''ku_2''" using demo_proposed_ok by blast
  have "kw_act_id demo_kworld2 \<notin> ac_id ` set (act_log (demo_ku_db ''pending''))" by (simp add: demo_ku_db_def)
  from proposal_audited [OF *(1) this] show ?thesis unfolding *(2) by blast
qed

section \<open>Against the documentation\<close>

text \<open>
  A proposer who cannot find their own unit. On a configured L2 a user whose
  row still has the default Enterprise proposes into the L2's Enterprise, but
  searches with the row's: whatever they search for afterwards, and however the
  unit is reviewed in between by requests that move no rows between Enterprises,
  the unit is not among their results.\<close>

theorem proposer_never_finds_own_unit:
  assumes "ku_inv db" and "get_user db un = Some user" and "us_enterprise_id user = DEFAULT_ENTERPRISE_ID"
    and "configured (rw_env w) = Some (e, g)" and "e \<noteq> DEFAULT_ENTERPRISE_ID"
    and "propose_unit w req un db = (Inr u, db')"
    and "fst (query_units w' ds ls fs p n un db') = Inr results"
  shows "ku_id u \<notin> ku_id ` set results"
proof
  assume "ku_id u \<in> ku_id ` set results"
  then obtain v where v: "v \<in> set results" "ku_id v = ku_id u" by auto
  obtain r user' ent grp where r: "get_user db un = Some user'" "resolve_write_tenancy (rw_env w) user' = Inr (ent, grp)"
    "row_of (ku_id u) db' = Some r" "kr_enterprise r = ent"
    using propose_row [OF assms(6)] by metis
  have "strip DEFAULT_ENTERPRISE_ID = DEFAULT_ENTERPRISE_ID" by code_simp
  then have ent: "ent = e"
    using r(1,2) assms(2-4) resolve_tenancy_configured [OF assms(4), of "Some user"]
    by (auto simp: resolve_write_tenancy_def split: prod.splits if_splits)
  have inv: "ku_inv db'"
    using ku_inv_step [OF assms(1), of undefined "OpPropose w req un"] assms(6) by simp
  have "db_users db' = db_users db" by (rule propose_users [OF assms(6)])
  then have user: "get_user db' un = Some user" using assms(2) by (simp add: get_user_def)
  from query_units_Inr [OF user assms(7)] v(1) obtain q where q: "searchable ds user db' q" "kr_data q = v"
    by (auto dest!: in_set_takeD)
  then have "kr_id q = ku_id u" "q \<in> set (ku_rows db')"
    using inv v(2) by (auto simp: ku_inv_def unit_ok_def searchable_def)
  with inv r(3) have "q = r"
    using unique_key_eq [of kr_id "ku_rows db'" q r] sql_fetchone_SomeD [OF r(3) [unfolded row_of_def]]
    by (auto simp: ku_inv_def)
  with q(1) r(4) ent assms(3,5) show False by (simp add: searchable_def)
qed

lemma proposer_never_finds_own_unit_witness:
  "case fst (query_units demo_kworld2 [''python''] None None None 5 ''bob'' (snd demo_proposed)) of
     Inl _ \<Rightarrow> False | Inr results \<Rightarrow> ''ku_2'' \<notin> ku_id ` set results"
proof -
  obtain u where *: "propose_unit demo_kworld2 demo_request ''bob'' (demo_ku_db ''pending'') = (Inr u, snd demo_proposed)"
    "ku_id u = ''ku_2''" using demo_proposed_ok by blast
  have user: "get_user (demo_ku_db ''pending'') ''bob'' = Some (demo_user 4 ''bob'' ''user'' ''default-enterprise'' ''default-group'')"
    by (simp add: get_user_def sql_fetchone_def demo_ku_db_def demo_user_def)
  have conf: "configured (rw_env demo_kworld2) = Some (''acme'', ''eng'')" by code_simp
  have "case fst (query_units demo_kworld2 [''python''] None None None 5 ''bob'' (snd demo_proposed)) of
     Inl _ \<Rightarrow> False | Inr results \<Rightarrow> True" by code_simp
  then obtain results where r: "fst (query_units demo_kworld2 [''python''] None None None 5 ''bob'' (snd demo_proposed)) = Inr results"
    by (cases "fst (query_units demo_kworld2 [''python''] None None None 5 ''bob'' (snd demo_proposed))") simp_all
  have "''ku_2'' \<notin> ku_id ` set results"
    using proposer_never_finds_own_unit [OF demo_ku_inv user _ conf _ *(1) r] *(2)
    by (simp add: demo_user_def DEFAULT_ENTERPRISE_ID_def)
  with r show ?thesis by simp
qed

text \<open>
  Flagging a unit as a duplicate never succeeds. The request accepts the
  reason, but \<open>apply_flag\<close> builds a flag without the reference its validator
  wants, so the handler answers 404 for an unknown unit and fails with a 500 for
  every other, and nothing is recorded.\<close>

theorem duplicate_flag_always_fails:
  "flag_unit w i Duplicate un db = (Inl (HTTPException (if get_unit i db = None then 404 else 500)), db)"
  by (auto simp: flag_unit_def apply_flag_def make_flag_def truthy_def split: option.split)

text \<open>Statistics across tenants. The endpoint promises aggregates of the caller's
  Enterprise, but any two users get the same counts per tier, those of all
  Enterprises together: a user of an Enterprise without any unit sees them too.\<close>

theorem stats_tiers_cross_tenants:
  assumes "stats un db = Inr (n, tiers, domains)" and "stats un' db = Inr (n', tiers', domains')"
  shows "tiers' = tiers \<and> tiers = group_counts (map kr_tier (filter (\<lambda>r. kr_status r = ''approved'') (ku_rows db)))"
  using assms by (auto simp: stats_def counts_by_tier_def split: option.splits)

lemma stats_tiers_cross_tenants_witness:
  "stats ''eve'' (demo_ku_db ''approved'') = Inr (0, [(TierPrivate, 1)], [])
   \<and> group_counts (map kr_tier (filter (\<lambda>r. kr_status r = ''approved'') (ku_rows (demo_ku_db ''approved'')))) = [(TierPrivate, 1)]"
proof -
  have eve: "stats ''eve'' (demo_ku_db ''approved'') = Inr (0, [(TierPrivate, 1)], [])" by code_simp
  from stats_tiers_cross_tenants [OF this this] eve show ?thesis by simp
qed

end
