(* ===== verification/JsonLoads.thy ===== *)
theory JsonLoads imports Json begin

text \<open>
  \<open>json.loads\<close> on the values of \<open>Json\<close>: the program parses stored texts back
  (\<open>xgroup_consent.py\<close>, \<open>admin_routes._safe_json\<close>). Numbers with a fraction or
  an exponent, the constants NaN and Infinity and escapes from code point 256
  up have no value in \<open>json\<close> and end in None, like a syntax error. The lemma
  \<open>json_loads_dumps\<close>: parsing what was serialised gives the value back, with the
  keys of its objects sorted.
\<close>

section \<open>The parser\<close>

definition is_json_space :: "char \<Rightarrow> bool" where
  "is_json_space c \<longleftrightarrow> code_point c \<in> {32, 9, 10, 13}"

definition skip_ws :: "string \<Rightarrow> string" where
  "skip_ws s = dropWhile is_json_space s"

definition unesc :: "char \<Rightarrow> char option" where
  "unesc c =
     (if c = CHR 0x22 \<or> c = CHR 0x5C \<or> c = CHR ''/'' then Some c
      else if c = CHR ''b'' then Some (char_of (8::nat)) else if c = CHR ''t'' then Some (char_of (9::nat))
      else if c = CHR ''n'' then Some (char_of (10::nat)) else if c = CHR ''f'' then Some (char_of (12::nat))
      else if c = CHR ''r'' then Some (char_of (13::nat)) else None)"

definition hex4 :: "char \<Rightarrow> char \<Rightarrow> char \<Rightarrow> char \<Rightarrow> nat option" where
  "hex4 a b c d = (case (hex_value a, hex_value b, hex_value c, hex_value d) of
     (Some w, Some x, Some y, Some z) \<Rightarrow> Some (((w * 16 + x) * 16 + y) * 16 + z) | _ \<Rightarrow> None)"

definition push :: "char \<Rightarrow> (string \<times> string) option \<Rightarrow> (string \<times> string) option" where
  "push c r = map_option (\<lambda>(x, t). (c # x, t)) r"

lemma push_cong [fundef_cong]: "c = c' \<Longrightarrow> r = r' \<Longrightarrow> push c r = push c' r'"
  by simp

text \<open>After the opening quote: the contents and the rest behind the closing quote.\<close>

fun scan_string :: "string \<Rightarrow> (string \<times> string) option" where
  "scan_string [] = None"
| "scan_string (c # s) =
     (if c = CHR 0x22 then Some ([], s)
      else if c = CHR 0x5C then
        (case s of
           [] \<Rightarrow> None
         | d # t \<Rightarrow>
             if d = CHR ''u'' then
               (case t of
                  h1 # h2 # h3 # h4 # r \<Rightarrow>
                    (case hex4 h1 h2 h3 h4 of
                       None \<Rightarrow> None
                     | Some n \<Rightarrow> if n < 256 then push (char_of n) (scan_string r) else None)
                | _ \<Rightarrow> None)
             else (case unesc d of None \<Rightarrow> None | Some x \<Rightarrow> push x (scan_string t)))
      else if code_point c < 32 then None
      else push c (scan_string s))"

definition scan_nat :: "string \<Rightarrow> (nat \<times> string) option" where
  "scan_nat s =
     (case s of
        [] \<Rightarrow> None
      | c # r \<Rightarrow>
          if \<not> is_digit c then None
          else let (ds, rest) = (if c = CHR ''0'' then ([c], r) else (takeWhile is_digit s, dropWhile is_digit s))
          in (case rest of
                d # _ \<Rightarrow> if d \<in> {CHR ''.'', CHR ''e'', CHR ''E''} then None else Some (digits_value ds, rest)
              | [] \<Rightarrow> Some (digits_value ds, rest)))"

definition scan_int :: "string \<Rightarrow> (int \<times> string) option" where
  "scan_int s =
     (case s of
        [] \<Rightarrow> None
      | c # r \<Rightarrow>
          if c = CHR ''-'' then map_option (\<lambda>(n, t). (- int n, t)) (scan_nat r)
          else map_option (\<lambda>(n, t). (int n, t)) (scan_nat s))"

text \<open>A dictionary from pairs in their order: a repeated key keeps its place and
  takes the last value.\<close>

definition dict_set :: "'k \<Rightarrow> 'v \<Rightarrow> ('k \<times> 'v) list \<Rightarrow> ('k \<times> 'v) list" where
  "dict_set k v d = (if k \<in> fst ` set d then map (\<lambda>e. if fst e = k then (k, v) else e) d else d @ [(k, v)])"

definition dict_of :: "('k \<times> 'v) list \<Rightarrow> ('k \<times> 'v) list" where
  "dict_of kvs = fold (\<lambda>(k, v). dict_set k v) kvs []"

lemma map_of_replace:
  "map_of (map (\<lambda>e. if fst e = k then (k, v) else e) d) x = (if x = k then (if k \<in> fst ` set d then Some v else None) else map_of d x)"
proof (induction d)
  case (Cons e d)
  then show ?case by (cases e) (auto, metis fst_conv image_eqI)
qed simp

lemma map_of_dict_set: "map_of (dict_set k v d) = (map_of d)(k \<mapsto> v)"
proof (cases "k \<in> fst ` set d")
  case True
  then show ?thesis by (simp add: dict_set_def fun_eq_iff map_of_replace)
next
  case False
  then have "map_of d k = None" by (simp add: map_of_eq_None_iff)
  with False show ?thesis by (auto simp: dict_set_def map_add_def fun_eq_iff split: option.split)
qed

lemma keys_dict_set: "map fst (dict_set k v d) = (if k \<in> fst ` set d then map fst d else map fst d @ [k])"
  by (auto simp: dict_set_def)

fun parse_value :: "nat \<Rightarrow> string \<Rightarrow> (json \<times> string) option"
  and parse_items :: "nat \<Rightarrow> string \<Rightarrow> (json list \<times> string) option"
  and parse_members :: "nat \<Rightarrow> string \<Rightarrow> ((string \<times> json) list \<times> string) option" where
  "parse_value 0 s = None"
| "parse_value (Suc n) s =
     (case s of
        [] \<Rightarrow> None
      | c # r \<Rightarrow>
          if c = CHR 0x22 then map_option (\<lambda>(x, t). (JStr x, t)) (scan_string r)
          else if c = CHR ''{'' then
            (case skip_ws r of
               [] \<Rightarrow> None
             | d # t \<Rightarrow> if d = CHR ''}'' then Some (JObj [], t)
                       else map_option (\<lambda>(m, u). (JObj (dict_of m), u)) (parse_members n (d # t)))
          else if c = CHR ''['' then
            (case skip_ws r of
               [] \<Rightarrow> None
             | d # t \<Rightarrow> if d = CHR '']'' then Some (JArr [], t)
                       else map_option (\<lambda>(xs, u). (JArr xs, u)) (parse_items n (d # t)))
          else if startswith s ''null'' then Some (JNull, drop 4 s)
          else if startswith s ''true'' then Some (JBool True, drop 4 s)
          else if startswith s ''false'' then Some (JBool False, drop 5 s)
          else map_option (\<lambda>(i, t). (JInt i, t)) (scan_int s))"
| "parse_items 0 s = None"
| "parse_items (Suc n) s =
     (case parse_value n s of
        None \<Rightarrow> None
      | Some (v, t) \<Rightarrow>
          (case skip_ws t of
             [] \<Rightarrow> None
           | d # u \<Rightarrow>
               if d = CHR '']'' then Some ([v], u)
               else if d = CHR '','' then map_option (\<lambda>(xs, w). (v # xs, w)) (parse_items n (skip_ws u))
               else None))"
| "parse_members 0 s = None"
| "parse_members (Suc n) s =
     (case s of
        [] \<Rightarrow> None
      | c # r \<Rightarrow>
          if c \<noteq> CHR 0x22 then None
          else (case scan_string r of
            None \<Rightarrow> None
          | Some (k, t) \<Rightarrow>
              (case skip_ws t of
                 [] \<Rightarrow> None
               | d # u \<Rightarrow>
                   if d \<noteq> CHR '':'' then None
                   else (case parse_value n (skip_ws u) of
                     None \<Rightarrow> None
                   | Some (v, t') \<Rightarrow>
                       (case skip_ws t' of
                          [] \<Rightarrow> None
                        | d' # u' \<Rightarrow>
                            if d' = CHR ''}'' then Some ([(k, v)], u')
                            else if d' = CHR '','' then
                              map_option (\<lambda>(m, w). ((k, v) # m, w)) (parse_members n (skip_ws u'))
                            else None)))))"

text \<open>Every nested call reads at least one character first, so the length of the
  text is enough fuel.\<close>

definition json_loads :: "string \<Rightarrow> json option" where
  "json_loads s =
     (case parse_value (Suc (length s)) (skip_ws s) of
        None \<Rightarrow> None
      | Some (v, r) \<Rightarrow> if skip_ws r = [] then Some v else None)"

section \<open>Strings and numbers read back\<close>

lemma scan_esc_char: "scan_string (esc_char c @ r) = push c (scan_string r)"
proof -
  let ?n = "code_point c"
  consider (short) "?n \<in> {8, 9, 10, 12, 13, 34, 92}" | (long) "?n < 32" "?n \<notin> {8, 9, 10, 12, 13, 34, 92}"
    | (plain) "unescaped ?n"
    by (cases "?n < 32"; cases "?n \<in> {8, 9, 10, 12, 13, 34, 92}") (simp_all add: unescaped_def)
  then show ?thesis
  proof cases
    case short
    have "list_all (\<lambda>c. esc_char c = [CHR 0x5C, esc_char c ! 1] \<and> esc_char c ! 1 \<noteq> CHR ''u'' \<and> unesc (esc_char c ! 1) = Some c)
        (map char_of [8, 9, 10, 12, 13, 34, 92::nat])"
      by code_simp
    moreover have "c \<in> char_of ` set [8, 9, 10, 12, 13, 34, 92::nat]"
      by (rule image_eqI [where x = ?n]) (use short in \<open>simp_all add: code_point_def\<close>)
    ultimately obtain d where "esc_char c = [CHR 0x5C, d]" "d \<noteq> CHR ''u''" "unesc d = Some c"
      by (simp only: list_all_iff set_map) blast
    then show ?thesis by simp
  next
    case long
    then have "?n div 16 < 16" "?n mod 16 < 16" by auto
    then have "hex4 (CHR ''0'') (CHR ''0'') (hex_digit (?n div 16)) (hex_digit (?n mod 16)) = Some ?n"
      by (simp add: hex4_def hex_digit_facts) (simp add: hex_value_def code_point_def)
    moreover have "char_of ?n = c" by (simp add: code_point_def)
    ultimately show ?thesis using long by (simp add: esc_char_def Let_def)
  next
    case plain
    then have "c \<noteq> CHR 0x22" "c \<noteq> CHR 0x5C" using unescaped_code by blast+
    with plain show ?thesis by (simp add: unescaped_def esc_char_def Let_def)
  qed
qed

lemma scan_string_esc: "scan_string (esc s @ CHR 0x22 # x) = Some (s, x)"
  by (induction s) (simp_all add: scan_esc_char push_def)

lemma digits_zero: "digits n = CHR ''0'' # r \<Longrightarrow> n = 0 \<and> r = []"
proof (induction n arbitrary: r rule: digits.induct)
  case (1 n)
  show ?case
  proof (cases "n < 10")
    case True
    with "1.prems" have "digit_char n = CHR ''0''" "r = []" by (simp_all add: digits.simps [of n])
    moreover have "code_point (CHR ''0'') = 48" by (simp add: code_point_def)
    ultimately show ?thesis using True digit_char_code [of n] by simp
  next
    case False
    then have eq: "digits n = digits (n div 10) @ [digit_char (n mod 10)]" by (simp add: digits.simps [of n])
    obtain c u where c: "digits (n div 10) = c # u" using digits_first by blast
    with eq "1.prems" have "c = CHR ''0''" by simp
    with c "1.IH" [OF False] have "n div 10 = 0" by blast
    with False show ?thesis by simp
  qed
qed

lemma scan_nat_digits:
  assumes "delim s"
  shows "scan_nat (digits n @ s) = Some (n, s)"
proof -
  obtain c u where c: "digits n = c # u" "is_digit c" using digits_first by blast
  have tw: "takeWhile is_digit (c # u @ s) = digits n"
    using takeWhile_digits [OF delim_no_digit [OF assms], of n] c by simp
  have dw: "dropWhile is_digit (c # u @ s) = s"
  proof -
    have "(c # u @ s) = takeWhile is_digit (c # u @ s) @ dropWhile is_digit (c # u @ s)" by simp
    then show ?thesis using tw c by (metis append_Cons same_append_eq)
  qed
  have val: "digits_value (if c = CHR ''0'' then [c] else digits n) = n"
  proof (cases "c = CHR ''0''")
    case True
    with digits_zero [of n u] c have "[c] = digits n" by simp
    with True show ?thesis by (metis digits_value_digits)
  qed (simp only: if_False digits_value_digits)
  have rest: "(if c = CHR ''0'' then u @ s else dropWhile is_digit (c # u @ s)) = s"
    using digits_zero [of n u] c dw by auto
  show ?thesis
    using val rest tw dw c assms
    by (auto simp: scan_nat_def delim_def split: list.splits if_splits)
qed

lemma scan_int_show:
  assumes "delim s"
  shows "scan_int (show_int i @ s) = Some (i, s)"
proof (cases "i < 0")
  case True
  with scan_nat_digits [OF assms] show ?thesis by (simp add: scan_int_def show_int_def)
next
  case False
  obtain c u where c: "digits (nat i) = c # u" "is_digit c" using digits_first by blast
  have "\<not> is_digit (CHR ''-'')" by (simp add: is_digit_def code_point_def)
  with c have "c \<noteq> CHR ''-''" by blast
  with False c scan_nat_digits [OF assms, of "nat i"] show ?thesis
    by (simp add: scan_int_def show_int_def)
qed

section \<open>Values read back\<close>

lemma not_space:
  assumes "tag_of_char c \<noteq> 7"
  shows "\<not> is_json_space c"
proof
  assume "is_json_space c"
  moreover have "c = char_of (code_point c)" by (simp add: code_point_def)
  ultimately have "c \<in> char_of ` {32, 9, 10, 13::nat}" unfolding is_json_space_def by blast
  moreover have "list_all (\<lambda>d. tag_of_char d = 7) (map char_of [32, 9, 10, 13::nat])" by code_simp
  ultimately show False using assms by auto
qed

lemma plain_Cons: "\<exists>c r. plain v = c # r \<and> tag_of_char c = tag v"
  using tag_of_plain [of v] plain_not_Nil [of v] by (cases "plain v") auto

lemma skip_ws_plain [simp]: "skip_ws (plain v @ s) = plain v @ s"
proof -
  obtain c r where c: "plain v = c # r" "tag_of_char c = tag v" using plain_Cons by blast
  have "tag v \<noteq> 7" by (cases v) auto
  with c not_space [of c] show ?thesis by (simp add: skip_ws_def)
qed

lemma skip_ws_simps [simp]:
  "skip_ws [] = []" "skip_ws (CHR '','' # s) = CHR '','' # s" "skip_ws (CHR '']'' # s) = CHR '']'' # s"
  "skip_ws (CHR ''}'' # s) = CHR ''}'' # s" "skip_ws (CHR '':'' # s) = CHR '':'' # s"
  "skip_ws (CHR 0x22 # s) = CHR 0x22 # s"
  by (simp_all add: skip_ws_def is_json_space_def code_point_def)

text \<open>A dictionary's keys are distinct.\<close>

fun wf_json :: "json \<Rightarrow> bool" where
  "wf_json (JArr xs) = list_all wf_json xs"
| "wf_json (JObj kvs) = (distinct (map fst kvs) \<and> list_all (\<lambda>(k, v). wf_json v) kvs)"
| "wf_json v = True"

lemma dict_of_distinct_aux:
  "distinct (map fst (d @ kvs)) \<Longrightarrow> fold (\<lambda>(k, v). dict_set k v) kvs d = d @ kvs"
proof (induction kvs arbitrary: d)
  case (Cons e kvs)
  obtain k v where e: "e = (k, v)" by fastforce
  have "k \<notin> fst ` set d" using Cons.prems e by auto
  with Cons.IH [of "d @ [e]"] Cons.prems e show ?case by (simp add: dict_set_def)
qed simp

lemma dict_of_distinct: "distinct (map fst kvs) \<Longrightarrow> dict_of kvs = kvs"
  using dict_of_distinct_aux [of "[]" kvs] by (simp add: dict_of_def)

definition member :: "string \<times> json \<Rightarrow> string" where
  "member kv = quote (fst kv) @ CHR '':'' # plain (snd kv)"

lemma plain_JObj: "plain (JObj kvs) = CHR ''{'' # join_on (CHR '','') (map member kvs) @ ''}''"
  unfolding member_def [abs_def] by (simp add: case_prod_unfold)

lemma join_Cons2: "xs \<noteq> [] \<Longrightarrow> join_on c (w # map f xs) = w @ c # join_on c (map f xs)"
  by (cases xs) auto

lemma parse_items_join:
  assumes "xs \<noteq> []"
    and "\<And>x n s. x \<in> set xs \<Longrightarrow> delim s \<Longrightarrow> length (plain x) \<le> n \<Longrightarrow> parse_value n (plain x @ s) = Some (x, s)"
    and "length (join_on (CHR '','') (map plain xs)) < n"
  shows "parse_items n (join_on (CHR '','') (map plain xs) @ CHR '']'' # s) = Some (xs, s)
    \<and> skip_ws (join_on (CHR '','') (map plain xs) @ CHR '']'' # s) = join_on (CHR '','') (map plain xs) @ CHR '']'' # s"
  using assms
proof (induction xs arbitrary: n)
  case (Cons x xs)
  obtain m where n: "n = Suc m" using Cons.prems(3) by (cases n) auto
  show ?case
  proof (cases "xs = []")
    case True
    then show ?thesis using Cons.prems n by simp
  next
    case False
    note join = join_Cons2 [OF this, of "CHR '',''" "plain x" plain]
    have len: "length (plain x) \<le> m" "length (join_on (CHR '','') (map plain xs)) < m"
      using Cons.prems(3) n by (simp_all add: join)
    have "parse_items m (join_on (CHR '','') (map plain xs) @ CHR '']'' # s) = Some (xs, s)
      \<and> skip_ws (join_on (CHR '','') (map plain xs) @ CHR '']'' # s) = join_on (CHR '','') (map plain xs) @ CHR '']'' # s"
      by (rule Cons.IH [OF False _ len(2)]) (rule Cons.prems(2), simp_all)
    then show ?thesis
      using Cons.prems(2) [of x "CHR '','' # join_on (CHR '','') (map plain xs) @ CHR '']'' # s" m] len(1) n
      by (simp add: join)
  qed
qed simp

lemma parse_members_join:
  assumes "kvs \<noteq> []"
    and "\<And>k x n s. (k, x) \<in> set kvs \<Longrightarrow> delim s \<Longrightarrow> length (plain x) \<le> n \<Longrightarrow> parse_value n (plain x @ s) = Some (x, s)"
    and "length (join_on (CHR '','') (map member kvs)) < n"
  shows "parse_members n (join_on (CHR '','') (map member kvs) @ CHR ''}'' # s) = Some (kvs, s)
    \<and> skip_ws (join_on (CHR '','') (map member kvs) @ CHR ''}'' # s) = join_on (CHR '','') (map member kvs) @ CHR ''}'' # s"
  using assms
proof (induction kvs arbitrary: n)
  case (Cons e kvs)
  obtain m where n: "n = Suc m" using Cons.prems(3) by (cases n) auto
  obtain k x where e: "e = (k, x)" by fastforce
  have mem: "member (k, x) = CHR 0x22 # esc k @ CHR 0x22 # CHR '':'' # plain x"
    by (simp add: member_def quote_def)
  show ?case
  proof (cases "kvs = []")
    case True
    then show ?thesis using Cons.prems n by (simp add: mem e scan_string_esc)
  next
    case False
    note join = join_Cons2 [OF this, of "CHR '',''" _ member]
    have len: "length (plain x) \<le> m" "length (join_on (CHR '','') (map member kvs)) < m"
      using Cons.prems(3) n by (simp_all add: e join mem)
    have "parse_members m (join_on (CHR '','') (map member kvs) @ CHR ''}'' # s) = Some (kvs, s)
      \<and> skip_ws (join_on (CHR '','') (map member kvs) @ CHR ''}'' # s) = join_on (CHR '','') (map member kvs) @ CHR ''}'' # s"
      by (rule Cons.IH [OF False _ len(2)]) (rule Cons.prems(2), erule set_subset_Cons [THEN subsetD], assumption+)
    then show ?thesis
      using Cons.prems(2) [of k x "CHR '','' # join_on (CHR '','') (map member kvs) @ CHR ''}'' # s" m] len(1) n
      by (simp add: join mem e scan_string_esc)
  qed
qed simp

lemma join_hd:
  "xs \<noteq> [] \<Longrightarrow> \<exists>x r. x \<in> set xs \<and> join_on c (map f xs) = f x @ r"
  by (cases xs; cases "tl xs") auto

lemma parse_value_plain:
  "wf_json v \<Longrightarrow> delim s \<Longrightarrow> length (plain v) \<le> n \<Longrightarrow> parse_value n (plain v @ s) = Some (v, s)"
proof (induction v arbitrary: n s)
  case (JNull n)
  then show ?case by (cases n) auto
next
  case (JBool b n)
  then show ?case by (cases n; cases b) auto
next
  case (JInt i n)
  then obtain m where n: "n = Suc m" by (cases n) (auto simp: show_int_def split: if_splits)
  obtain c r where c: "show_int i = c # r" "tag_of_char c = 6"
    using plain_Cons [of "JInt i"] by auto
  from c(2) have "c \<noteq> CHR 0x22 \<and> c \<noteq> CHR ''{'' \<and> c \<noteq> CHR ''['' \<and> c \<noteq> CHR ''n'' \<and> c \<noteq> CHR ''t'' \<and> c \<noteq> CHR ''f''"
    by (auto simp: tag_of_char_def)
  with scan_int_show [OF JInt.prems(2), of i] n c(1) show ?case by simp
next
  case (JStr x n)
  then show ?case by (cases n) (simp_all add: quote_def scan_string_esc)
next
  case (JArr xs n)
  then obtain m where n: "n = Suc m" by (cases n) auto
  show ?case
  proof (cases "xs = []")
    case True
    with n show ?thesis by simp
  next
    case False
    have "parse_items m (join_on (CHR '','') (map plain xs) @ CHR '']'' # s) = Some (xs, s)
      \<and> skip_ws (join_on (CHR '','') (map plain xs) @ CHR '']'' # s) = join_on (CHR '','') (map plain xs) @ CHR '']'' # s"
    proof (rule parse_items_join [OF False])
      show "parse_value i (plain x @ t) = Some (x, t)"
        if "x \<in> set xs" "delim t" "length (plain x) \<le> i" for x i t
        using JArr.IH [OF that(1) _ that(2,3)] JArr.prems(1) that(1) by (simp add: list_all_iff)
      show "length (join_on (CHR '','') (map plain xs)) < m" using JArr.prems(3) n by simp
    qed
    moreover obtain x r where "join_on (CHR '','') (map plain xs) = plain x @ r"
      using join_hd [OF False] by metis
    moreover obtain c u where cu: "plain x = c # u" using plain_Cons by blast
    moreover have "c \<noteq> CHR '']''" using plain_no_close [of x "[]" u] cu by auto
    ultimately show ?thesis using n by simp
  qed
next
  case (JObj kvs n)
  then obtain m where n: "n = Suc m" by (cases n) auto
  show ?case
  proof (cases "kvs = []")
    case True
    with n show ?thesis by simp
  next
    case False
    have "parse_members m (join_on (CHR '','') (map member kvs) @ CHR ''}'' # s) = Some (kvs, s)
      \<and> skip_ws (join_on (CHR '','') (map member kvs) @ CHR ''}'' # s) = join_on (CHR '','') (map member kvs) @ CHR ''}'' # s"
    proof (rule parse_members_join [OF False])
      show "parse_value i (plain x @ t) = Some (x, t)"
        if "(k, x) \<in> set kvs" "delim t" "length (plain x) \<le> i" for k x i t
        using JObj.IH [OF that(1), of x] that(2,3) JObj.prems(1) that(1)
        by (auto simp: list_all_iff snds.intros)
      show "length (join_on (CHR '','') (map member kvs)) < m"
        using JObj.prems(3) n unfolding plain_JObj by simp
    qed
    moreover obtain e r where "join_on (CHR '','') (map member kvs) = member e @ r"
      using join_hd [OF False] by metis
    moreover have "member e = CHR 0x22 # esc (fst e) @ CHR 0x22 # CHR '':'' # plain (snd e)"
      by (simp add: member_def quote_def)
    moreover have "dict_of kvs = kvs" using JObj.prems(1) by (simp add: dict_of_distinct)
    ultimately show ?thesis unfolding plain_JObj using n by simp
  qed
qed

lemma json_loads_plain:
  assumes "wf_json v"
  shows "json_loads (plain v) = Some v"
proof -
  have "parse_value (Suc (length (plain v))) (plain v @ []) = Some (v, [])"
    by (rule parse_value_plain [OF assms]) simp_all
  moreover have "skip_ws (plain v) = plain v" using skip_ws_plain [of v "[]"] by simp
  ultimately show ?thesis by (simp only: json_loads_def append_Nil2 option.case prod.case skip_ws_simps if_True refl)
qed

lemma distinct_fst_sort: "distinct (map fst xs) \<Longrightarrow> distinct (map fst (sort_key fst xs))"
  by (simp add: distinct_map)

lemma wf_sort_keys: "wf_json v \<Longrightarrow> wf_json (sort_keys v)"
proof (induction v)
  case (JObj kvs)
  let ?kvs = "map (\<lambda>(k, v). (k, sort_keys v)) kvs"
  have "map fst ?kvs = map fst kvs" by (simp add: split_beta comp_def)
  then have "distinct (map fst ?kvs)" using JObj.prems by (metis wf_json.simps(2))
  then have "distinct (map fst (sort_key fst ?kvs))" by (rule distinct_fst_sort)
  moreover have "wf_json (sort_keys v)" if "(k, v) \<in> set kvs" for k v
  proof -
    from that JObj.prems have "wf_json v" by (auto simp: list_all_iff)
    with JObj.IH [OF that, of v] show ?thesis by simp
  qed
  then have "list_all (\<lambda>(k, v). wf_json v) ?kvs" by (auto simp: list_all_iff)
  ultimately show ?case by (simp add: list_all_iff)
qed (auto simp: list_all_iff)

text \<open>Parsing what was serialised.\<close>

theorem json_loads_dumps: "wf_json v \<Longrightarrow> json_loads (dumps v) = Some (sort_keys v)"
  by (simp add: dumps_plain json_loads_plain wf_sort_keys)

text \<open>Sorting keys twice is sorting them once, so the serialisation does not
  depend on the order of keys.\<close>

lemma sort_keys_idem [simp]: "sort_keys (sort_keys v) = sort_keys v"
proof (induction v)
  case (JObj kvs)
  let ?s = "\<lambda>(k, v). (k, sort_keys v)"
  have "map ?s (map ?s kvs) = map ?s kvs"
    using JObj by (auto simp: snds.intros)
  then have "sort_key fst (map ?s (map ?s kvs)) = sort_key fst (map ?s kvs)" by (rule arg_cong)
  then show ?case
    by (simp only: sort_keys.simps sort_key_map sort_key_id_if_sorted sorted_sort_key)
qed auto

lemma dumps_sort_keys [simp]: "dumps (sort_keys v) = dumps v"
  by (simp add: dumps_plain)

end
