(* ===== verification/XGroup.thy ===== *)
theory XGroup imports JsonLoads Crypto Users begin

text \<open>
  \<open>cq_server/xgroup_consent.py\<close> and \<open>cq_server/admin_routes.py\<close>: the grants with
  which two groups of an Enterprise share knowledge, proposed by one admin,
  cosigned by another, ratified and revoked, each step signed over the canonical
  grant body. Times the server makes are microseconds since the epoch (its
  ISO strings sort the same way); time stamps in a body are strings, read by
  \<open>fromiso\<close>. The last sections run sequences of requests: what every grant row
  carries, and that a revoked grant stays unusable.
\<close>

section \<open>Bodies, errors, rows\<close>

definition MAX_GRANT_TTL_DAYS :: int where "MAX_GRANT_TTL_DAYS = 90"
definition COSIGN_WINDOW_DAYS :: int where "COSIGN_WINDOW_DAYS = 7"
definition GRANT_BODY_VERSION :: string where "GRANT_BODY_VERSION = ''v1''"

datatype xg_code = NotFound | Conflict | InvalidSignature | Expired | BadRequest

text \<open>\<open>XGroupConsentError\<close> with its code, or another exception.\<close>

datatype xg_exc = XGroupConsentError xg_code | XCrash py_exc

record grant_body =
  gb_grant_id :: string
  gb_enterprise_id :: string
  gb_source_l2 :: string
  gb_target_l2 :: string
  gb_scope_kind :: string
  gb_scope_values :: "string list"
  gb_issued_at :: string
  gb_expires_at :: string
  gb_nonce :: string
  gb_version :: string
  gb_recovery :: string

text \<open>\<open>GrantBody.model_dump()\<close>.\<close>

definition body_json :: "grant_body \<Rightarrow> json" where
  "body_json b = JObj
     [(''grant_id'', JStr (gb_grant_id b)), (''enterprise_id'', JStr (gb_enterprise_id b)),
      (''source_l2'', JStr (gb_source_l2 b)), (''target_l2'', JStr (gb_target_l2 b)),
      (''scope'', JObj [(''kind'', JStr (gb_scope_kind b)), (''values'', JArr (map JStr (gb_scope_values b)))]),
      (''issued_at'', JStr (gb_issued_at b)), (''expires_at'', JStr (gb_expires_at b)),
      (''nonce'', JStr (gb_nonce b)), (''version'', JStr (gb_version b)),
      (''recovery_operator_pubkey_b64u'', JStr (gb_recovery b))]"

text \<open>Reading a string field of a parsed body.\<close>

definition str_field :: "json \<Rightarrow> string \<Rightarrow> py_exc + string" where
  "str_field v k =
     (case v of
        JObj kvs \<Rightarrow> (case map_of kvs k of None \<Rightarrow> Inl KeyError | Some (JStr s) \<Rightarrow> Inr s | Some _ \<Rightarrow> Inl TypeErr)
      | _ \<Rightarrow> Inl TypeErr)"

definition scope_fields :: "json \<Rightarrow> py_exc + string \<times> json" where
  "scope_fields v =
     (case v of
        JObj kvs \<Rightarrow>
          (case map_of kvs ''scope'' of
             None \<Rightarrow> Inl KeyError
           | Some sc \<Rightarrow>
               bind_result (str_field sc ''kind'') (\<lambda>kind.
                 case sc of
                   JObj svs \<Rightarrow> Inr (kind, case map_of svs ''values'' of None \<Rightarrow> JArr [] | Some x \<Rightarrow> x)
                 | _ \<Rightarrow> Inl TypeErr))
      | _ \<Rightarrow> Inl TypeErr)"

record pending_row =
  pn_pending_id :: string
  pn_enterprise_id :: string
  pn_source_l2 :: string
  pn_target_l2 :: string
  pn_body_canonical :: string
  pn_body_sha :: string
  pn_proposer_l2 :: string
  pn_proposer_pubkey :: string
  pn_proposer_signature :: string
  pn_cosigner_l2 :: "string option"
  pn_cosigner_pubkey :: "string option"
  pn_cosigner_signature :: "string option"
  pn_cosigned_at :: "int option"
  pn_proposed_at :: int
  pn_expires_at :: int
  pn_status :: string

text \<open>\<open>gr_scope_values\<close> is the list whose JSON text the column holds.\<close>

record grant_row =
  gr_grant_id :: string
  gr_enterprise_id :: string
  gr_source_l2 :: string
  gr_target_l2 :: string
  gr_body_canonical :: string
  gr_body_sha :: string
  gr_scope_kind :: string
  gr_scope_values :: json
  gr_a_l2 :: string
  gr_a_pubkey :: string
  gr_a_signature :: string
  gr_b_l2 :: "string option"
  gr_b_pubkey :: string
  gr_b_signature :: string
  gr_recovery :: string
  gr_issued_at :: string
  gr_expires_at :: string
  gr_ratified_at :: int
  gr_status :: string
  gr_revoked_at :: "int option"
  gr_revoked_by_l2 :: "string option"
  gr_revoked_by_pubkey :: "string option"
  gr_revoked_by_recovery :: bool
  gr_revoke_reason :: "string option"
  gr_nonce :: string
  gr_version :: string

record xg_db = user_db +
  xg_pendings :: "pending_row list"
  xg_grants :: "grant_row list"

section \<open>Time stamps and canonical bodies\<close>

definition parse_iso :: "(string \<Rightarrow> iso) \<Rightarrow> string \<Rightarrow> xg_exc + int" where
  "parse_iso fromiso value =
     (case fromiso (replace_Z value) of
        IsoAware t \<Rightarrow> Inr t
      | IsoNaive _ \<Rightarrow> Inl (XGroupConsentError BadRequest)
      | IsoBad \<Rightarrow> Inl (XGroupConsentError BadRequest))"

definition canonical_body_bytes :: "'k prims \<Rightarrow> json \<Rightarrow> bytes" where
  "canonical_body_bytes C v = jcs C v"

text \<open>\<open>canonical_body_bytes(body).decode()\<close>.\<close>

definition canonical_text :: "'k prims \<Rightarrow> json \<Rightarrow> xg_exc + string" where
  "canonical_text C v =
     (case utf8_decode (canonical_body_bytes C v) of None \<Rightarrow> Inl (XCrash ValueError) | Some s \<Rightarrow> Inr s)"

definition body_sha256_hex :: "'k prims \<Rightarrow> json \<Rightarrow> string" where
  "body_sha256_hex C v = hex (sha256 C (canonical_body_bytes C v))"

definition verify_sig_over_body :: "'k prims \<Rightarrow> string \<Rightarrow> json \<Rightarrow> string \<Rightarrow> xg_exc + bool" where
  "verify_sig_over_body C pubkey v signature =
     bind_result (canonical_text C v) (\<lambda>s. Inr (verify_envelope_signature C pubkey s signature))"

text \<open>Checks that raise: \<open>ensure P e\<close> is \<open>if not P: raise e\<close>.\<close>

definition ensure :: "bool \<Rightarrow> xg_code \<Rightarrow> xg_exc + unit" where
  "ensure P e = (if P then Inr () else Inl (XGroupConsentError e))"

lemma ensure_Inr [simp]: "ensure P e = Inr u \<longleftrightarrow> P"
  by (simp add: ensure_def)

definition check_sig :: "'k prims \<Rightarrow> string \<Rightarrow> json \<Rightarrow> string \<Rightarrow> xg_exc + unit" where
  "check_sig C pubkey v signature =
     bind_result (verify_sig_over_body C pubkey v signature) (\<lambda>ok. ensure ok InvalidSignature)"

text \<open>\<open>build_grant_body\<close>, which clients call; \<open>nonce\<close> and \<open>grant_id\<close> are what the
  caller pins or the generators return.\<close>

definition build_grant_body :: "(string \<Rightarrow> iso) \<Rightarrow> string \<Rightarrow> string \<Rightarrow> string \<Rightarrow> string \<Rightarrow> string list \<Rightarrow> string \<Rightarrow> string
    \<Rightarrow> string \<Rightarrow> string option \<Rightarrow> string option \<Rightarrow> bytes \<Rightarrow> string \<Rightarrow> xg_exc + grant_body" where
  "build_grant_body fromiso ent source target kind vals issued expires recovery nonce grant_id rand uuid =
     bind_result (ensure (kind \<in> {''domains'', ''topics'', ''all''}) BadRequest) (\<lambda>_.
     bind_result (ensure (kind = ''all'' \<or> vals \<noteq> []) BadRequest) (\<lambda>_.
     bind_result (ensure (source \<noteq> target) BadRequest) (\<lambda>_.
     bind_result (parse_iso fromiso issued) (\<lambda>issued_dt.
     bind_result (parse_iso fromiso expires) (\<lambda>expires_dt.
     bind_result (ensure (issued_dt < expires_dt) BadRequest) (\<lambda>_.
     bind_result (ensure (expires_dt - issued_dt \<le> MAX_GRANT_TTL_DAYS * US_PER_DAY) BadRequest) (\<lambda>_.
       Inr \<lparr>gb_grant_id = py_or grant_id uuid, gb_enterprise_id = ent, gb_source_l2 = source,
            gb_target_l2 = target, gb_scope_kind = kind, gb_scope_values = vals, gb_issued_at = issued,
            gb_expires_at = expires, gb_nonce = py_or nonce (b64u rand), gb_version = GRANT_BODY_VERSION,
            gb_recovery = recovery\<rparr>)))))))"

section \<open>Propose, cosign, ratify\<close>

definition load_pending :: "string \<Rightarrow> 'a xg_db_scheme \<Rightarrow> xg_exc + pending_row" where
  "load_pending pid db =
     (case sql_fetchone (\<lambda>r. pn_pending_id r = pid) (xg_pendings db) of
        None \<Rightarrow> Inl (XGroupConsentError NotFound) | Some r \<Rightarrow> Inr r)"

definition load_active :: "string \<Rightarrow> 'a xg_db_scheme \<Rightarrow> xg_exc + grant_row" where
  "load_active gid db =
     (case sql_fetchone (\<lambda>r. gr_grant_id r = gid) (xg_grants db) of
        None \<Rightarrow> Inl (XGroupConsentError NotFound) | Some r \<Rightarrow> Inr r)"

definition new_pending :: "'k prims \<Rightarrow> int \<Rightarrow> string \<Rightarrow> int \<Rightarrow> grant_body \<Rightarrow> string \<Rightarrow> string \<Rightarrow> string \<Rightarrow> string \<Rightarrow> pending_row" where
  "new_pending C now pid window body canonical l2 pk sig =
     \<lparr>pn_pending_id = pid, pn_enterprise_id = gb_enterprise_id body, pn_source_l2 = gb_source_l2 body,
      pn_target_l2 = gb_target_l2 body, pn_body_canonical = canonical,
      pn_body_sha = body_sha256_hex C (body_json body), pn_proposer_l2 = l2, pn_proposer_pubkey = pk,
      pn_proposer_signature = sig, pn_cosigner_l2 = None, pn_cosigner_pubkey = None,
      pn_cosigner_signature = None, pn_cosigned_at = None, pn_proposed_at = now,
      pn_expires_at = now + window * US_PER_DAY, pn_status = ''proposed''\<rparr>"

definition propose_grant :: "'k prims \<Rightarrow> int \<Rightarrow> string \<Rightarrow> int \<Rightarrow> grant_body \<Rightarrow> string \<Rightarrow> string \<Rightarrow> string \<Rightarrow> 'a xg_db_scheme
    \<Rightarrow> xg_exc + 'a xg_db_scheme" where
  "propose_grant C now pid window body l2 pk sig db =
     bind_result (ensure (l2 = gb_source_l2 body \<or> l2 = gb_target_l2 body) BadRequest) (\<lambda>_.
     bind_result (ensure (l2 = gb_source_l2 body) BadRequest) (\<lambda>_.
     bind_result (check_sig C pk (body_json body) sig) (\<lambda>_.
     bind_result (canonical_text C (body_json body)) (\<lambda>canonical.
       case sql_insert pn_pending_id (new_pending C now pid window body canonical l2 pk sig) (xg_pendings db) of
         Inl x \<Rightarrow> Inl (XCrash x)
       | Inr t \<Rightarrow> Inr (db\<lparr>xg_pendings := t\<rparr>)))))"

text \<open>\<open>json.loads\<close> of a stored body.\<close>

definition load_body :: "string \<Rightarrow> xg_exc + json" where
  "load_body s = (case json_loads s of None \<Rightarrow> Inl (XCrash ValueError) | Some v \<Rightarrow> Inr v)"

definition cosign_check :: "'k prims \<Rightarrow> int \<Rightarrow> string \<Rightarrow> string \<Rightarrow> string \<Rightarrow> string \<Rightarrow> 'a xg_db_scheme \<Rightarrow> xg_exc + unit" where
  "cosign_check C now pid l2 pk sig db =
     bind_result (load_pending pid db) (\<lambda>row.
     bind_result (ensure (pn_status row = ''proposed'') Conflict) (\<lambda>_.
     bind_result (ensure (now < pn_expires_at row) Expired) (\<lambda>_.
     bind_result (ensure (l2 \<noteq> pn_proposer_l2 row) BadRequest) (\<lambda>_.
     bind_result (ensure (l2 = pn_target_l2 row) BadRequest) (\<lambda>_.
     bind_result (load_body (pn_body_canonical row)) (\<lambda>body.
       check_sig C pk body sig))))))"

text \<open>The guarded update; its row count is not looked at.\<close>

definition cosign_commit :: "int \<Rightarrow> string \<Rightarrow> string \<Rightarrow> string \<Rightarrow> string \<Rightarrow> 'a xg_db_scheme \<Rightarrow> 'a xg_db_scheme" where
  "cosign_commit now pid l2 pk sig db =
     db\<lparr>xg_pendings := sql_update (\<lambda>r. pn_pending_id r = pid \<and> pn_status r = ''proposed'')
          (\<lambda>r. r\<lparr>pn_cosigner_l2 := Some l2, pn_cosigner_pubkey := Some pk, pn_cosigner_signature := Some sig,
                 pn_cosigned_at := Some now, pn_status := ''cosigned''\<rparr>) (xg_pendings db)\<rparr>"

definition cosign_grant :: "'k prims \<Rightarrow> int \<Rightarrow> string \<Rightarrow> string \<Rightarrow> string \<Rightarrow> string \<Rightarrow> 'a xg_db_scheme \<Rightarrow> xg_exc + 'a xg_db_scheme" where
  "cosign_grant C now pid l2 pk sig db =
     bind_result (cosign_check C now pid l2 pk sig db) (\<lambda>_. Inr (cosign_commit now pid l2 pk sig db))"

text \<open>The row that goes into \<open>xgroup_consent\<close>.\<close>

definition promote_row :: "int \<Rightarrow> pending_row \<Rightarrow> json \<Rightarrow> string \<Rightarrow> string \<Rightarrow> py_exc + grant_row" where
  "promote_row now row body b_pk b_sig =
     bind_result (str_field body ''grant_id'') (\<lambda>gid.
     bind_result (scope_fields body) (\<lambda>(kind, vals).
     bind_result (str_field body ''enterprise_id'') (\<lambda>ent.
     bind_result (str_field body ''source_l2'') (\<lambda>src.
     bind_result (str_field body ''target_l2'') (\<lambda>tgt.
     bind_result (str_field body ''recovery_operator_pubkey_b64u'') (\<lambda>rec.
     bind_result (str_field body ''issued_at'') (\<lambda>issued.
     bind_result (str_field body ''expires_at'') (\<lambda>expires.
     bind_result (str_field body ''nonce'') (\<lambda>nonce.
     bind_result (str_field body ''version'') (\<lambda>version.
       Inr \<lparr>gr_grant_id = gid, gr_enterprise_id = ent, gr_source_l2 = src, gr_target_l2 = tgt,
            gr_body_canonical = pn_body_canonical row, gr_body_sha = pn_body_sha row,
            gr_scope_kind = kind, gr_scope_values = vals,
            gr_a_l2 = pn_proposer_l2 row, gr_a_pubkey = pn_proposer_pubkey row,
            gr_a_signature = pn_proposer_signature row,
            gr_b_l2 = pn_cosigner_l2 row, gr_b_pubkey = b_pk, gr_b_signature = b_sig,
            gr_recovery = rec, gr_issued_at = issued, gr_expires_at = expires, gr_ratified_at = now,
            gr_status = ''active'', gr_revoked_at = None, gr_revoked_by_l2 = None,
            gr_revoked_by_pubkey = None, gr_revoked_by_recovery = False, gr_revoke_reason = None,
            gr_nonce = nonce, gr_version = version\<rparr>))))))))))"

definition ratify_grant :: "'k prims \<Rightarrow> (string \<Rightarrow> iso) \<Rightarrow> int \<Rightarrow> string \<Rightarrow> 'a xg_db_scheme
    \<Rightarrow> xg_exc + string \<times> 'a xg_db_scheme" where
  "ratify_grant C fromiso now pid db =
     bind_result (load_pending pid db) (\<lambda>row.
     bind_result (ensure (pn_status row = ''cosigned'') Conflict) (\<lambda>_.
     bind_result (ensure (now < pn_expires_at row) Expired) (\<lambda>_.
     bind_result (load_body (pn_body_canonical row)) (\<lambda>body.
     bind_result (check_sig C (pn_proposer_pubkey row) body (pn_proposer_signature row)) (\<lambda>_.
       case (pn_cosigner_pubkey row, pn_cosigner_signature row) of
         (Some b_pk, Some b_sig) \<Rightarrow>
           bind_result (check_sig C b_pk body b_sig) (\<lambda>_.
           bind_result (case str_field body ''expires_at'' of Inl x \<Rightarrow> Inl (XCrash x) | Inr s \<Rightarrow> parse_iso fromiso s)
             (\<lambda>body_expires.
           bind_result (ensure (now < body_expires) Expired) (\<lambda>_.
             case promote_row now row body b_pk b_sig of
               Inl x \<Rightarrow> Inl (XCrash x)
             | Inr g \<Rightarrow>
                 (case sql_insert gr_grant_id g (xg_grants db) of
                    Inl x \<Rightarrow> Inl (XCrash x)
                  | Inr t \<Rightarrow>
                      Inr (gr_grant_id g, db\<lparr>xg_grants := t,
                             xg_pendings := sql_delete (\<lambda>r. pn_pending_id r = pid) (xg_pendings db)\<rparr>)))))
       | _ \<Rightarrow> Inl (XGroupConsentError Conflict))))))"

section \<open>Revoke\<close>

definition revoke_envelope :: "string \<Rightarrow> string \<Rightarrow> string option \<Rightarrow> string option \<Rightarrow> json" where
  "revoke_envelope gid revoke_ts reason revoker_l2 = JObj
     [(''grant_id'', JStr gid), (''revoke_ts'', JStr revoke_ts), (''reason'', JStr (py_or reason [])),
      (''revoker_l2'', JStr (py_or revoker_l2 []))]"

text \<open>The three authorities; the result is \<open>revoked_by_recovery\<close>. \<open>walker\<close> is the
  injected lineage walk, from signer L2, pinned key and current key.\<close>

definition revoke_authority :: "(string \<Rightarrow> string \<Rightarrow> string \<Rightarrow> bool) option \<Rightarrow> grant_row \<Rightarrow> bool \<Rightarrow> string \<Rightarrow> string option
    \<Rightarrow> xg_exc + bool" where
  "revoke_authority walker row is_recovery pk l2 =
     (if is_recovery then
        (if pk \<noteq> gr_recovery row then Inl (XGroupConsentError InvalidSignature) else Inr True)
      else if pk = gr_a_pubkey row \<or> pk = gr_b_pubkey row then Inr False
      else if pk = gr_recovery row then Inl (XGroupConsentError BadRequest)
      else (case (walker, l2) of
              (Some walk, Some l) \<Rightarrow>
                let chained = (if l = gr_a_l2 row then walk l (gr_a_pubkey row) pk
                               else if Some l = gr_b_l2 row then walk l (gr_b_pubkey row) pk else False)
                in if chained then Inr False else Inl (XGroupConsentError InvalidSignature)
            | _ \<Rightarrow> Inl (XGroupConsentError InvalidSignature)))"

definition revoke_check :: "'k prims \<Rightarrow> (string \<Rightarrow> iso) \<Rightarrow> int \<Rightarrow> (string \<Rightarrow> string \<Rightarrow> string \<Rightarrow> bool) option \<Rightarrow> string \<Rightarrow> string
    \<Rightarrow> string \<Rightarrow> string option \<Rightarrow> string option \<Rightarrow> string \<Rightarrow> bool \<Rightarrow> 'a xg_db_scheme \<Rightarrow> xg_exc + bool" where
  "revoke_check C fromiso now walker gid pk sig l2 reason revoke_ts is_recovery db =
     bind_result (load_active gid db) (\<lambda>row.
     bind_result (ensure (gr_status row = ''active'') Conflict) (\<lambda>_.
     bind_result (parse_iso fromiso (gr_expires_at row)) (\<lambda>expires.
     bind_result (ensure (now < expires) Expired) (\<lambda>_.
     bind_result (check_sig C pk (revoke_envelope gid revoke_ts reason l2) sig) (\<lambda>_.
       revoke_authority walker row is_recovery pk l2)))))"

definition revoke_commit :: "int \<Rightarrow> string \<Rightarrow> string \<Rightarrow> string option \<Rightarrow> string option \<Rightarrow> bool \<Rightarrow> 'a xg_db_scheme \<Rightarrow> 'a xg_db_scheme" where
  "revoke_commit now gid pk l2 reason recovery db =
     db\<lparr>xg_grants := sql_update (\<lambda>r. gr_grant_id r = gid \<and> gr_status r = ''active'')
          (\<lambda>r. r\<lparr>gr_status := ''revoked'', gr_revoked_at := Some now, gr_revoked_by_l2 := l2,
                 gr_revoked_by_pubkey := Some pk, gr_revoked_by_recovery := recovery, gr_revoke_reason := reason\<rparr>)
          (xg_grants db)\<rparr>"

definition revoke_grant :: "'k prims \<Rightarrow> (string \<Rightarrow> iso) \<Rightarrow> int \<Rightarrow> (string \<Rightarrow> string \<Rightarrow> string \<Rightarrow> bool) option \<Rightarrow> string \<Rightarrow> string
    \<Rightarrow> string \<Rightarrow> string option \<Rightarrow> string option \<Rightarrow> string \<Rightarrow> bool \<Rightarrow> 'a xg_db_scheme \<Rightarrow> xg_exc + bool \<times> 'a xg_db_scheme" where
  "revoke_grant C fromiso now walker gid pk sig l2 reason revoke_ts is_recovery db =
     bind_result (revoke_check C fromiso now walker gid pk sig l2 reason revoke_ts is_recovery db) (\<lambda>rec.
       Inr (rec, revoke_commit now gid pk l2 reason rec db))"

section \<open>Reads\<close>

text \<open>\<open>LIMIT\<close> with a negative number is no limit in SQLite.\<close>

definition sql_limit :: "int \<Rightarrow> 'r list \<Rightarrow> 'r list" where
  "sql_limit n t = (if n < 0 then t else take (nat n) t)"

definition list_pending_for_target :: "string \<Rightarrow> string \<Rightarrow> int \<Rightarrow> 'a xg_db_scheme \<Rightarrow> pending_row list" where
  "list_pending_for_target ent tgt limit db =
     sql_limit limit (order_desc pn_proposed_at
       (filter (\<lambda>r. pn_enterprise_id r = ent \<and> pn_target_l2 r = tgt \<and> pn_status r \<in> {''proposed'', ''cosigned''})
         (xg_pendings db)))"

definition get_active_grant :: "string \<Rightarrow> 'a xg_db_scheme \<Rightarrow> grant_row option" where
  "get_active_grant gid db = (case load_active gid db of Inl _ \<Rightarrow> None | Inr r \<Rightarrow> Some r)"

definition is_grant_usable :: "(string \<Rightarrow> iso) \<Rightarrow> int \<Rightarrow> string \<Rightarrow> 'a xg_db_scheme \<Rightarrow> xg_exc + bool" where
  "is_grant_usable fromiso now gid db =
     (case get_active_grant gid db of
        None \<Rightarrow> Inr False
      | Some row \<Rightarrow>
          if gr_status row \<noteq> ''active'' then Inr False
          else bind_result (parse_iso fromiso (gr_expires_at row)) (\<lambda>e. Inr (now < e)))"

section \<open>Routes\<close>

fun http_for :: "xg_exc \<Rightarrow> http_exc" where
  "http_for (XGroupConsentError NotFound) = HTTPException 404"
| "http_for (XGroupConsentError Conflict) = HTTPException 409"
| "http_for (XGroupConsentError InvalidSignature) = HTTPException 403"
| "http_for (XGroupConsentError Expired) = HTTPException 410"
| "http_for (XGroupConsentError BadRequest) = HTTPException 400"
| "http_for (XCrash _) = HTTPException 500"

definition enforce_caller_tenancy :: "string \<Rightarrow> string \<Rightarrow> string option \<Rightarrow> 'a user_db_scheme \<Rightarrow> http_exc + unit" where
  "enforce_caller_tenancy username expected_ent expected_l2 db =
     (case get_user db username of
        None \<Rightarrow> Inl (HTTPException 401)
      | Some user \<Rightarrow>
          if us_enterprise_id user \<noteq> expected_ent then Inl (HTTPException 403)
          else (case expected_l2 of
                  None \<Rightarrow> Inr ()
                | Some l2 \<Rightarrow>
                    let (_, sep, rest) = partition_on (CHR ''/'') l2;
                        expected_grp = (if sep \<noteq> [] then rest else l2)
                    in if us_group_id user \<noteq> expected_grp then Inl (HTTPException 403) else Inr ()))"

text \<open>A handler: the caller is an administrator (\<open>require_admin\<close>); errors leave the
  tables as they were.\<close>

definition admin_request :: "string \<Rightarrow> ('a xg_db_scheme \<Rightarrow> http_exc + 'r \<times> 'a xg_db_scheme) \<Rightarrow> 'a xg_db_scheme
    \<Rightarrow> (http_exc + 'r) \<times> 'a xg_db_scheme" where
  "admin_request admin handler db =
     (case bind_result (require_admin db admin) (\<lambda>_. handler db) of
        Inl e \<Rightarrow> (Inl e, db) | Inr (r, db') \<Rightarrow> (Inr r, db'))"

definition translated :: "xg_exc + 'r \<Rightarrow> http_exc + 'r" where
  "translated r = (case r of Inl e \<Rightarrow> Inl (http_for e) | Inr x \<Rightarrow> Inr x)"

definition propose_route :: "'k prims \<Rightarrow> int \<Rightarrow> string \<Rightarrow> string \<Rightarrow> grant_body \<Rightarrow> string \<Rightarrow> string \<Rightarrow> string \<Rightarrow> 'a xg_db_scheme
    \<Rightarrow> (http_exc + unit) \<times> 'a xg_db_scheme" where
  "propose_route C now pid admin body l2 pk sig = admin_request admin (\<lambda>db.
     bind_result (enforce_caller_tenancy admin (gb_enterprise_id body) (Some l2) db) (\<lambda>_.
     bind_result (translated (propose_grant C now pid COSIGN_WINDOW_DAYS body l2 pk sig db)) (\<lambda>db'.
       Inr ((), db'))))"

text \<open>One item of the listing: the row, the grant id of its body, the body.\<close>

definition pending_item :: "pending_row \<Rightarrow> pending_row \<times> json \<times> json" where
  "pending_item r =
     (case json_loads (pn_body_canonical r) of
        Some (JObj kvs) \<Rightarrow> (r, case map_of kvs ''grant_id'' of None \<Rightarrow> JStr [] | Some v \<Rightarrow> v, JObj kvs)
      | _ \<Rightarrow> (r, JStr [], JObj []))"

definition list_pending_route :: "string \<Rightarrow> string \<Rightarrow> string \<Rightarrow> int \<Rightarrow> 'a xg_db_scheme
    \<Rightarrow> (http_exc + (pending_row \<times> json \<times> json) list) \<times> 'a xg_db_scheme" where
  "list_pending_route admin ent tgt limit = admin_request admin (\<lambda>db.
     bind_result (enforce_caller_tenancy admin ent (Some tgt) db) (\<lambda>_.
       Inr (map pending_item (list_pending_for_target ent tgt (min limit 500) db), db)))"

definition cosign_route :: "'k prims \<Rightarrow> int \<Rightarrow> string \<Rightarrow> string \<Rightarrow> string \<Rightarrow> string \<Rightarrow> string \<Rightarrow> 'a xg_db_scheme
    \<Rightarrow> (http_exc + unit) \<times> 'a xg_db_scheme" where
  "cosign_route C now admin pid l2 pk sig = admin_request admin (\<lambda>db.
     case get_user db admin of
       None \<Rightarrow> Inl (HTTPException 403)
     | Some user \<Rightarrow>
         bind_result (enforce_caller_tenancy admin (us_enterprise_id user) (Some l2) db) (\<lambda>_.
         bind_result (translated (cosign_grant C now pid l2 pk sig db)) (\<lambda>db'. Inr ((), db'))))"

text \<open>The cosigner fields of a ratify request are used when none of them is empty.
  A row that does not exist raises outside the handler's \<open>try\<close>: a 500.\<close>

definition inline_cosign :: "'k prims \<Rightarrow> int \<Rightarrow> string \<Rightarrow> string option \<Rightarrow> string option \<Rightarrow> string option \<Rightarrow> 'a xg_db_scheme
    \<Rightarrow> http_exc + 'a xg_db_scheme" where
  "inline_cosign C now pid l2 pk sig db =
     (case (l2, pk, sig) of
        (Some l, Some p, Some s) \<Rightarrow>
          if l = [] \<or> p = [] \<or> s = [] then Inr db
          else (case cosign_grant C now pid l p s db of
                  Inl e \<Rightarrow> if e = XGroupConsentError Conflict then Inr db else Inl (http_for e)
                | Inr db' \<Rightarrow> Inr db')
      | _ \<Rightarrow> Inr db)"

text \<open>The inline cosign commits on its own, before the ratification may fail.\<close>

definition ratify_route :: "'k prims \<Rightarrow> (string \<Rightarrow> iso) \<Rightarrow> int \<Rightarrow> string \<Rightarrow> string \<Rightarrow> string option \<Rightarrow> string option \<Rightarrow> string option
    \<Rightarrow> 'a xg_db_scheme \<Rightarrow> (http_exc + string) \<times> 'a xg_db_scheme" where
  "ratify_route C fromiso now admin pid l2 pk sig db =
     (case bind_result (require_admin db admin) (\<lambda>_.
             case load_pending pid db of
               Inl _ \<Rightarrow> Inl (HTTPException 500)
             | Inr row \<Rightarrow>
                 bind_result (enforce_caller_tenancy admin (pn_enterprise_id row) None db) (\<lambda>_.
                   inline_cosign C now pid l2 pk sig db)) of
        Inl e \<Rightarrow> (Inl e, db)
      | Inr db1 \<Rightarrow>
          (case ratify_grant C fromiso now pid db1 of
             Inl e \<Rightarrow> (Inl (http_for e), db1)
           | Inr (gid, db2) \<Rightarrow> (Inr gid, db2)))"

text \<open>\<open>/revoke\<close> and \<open>/recovery-revoke\<close>: the walker is always None.\<close>

definition revoke_route :: "'k prims \<Rightarrow> (string \<Rightarrow> iso) \<Rightarrow> int \<Rightarrow> bool \<Rightarrow> string \<Rightarrow> string \<Rightarrow> string \<Rightarrow> string \<Rightarrow> string option
    \<Rightarrow> string option \<Rightarrow> string \<Rightarrow> 'a xg_db_scheme \<Rightarrow> (http_exc + bool) \<times> 'a xg_db_scheme" where
  "revoke_route C fromiso now is_recovery admin gid pk sig l2 reason revoke_ts = admin_request admin (\<lambda>db.
     case load_active gid db of
       Inl _ \<Rightarrow> Inl (HTTPException 500)
     | Inr row \<Rightarrow>
         bind_result (enforce_caller_tenancy admin (gr_enterprise_id row) None db) (\<lambda>_.
           translated (revoke_grant C fromiso now None gid pk sig l2 reason revoke_ts is_recovery db)))"

section \<open>Reading a stored body back\<close>

text \<open>What the RFC 8785 serialiser promises of a value: the order of keys does not
  matter, and its output is JSON text of the value.\<close>

definition jcs_ok :: "'k prims \<Rightarrow> json \<Rightarrow> bool" where
  "jcs_ok C v \<longleftrightarrow> jcs C (sort_keys v) = jcs C v
     \<and> (\<exists>s. utf8_decode (jcs C v) = Some s \<and> json_loads s = Some (sort_keys v))"

lemma jcs_okE:
  assumes "jcs_ok C v" and "canonical_text C v = Inr s"
  shows "json_loads s = Some (sort_keys v)" "canonical_text C (sort_keys v) = Inr s"
  using assms by (auto simp: jcs_ok_def canonical_text_def canonical_body_bytes_def split: option.splits)

lemma demo_jcs_ok: "wf_json v \<Longrightarrow> jcs_ok demo_prims v"
  by (simp add: jcs_ok_def demo_prims_def json_loads_dumps)

definition promoted :: "int \<Rightarrow> pending_row \<Rightarrow> grant_body \<Rightarrow> string \<Rightarrow> string \<Rightarrow> grant_row" where
  "promoted now row b b_pk b_sig =
     \<lparr>gr_grant_id = gb_grant_id b, gr_enterprise_id = gb_enterprise_id b, gr_source_l2 = gb_source_l2 b,
      gr_target_l2 = gb_target_l2 b, gr_body_canonical = pn_body_canonical row, gr_body_sha = pn_body_sha row,
      gr_scope_kind = gb_scope_kind b, gr_scope_values = JArr (map JStr (gb_scope_values b)),
      gr_a_l2 = pn_proposer_l2 row, gr_a_pubkey = pn_proposer_pubkey row,
      gr_a_signature = pn_proposer_signature row, gr_b_l2 = pn_cosigner_l2 row, gr_b_pubkey = b_pk,
      gr_b_signature = b_sig, gr_recovery = gb_recovery b, gr_issued_at = gb_issued_at b,
      gr_expires_at = gb_expires_at b, gr_ratified_at = now, gr_status = ''active'', gr_revoked_at = None,
      gr_revoked_by_l2 = None, gr_revoked_by_pubkey = None, gr_revoked_by_recovery = False,
      gr_revoke_reason = None, gr_nonce = gb_nonce b, gr_version = gb_version b\<rparr>"

lemma wf_body_json: "wf_json (body_json b)"
  by (simp add: body_json_def list_all_iff)

lemma promote_sorted: "promote_row now row (sort_keys (body_json b)) b_pk b_sig = Inr (promoted now row b b_pk b_sig)"
  by (simp add: body_json_def promote_row_def str_field_def scope_fields_def promoted_def comp_def)

lemma expires_sorted: "str_field (sort_keys (body_json b)) ''expires_at'' = Inr (gb_expires_at b)"
  by (simp add: body_json_def str_field_def)

section \<open>Sequences of requests\<close>

text \<open>Time, caller and arguments of each request.\<close>

datatype xg_op =
  XPropose int string string grant_body string string string
| XCosign int string string string string string
| XRatify int string string "string option" "string option" "string option"
| XRevoke int bool string string string string "string option" "string option" string

fun xg_run :: "'k prims \<Rightarrow> (string \<Rightarrow> iso) \<Rightarrow> xg_op \<Rightarrow> 'a xg_db_scheme \<Rightarrow> 'a xg_db_scheme" where
  "xg_run C fromiso (XPropose now pid admin body l2 pk sig) db = snd (propose_route C now pid admin body l2 pk sig db)"
| "xg_run C fromiso (XCosign now admin pid l2 pk sig) db = snd (cosign_route C now admin pid l2 pk sig db)"
| "xg_run C fromiso (XRatify now admin pid l2 pk sig) db = snd (ratify_route C fromiso now admin pid l2 pk sig db)"
| "xg_run C fromiso (XRevoke now is_rec admin gid pk sig l2 reason ts) db =
     snd (revoke_route C fromiso now is_rec admin gid pk sig l2 reason ts db)"

lemma translated_Inr [simp]: "translated r = Inr x \<longleftrightarrow> r = Inr x"
  by (auto simp: translated_def split: sum.splits)

lemma admin_request_cases:
  assumes "P db" and "\<And>r db'. require_admin db admin = Inr admin \<Longrightarrow> handler db = Inr (r, db') \<Longrightarrow> P db'"
  shows "P (snd (admin_request admin handler db))"
  using assms by (auto simp: admin_request_def require_admin_def split: sum.splits option.splits if_splits)

lemma check_sig_Inr:
  "check_sig C pk v sig = Inr u \<longleftrightarrow> (\<exists>s. canonical_text C v = Inr s \<and> verify_envelope_signature C pk s sig)"
  by (auto simp: check_sig_def verify_sig_over_body_def)

text \<open>What each operation has checked when it succeeds.\<close>

lemma propose_grantD:
  "propose_grant C now pid window body l2 pk sig db = Inr db' \<Longrightarrow>
   \<exists>s. canonical_text C (body_json body) = Inr s \<and> verify_envelope_signature C pk s sig \<and> l2 = gb_source_l2 body
     \<and> (\<forall>r \<in> set (xg_pendings db). pn_pending_id r \<noteq> pid)
     \<and> db' = db\<lparr>xg_pendings := xg_pendings db @ [new_pending C now pid window body s l2 pk sig]\<rparr>"
  by (auto simp: propose_grant_def check_sig_Inr sql_insert_def new_pending_def split: if_splits sum.splits)

lemma cosign_grantD:
  "cosign_grant C now pid l2 pk sig db = Inr db' \<Longrightarrow>
   \<exists>row. sql_fetchone (\<lambda>r. pn_pending_id r = pid) (xg_pendings db) = Some row \<and> pn_status row = ''proposed''
     \<and> l2 \<noteq> pn_proposer_l2 row \<and> l2 = pn_target_l2 row \<and> db' = cosign_commit now pid l2 pk sig db"
  by (auto simp: cosign_grant_def cosign_check_def load_pending_def split: option.splits)

lemma ratify_grantD:
  assumes "ratify_grant C fromiso now pid db = Inr (gid, db')"
  shows "\<exists>row body b_pk b_sig g.
     sql_fetchone (\<lambda>r. pn_pending_id r = pid) (xg_pendings db) = Some row \<and> pn_status row = ''cosigned''
   \<and> json_loads (pn_body_canonical row) = Some body
   \<and> check_sig C (pn_proposer_pubkey row) body (pn_proposer_signature row) = Inr ()
   \<and> pn_cosigner_pubkey row = Some b_pk \<and> pn_cosigner_signature row = Some b_sig
   \<and> check_sig C b_pk body b_sig = Inr ()
   \<and> promote_row now row body b_pk b_sig = Inr g \<and> gid = gr_grant_id g
   \<and> sql_insert gr_grant_id g (xg_grants db) = Inr (xg_grants db')
   \<and> xg_pendings db' = sql_delete (\<lambda>r. pn_pending_id r = pid) (xg_pendings db)"
  using assms
  by (auto simp: ratify_grant_def load_pending_def load_body_def ensure_def split: option.splits sum.splits if_splits)

lemma revoke_grantD:
  "revoke_grant C fromiso now walker gid pk sig l2 reason ts is_rec db = Inr (rec, db') \<Longrightarrow>
   db' = revoke_commit now gid pk l2 reason rec db
   \<and> (\<exists>row. sql_fetchone (\<lambda>r. gr_grant_id r = gid) (xg_grants db) = Some row \<and> gr_status row = ''active''
       \<and> revoke_authority walker row is_rec pk l2 = Inr rec)"
  by (auto simp: revoke_grant_def revoke_check_def load_active_def split: option.splits)

lemma inline_cosignD:
  "inline_cosign C now pid l2 pk sig db = Inr db' \<Longrightarrow>
   db' = db \<or> (\<exists>l p s. cosign_grant C now pid l p s db = Inr db')"
  by (auto simp: inline_cosign_def split: option.splits if_splits sum.splits)

text \<open>An operation's effect on the tables, whatever the route.\<close>

lemma xg_run_cases:
  assumes "P db"
    and "\<And>now pid body l2 pk sig db'. propose_grant C now pid COSIGN_WINDOW_DAYS body l2 pk sig db = Inr db' \<Longrightarrow> P db'"
    and "\<And>now pid l2 pk sig db'. cosign_grant C now pid l2 pk sig db = Inr db' \<Longrightarrow> P db'"
    and "\<And>now pid gid db1 db'. P db1 \<Longrightarrow> xg_grants db1 = xg_grants db \<Longrightarrow>
           ratify_grant C fromiso now pid db1 = Inr (gid, db') \<Longrightarrow> P db'"
    and "\<And>now gid pk l2 reason rec. P (revoke_commit now gid pk l2 reason rec db)"
  shows "P (xg_run C fromiso op db)"
proof (cases op)
  case (XPropose now pid admin body l2 pk sig)
  show ?thesis
    unfolding XPropose xg_run.simps propose_route_def
    by (rule admin_request_cases [where P = P, OF assms(1)]) (auto intro: assms(2))
next
  case (XCosign now admin pid l2 pk sig)
  show ?thesis
    unfolding XCosign xg_run.simps cosign_route_def
    by (rule admin_request_cases [where P = P, OF assms(1)]) (auto intro: assms(3) split: option.splits)
next
  case (XRatify now admin pid l2 pk sig)
  have mid: "P db1 \<and> xg_grants db1 = xg_grants db" if "inline_cosign C now pid l2 pk sig db = Inr db1" for db1
    using inline_cosignD [OF that]
  proof
    assume "\<exists>l p s. cosign_grant C now pid l p s db = Inr db1"
    then obtain l p s where c: "cosign_grant C now pid l p s db = Inr db1" by blast
    with cosign_grantD [OF c] assms(3) [OF c] show ?thesis by (auto simp: cosign_commit_def)
  qed (use assms(1) in simp)
  show ?thesis
    using mid assms(4) unfolding XRatify xg_run.simps ratify_route_def
    by (auto split: sum.splits option.splits simp: assms(1))
next
  case (XRevoke now is_rec admin gid pk sig l2 reason ts)
  show ?thesis
    unfolding XRevoke xg_run.simps revoke_route_def
    by (rule admin_request_cases [where P = P, OF assms(1)])
       (auto intro: assms(5) split: sum.splits dest!: revoke_grantD)
qed

section \<open>What a grant row carries\<close>

text \<open>A pending row holds the canonical text of a body, was proposed by the body's
  source, and a cosigner is the body's target, another L2.\<close>

definition pending_ok :: "'k prims \<Rightarrow> pending_row \<Rightarrow> bool" where
  "pending_ok C r \<longleftrightarrow> (\<exists>b. canonical_text C (body_json b) = Inr (pn_body_canonical r)
     \<and> pn_proposer_l2 r = gb_source_l2 b \<and> pn_target_l2 r = gb_target_l2 b
     \<and> (if pn_status r = ''proposed'' then True
        else pn_cosigner_l2 r = Some (gb_target_l2 b) \<and> gb_target_l2 b \<noteq> gb_source_l2 b))"

text \<open>A grant says what its body says, and both L2s of the body signed its text.\<close>

definition two_signed :: "'k prims \<Rightarrow> grant_row \<Rightarrow> bool" where
  "two_signed C g \<longleftrightarrow> (\<exists>b. canonical_text C (body_json b) = Inr (gr_body_canonical g)
     \<and> verify_envelope_signature C (gr_a_pubkey g) (gr_body_canonical g) (gr_a_signature g)
     \<and> verify_envelope_signature C (gr_b_pubkey g) (gr_body_canonical g) (gr_b_signature g)
     \<and> gr_a_l2 g = gb_source_l2 b \<and> gr_b_l2 g = Some (gb_target_l2 b) \<and> gb_source_l2 b \<noteq> gb_target_l2 b
     \<and> gr_grant_id g = gb_grant_id b \<and> gr_enterprise_id g = gb_enterprise_id b
     \<and> gr_source_l2 g = gb_source_l2 b \<and> gr_target_l2 g = gb_target_l2 b
     \<and> gr_scope_kind g = gb_scope_kind b \<and> gr_expires_at g = gb_expires_at b \<and> gr_recovery g = gb_recovery b)"

definition xg_inv :: "'k prims \<Rightarrow> 'a xg_db_scheme \<Rightarrow> bool" where
  "xg_inv C db \<longleftrightarrow> (\<forall>r \<in> set (xg_pendings db). pending_ok C r) \<and> (\<forall>g \<in> set (xg_grants db). two_signed C g)
     \<and> unique_key pn_pending_id (xg_pendings db)"

lemma new_pending_ok:
  "canonical_text C (body_json body) = Inr s \<Longrightarrow> pending_ok C (new_pending C now pid w body s (gb_source_l2 body) pk sig)"
  by (auto simp: pending_ok_def new_pending_def)

lemma two_signed_promoted:
  assumes "jcs_ok C (body_json b)" and "canonical_text C (body_json b) = Inr (pn_body_canonical row)"
    and "json_loads (pn_body_canonical row) = Some body"
    and "check_sig C (pn_proposer_pubkey row) body (pn_proposer_signature row) = Inr ()"
    and "check_sig C b_pk body b_sig = Inr ()" and "promote_row now row body b_pk b_sig = Inr g"
    and "pn_proposer_l2 row = gb_source_l2 b" "pn_cosigner_l2 row = Some (gb_target_l2 b)" "gb_target_l2 b \<noteq> gb_source_l2 b"
  shows "two_signed C g"
proof -
  have body: "body = sort_keys (body_json b)"
    and txt_eq: "canonical_text C body = Inr (pn_body_canonical row)"
    using jcs_okE [OF assms(1,2)] assms(3) by simp_all
  from assms(6) have g: "g = promoted now row b b_pk b_sig" unfolding body promote_sorted by simp
  have sigs: "verify_envelope_signature C (pn_proposer_pubkey row) (pn_body_canonical row) (pn_proposer_signature row)"
    "verify_envelope_signature C b_pk (pn_body_canonical row) b_sig"
    using assms(4,5) txt_eq by (simp_all add: check_sig_Inr)
  show ?thesis
    unfolding two_signed_def by (rule exI [of _ b]) (use sigs assms in \<open>simp add: g promoted_def\<close>)
qed

lemma xg_inv_ratify:
  assumes "\<forall>b. jcs_ok C (body_json b)" and "xg_inv C db" and "ratify_grant C fromiso now pid db = Inr (gid, db')"
  shows "xg_inv C db'"
proof -
  from ratify_grantD [OF assms(3)] obtain row body b_pk b_sig g where
    row: "sql_fetchone (\<lambda>r. pn_pending_id r = pid) (xg_pendings db) = Some row" "pn_status row = ''cosigned''"
    and j: "json_loads (pn_body_canonical row) = Some body"
    and s: "check_sig C (pn_proposer_pubkey row) body (pn_proposer_signature row) = Inr ()" "check_sig C b_pk body b_sig = Inr ()"
    and g: "promote_row now row body b_pk b_sig = Inr g" and ins: "sql_insert gr_grant_id g (xg_grants db) = Inr (xg_grants db')"
    and db': "xg_pendings db' = sql_delete (\<lambda>r. pn_pending_id r = pid) (xg_pendings db)"
    by blast
  have "pending_ok C row" using assms(2) sql_fetchone_SomeD [OF row(1)] by (auto simp: xg_inv_def)
  then obtain b where "canonical_text C (body_json b) = Inr (pn_body_canonical row)" "pn_proposer_l2 row = gb_source_l2 b"
    "pn_cosigner_l2 row = Some (gb_target_l2 b)" "gb_target_l2 b \<noteq> gb_source_l2 b"
    using row(2) by (auto simp: pending_ok_def)
  then have "two_signed C g" using two_signed_promoted [OF _ _ j s g] assms(1) by blast
  with assms(2) ins show ?thesis
    by (auto simp: xg_inv_def table_simps db' unique_key_sql_delete)
qed

lemma pending_ok_cosigned:
  "pending_ok C r \<Longrightarrow> pn_target_l2 r \<noteq> pn_proposer_l2 r \<Longrightarrow>
   pending_ok C (r\<lparr>pn_cosigner_l2 := Some (pn_target_l2 r), pn_cosigner_pubkey := pk, pn_cosigner_signature := sig,
                  pn_cosigned_at := t, pn_status := ''cosigned''\<rparr>)"
  by (auto simp: pending_ok_def)

lemma xg_inv_cosign:
  assumes "xg_inv C db" and "cosign_grant C now pid l2 pk sig db = Inr db'"
  shows "xg_inv C db'"
proof -
  from cosign_grantD [OF assms(2)] obtain row where
    row: "sql_fetchone (\<lambda>r. pn_pending_id r = pid) (xg_pendings db) = Some row"
    and l2: "l2 \<noteq> pn_proposer_l2 row" "l2 = pn_target_l2 row" and db': "db' = cosign_commit now pid l2 pk sig db"
    by blast
  have "r = row" if "r \<in> set (xg_pendings db)" "pn_pending_id r = pid" for r
    using unique_key_eq [of pn_pending_id "xg_pendings db" r row] that assms(1) sql_fetchone_SomeD [OF row]
    by (auto simp: xg_inv_def)
  with assms(1) l2 show ?thesis
    by (auto simp: xg_inv_def db' cosign_commit_def in_sql_update unique_key_sql_update pending_ok_cosigned)
qed

lemma xg_inv_run:
  assumes "\<forall>b. jcs_ok C (body_json b)" and "xg_inv C db"
  shows "xg_inv C (xg_run C fromiso op db)"
proof (rule xg_run_cases [where P = "xg_inv C", OF assms(2)])
  show "xg_inv C db'" if "propose_grant C now pid COSIGN_WINDOW_DAYS body l2 pk sig db = Inr db'"
    for now pid body l2 pk sig db'
    using propose_grantD [OF that] assms(2) new_pending_ok
    by (auto simp: xg_inv_def unique_key_def new_pending_def)
  show "xg_inv C (revoke_commit now gid pk l2 reason rec db)" for now gid pk l2 reason rec
    using assms(2) by (auto simp: xg_inv_def revoke_commit_def in_sql_update two_signed_def)
qed (use assms xg_inv_cosign xg_inv_ratify in blast)+

lemma xg_inv_fold:
  "\<forall>b. jcs_ok C (body_json b) \<Longrightarrow> xg_inv C db \<Longrightarrow> xg_inv C (fold (xg_run C fromiso) ops db)"
  by (induction ops arbitrary: db) (simp_all add: xg_inv_run)

text \<open>C4. Whatever requests any administrators send, in any order and at any times:
  every grant row says what its stored body says; two signatures pinned in the
  row verify over that very text, under the two keys pinned with them; and the row
  labels the first with the source and the second with the target of the body,
  the names of two different L2s. Nothing binds a key to an L2 or an
  administrator to a side: both signatures may come from one person, as
  \<open>one_admin_ratifies_alone\<close> shows.\<close>

theorem grants_two_signed:
  assumes "\<forall>b. jcs_ok C (body_json b)" and "xg_pendings db = []" and "xg_grants db = []"
  shows "list_all (two_signed C) (xg_grants (fold (xg_run C fromiso) ops db))"
proof -
  have "xg_inv C db" using assms(2,3) by (simp add: xg_inv_def)
  from xg_inv_fold [OF assms(1) this, of fromiso ops] show ?thesis
    by (simp add: xg_inv_def list_all_iff)
qed

section \<open>Revocation is final\<close>

definition grant_status :: "string \<Rightarrow> 'a xg_db_scheme \<Rightarrow> string option" where
  "grant_status gid db = map_option gr_status (sql_fetchone (\<lambda>r. gr_grant_id r = gid) (xg_grants db))"

lemma grant_status_revoke_commit:
  "grant_status gid (revoke_commit now gid' pk l2 reason rec db)
    = (if gid = gid' \<and> grant_status gid db = Some ''active'' then Some ''revoked'' else grant_status gid db)"
proof -
  have "grant_status gid (revoke_commit now gid' pk l2 reason rec db)
    = map_option gr_status (map_option (\<lambda>q. if gr_grant_id q = gid' \<and> gr_status q = ''active''
        then q\<lparr>gr_status := ''revoked'', gr_revoked_at := Some now, gr_revoked_by_l2 := l2,
               gr_revoked_by_pubkey := Some pk, gr_revoked_by_recovery := rec, gr_revoke_reason := reason\<rparr> else q)
        (sql_fetchone (\<lambda>r. gr_grant_id r = gid) (xg_grants db)))"
    unfolding grant_status_def revoke_commit_def by (simp add: sql_fetchone_update)
  then show ?thesis
    by (cases "sql_fetchone (\<lambda>r. gr_grant_id r = gid) (xg_grants db)")
       (auto simp: grant_status_def dest: sql_fetchone_SomeD)
qed

lemma revoked_fixed:
  assumes "grant_status gid db = Some ''revoked''"
  shows "grant_status gid (xg_run C fromiso op db) = Some ''revoked''"
proof (rule xg_run_cases [where P = "\<lambda>db. grant_status gid db = Some ''revoked''", OF assms])
  show "grant_status gid db' = Some ''revoked''"
    if "grant_status gid db1 = Some ''revoked''" "ratify_grant C fromiso now pid db1 = Inr (gid', db')"
    for now pid gid' db1 db'
  proof -
    from ratify_grantD [OF that(2)] obtain g where "sql_insert gr_grant_id g (xg_grants db1) = Inr (xg_grants db')"
      by blast
    from sql_fetchone_insert [OF this, of gid] this that(1) show ?thesis
      by (auto simp: grant_status_def table_simps image_iff split: if_splits dest!: sql_fetchone_SomeD)
  qed
  show "grant_status gid (revoke_commit now gid' pk l2 reason rec db) = Some ''revoked''" for now gid' pk l2 reason rec
    using assms by (simp add: grant_status_revoke_commit)
qed (use assms in \<open>auto simp: grant_status_def cosign_commit_def dest!: propose_grantD cosign_grantD\<close>)

interpretation revocation: lifecycle "xg_run C fromiso" "grant_status gid" "\<lambda>s. s = Some ''revoked''"
  for C :: "'k prims" and fromiso gid
  by unfold_locales (simp add: revoked_fixed)

lemma not_usable_revoked: "grant_status gid db = Some ''revoked'' \<Longrightarrow> is_grant_usable fromiso t gid db = Inr False"
  by (auto simp: grant_status_def is_grant_usable_def get_active_grant_def load_active_def split: option.splits)

text \<open>C29. A revocation that succeeds is signed with one of the two pinned keys, or
  with the pinned recovery key on the recovery route, and it is final: no later
  request, not even ratifying a new proposal with the same grant id, ever makes
  the grant usable again.\<close>

theorem revoked_grant_stays_unusable:
  assumes "fst (revoke_route C fromiso now is_rec admin gid pk sig l2 reason ts db) = Inr rec"
  shows "is_grant_usable fromiso t gid (fold (xg_run C fromiso) ops
       (snd (revoke_route C fromiso now is_rec admin gid pk sig l2 reason ts db))) = Inr False
    \<and> (case get_active_grant gid db of
         None \<Rightarrow> False
       | Some g \<Rightarrow> if is_rec then pk = gr_recovery g else pk = gr_a_pubkey g \<or> pk = gr_b_pubkey g)"
proof -
  obtain db' row where r: "revoke_grant C fromiso now None gid pk sig l2 reason ts is_rec db = Inr (rec, db')"
    and db': "snd (revoke_route C fromiso now is_rec admin gid pk sig l2 reason ts db) = db'"
    using assms by (auto simp: revoke_route_def admin_request_def split: sum.splits)
  from revoke_grantD [OF r] obtain row where c: "db' = revoke_commit now gid pk l2 reason rec db"
    and row: "sql_fetchone (\<lambda>r. gr_grant_id r = gid) (xg_grants db) = Some row" "gr_status row = ''active''"
    and auth: "revoke_authority None row is_rec pk l2 = Inr rec" by blast
  have "grant_status gid db' = Some ''revoked''"
    using row by (simp add: c grant_status_revoke_commit) (simp add: grant_status_def)
  then have "grant_status gid (fold (xg_run C fromiso) ops db') = Some ''revoked''"
    using revocation.run_terminal [of gid db' C fromiso ops] by metis
  moreover have "if is_rec then pk = gr_recovery row else pk = gr_a_pubkey row \<or> pk = gr_b_pubkey row"
    using auth by (auto simp: revoke_authority_def split: if_splits)
  ultimately show ?thesis
    using row(1) by (simp add: db' not_usable_revoked get_active_grant_def load_active_def)
qed

section \<open>One administrator is enough\<close>

lemma verify_signed_body:
  assumes "ed25519_ok C" and "canonical_text C v = Inr s"
  shows "check_sig C (public_key_b64u C sk) v (sign_raw C sk (utf8 s)) = Inr ()"
  using assms by (auto simp: check_sig_Inr verify_envelope_signature_sign)

text \<open>
  The grants are meant to be cosigned by an administrator of each side. But
  the cosigning that \<open>/ratify\<close> offers checks no group of the caller, and no step
  ties a key to an L2: one administrator of the source group, with two key
  pairs of their own making, proposes a grant to any other L2 and ratifies it
  alone. The grant is active at once, whatever its scope and however far its
  expiry lies (the limit of 90 days is checked by a client-side helper only).\<close>

theorem one_admin_ratifies_alone:
  assumes "ed25519_ok C" and "jcs_ok C (body_json b)"
    and "canonical_text C (body_json b) = Inr s"
    and "ed_sign C sk2 (utf8 s) \<noteq> []"
    and "require_admin db u = Inr u" and "enforce_caller_tenancy u (gb_enterprise_id b) (Some (gb_source_l2 b)) db = Inr ()"
    and "gb_target_l2 b \<noteq> []" and "gb_target_l2 b \<noteq> gb_source_l2 b"
    and "fromiso (replace_Z (gb_expires_at b)) = IsoAware e" and "later < e"
    and "later < now + COSIGN_WINDOW_DAYS * US_PER_DAY"
    and "pid \<notin> pn_pending_id ` set (xg_pendings db)" and "gb_grant_id b \<notin> gr_grant_id ` set (xg_grants db)"
  shows "case ratify_route C fromiso later u pid (Some (gb_target_l2 b)) (Some (public_key_b64u C sk2)) (Some (sign_raw C sk2 (utf8 s)))
       (snd (propose_route C now pid u b (gb_source_l2 b) (public_key_b64u C sk1) (sign_raw C sk1 (utf8 s)) db)) of
     (r, db') \<Rightarrow> r = Inr (gb_grant_id b) \<and> is_grant_usable fromiso later (gb_grant_id b) db' = Inr True"
proof -
  let ?p = "new_pending C now pid COSIGN_WINDOW_DAYS b s (gb_source_l2 b) (public_key_b64u C sk1) (sign_raw C sk1 (utf8 s))"
  let ?db1 = "db\<lparr>xg_pendings := xg_pendings db @ [?p]\<rparr>"
  let ?db2 = "cosign_commit later pid (gb_target_l2 b) (public_key_b64u C sk2) (sign_raw C sk2 (utf8 s)) ?db1"
  let ?q = "?p\<lparr>pn_cosigner_l2 := Some (gb_target_l2 b), pn_cosigner_pubkey := Some (public_key_b64u C sk2),
      pn_cosigner_signature := Some (sign_raw C sk2 (utf8 s)), pn_cosigned_at := Some later, pn_status := ''cosigned''\<rparr>"
  let ?g = "promoted later ?q b (public_key_b64u C sk2) (sign_raw C sk2 (utf8 s))"
  note text1 = jcs_okE [OF assms(2,3)]
  note sigs = verify_signed_body [OF assms(1,3)] verify_signed_body [OF assms(1) text1(2)]
  have p: "snd (propose_route C now pid u b (gb_source_l2 b) (public_key_b64u C sk1) (sign_raw C sk1 (utf8 s)) db) = ?db1"
    using assms(5,6,12) sigs assms(3)
    by (auto simp: propose_route_def admin_request_def propose_grant_def sql_insert_def ensure_def translated_def new_pending_def)
  have none: "sql_fetchone (\<lambda>r. pn_pending_id r = pid) (xg_pendings db) = None"
    using assms(12) by (auto simp: table_simps)
  have pid: "pn_pending_id ?p = pid" by (simp add: new_pending_def)
  have load1: "load_pending pid ?db1 = Inr ?p"
    by (simp add: load_pending_def sql_fetchone_snoc none pid)
  have "sql_update (\<lambda>r. pn_pending_id r = pid \<and> pn_status r = ''proposed'') f (xg_pendings db) = xg_pendings db" for f
    using assms(12) by (intro sql_update_id) auto
  then have pend2: "xg_pendings ?db2 = xg_pendings db @ [?q]"
    by (simp add: cosign_commit_def sql_update_def new_pending_def)
  have load2: "load_pending pid ?db2 = Inr ?q"
    unfolding load_pending_def pend2 by (simp add: sql_fetchone_snoc none pid)
  have "length (ed_public C sk2) = 32" using assms(1) by (simp add: ed25519_ok_def)
  then have nonempty: "public_key_b64u C sk2 \<noteq> []" "sign_raw C sk2 (utf8 s) \<noteq> []"
    using assms(4) by (auto simp: public_key_b64u_def sign_raw_def intro!: b64u_not_Nil)
  have later: "later < pn_expires_at ?p" "later < pn_expires_at ?q" using assms(11) by (simp_all add: new_pending_def)
  have "cosign_check C later pid (gb_target_l2 b) (public_key_b64u C sk2) (sign_raw C sk2 (utf8 s)) ?db1 = Inr ()"
    using later sigs assms(8) text1 by (simp add: cosign_check_def load1 load_body_def) (simp add: new_pending_def ensure_def)
  then have "inline_cosign C later pid (Some (gb_target_l2 b)) (Some (public_key_b64u C sk2)) (Some (sign_raw C sk2 (utf8 s))) ?db1 = Inr ?db2"
    using nonempty assms(7) by (simp add: inline_cosign_def cosign_grant_def)
  moreover have "enforce_caller_tenancy u (pn_enterprise_id ?p) None ?db1 = Inr ()" "require_admin ?db1 u = Inr u"
    using assms(5,6) by (auto simp: enforce_caller_tenancy_def require_admin_def get_user_def new_pending_def
        split: option.splits if_splits)
  moreover have ratify: "ratify_grant C fromiso later pid ?db2 = Inr (gb_grant_id b, ?db2\<lparr>xg_grants := xg_grants db @ [?g],
      xg_pendings := sql_delete (\<lambda>r. pn_pending_id r = pid) (xg_pendings ?db2)\<rparr>)"
  proof -
    have "pn_status ?q = ''cosigned''" "pn_body_canonical ?q = s"
      "pn_proposer_pubkey ?q = public_key_b64u C sk1" "pn_proposer_signature ?q = sign_raw C sk1 (utf8 s)"
      "pn_cosigner_pubkey ?q = Some (public_key_b64u C sk2)" "pn_cosigner_signature ?q = Some (sign_raw C sk2 (utf8 s))"
      by (simp_all add: new_pending_def)
    moreover have "sql_insert gr_grant_id ?g (xg_grants ?db2) = Inr (xg_grants db @ [?g])"
      using assms(13) by (simp add: sql_insert_def promoted_def cosign_commit_def)
    moreover have "gr_grant_id ?g = gb_grant_id b" by (simp add: promoted_def)
    ultimately show ?thesis
      using later text1 sigs assms(9,10)
      by (simp add: ratify_grant_def load2 load_body_def ensure_def expires_sorted promote_sorted parse_iso_def)
  qed
  ultimately have "ratify_route C fromiso later u pid (Some (gb_target_l2 b)) (Some (public_key_b64u C sk2)) (Some (sign_raw C sk2 (utf8 s))) ?db1
      = (Inr (gb_grant_id b), ?db2\<lparr>xg_grants := xg_grants db @ [?g],
      xg_pendings := sql_delete (\<lambda>r. pn_pending_id r = pid) (xg_pendings ?db2)\<rparr>)"
    by (simp add: ratify_route_def load1)
  moreover have "sql_fetchone (\<lambda>r. gr_grant_id r = gb_grant_id b) (xg_grants db @ [?g]) = Some ?g"
  proof -
    have "sql_fetchone (\<lambda>r. gr_grant_id r = gb_grant_id b) (xg_grants db) = None"
      using assms(13) by (auto simp: table_simps image_iff)
    then show ?thesis by (simp add: sql_fetchone_snoc promoted_def)
  qed
  ultimately show ?thesis
    using assms(9,10)
    by (simp add: p is_grant_usable_def get_active_grant_def load_active_def parse_iso_def) (simp add: promoted_def)
qed

section \<open>Witnesses\<close>

lemma demo_canonical_text: "canonical_text demo_prims v = Inr (dumps v)"
  by (simp add: canonical_text_def canonical_body_bytes_def demo_prims_def)

definition demo_body :: grant_body where
  "demo_body = \<lparr>gb_grant_id = ''g1'', gb_enterprise_id = ''acme'', gb_source_l2 = ''acme/a'', gb_target_l2 = ''acme/b'',
     gb_scope_kind = ''all'', gb_scope_values = [], gb_issued_at = ''T0'', gb_expires_at = ''T9'', gb_nonce = ''n'',
     gb_version = ''v1'', gb_recovery = ''r''\<rparr>"

definition demo_times :: "string \<Rightarrow> iso" where
  "demo_times s = (if s = ''T9'' then IsoAware 9 else IsoBad)"

definition demo_xg_db :: xg_db where
  "demo_xg_db = \<lparr>db_users = [new_user ''t'' 1 ''ann'' ''h'' ''admin'' (Some ''acme'') (Some ''a'')], db_user_seq = 2,
     xg_pendings = [], xg_grants = []\<rparr>"

lemma demo_xg_ann: "get_user demo_xg_db ''ann'' = Some (new_user ''t'' 1 ''ann'' ''h'' ''admin'' (Some ''acme'') (Some ''a''))"
  by (simp add: get_user_def demo_xg_db_def sql_fetchone_def)

lemma demo_xg_admin: "require_admin demo_xg_db ''ann'' = Inr ''ann''"
  by (simp add: require_admin_def demo_xg_ann new_user_def is_admin_role_def ADMIN_ROLES_def)

lemma demo_body_fields:
  "gb_grant_id demo_body = ''g1''" "gb_enterprise_id demo_body = ''acme''" "gb_source_l2 demo_body = ''acme/a''"
  "gb_target_l2 demo_body = ''acme/b''" "gb_expires_at demo_body = ''T9''"
  by (simp_all add: demo_body_def)

lemma demo_t9: "demo_times (replace_Z ''T9'') = IsoAware 9"
  by (simp add: demo_times_def replace_Z_def)

lemma demo_xg_tables: "xg_pendings demo_xg_db = []" "xg_grants demo_xg_db = []"
  by (simp_all add: demo_xg_db_def)

lemma demo_jcs_body: "jcs_ok demo_prims (body_json b)"
  by (rule demo_jcs_ok [OF wf_body_json])

theorem grants_two_signed_witness:
  "list_all (two_signed demo_prims) (xg_grants (fold (xg_run demo_prims demo_times)
     [XPropose 0 ''p'' ''ann'' demo_body ''acme/a'' (public_key_b64u demo_prims 5) (sign_raw demo_prims 5 (utf8 (dumps (body_json demo_body)))),
      XRatify 1 ''ann'' ''p'' (Some ''acme/b'') (Some (public_key_b64u demo_prims 6)) (Some (sign_raw demo_prims 6 (utf8 (dumps (body_json demo_body)))))]
     demo_xg_db))"
  by (rule grants_two_signed) (simp_all add: demo_jcs_body demo_xg_db_def)

theorem one_admin_ratifies_alone_witness:
  "case ratify_route demo_prims demo_times 1 ''ann'' ''p'' (Some ''acme/b'') (Some (public_key_b64u demo_prims 6))
         (Some (sign_raw demo_prims 6 (utf8 (dumps (body_json demo_body)))))
       (snd (propose_route demo_prims 0 ''p'' ''ann'' demo_body ''acme/a'' (public_key_b64u demo_prims 5)
         (sign_raw demo_prims 5 (utf8 (dumps (body_json demo_body)))) demo_xg_db)) of
     (r, db') \<Rightarrow> r = Inr ''g1'' \<and> is_grant_usable demo_times 1 ''g1'' db' = Inr True"
proof -
  have "enforce_caller_tenancy ''ann'' ''acme'' (Some ''acme/a'') demo_xg_db = Inr ()"
    by (simp add: enforce_caller_tenancy_def demo_xg_ann new_user_def partition_on_def)
  moreover have "ed_sign demo_prims 6 m \<noteq> []" for m by (simp add: demo_prims_def)
  ultimately show ?thesis
    using one_admin_ratifies_alone [of demo_prims demo_body "dumps (body_json demo_body)" 6 demo_xg_db "''ann''" demo_times 9 1 0 "''p''" 5]
    by (simp add: demo_prims_ok demo_jcs_body demo_canonical_text demo_xg_admin demo_body_fields demo_t9
        COSIGN_WINDOW_DAYS_def US_PER_DAY_def US_PER_SECOND_def demo_xg_tables)
qed

definition demo_grant :: grant_row where
  "demo_grant = promoted 0
     (new_pending demo_prims 0 ''p'' 7 demo_body (dumps (body_json demo_body)) ''acme/a'' (public_key_b64u demo_prims 5) ''s1'')
     demo_body (public_key_b64u demo_prims 6) ''s2''"

definition demo_revoke_sig :: string where
  "demo_revoke_sig = sign_raw demo_prims 5 (utf8 (dumps (revoke_envelope ''g1'' ''T1'' None (Some ''acme/a''))))"

theorem revoked_grant_stays_unusable_witness:
  "is_grant_usable demo_times 5 ''g1'' (fold (xg_run demo_prims demo_times)
       [XRatify 4 ''ann'' ''p'' None None None]
       (snd (revoke_route demo_prims demo_times 3 False ''ann'' ''g1'' (public_key_b64u demo_prims 5) demo_revoke_sig
          (Some ''acme/a'') None ''T1'' (demo_xg_db\<lparr>xg_grants := [demo_grant]\<rparr>)))) = Inr False
   \<and> (case get_active_grant ''g1'' (demo_xg_db\<lparr>xg_grants := [demo_grant]\<rparr>) of
        None \<Rightarrow> False
      | Some g \<Rightarrow> if False then public_key_b64u demo_prims 5 = gr_recovery g
                 else public_key_b64u demo_prims 5 = gr_a_pubkey g \<or> public_key_b64u demo_prims 5 = gr_b_pubkey g)"
proof (rule revoked_grant_stays_unusable)
  let ?db = "demo_xg_db\<lparr>xg_grants := [demo_grant]\<rparr>"
  have sig: "check_sig demo_prims (public_key_b64u demo_prims 5) (revoke_envelope ''g1'' ''T1'' None (Some ''acme/a'')) demo_revoke_sig = Inr ()"
    unfolding demo_revoke_sig_def by (rule verify_signed_body [OF demo_prims_ok demo_canonical_text])
  have load: "load_active ''g1'' ?db = Inr demo_grant"
    by (simp add: load_active_def sql_fetchone_def demo_grant_def promoted_def demo_body_def)
  have f: "gr_status demo_grant = ''active''" "gr_expires_at demo_grant = ''T9''"
    "gr_a_pubkey demo_grant = public_key_b64u demo_prims 5" "gr_enterprise_id demo_grant = ''acme''"
    by (simp_all add: demo_grant_def promoted_def demo_body_def new_pending_def)
  have t: "parse_iso demo_times ''T9'' = Inr 9" by (simp add: parse_iso_def demo_times_def replace_Z_def)
  have "require_admin ?db ''ann'' = Inr ''ann''" "enforce_caller_tenancy ''ann'' ''acme'' None ?db = Inr ()"
    using demo_xg_admin demo_xg_ann by (simp_all add: require_admin_def enforce_caller_tenancy_def get_user_def new_user_def)
  then show "fst (revoke_route demo_prims demo_times 3 False ''ann'' ''g1'' (public_key_b64u demo_prims 5) demo_revoke_sig
          (Some ''acme/a'') None ''T1'' ?db) = Inr False"
    by (simp add: revoke_route_def admin_request_def load f translated_def revoke_grant_def revoke_check_def
        ensure_def t sig revoke_authority_def)
qed

end
