(* ===== verification/Runtime.thy ===== *)
theory Runtime imports Envelope Users begin

text \<open>
  \<open>cq_server/aigrp/enterprise_root.py\<close> and \<open>cq_server/aigrp/runtime.py\<close>: the
  Enterprise root read from the SSM parameter store and cached, the pair secrets
  derived from it and cached again, and the bearer tokens two sibling L2s
  authenticate with. The parameter store is outside the repository: a read at a
  given moment is the function \<open>get\<close> from a path to its value or an error. Times
  are microseconds on the monotonic clock; the two locks make a lookup and a
  store atomic and are not modelled. The lemmas: what a cache may answer, and
  for how long an old root lives on.
\<close>

section \<open>A cache with a time to live\<close>

type_synonym ('k, 'v) ttl_cache = "'k \<Rightarrow> ('v \<times> int) option"

definition ttl_hit :: "int \<Rightarrow> int \<Rightarrow> ('k, 'v) ttl_cache \<Rightarrow> 'k \<Rightarrow> 'v option" where
  "ttl_hit ttl now c k =
     (case c k of None \<Rightarrow> None | Some (v, at) \<Rightarrow> if 0 < ttl \<and> now - at < ttl then Some v else None)"

text \<open>Both caches work alike: a hit is returned, a miss is computed and stored
  with the time of the request. \<open>right_at k v t\<close> says that \<open>v\<close> was the right
  value for \<open>k\<close> at time \<open>t\<close>, and a value that is stored was right within the
  last \<open>slack\<close> units. What a client may rely on: an answer was right at some
  moment of the last \<open>ttl + slack\<close> units.\<close>

locale ttl_cached =
  fixes ttl :: int
    and slack :: int
    and right_at :: "'k \<Rightarrow> 'v \<Rightarrow> int \<Rightarrow> bool"
  assumes ttl_nonneg: "0 \<le> ttl"
    and slack_pos: "0 < slack"
begin

definition recently :: "int \<Rightarrow> 'k \<Rightarrow> 'v \<Rightarrow> bool" where
  "recently now k v \<longleftrightarrow> (\<exists>t. now - slack < t \<and> t \<le> now \<and> right_at k v t)"

definition sound :: "int \<Rightarrow> ('k, 'v) ttl_cache \<Rightarrow> bool" where
  "sound now c \<longleftrightarrow> (\<forall>k v at. c k = Some (v, at) \<longrightarrow> at \<le> now \<and> recently at k v)"

lemma sound_empty: "sound now (\<lambda>_. None)"
  by (simp add: sound_def)

lemma sound_later: "sound now c \<Longrightarrow> now \<le> now' \<Longrightarrow> sound now' c"
  unfolding sound_def by (meson order_trans)

lemma sound_forget: "sound now c \<Longrightarrow> sound now (c(k := None))"
  by (simp add: sound_def)

lemma sound_store: "sound now c \<Longrightarrow> recently now k v \<Longrightarrow> sound now (c(k \<mapsto> (v, now)))"
  by (simp add: sound_def)

lemma recently_right: "recently now k v \<Longrightarrow> \<exists>t. now - (ttl + slack) < t \<and> t \<le> now \<and> right_at k v t"
proof -
  assume "recently now k v"
  then obtain t where "now - slack < t" "t \<le> now" "right_at k v t" by (auto simp: recently_def)
  with ttl_nonneg show ?thesis by (intro exI [of _ t]) simp
qed

lemma hit_right:
  assumes "sound now c" and "ttl_hit ttl now c k = Some v"
  shows "\<exists>t. now - (ttl + slack) < t \<and> t \<le> now \<and> right_at k v t"
proof -
  from assms(2) obtain at where c: "c k = Some (v, at)" and fresh: "now - at < ttl"
    by (auto simp: ttl_hit_def split: option.splits if_splits)
  from assms(1) c have "at \<le> now" "recently at k v" by (simp_all add: sound_def)
  then obtain t where "at - slack < t" "t \<le> at" "right_at k v t" by (auto simp: recently_def)
  with fresh \<open>at \<le> now\<close> show ?thesis by (intro exI [of _ t]) simp
qed

end

section \<open>The Enterprise root\<close>

definition DEFAULT_TTL_SEC :: int where "DEFAULT_TTL_SEC = 300"
definition PARAM_PATH_PREFIX :: string where "PARAM_PATH_PREFIX = ''/8th-layer/aigrp/enterprise-root/''"

definition root_ttl_sec :: "env \<Rightarrow> int" where
  "root_ttl_sec env =
     (case env ''CQ_AIGRP_ROOT_CACHE_TTL_SEC'' of
        None \<Rightarrow> DEFAULT_TTL_SEC
      | Some raw \<Rightarrow> (case py_int raw of None \<Rightarrow> DEFAULT_TTL_SEC | Some n \<Rightarrow> max 0 n))"

definition param_path :: "env \<Rightarrow> string \<Rightarrow> py_exc + string" where
  "param_path env ent =
     (let override = strip (getenv env ''CQ_ENTERPRISE_ROOT_SSM_PATH'' [])
      in if override \<noteq> [] then Inr override
         else if ent = [] \<or> CHR ''/'' \<in> set ent then Inl ValueError
         else Inr (PARAM_PATH_PREFIX @ ent))"

definition read_root_from_ssm :: "env \<Rightarrow> (string \<Rightarrow> py_exc + string) \<Rightarrow> string \<Rightarrow> py_exc + bytes" where
  "read_root_from_ssm env get ent =
     bind_result (param_path env ent) (\<lambda>path.
     bind_result (get path) (\<lambda>raw.
       case fromhex raw of
         None \<Rightarrow> Inl ValueError
       | Some root \<Rightarrow> if length root \<noteq> ROOT_BYTES then Inl ValueError else Inr root))"

record rt_state =
  root_cache :: "(string, bytes) ttl_cache"
  pair_cache :: "(string \<times> string, bytes) ttl_cache"

definition invalidate_cache :: "string option \<Rightarrow> rt_state \<Rightarrow> rt_state" where
  "invalidate_cache ent st =
     (case ent of None \<Rightarrow> st\<lparr>root_cache := (\<lambda>_. None)\<rparr>
                | Some e \<Rightarrow> st\<lparr>root_cache := (root_cache st)(e := None)\<rparr>)"

definition get_enterprise_root :: "env \<Rightarrow> (string \<Rightarrow> py_exc + string) \<Rightarrow> int \<Rightarrow> string \<Rightarrow> rt_state
    \<Rightarrow> (py_exc + bytes) \<times> rt_state" where
  "get_enterprise_root env get now ent st =
     (case ttl_hit (root_ttl_sec env * US_PER_SECOND) now (root_cache st) ent of
        Some root \<Rightarrow> (Inr root, st)
      | None \<Rightarrow>
          (case read_root_from_ssm env get ent of
             Inl e \<Rightarrow> (Inl e, st)
           | Inr root \<Rightarrow> (Inr root, st\<lparr>root_cache := (root_cache st)(ent \<mapsto> (root, now))\<rparr>)))"

text \<open>\<open>put\<close> is the parameter store's write, on its state \<open>w\<close>: path, value, key id,
  overwrite. \<open>rand\<close> is what the random generator returns.\<close>

definition bootstrap_enterprise_root :: "env \<Rightarrow> (string \<Rightarrow> string \<Rightarrow> string \<Rightarrow> bool \<Rightarrow> 'w \<Rightarrow> py_exc + 'w) \<Rightarrow> bytes
    \<Rightarrow> string \<Rightarrow> string \<Rightarrow> bool \<Rightarrow> rt_state \<Rightarrow> 'w \<Rightarrow> (py_exc + bytes) \<times> rt_state \<times> 'w" where
  "bootstrap_enterprise_root env put rand ent kms overwrite st w =
     (if kms = [] then (Inl ValueError, st, w)
      else case bind_result (param_path env ent) (\<lambda>path. put path (hex rand) kms overwrite w) of
             Inl e \<Rightarrow> (Inl e, st, w)
           | Inr w' \<Rightarrow> (Inr rand, invalidate_cache (Some ent) st, w'))"

section \<open>Pair secrets and bearers\<close>

definition PAIR_CACHE_TTL_SEC :: int where "PAIR_CACHE_TTL_SEC = 300"
definition BEARER_INFO :: bytes where "BEARER_INFO = utf8 ''aigrp-bearer-v1''"

definition invalidate_pair_cache :: "rt_state \<Rightarrow> rt_state" where
  "invalidate_pair_cache st = st\<lparr>pair_cache := (\<lambda>_. None)\<rparr>"

definition bootstrap_root_if_needed :: "env \<Rightarrow> (string \<Rightarrow> py_exc + string) \<Rightarrow> (string \<Rightarrow> string \<Rightarrow> string \<Rightarrow> bool \<Rightarrow> 'w \<Rightarrow> py_exc + 'w)
    \<Rightarrow> bytes \<Rightarrow> int \<Rightarrow> rt_state \<Rightarrow> 'w \<Rightarrow> (py_exc + bool) \<times> rt_state \<times> 'w" where
  "bootstrap_root_if_needed env get put rand now st w =
     (if lower (getenv env ''CQ_ENTERPRISE_ROOT_BOOTSTRAP'' ''false'') \<noteq> ''true'' then (Inr False, st, w)
      else case get_enterprise_root env get now (aigrp_enterprise env) st of
        (Inr _, st1) \<Rightarrow> (Inr False, st1, w)
      | (Inl _, st1) \<Rightarrow>
          (let kms = getenv env ''CQ_ENTERPRISE_ROOT_KMS_KEY_ID'' []
           in if kms = [] then (Inr False, st1, w)
              else (case bootstrap_enterprise_root env put rand (aigrp_enterprise env) kms False st1 w of
                      (Inl e, st2, w2) \<Rightarrow> (Inl e, st2, w2)
                    | (Inr _, st2, w2) \<Rightarrow> (Inr True, st2, w2))))"

definition runtime_root_present :: "env \<Rightarrow> (string \<Rightarrow> py_exc + string) \<Rightarrow> int \<Rightarrow> rt_state \<Rightarrow> bool \<times> rt_state" where
  "runtime_root_present env get now st =
     (case get_enterprise_root env get now (aigrp_enterprise env) st of
        (Inr _, st') \<Rightarrow> (True, st') | (Inl _, st') \<Rightarrow> (False, st'))"

text \<open>\<open>aigrp.seed_peer_url\<close> and \<open>aigrp.self_url\<close>.\<close>

definition seed_peer_url :: "env \<Rightarrow> string" where
  "seed_peer_url env = rstrip_char (CHR ''/'') (getenv env ''CQ_AIGRP_SEED_PEER_URL'' [])"

definition self_url :: "env \<Rightarrow> string" where
  "self_url env = rstrip_char (CHR ''/'') (getenv env ''CQ_AIGRP_SELF_URL'' [])"

definition is_first_deploy_runtime :: "env \<Rightarrow> bool" where
  "is_first_deploy_runtime env =
     (let legacy = lower (getenv env ''CQ_AIGRP_IS_FIRST_DEPLOY'' [])
      in if legacy = ''true'' \<or> legacy = ''false'' then legacy = ''true'' else seed_peer_url env = [])"

definition aigrp_enabled :: "env \<Rightarrow> (string \<Rightarrow> py_exc + string) \<Rightarrow> int \<Rightarrow> rt_state \<Rightarrow> bool \<times> rt_state" where
  "aigrp_enabled env get now st =
     (if truthy (env ''CQ_AIGRP_PEER_KEY'') then (True, st) else runtime_root_present env get now st)"

definition pair_secret_for_peer :: "'k prims \<Rightarrow> env \<Rightarrow> (string \<Rightarrow> py_exc + string) \<Rightarrow> int \<Rightarrow> string \<Rightarrow> rt_state
    \<Rightarrow> (py_exc + bytes) \<times> rt_state" where
  "pair_secret_for_peer C env get now peer st =
     (let ent = aigrp_enterprise env; me = self_l2_id env
      in if peer = me then (Inl ValueError, st)
         else (case ttl_hit (PAIR_CACHE_TTL_SEC * US_PER_SECOND) now (pair_cache st) (ent, peer) of
                 Some secret \<Rightarrow> (Inr secret, st)
               | None \<Rightarrow>
                   (case get_enterprise_root env get now ent st of
                      (Inl e, st1) \<Rightarrow> (Inl e, st1)
                    | (Inr root, st1) \<Rightarrow>
                        (case derive_pair_secret C root me peer of
                           Inl e \<Rightarrow> (Inl e, st1)
                         | Inr secret \<Rightarrow>
                             (Inr secret, st1\<lparr>pair_cache := (pair_cache st1)((ent, peer) \<mapsto> (secret, now))\<rparr>)))))"

definition bearer_for_secret :: "'k prims \<Rightarrow> bytes \<Rightarrow> string" where
  "bearer_for_secret C secret = b64u (hmac256 C secret BEARER_INFO)"

definition derive_bearer_token :: "'k prims \<Rightarrow> env \<Rightarrow> (string \<Rightarrow> py_exc + string) \<Rightarrow> int \<Rightarrow> string \<Rightarrow> rt_state
    \<Rightarrow> (py_exc + string) \<times> rt_state" where
  "derive_bearer_token C env get now peer st =
     (if peer = [] then (Inl ValueError, st)
      else case pair_secret_for_peer C env get now peer st of
             (Inl e, st') \<Rightarrow> (Inl e, st')
           | (Inr secret, st') \<Rightarrow> (Inr (bearer_for_secret C secret), st'))"

definition verify_bearer_against_peer :: "'k prims \<Rightarrow> env \<Rightarrow> (string \<Rightarrow> py_exc + string) \<Rightarrow> int \<Rightarrow> string \<Rightarrow> string \<Rightarrow> rt_state
    \<Rightarrow> bool \<times> rt_state" where
  "verify_bearer_against_peer C env get now peer presented st =
     (if presented = [] \<or> peer = [] then (False, st)
      else case pair_secret_for_peer C env get now peer st of
             (Inl _, st') \<Rightarrow> (False, st')
           | (Inr secret, st') \<Rightarrow> (bearer_for_secret C secret = presented, st'))"

section \<open>How long an old root lives on\<close>

text \<open>\<open>ssm t\<close> is what the parameter store answers at time \<open>t\<close>. A root was right at
  \<open>t\<close> when reading it then gave it, a pair secret when it derives from such a root.\<close>

definition root_right :: "env \<Rightarrow> (int \<Rightarrow> string \<Rightarrow> py_exc + string) \<Rightarrow> string \<Rightarrow> bytes \<Rightarrow> int \<Rightarrow> bool" where
  "root_right env ssm ent root t \<longleftrightarrow> read_root_from_ssm env (ssm t) ent = Inr root"

definition pair_right :: "'k prims \<Rightarrow> env \<Rightarrow> (int \<Rightarrow> string \<Rightarrow> py_exc + string) \<Rightarrow> string \<times> string \<Rightarrow> bytes \<Rightarrow> int \<Rightarrow> bool" where
  "pair_right C env ssm k secret t \<longleftrightarrow>
     (\<exists>root. root_right env ssm (fst k) root t \<and> derive_pair_secret C root (self_l2_id env) (snd k) = Inr secret)"

lemma root_ttl_nonneg: "0 \<le> root_ttl_sec env"
  by (simp add: root_ttl_sec_def DEFAULT_TTL_SEC_def split: option.splits)

definition root_ttl :: "env \<Rightarrow> int" where "root_ttl env = root_ttl_sec env * US_PER_SECOND"
definition pair_ttl :: int where "pair_ttl = PAIR_CACHE_TTL_SEC * US_PER_SECOND"

lemma root_ttl_ge0: "0 \<le> root_ttl env" and pair_ttl_ge0: "0 \<le> pair_ttl"
  using root_ttl_nonneg [of env] by (simp_all add: root_ttl_def pair_ttl_def PAIR_CACHE_TTL_SEC_def US_PER_SECOND_def)

interpretation roots: ttl_cached "root_ttl env" 1 "root_right env ssm" for env ssm
  by unfold_locales (simp_all add: root_ttl_ge0)

interpretation pairs: ttl_cached pair_ttl "root_ttl env + 1" "pair_right C env ssm" for C :: "'k prims" and env ssm
  using root_ttl_ge0 [of env] by unfold_locales (simp_all add: pair_ttl_ge0)

abbreviation root_sound :: "env \<Rightarrow> (int \<Rightarrow> string \<Rightarrow> py_exc + string) \<Rightarrow> int \<Rightarrow> (string, bytes) ttl_cache \<Rightarrow> bool" where
  "root_sound env ssm \<equiv> ttl_cached.sound 1 (root_right env ssm)"

abbreviation pair_sound :: "'k prims \<Rightarrow> env \<Rightarrow> (int \<Rightarrow> string \<Rightarrow> py_exc + string) \<Rightarrow> int \<Rightarrow> (string \<times> string, bytes) ttl_cache \<Rightarrow> bool" where
  "pair_sound C env ssm \<equiv> ttl_cached.sound (root_ttl env + 1) (pair_right C env ssm)"

definition rt_sound :: "'k prims \<Rightarrow> env \<Rightarrow> (int \<Rightarrow> string \<Rightarrow> py_exc + string) \<Rightarrow> int \<Rightarrow> rt_state \<Rightarrow> bool" where
  "rt_sound C env ssm now st \<longleftrightarrow>
     root_sound env ssm now (root_cache st) \<and> pair_sound C env ssm now (pair_cache st)"

lemma get_root_right:
  assumes "root_sound env ssm now (root_cache st)" and "get_enterprise_root env (ssm now) now ent st = (Inr root, st')"
  shows "\<exists>t. now - (root_ttl env + 1) < t \<and> t \<le> now \<and> root_right env ssm ent root t"
proof (cases "ttl_hit (root_ttl env) now (root_cache st) ent")
  case None
  with assms(2) have "read_root_from_ssm env (ssm now) ent = Inr root"
    by (auto simp: get_enterprise_root_def root_ttl_def split: sum.splits)
  then show ?thesis using root_ttl_ge0 [of env] by (intro exI [of _ now]) (simp add: root_right_def)
next
  case (Some r)
  with assms(2) have "r = root" by (simp add: get_enterprise_root_def root_ttl_def)
  with roots.hit_right [OF assms(1) Some] show ?thesis by simp
qed

lemma get_root_sound:
  assumes "rt_sound C env ssm now st"
  shows "rt_sound C env ssm now (snd (get_enterprise_root env (ssm now) now ent st))"
proof -
  have "ttl_cached.recently 1 (root_right env ssm) now ent root" if "read_root_from_ssm env (ssm now) ent = Inr root" for root
    using that unfolding ttl_cached.recently_def [OF roots.ttl_cached_axioms] root_right_def by force
  with assms show ?thesis
    by (auto simp: get_enterprise_root_def rt_sound_def roots.sound_store split: option.splits sum.splits)
qed

lemma pair_secret_cases:
  assumes "rt_sound C env ssm now st" and "pair_secret_for_peer C env (ssm now) now peer st = (r, st')"
  shows "rt_sound C env ssm now st'
    \<and> (\<forall>secret. r = Inr secret \<longrightarrow>
        (\<exists>t. now - (pair_ttl + (root_ttl env + 1)) < t \<and> t \<le> now \<and> pair_right C env ssm (aigrp_enterprise env, peer) secret t))"
proof (cases "peer = self_l2_id env")
  case True
  with assms show ?thesis by (auto simp: pair_secret_for_peer_def)
next
  case other: False
  let ?k = "(aigrp_enterprise env, peer)"
  show ?thesis
  proof (cases "ttl_hit pair_ttl now (pair_cache st) ?k")
    case (Some s)
    with assms(2) other have "r = Inr s" "st' = st" by (auto simp: pair_secret_for_peer_def pair_ttl_def Let_def)
    with pairs.hit_right [OF _ Some] assms(1) show ?thesis by (auto simp: rt_sound_def)
  next
    case None
    obtain g st1 where g: "get_enterprise_root env (ssm now) now (aigrp_enterprise env) st = (g, st1)" by fastforce
    have st1: "rt_sound C env ssm now st1" using get_root_sound [OF assms(1), of "aigrp_enterprise env"] g by simp
    show ?thesis
    proof (cases "\<exists>root secret. g = Inr root \<and> derive_pair_secret C root (self_l2_id env) peer = Inr secret")
      case False
      with assms(2) other None g st1 show ?thesis
        by (auto simp: pair_secret_for_peer_def pair_ttl_def Let_def split: sum.splits)
    next
      case True
      then obtain root secret where s: "g = Inr root" "derive_pair_secret C root (self_l2_id env) peer = Inr secret" by blast
      then have res: "r = Inr secret" "st' = st1\<lparr>pair_cache := (pair_cache st1)(?k \<mapsto> (secret, now))\<rparr>"
        using assms(2) other None g by (auto simp: pair_secret_for_peer_def pair_ttl_def Let_def)
      have "root_sound env ssm now (root_cache st)" using assms(1) by (simp add: rt_sound_def)
      from get_root_right [OF this g [unfolded s(1)]] obtain t
        where "now - (root_ttl env + 1) < t" "t \<le> now" "root_right env ssm (aigrp_enterprise env) root t"
        by blast
      with s(2) have rec: "ttl_cached.recently (root_ttl env + 1) (pair_right C env ssm) now ?k secret"
        unfolding ttl_cached.recently_def [OF pairs.ttl_cached_axioms] pair_right_def by auto
      with st1 res have "rt_sound C env ssm now st'"
        by (simp add: rt_sound_def pairs.sound_store)
      moreover from pairs.recently_right [OF rec] res(1) have
        "\<forall>secret. r = Inr secret \<longrightarrow> (\<exists>t. now - (pair_ttl + (root_ttl env + 1)) < t \<and> t \<le> now \<and> pair_right C env ssm ?k secret t)"
        by simp
      ultimately show ?thesis by blast
    qed
  qed
qed

section \<open>Any use of the caches\<close>

datatype rt_op = RtRoot int | RtPair int string | RtDropRoots int "string option" | RtDropPairs int

fun rt_time :: "rt_op \<Rightarrow> int" where
  "rt_time (RtRoot now) = now"
| "rt_time (RtPair now _) = now"
| "rt_time (RtDropRoots now _) = now"
| "rt_time (RtDropPairs now) = now"

fun rt_run :: "'k prims \<Rightarrow> env \<Rightarrow> (int \<Rightarrow> string \<Rightarrow> py_exc + string) \<Rightarrow> rt_op \<Rightarrow> rt_state \<Rightarrow> rt_state" where
  "rt_run C env ssm (RtRoot now) st = snd (get_enterprise_root env (ssm now) now (aigrp_enterprise env) st)"
| "rt_run C env ssm (RtPair now peer) st = snd (pair_secret_for_peer C env (ssm now) now peer st)"
| "rt_run C env ssm (RtDropRoots now ent) st = invalidate_cache ent st"
| "rt_run C env ssm (RtDropPairs now) st = invalidate_pair_cache st"

definition rt_empty :: rt_state where
  "rt_empty = \<lparr>root_cache = (\<lambda>_. None), pair_cache = (\<lambda>_. None)\<rparr>"

lemma rt_sound_empty: "rt_sound C env ssm now rt_empty"
  by (simp add: rt_sound_def rt_empty_def roots.sound_empty pairs.sound_empty)

lemma rt_sound_later: "rt_sound C env ssm now st \<Longrightarrow> now \<le> now' \<Longrightarrow> rt_sound C env ssm now' st"
  unfolding rt_sound_def using roots.sound_later pairs.sound_later by blast

lemma rt_sound_run:
  assumes "rt_sound C env ssm (rt_time op) st"
  shows "rt_sound C env ssm (rt_time op) (rt_run C env ssm op st)"
proof (cases op)
  case (RtRoot now)
  with get_root_sound assms show ?thesis by simp
next
  case (RtPair now peer)
  obtain r st' where "pair_secret_for_peer C env (ssm now) now peer st = (r, st')" by fastforce
  with pair_secret_cases [of C env ssm now st peer r st'] assms RtPair show ?thesis by simp
next
  case (RtDropRoots now ent)
  with assms show ?thesis
    by (simp add: rt_sound_def invalidate_cache_def roots.sound_empty roots.sound_forget split: option.split)
next
  case (RtDropPairs now)
  with assms show ?thesis by (simp add: rt_sound_def invalidate_pair_cache_def pairs.sound_empty)
qed

lemma rt_sound_fold:
  "sorted (map rt_time ops) \<Longrightarrow> \<forall>op \<in> set ops. t0 \<le> rt_time op \<and> rt_time op \<le> now \<Longrightarrow> t0 \<le> now \<Longrightarrow>
   rt_sound C env ssm t0 st \<Longrightarrow> rt_sound C env ssm now (fold (rt_run C env ssm) ops st)"
proof (induction ops arbitrary: t0 st)
  case Nil
  then show ?case by (simp add: rt_sound_later)
next
  case (Cons op ops)
  have "rt_sound C env ssm (rt_time op) st" using Cons.prems rt_sound_later by auto
  from rt_sound_run [OF this] Cons show ?case by auto
qed

text \<open>C38. When the root in the parameter store is replaced, every bearer the L2
  derives later than the two times to live together (ten minutes with the
  defaults) is one of the new root, whatever the caches were used for before
  and without anybody clearing them.\<close>

theorem rotation_reaches_every_bearer:
  assumes "sorted (map rt_time ops)" and "list_all (\<lambda>op. rt_time op \<le> now) ops"
    and "\<And>t. rotated \<le> t \<Longrightarrow> read_root_from_ssm env (ssm t) (aigrp_enterprise env) = Inr root"
    and "rotated + root_ttl env + pair_ttl \<le> now"
    and "fst (derive_bearer_token C env (ssm now) now peer (fold (rt_run C env ssm) ops rt_empty)) = Inr token"
  shows "\<exists>secret. derive_pair_secret C root (self_l2_id env) peer = Inr secret \<and> token = bearer_for_secret C secret"
proof -
  let ?st = "fold (rt_run C env ssm) ops rt_empty"
  let ?t0 = "Min (insert now (rt_time ` set ops))"
  have "rt_sound C env ssm now ?st"
    using assms(1,2) by (intro rt_sound_fold [where ?t0.0 = ?t0]) (auto simp: rt_sound_empty list_all_iff)
  moreover obtain r st' where r: "pair_secret_for_peer C env (ssm now) now peer ?st = (r, st')" by fastforce
  moreover obtain secret where "r = Inr secret" "token = bearer_for_secret C secret"
    using assms(5) r by (auto simp: derive_bearer_token_def split: if_splits sum.splits)
  ultimately obtain t where t: "now - (pair_ttl + (root_ttl env + 1)) < t"
      "pair_right C env ssm (aigrp_enterprise env, peer) secret t"
    using pair_secret_cases [of C env ssm now ?st peer r st'] by blast
  then have "rotated \<le> t" using assms(4) by linarith
  with t(2) assms(3) have "derive_pair_secret C root (self_l2_id env) peer = Inr secret"
    by (auto simp: pair_right_def root_right_def)
  with \<open>token = bearer_for_secret C secret\<close> show ?thesis by blast
qed

text \<open>
  One time to live is not enough, although the documentation of the pair
  cache says that a rotation lands within one window: a root fetched at time 0
  still makes the bearer after nearly two windows, when the pair secret was
  derived near the end of the first, whatever the parameter store says by then.\<close>

theorem old_root_outlives_one_window:
  assumes "read_root_from_ssm env (ssm 0) (aigrp_enterprise env) = Inr root"
    and "derive_pair_secret C root (self_l2_id env) peer = Inr secret" and "peer \<noteq> self_l2_id env" and "peer \<noteq> []"
    and "0 \<le> t1" and "t1 < root_ttl env" and "t2 - t1 < pair_ttl"
  shows "fst (derive_bearer_token C env (ssm t2) t2 peer
      (fold (rt_run C env ssm) [RtRoot 0, RtPair t1 peer] rt_empty)) = Inr (bearer_for_secret C secret)"
proof -
  have "0 < root_ttl env" using assms(5,6) by simp
  then have "fold (rt_run C env ssm) [RtRoot 0, RtPair t1 peer] rt_empty
    = \<lparr>root_cache = [aigrp_enterprise env \<mapsto> (root, 0)], pair_cache = [(aigrp_enterprise env, peer) \<mapsto> (secret, t1)]\<rparr>"
    using assms
    by (simp add: get_enterprise_root_def pair_secret_for_peer_def rt_empty_def ttl_hit_def Let_def flip: root_ttl_def pair_ttl_def)
  moreover have "0 < pair_ttl" by (simp add: pair_ttl_def PAIR_CACHE_TTL_SEC_def US_PER_SECOND_def)
  ultimately show ?thesis
    using assms(3,4,7) by (simp add: derive_bearer_token_def pair_secret_for_peer_def ttl_hit_def Let_def flip: pair_ttl_def)
qed

section \<open>Witnesses\<close>

definition demo_rt_env :: env where
  "demo_rt_env k = (if k = ''CQ_ENTERPRISE'' then Some ''acme'' else if k = ''CQ_GROUP'' then Some ''a'' else None)"

definition demo_root :: "8 word \<Rightarrow> bytes" where "demo_root b = replicate 32 b"

lemma length_demo_root [simp]: "length (demo_root b) = 32"
  by (simp add: demo_root_def)

definition demo_ssm :: "int \<Rightarrow> string \<Rightarrow> py_exc + string" where
  "demo_ssm t path = Inr (hex (demo_root (if t < 1000 then 1 else 2)))"

lemma demo_rt_ids: "aigrp_enterprise demo_rt_env = ''acme''" "self_l2_id demo_rt_env = ''acme/a''"
  by (simp_all add: aigrp_enterprise_def self_l2_id_def aigrp_group_def getenv_def demo_rt_env_def)

lemma demo_root_ttl: "root_ttl demo_rt_env = 300000000" "pair_ttl = 300000000"
  by (simp_all add: root_ttl_def root_ttl_sec_def demo_rt_env_def DEFAULT_TTL_SEC_def US_PER_SECOND_def
      pair_ttl_def PAIR_CACHE_TTL_SEC_def)

lemma demo_read_root:
  "read_root_from_ssm demo_rt_env (demo_ssm t) ''acme'' = Inr (demo_root (if t < 1000 then 1 else 2))"
  by (simp add: read_root_from_ssm_def param_path_def getenv_def demo_rt_env_def demo_ssm_def ROOT_BYTES_def)

lemma demo_derive:
  "derive_pair_secret demo_prims (demo_root 1) ''acme/a'' ''acme/b'' = Inr (demo_root 1)"
  "derive_pair_secret demo_prims (demo_root 2) ''acme/a'' ''acme/b'' = Inr (demo_root 2)"
  by code_simp+

theorem rotation_reaches_every_bearer_witness:
  "\<exists>secret. derive_pair_secret demo_prims (demo_root 2) (self_l2_id demo_rt_env) ''acme/b'' = Inr secret
     \<and> bearer_for_secret demo_prims (demo_root 2) = bearer_for_secret demo_prims secret"
proof (rule rotation_reaches_every_bearer [where ops = "[RtPair 5 ''acme/b'']" and rotated = 1000 and now = 600001000 and ssm = demo_ssm])
  show "fst (derive_bearer_token demo_prims demo_rt_env (demo_ssm 600001000) 600001000 ''acme/b''
      (fold (rt_run demo_prims demo_rt_env demo_ssm) [RtPair 5 ''acme/b''] rt_empty)) = Inr (bearer_for_secret demo_prims (demo_root 2))"
    by (simp add: derive_bearer_token_def pair_secret_for_peer_def get_enterprise_root_def rt_empty_def ttl_hit_def Let_def
        demo_rt_ids demo_read_root demo_derive demo_root_ttl flip: root_ttl_def pair_ttl_def)
qed (simp_all add: demo_rt_ids demo_read_root demo_root_ttl)

theorem old_root_outlives_one_window_witness:
  "fst (derive_bearer_token demo_prims demo_rt_env (demo_ssm 599999998) 599999998 ''acme/b''
      (fold (rt_run demo_prims demo_rt_env demo_ssm) [RtRoot 0, RtPair 299999999 ''acme/b''] rt_empty))
    = Inr (bearer_for_secret demo_prims (demo_root 1))"
  by (rule old_root_outlives_one_window [where root = "demo_root 1"])
     (simp_all add: demo_rt_ids demo_read_root demo_derive demo_root_ttl)

end
