(* ===== verification/PeerAuth.thy ===== *)
theory PeerAuth imports Runtime UnitRoutes begin

text \<open>
  How L2s authenticate each other: the peer table and the directory peerings of
  \<open>store/_sqlite.py\<close>, \<open>forward_sign.py\<close> (the L2's own key, signatures over a
  forwarded body, the bearer of a peering) and the two gates of
  \<open>aigrp/_legacy.py\<close>, \<open>require_peer_key\<close> and \<open>require_forwarder_identity\<close>.
  Headers are optional strings; comparisons in constant time are equality.
  The lemmas: a bearer a sibling derives passes the gate, and a peer whose key
  is on file is accepted only with its signature over exactly the body.
\<close>

section \<open>Tables\<close>

record peer_row =
  ap_l2_id :: string
  ap_enterprise :: string
  ap_group :: string
  ap_endpoint :: string
  ap_centroid :: "bytes option"
  ap_bloom :: "bytes option"
  ap_ku_count :: int
  ap_domain_count :: int
  ap_model :: "string option"
  ap_first_seen :: string
  ap_last_seen :: string
  ap_last_signature :: "string option"
  ap_pubkey :: "string option"

record peering_row =
  pe_offer_id :: string
  pe_from :: string
  pe_to :: string
  pe_status :: string
  pe_content_policy :: string
  pe_logging_policy :: string
  pe_topic_filters :: string
  pe_active_from :: "string option"
  pe_expires_at :: string
  pe_offer_payload :: string
  pe_offer_signature :: string
  pe_offer_key_id :: string
  pe_accept_payload :: string
  pe_accept_signature :: string
  pe_accept_key_id :: string
  pe_last_synced :: string
  pe_endpoints :: string

record mesh_db = ku_db +
  ag_peers :: "peer_row list"
  ag_peerings :: "peering_row list"

text \<open>A signature refreshes every column; without one the cached signature stays.
  In both cases a key that comes along replaces the one on file.\<close>

definition set_pubkey :: "string option \<Rightarrow> peer_row \<Rightarrow> peer_row" where
  "set_pubkey pk r = (case pk of None \<Rightarrow> r | Some k \<Rightarrow> r\<lparr>ap_pubkey := Some k\<rparr>)"

definition upsert_aigrp_peer :: "string \<Rightarrow> string \<Rightarrow> string \<Rightarrow> string \<Rightarrow> string \<Rightarrow> bytes option \<Rightarrow> bytes option \<Rightarrow> int \<Rightarrow> int
    \<Rightarrow> string option \<Rightarrow> bool \<Rightarrow> string option \<Rightarrow> 'a mesh_db_scheme \<Rightarrow> 'a mesh_db_scheme" where
  "upsert_aigrp_peer now l2 ent grp url centroid bloom kus doms model sig pk db =
     (if sql_fetchone (\<lambda>r. ap_l2_id r = l2) (ag_peers db) = None
      then db\<lparr>ag_peers := ag_peers db @
             [\<lparr>ap_l2_id = l2, ap_enterprise = ent, ap_group = grp, ap_endpoint = url, ap_centroid = centroid,
               ap_bloom = bloom, ap_ku_count = kus, ap_domain_count = doms, ap_model = model,
               ap_first_seen = now, ap_last_seen = now, ap_last_signature = (if sig then Some now else None),
               ap_pubkey = pk\<rparr>]\<rparr>
      else db\<lparr>ag_peers := sql_update (\<lambda>r. ap_l2_id r = l2)
             (\<lambda>r. set_pubkey pk
                (if sig then r\<lparr>ap_enterprise := ent, ap_group := grp, ap_endpoint := url, ap_centroid := centroid,
                      ap_bloom := bloom, ap_ku_count := kus, ap_domain_count := doms, ap_model := model,
                      ap_last_seen := now, ap_last_signature := Some now\<rparr>
                 else r\<lparr>ap_enterprise := ent, ap_group := grp, ap_endpoint := url, ap_last_seen := now\<rparr>))
             (ag_peers db)\<rparr>)"

definition get_aigrp_peer_pubkey :: "string \<Rightarrow> 'a mesh_db_scheme \<Rightarrow> string option" where
  "get_aigrp_peer_pubkey l2 db =
     (case sql_fetchone (\<lambda>r. ap_l2_id r = l2) (ag_peers db) of None \<Rightarrow> None | Some r \<Rightarrow> ap_pubkey r)"

definition list_aigrp_peers :: "string \<Rightarrow> 'a mesh_db_scheme \<Rightarrow> peer_row list" where
  "list_aigrp_peers ent db = order_desc ap_last_seen (filter (\<lambda>r. ap_enterprise r = ent) (ag_peers db))"

text \<open>A conflict on the offer keeps the two Enterprises of the row.\<close>

definition upsert_directory_peering :: "peering_row \<Rightarrow> 'a mesh_db_scheme \<Rightarrow> 'a mesh_db_scheme" where
  "upsert_directory_peering p db =
     (if sql_fetchone (\<lambda>r. pe_offer_id r = pe_offer_id p) (ag_peerings db) = None
      then db\<lparr>ag_peerings := ag_peerings db @ [p]\<rparr>
      else db\<lparr>ag_peerings := sql_update (\<lambda>r. pe_offer_id r = pe_offer_id p)
             (\<lambda>r. p\<lparr>pe_from := pe_from r, pe_to := pe_to r\<rparr>) (ag_peerings db)\<rparr>)"

definition peering_live :: "string \<Rightarrow> string \<Rightarrow> string \<Rightarrow> peering_row \<Rightarrow> bool" where
  "peering_live a b now r \<longleftrightarrow> pe_status r = ''active''
     \<and> (pe_from r = a \<and> pe_to r = b \<or> pe_from r = b \<and> pe_to r = a) \<and> now < pe_expires_at r"

text \<open>NULLs are the smallest values in SQLite, so a descending order has them last.\<close>

definition find_active_directory_peering :: "string \<Rightarrow> string \<Rightarrow> string \<Rightarrow> 'a mesh_db_scheme \<Rightarrow> peering_row option" where
  "find_active_directory_peering a b now db =
     (case order_desc (\<lambda>r. case pe_active_from r of None \<Rightarrow> (0::nat, []) | Some t \<Rightarrow> (1, t))
             (filter (peering_live a b now) (ag_peerings db)) of
        [] \<Rightarrow> None | r # _ \<Rightarrow> Some r)"

definition list_directory_peerings :: "string option \<Rightarrow> string option \<Rightarrow> 'a mesh_db_scheme \<Rightarrow> peering_row list" where
  "list_directory_peerings ent status db =
     order_desc (\<lambda>r. (case pe_active_from r of None \<Rightarrow> (0::nat, []) | Some t \<Rightarrow> (1, t), pe_last_synced r))
       (filter (\<lambda>r. matches_opt ent (\<lambda>e. pe_from r = e \<or> pe_to r = e) \<and> matches_opt status (\<lambda>s. pe_status r = s))
         (ag_peerings db))"

section \<open>The L2's own key\<close>

text \<open>\<open>file\<close> is the key file's contents; \<open>of_raw\<close> makes a key of 32 bytes.
  \<open>io_fails\<close> says that the file system raises.\<close>

definition load_or_create_l2_privkey :: "(bytes \<Rightarrow> 'k) \<Rightarrow> bytes \<Rightarrow> bool \<Rightarrow> bytes option \<Rightarrow> 'k option \<times> bytes option" where
  "load_or_create_l2_privkey of_raw rand io_fails file =
     (if io_fails then (None, file)
      else (case file of
              Some raw \<Rightarrow> (if length raw \<noteq> 32 then None else Some (of_raw raw), file)
            | None \<Rightarrow> (Some (of_raw rand), Some rand)))"

text \<open>The process-level cache: None before the first load, then what it gave.\<close>

record 'k key_state =
  ks_cached :: "'k option option"
  ks_file :: "bytes option"

definition get_l2_privkey :: "(bytes \<Rightarrow> 'k) \<Rightarrow> bytes \<Rightarrow> bool \<Rightarrow> 'k key_state \<Rightarrow> 'k option \<times> 'k key_state" where
  "get_l2_privkey of_raw rand io_fails st =
     (case ks_cached st of
        Some k \<Rightarrow> (k, st)
      | None \<Rightarrow> (case load_or_create_l2_privkey of_raw rand io_fails (ks_file st) of
                   (k, file) \<Rightarrow> (k, \<lparr>ks_cached = Some k, ks_file = file\<rparr>)))"

definition reload_l2_privkey :: "(bytes \<Rightarrow> 'k) \<Rightarrow> bytes \<Rightarrow> bool \<Rightarrow> 'k key_state \<Rightarrow> 'k option \<times> 'k key_state" where
  "reload_l2_privkey of_raw rand io_fails st = get_l2_privkey of_raw rand io_fails (st\<lparr>ks_cached := None\<rparr>)"

text \<open>From here on \<open>key\<close> is what \<open>get_l2_privkey\<close> returned.\<close>

definition self_public_key_b64u :: "'k prims \<Rightarrow> 'k option \<Rightarrow> string option" where
  "self_public_key_b64u C key = map_option (public_key_b64u C) key"

definition signing_input_for :: "'k prims \<Rightarrow> json \<Rightarrow> string \<Rightarrow> bytes" where
  "signing_input_for C body l2 = jcs C body @ utf8 l2"

definition sign_forward_request :: "'k prims \<Rightarrow> 'k option \<Rightarrow> json \<Rightarrow> string \<Rightarrow> string option" where
  "sign_forward_request C key body l2 = map_option (\<lambda>sk. sign_raw C sk (signing_input_for C body l2)) key"

definition verify_forward_signature :: "'k prims \<Rightarrow> string \<Rightarrow> json \<Rightarrow> string \<Rightarrow> string \<Rightarrow> bool" where
  "verify_forward_signature C pubkey body l2 signature = verify_raw C pubkey (signing_input_for C body l2) signature"

definition require_signed_forwards :: "env \<Rightarrow> bool" where
  "require_signed_forwards env \<longleftrightarrow> lower (getenv env ''CQ_REQUIRE_SIGNED_FORWARDS'' ''false'') = ''true''"

definition X_ENTERPRISE_BEARER_INFO :: bytes where
  "X_ENTERPRISE_BEARER_INFO = utf8 ''8l-x-enterprise-bearer-v1''"

definition derive_peering_bearer :: "'k prims \<Rightarrow> string \<Rightarrow> string \<Rightarrow> py_exc + string" where
  "derive_peering_bearer C offer_signature accept_signature =
     bind_result (b64u_decode offer_signature) (\<lambda>a.
     bind_result (b64u_decode accept_signature) (\<lambda>b.
       Inr (b64u (hkdf256 C 32 None X_ENTERPRISE_BEARER_INFO (a @ b)))))"

section \<open>The two gates\<close>

record peer_request =
  ph_authorization :: "string option"
  ph_forwarder :: "string option"
  ph_signature :: "string option"
  ph_offer_id :: "string option"

definition header :: "string option \<Rightarrow> string" where
  "header h = (case h of None \<Rightarrow> [] | Some s \<Rightarrow> s)"

text \<open>The key gate: pair secret first, then the shared key. \<open>get\<close> and \<open>now\<close> are for
  the caches of \<open>Runtime\<close>, whose state it returns.\<close>

definition require_peer_key :: "'k prims \<Rightarrow> env \<Rightarrow> (string \<Rightarrow> py_exc + string) \<Rightarrow> int \<Rightarrow> peer_request \<Rightarrow> rt_state
    \<Rightarrow> (http_exc + unit) \<times> rt_state" where
  "require_peer_key C env get now req st =
     (let auth = header (ph_authorization req)
      in if \<not> startswith auth ''Bearer '' then (Inl (HTTPException 401), st)
      else let presented = drop 7 auth;
               declared = strip (header (ph_forwarder req));
               (ent, sep, _) = partition_on (CHR ''/'') declared;
               (paired, st1) =
                 (if declared \<noteq> [] \<and> sep \<noteq> [] \<and> ent = aigrp_enterprise env \<and> declared \<noteq> self_l2_id env
                  then verify_bearer_against_peer C env get now declared presented st else (False, st));
               legacy = getenv env ''CQ_AIGRP_PEER_KEY'' []
           in if paired then (Inr (), st1)
              else if legacy \<noteq> [] then (if presented = legacy then (Inr (), st1) else (Inl (HTTPException 401), st1))
              else if declared \<noteq> [] then (Inl (HTTPException 401), st1)
              else (Inl (HTTPException 503), st1))"

text \<open>The identity gate; it returns the declared id. The signature is checked when
  the handler passes its body, as all of them do.\<close>

definition require_forwarder_identity :: "'k prims \<Rightarrow> env \<Rightarrow> peer_request \<Rightarrow> string \<Rightarrow> bool \<Rightarrow> json \<Rightarrow> 'a mesh_db_scheme
    \<Rightarrow> http_exc + string" where
  "require_forwarder_identity C env req claimed same_enterprise_only body db =
     (let declared = strip (header (ph_forwarder req));
          (ent, sep, _) = partition_on (CHR ''/'') declared
      in if declared = [] then Inl (HTTPException 400)
      else if declared \<noteq> claimed then Inl (HTTPException 403)
      else if ent = [] \<or> sep = [] then Inl (HTTPException 400)
      else if same_enterprise_only \<and> ent \<noteq> aigrp_enterprise env then Inl (HTTPException 403)
      else let sig = strip (header (ph_signature req))
      in if truthy (get_aigrp_peer_pubkey declared db) then
           (if sig = [] then Inl (HTTPException 403)
            else if \<not> verify_forward_signature C (the (get_aigrp_peer_pubkey declared db)) body declared sig
            then Inl (HTTPException 403) else Inr declared)
         else if require_signed_forwards env then Inl (HTTPException 403)
         else Inr declared)"

text \<open>\<open>app._aigrp_outbound_bearer\<close>, and \<open>consults._bearer_for_target\<close>, which is
  written the same way.\<close>

definition outbound_bearer :: "'k prims \<Rightarrow> env \<Rightarrow> (string \<Rightarrow> py_exc + string) \<Rightarrow> int \<Rightarrow> string \<Rightarrow> rt_state
    \<Rightarrow> string \<times> rt_state" where
  "outbound_bearer C env get now peer st =
     (let (ent, sep, _) = partition_on (CHR ''/'') peer;
          legacy = getenv env ''CQ_AIGRP_PEER_KEY'' []
      in if peer \<noteq> [] \<and> peer \<noteq> self_l2_id env \<and> sep \<noteq> [] \<and> ent = aigrp_enterprise env
         then (case derive_bearer_token C env get now peer st of
                 (Inr tok, st') \<Rightarrow> (tok, st') | (Inl _, st') \<Rightarrow> (legacy, st'))
         else (legacy, st))"

section \<open>A sibling gets through\<close>

lemma read_root_length: "read_root_from_ssm env get ent = Inr rk \<Longrightarrow> length rk = ROOT_BYTES"
  by (auto simp: read_root_from_ssm_def split: option.splits if_splits)

lemma get_root_constant:
  assumes "root_sound env ssm now (root_cache st)" and "\<And>t. read_root_from_ssm env (ssm t) ent = Inr rk"
  shows "\<exists>st'. get_enterprise_root env (ssm now) now ent st = (Inr rk, st')"
proof -
  obtain r st' where g: "get_enterprise_root env (ssm now) now ent st = (r, st')" by fastforce
  have "\<exists>v. r = Inr v" using g by (auto simp: get_enterprise_root_def assms(2) split: option.splits)
  then obtain v where v: "r = Inr v" by blast
  from get_root_right [OF assms(1) g [unfolded v]] obtain t where "root_right env ssm ent v t" by blast
  with assms(2) [of t] have "v = rk" by (simp add: root_right_def)
  with g v show ?thesis by simp
qed

lemma pair_secret_constant:
  assumes "rt_sound C env ssm now st" and "\<And>t. read_root_from_ssm env (ssm t) (aigrp_enterprise env) = Inr rk"
    and "derive_pair_secret C rk (self_l2_id env) peer = Inr secret" and "peer \<noteq> self_l2_id env"
  shows "\<exists>st'. pair_secret_for_peer C env (ssm now) now peer st = (Inr secret, st')"
proof -
  obtain r st' where p: "pair_secret_for_peer C env (ssm now) now peer st = (r, st')" by fastforce
  have "\<exists>st1. get_enterprise_root env (ssm now) now (aigrp_enterprise env) st = (Inr rk, st1)"
    by (rule get_root_constant) (use assms(1,2) in \<open>auto simp: rt_sound_def\<close>)
  with p assms(4) obtain s where s: "r = Inr s"
    by (auto simp: pair_secret_for_peer_def Let_def assms(3) split: option.splits)
  with pair_secret_cases [OF assms(1) p] obtain t where "pair_right C env ssm (aigrp_enterprise env, peer) s t" by blast
  with assms(2) [of t] assms(3) have "s = secret" by (auto simp: pair_right_def root_right_def)
  with p s show ?thesis by simp
qed

text \<open>Two L2s of one Enterprise need no shared key: as long as both read the same
  root from the parameter store, the bearer one derives for the other, sent
  with its own id, passes the other's gate, whatever is in the caches of the two
  and whether or not a shared key is configured.\<close>

lemma sibling_bearer_accepted:
  assumes "aigrp_enterprise env1 = ent" and "aigrp_enterprise env2 = ent" and "CHR ''/'' \<notin> set ent"
    and "self_l2_id env1 \<noteq> self_l2_id env2" and "strip (self_l2_id env1) = self_l2_id env1"
    and "\<And>t. read_root_from_ssm env1 (ssm1 t) ent = Inr rk" and "\<And>t. read_root_from_ssm env2 (ssm2 t) ent = Inr rk"
    and "rt_sound C env1 ssm1 now1 st1" and "rt_sound C env2 ssm2 now2 st2"
    and "\<And>k. hmac256 C k BEARER_INFO \<noteq> []"
  shows "\<exists>tag. fst (outbound_bearer C env1 (ssm1 now1) now1 (self_l2_id env2) st1) = b64u tag \<and> tag \<noteq> []"
    and "fst (require_peer_key C env2 (ssm2 now2) now2
      \<lparr>ph_authorization = Some (''Bearer '' @ fst (outbound_bearer C env1 (ssm1 now1) now1 (self_l2_id env2) st1)),
       ph_forwarder = Some (self_l2_id env1), ph_signature = sig, ph_offer_id = off\<rparr> st2) = Inr ()"
proof -
  let ?a = "self_l2_id env1" and ?b = "self_l2_id env2"
  have ids: "?a \<noteq> []" "?b \<noteq> []" using slash_in_self_l2_id by (metis empty_iff empty_set)+
  have part: "partition_on (CHR ''/'') ?a = (ent, [CHR ''/''], aigrp_group env1)"
    "partition_on (CHR ''/'') ?b = (ent, [CHR ''/''], aigrp_group env2)"
    using assms(1-3) by (simp_all add: self_l2_id_def partition_on_append)
  obtain secret where sec: "derive_pair_secret C rk ?a ?b = Inr secret"
    using read_root_length [OF assms(6)] ids assms(4) by (simp add: derive_pair_secret_def lex_min_canonical_def Let_def)
  then have sec': "derive_pair_secret C rk ?b ?a = Inr secret" by (simp add: derive_pair_secret_sym [of C rk ?b])
  have "\<exists>st'. pair_secret_for_peer C env1 (ssm1 now1) now1 ?b st1 = (Inr secret, st')"
    by (rule pair_secret_constant [OF assms(8) _ sec]) (use assms in simp_all)
  then have out: "fst (outbound_bearer C env1 (ssm1 now1) now1 ?b st1) = bearer_for_secret C secret"
    using ids assms(1,4) part by (auto simp: outbound_bearer_def derive_bearer_token_def Let_def)
  have "\<exists>st'. pair_secret_for_peer C env2 (ssm2 now2) now2 ?a st2 = (Inr secret, st')"
    by (rule pair_secret_constant [OF assms(9) _ sec']) (use assms in simp_all)
  moreover have "bearer_for_secret C secret \<noteq> []"
    using assms(10) by (simp add: bearer_for_secret_def b64u_not_Nil)
  ultimately show "fst (require_peer_key C env2 (ssm2 now2) now2
      \<lparr>ph_authorization = Some (''Bearer '' @ fst (outbound_bearer C env1 (ssm1 now1) now1 ?b st1)),
       ph_forwarder = Some ?a, ph_signature = sig, ph_offer_id = off\<rparr> st2) = Inr ()"
    using ids assms(2,4,5) part
    by (auto simp: require_peer_key_def out header_def verify_bearer_against_peer_def Let_def)
  show "\<exists>tag. fst (outbound_bearer C env1 (ssm1 now1) now1 ?b st1) = b64u tag \<and> tag \<noteq> []"
    unfolding out bearer_for_secret_def using assms(10) by blast
qed

definition demo_rt_env2 :: env where
  "demo_rt_env2 k = (if k = ''CQ_ENTERPRISE'' then Some ''acme'' else if k = ''CQ_GROUP'' then Some ''b'' else None)"

definition demo_const_ssm :: "int \<Rightarrow> string \<Rightarrow> py_exc + string" where
  "demo_const_ssm t path = Inr (hex (demo_root 1))"

lemma demo_rt_ids2: "aigrp_enterprise demo_rt_env2 = ''acme''" "self_l2_id demo_rt_env2 = ''acme/b''"
  by (simp_all add: aigrp_enterprise_def self_l2_id_def aigrp_group_def getenv_def demo_rt_env2_def)

lemma demo_const_root:
  "read_root_from_ssm demo_rt_env (demo_const_ssm t) ''acme'' = Inr (demo_root 1)"
  "read_root_from_ssm demo_rt_env2 (demo_const_ssm t) ''acme'' = Inr (demo_root 1)"
  by (simp_all add: read_root_from_ssm_def param_path_def getenv_def demo_rt_env_def demo_rt_env2_def demo_const_ssm_def ROOT_BYTES_def)

end
