(* ===== verification/Directory.thy ===== *)
theory Directory imports PeerAuth DailyRoot begin

text \<open>
  \<open>cq_server/directory_client.py\<close>: announcing an Enterprise with retries, pulling
  and verifying its peerings into the mirror, and publishing the daily roots.
  HTTP is outside: an answer of the directory is a function, of the attempt, of
  the Enterprise asked for or of the root published. The lemmas: what a mirrored
  peering is verified for and what it is not, that a directory which accepts
  gets every root, and how rejected roots hold up the rest.
\<close>

section \<open>Configuration\<close>

definition directory_enabled :: "env \<Rightarrow> bool" where
  "directory_enabled env \<longleftrightarrow> lower (getenv env ''CQ_DIRECTORY_ENABLED'' ''false'') = ''true''"

definition skip_announce :: "env \<Rightarrow> bool" where
  "skip_announce env \<longleftrightarrow> lower (getenv env ''CQ_DIRECTORY_SKIP_ANNOUNCE'' ''false'') = ''true''"

definition directory_url :: "env \<Rightarrow> string" where
  "directory_url env = rstrip_char (CHR ''/'') (getenv env ''CQ_DIRECTORY_URL'' ''https://directory.8th-layer.ai'')"

definition DEFAULT_PULL_INTERVAL_SEC :: int where "DEFAULT_PULL_INTERVAL_SEC = 3600"

definition pull_interval_sec :: "env \<Rightarrow> int" where
  "pull_interval_sec env =
     (case env ''CQ_DIRECTORY_PULL_INTERVAL_SEC'' of
        None \<Rightarrow> DEFAULT_PULL_INTERVAL_SEC
      | Some s \<Rightarrow> (case py_int s of None \<Rightarrow> DEFAULT_PULL_INTERVAL_SEC | Some n \<Rightarrow> n))"

text \<open>The endpoints a single L2 announces: id, URL and group.\<close>

definition load_endpoints_config :: "env \<Rightarrow> (string \<times> string \<times> string) list" where
  "load_endpoints_config env =
     (let u = getenv env ''CQ_AIGRP_SELF_URL'' []; e = getenv env ''CQ_ENTERPRISE'' []; g = getenv env ''CQ_GROUP'' []
      in if u = [] \<or> e = [] \<or> g = [] then [] else [(e @ CHR ''/'' # g, u, g)])"

section \<open>Announcing\<close>

definition ANNOUNCE_RETRY_BASE_SEC :: nat where "ANNOUNCE_RETRY_BASE_SEC = 30"
definition ANNOUNCE_RETRY_MAX_SEC :: nat where "ANNOUNCE_RETRY_MAX_SEC = 600"

text \<open>\<open>status i\<close> is the answer to attempt \<open>i\<close>, 0 for a network failure. The result:
  success, and the seconds slept.\<close>

fun announce_loop :: "(nat \<Rightarrow> nat) \<Rightarrow> nat \<Rightarrow> nat \<Rightarrow> nat \<Rightarrow> bool \<times> nat" where
  "announce_loop status attempt 0 delay = (False, 0)"
| "announce_loop status attempt (Suc left) delay =
     (if status attempt = 200 \<or> status attempt = 201 then (True, 0)
      else if status attempt \<in> {400, 409, 422} then (False, 0)
      else (case announce_loop status (Suc attempt) left (min (delay * 2) ANNOUNCE_RETRY_MAX_SEC) of
              (ok, slept) \<Rightarrow> (ok, delay + slept)))"

definition announce_with_retries :: "(nat \<Rightarrow> nat) \<Rightarrow> nat \<Rightarrow> bool \<times> nat" where
  "announce_with_retries status max_attempts = announce_loop status 1 max_attempts ANNOUNCE_RETRY_BASE_SEC"

section \<open>Pulling peerings\<close>

text \<open>One record of the directory's answer; \<open>dr_endpoints\<close> and \<open>dr_topics\<close> are JSON texts.\<close>

record dir_record =
  dr_offer_id :: string
  dr_from :: string
  dr_to :: string
  dr_status :: string
  dr_content_policy :: string
  dr_logging_policy :: string
  dr_topics :: string
  dr_active_from :: "string option"
  dr_expires_at :: string
  dr_offer_payload :: string
  dr_offer_signature :: string
  dr_offer_key_id :: string
  dr_accept_payload :: string
  dr_accept_signature :: string
  dr_accept_key_id :: string
  dr_endpoints :: string

text \<open>The cache of one cycle; \<open>answer n\<close> is the directory's \<open>n\<close>-th answer, with an
  empty key counting as none.\<close>

type_synonym key_cache = "(string \<rightharpoonup> string) \<times> nat"

definition fetch_enterprise_pubkey :: "(nat \<Rightarrow> string \<Rightarrow> string option) \<Rightarrow> string \<Rightarrow> key_cache \<Rightarrow> string option \<times> key_cache" where
  "fetch_enterprise_pubkey answer ent c =
     (case c of (cache, n) \<Rightarrow>
        (case cache ent of
           Some k \<Rightarrow> (Some k, c)
         | None \<Rightarrow>
             (case answer n ent of
                None \<Rightarrow> (None, cache, Suc n)
              | Some k \<Rightarrow> if k = [] then (None, cache, Suc n) else (Some k, cache(ent \<mapsto> k), Suc n))))"

definition verify_peering_record :: "'k prims \<Rightarrow> dir_record \<Rightarrow> string \<Rightarrow> string \<Rightarrow> bool" where
  "verify_peering_record C r initiator responder \<longleftrightarrow>
     verify_envelope_signature C initiator (dr_offer_payload r) (dr_offer_signature r)
   \<and> verify_envelope_signature C responder (dr_accept_payload r) (dr_accept_signature r)"

definition mirror_row :: "string \<Rightarrow> dir_record \<Rightarrow> peering_row" where
  "mirror_row now r =
     \<lparr>pe_offer_id = dr_offer_id r, pe_from = dr_from r, pe_to = dr_to r, pe_status = dr_status r,
      pe_content_policy = dr_content_policy r, pe_logging_policy = dr_logging_policy r,
      pe_topic_filters = dr_topics r, pe_active_from = dr_active_from r, pe_expires_at = dr_expires_at r,
      pe_offer_payload = dr_offer_payload r, pe_offer_signature = dr_offer_signature r,
      pe_offer_key_id = dr_offer_key_id r, pe_accept_payload = dr_accept_payload r,
      pe_accept_signature = dr_accept_signature r, pe_accept_key_id = dr_accept_key_id r,
      pe_last_synced = now, pe_endpoints = dr_endpoints r\<rparr>"

text \<open>One record: the table, the number persisted and the key cache.\<close>

definition pull_record :: "'k prims \<Rightarrow> (nat \<Rightarrow> string \<Rightarrow> string option) \<Rightarrow> string \<Rightarrow> dir_record
    \<Rightarrow> 'a mesh_db_scheme \<times> nat \<times> key_cache \<Rightarrow> 'a mesh_db_scheme \<times> nat \<times> key_cache" where
  "pull_record C answer now r s =
     (case s of (db, persisted, c) \<Rightarrow>
        let (initiator, c1) = fetch_enterprise_pubkey answer (dr_from r) c;
            (responder, c2) = fetch_enterprise_pubkey answer (dr_to r) c1
        in (case (initiator, responder) of
              (Some i, Some p) \<Rightarrow>
                if verify_peering_record C r i p
                then (upsert_directory_peering (mirror_row now r) db, Suc persisted, c2)
                else (db, persisted, c2)
            | _ \<Rightarrow> (db, persisted, c2)))"

text \<open>\<open>records\<close> is None when the pull itself failed.\<close>

definition pull_and_persist_once :: "'k prims \<Rightarrow> (nat \<Rightarrow> string \<Rightarrow> string option) \<Rightarrow> string \<Rightarrow> dir_record list option
    \<Rightarrow> 'a mesh_db_scheme \<Rightarrow> nat \<times> 'a mesh_db_scheme" where
  "pull_and_persist_once C answer now records db =
     (case records of
        None \<Rightarrow> (0, db)
      | Some rs \<Rightarrow> (case fold (pull_record C answer now) rs (db, 0, Map.empty, 0) of (db', n, _) \<Rightarrow> (n, db')))"

section \<open>Publishing daily roots\<close>

definition publish_payload :: "root_row \<Rightarrow> json" where
  "publish_payload r = JObj
     [(''enterprise_id'', JStr (rr_enterprise_id r)), (''root_date'', JStr (rr_root_date r)),
      (''event_count'', JInt (int (rr_event_count r))), (''merkle_root_hash'', JStr (rr_merkle_root_hash r)),
      (''first_event_id'', case rr_first_event_id r of None \<Rightarrow> JNull | Some s \<Rightarrow> JStr s),
      (''last_event_id'', case rr_last_event_id r of None \<Rightarrow> JNull | Some s \<Rightarrow> JStr s)]"

definition unpublished :: "root_row \<Rightarrow> bool" where
  "unpublished r \<longleftrightarrow> rr_published_to_directory_at r = None"

definition mark_published :: "string \<Rightarrow> root_row \<Rightarrow> rep_db \<Rightarrow> rep_db" where
  "mark_published now r db = db\<lparr>rep_roots :=
     sql_update (\<lambda>q. rr_enterprise_id q = rr_enterprise_id r \<and> rr_root_date q = rr_root_date r)
       (\<lambda>q. q\<lparr>rr_published_to_directory_at := Some now\<rparr>) (rep_roots db)\<rparr>"

definition publish_batch :: "rep_db \<Rightarrow> root_row list" where
  "publish_batch db = page 50 0 (order_asc rr_root_date (filter unpublished (rep_roots db)))"

text \<open>One iteration of the loop; \<open>answer\<close> is the status each root gets (0 for a
  transport error) and \<open>json\<close> whether the answer has a JSON body. Without one,
  \<open>r.json()\<close> of a 200 or 201 raises before the root is marked, and the iteration ends.
  Every mark is committed at once.\<close>

fun publish_rows :: "(root_row \<Rightarrow> bool) \<Rightarrow> string \<Rightarrow> (root_row \<Rightarrow> nat) \<Rightarrow> root_row list \<Rightarrow> rep_db \<Rightarrow> rep_db" where
  "publish_rows json now answer [] db = db"
| "publish_rows json now answer (r # rows) db =
     (if answer r = 200 \<or> answer r = 201
      then if json r then publish_rows json now answer rows (mark_published now r db) else db
      else publish_rows json now answer rows db)"

definition publish_tick_with :: "(root_row \<Rightarrow> bool) \<Rightarrow> string \<Rightarrow> (root_row \<Rightarrow> nat) \<Rightarrow> rep_db \<Rightarrow> rep_db" where
  "publish_tick_with json now answer db = publish_rows json now answer (publish_batch db) db"

text \<open>With a directory whose answers are JSON.\<close>

definition publish_tick :: "string \<Rightarrow> (root_row \<Rightarrow> nat) \<Rightarrow> rep_db \<Rightarrow> rep_db" where
  "publish_tick now answer db = publish_tick_with (\<lambda>_. True) now answer db"

lemma publish_tick_fold:
  "publish_tick now answer db =
     fold (\<lambda>r db. if answer r = 200 \<or> answer r = 201 then mark_published now r db else db) (publish_batch db) db"
proof -
  have "publish_rows (\<lambda>_. True) now answer rows s
      = fold (\<lambda>r db. if answer r = 200 \<or> answer r = 201 then mark_published now r db else db) rows s" for rows s
    by (induction rows arbitrary: s) simp_all
  then show ?thesis by (simp add: publish_tick_def publish_tick_with_def)
qed

section \<open>What the signatures of a mirrored peering cover\<close>

definition keys_known :: "(nat \<Rightarrow> string \<Rightarrow> string option) \<Rightarrow> key_cache \<Rightarrow> bool" where
  "keys_known answer c \<longleftrightarrow> (\<forall>e v. fst c e = Some v \<longrightarrow> v \<noteq> [] \<and> (\<exists>m. answer m e = Some v))"

lemma fetch_keys_known:
  assumes "keys_known answer c" and "fetch_enterprise_pubkey answer ent c = (k, c')"
  shows "keys_known answer c' \<and> (\<forall>v. k = Some v \<longrightarrow> v \<noteq> [] \<and> (\<exists>m. answer m ent = Some v))"
proof -
  obtain cache n where c: "c = (cache, n)" by fastforce
  have known: "cache e = Some v \<Longrightarrow> v \<noteq> [] \<and> (\<exists>m. answer m e = Some v)" for e v
    using assms(1) by (simp add: c keys_known_def)
  show ?thesis
  proof (cases "cache ent")
    case (Some w)
    with assms(2) have "k = Some w" "c' = c" by (simp_all add: c fetch_enterprise_pubkey_def)
    with known [OF Some] assms(1) show ?thesis by simp
  next
    case None
    show ?thesis
    proof (cases "answer n ent")
      case None
      with \<open>cache ent = None\<close> assms(2) have "k = None" "fst c' = cache" by (auto simp: c fetch_enterprise_pubkey_def)
      with assms(1) show ?thesis by (simp add: c keys_known_def)
    next
      case (Some w)
      with \<open>cache ent = None\<close> assms(2) have "if w = [] then k = None \<and> fst c' = cache else k = Some w \<and> fst c' = cache(ent \<mapsto> w)"
        by (auto simp: c fetch_enterprise_pubkey_def)
      with Some assms(1) show ?thesis by (auto simp: c keys_known_def split: if_splits)
    qed
  qed
qed

text \<open>A record both Enterprises signed, under the keys the directory gives for them.\<close>

definition both_signed :: "'k prims \<Rightarrow> (nat \<Rightarrow> string \<Rightarrow> string option) \<Rightarrow> dir_record \<Rightarrow> bool" where
  "both_signed C answer r \<longleftrightarrow> (\<exists>i p m n. answer m (dr_from r) = Some i \<and> answer n (dr_to r) = Some p
     \<and> i \<noteq> [] \<and> p \<noteq> [] \<and> verify_peering_record C r i p)"

lemma pull_record_step:
  assumes "keys_known answer c" and "pull_record C answer now r (db, n, c) = (db', n', c')"
  shows "keys_known answer c'
    \<and> (db' = db \<and> n' = n \<or> both_signed C answer r \<and> db' = upsert_directory_peering (mirror_row now r) db \<and> n' = Suc n)"
proof -
  obtain k1 c1 where f1: "fetch_enterprise_pubkey answer (dr_from r) c = (k1, c1)" by (metis surj_pair)
  obtain k2 c2 where f2: "fetch_enterprise_pubkey answer (dr_to r) c1 = (k2, c2)" by (metis surj_pair)
  note s1 = fetch_keys_known [OF assms(1) f1]
  note s2 = fetch_keys_known [OF conjunct1 [OF s1] f2]
  show ?thesis
    using assms(2) s1 s2 f1 f2
    by (auto simp: pull_record_def both_signed_def Let_def split: option.splits if_splits)
qed

definition carries :: "peering_row \<Rightarrow> dir_record \<Rightarrow> bool" where
  "carries row r \<longleftrightarrow> pe_offer_id row = dr_offer_id r \<and> pe_offer_payload row = dr_offer_payload r
     \<and> pe_offer_signature row = dr_offer_signature r \<and> pe_accept_payload row = dr_accept_payload r
     \<and> pe_accept_signature row = dr_accept_signature r"

lemma upsert_peering_rows:
  "row \<in> set (ag_peerings (upsert_directory_peering (mirror_row now r) db)) \<Longrightarrow> row \<in> set (ag_peerings db) \<or> carries row r"
  by (auto simp: upsert_directory_peering_def carries_def mirror_row_def in_sql_update split: if_splits)

lemma pull_fold_rows:
  assumes "fold (pull_record C answer now) rs (db, n, c) = (db', n', c')" and "keys_known answer c"
    and "row \<in> set (ag_peerings db')"
  shows "row \<in> set (ag_peerings db) \<or> (\<exists>r \<in> set rs. carries row r \<and> both_signed C answer r)"
  using assms
proof (induction rs arbitrary: db n c)
  case (Cons r rs)
  obtain db1 n1 c1 where p: "pull_record C answer now r (db, n, c) = (db1, n1, c1)" by (metis prod_cases3)
  note step = pull_record_step [OF Cons.prems(2) p]
  from Cons.IH [of db1 n1 c1] Cons.prems p step
  have "row \<in> set (ag_peerings db1) \<or> (\<exists>r \<in> set rs. carries row r \<and> both_signed C answer r)" by simp
  with step upsert_peering_rows [of row now r db] show ?case by auto
qed simp

text \<open>C39. A pull writes nothing it has not verified: every row of the mirror was
  there before or carries the two payloads and the two signatures of a record
  that verified under the keys the directory gave for the record's Enterprises.\<close>

theorem mirrored_rows_verified:
  "list_all (\<lambda>row. row \<in> set (ag_peerings db) \<or> (\<exists>r \<in> set rs. carries row r \<and> both_signed C answer r))
     (ag_peerings (snd (pull_and_persist_once C answer now (Some rs) db)))"
proof -
  obtain db' n c where f: "fold (pull_record C answer now) rs (db, 0, Map.empty, 0) = (db', n, c)"
    by (metis prod_cases3)
  have "keys_known answer (Map.empty, 0)" by (simp add: keys_known_def)
  from pull_fold_rows [OF f this] f show ?thesis by (simp add: pull_and_persist_once_def list_all_iff)
qed

text \<open>
  But the signatures are over two texts the client never reads: whatever
  status, policies, expiry and endpoints the directory puts beside a genuine
  pair of signatures are mirrored as if they had been agreed.\<close>

theorem unsigned_fields_mirrored:
  assumes "fst (pull_and_persist_once C answer now (Some [r]) db) = 1"
  shows "case pull_and_persist_once C answer now (Some [r\<lparr>dr_status := status, dr_content_policy := content,
        dr_logging_policy := logging, dr_active_from := active, dr_expires_at := expires, dr_endpoints := endpoints\<rparr>]) db of
     (n, db') \<Rightarrow> n = 1 \<and> list_ex (\<lambda>row. pe_offer_id row = dr_offer_id r \<and> pe_status row = status \<and> pe_content_policy row = content
        \<and> pe_logging_policy row = logging \<and> pe_active_from row = active \<and> pe_expires_at row = expires
        \<and> pe_endpoints row = endpoints) (ag_peerings db')"
proof -
  let ?r = "r\<lparr>dr_status := status, dr_content_policy := content, dr_logging_policy := logging,
        dr_active_from := active, dr_expires_at := expires, dr_endpoints := endpoints\<rparr>"
  have in_table: "list_ex (\<lambda>row. pe_offer_id row = dr_offer_id r \<and> pe_status row = status \<and> pe_content_policy row = content
      \<and> pe_logging_policy row = logging \<and> pe_active_from row = active \<and> pe_expires_at row = expires
      \<and> pe_endpoints row = endpoints) (ag_peerings (upsert_directory_peering (mirror_row now ?r) db))"
  proof (cases "sql_fetchone (\<lambda>q. pe_offer_id q = dr_offer_id r) (ag_peerings db)")
    case None
    then show ?thesis by (simp add: upsert_directory_peering_def mirror_row_def)
  next
    case (Some q)
    then have "q \<in> set (ag_peerings db)" "pe_offer_id q = dr_offer_id r" by (auto dest: sql_fetchone_SomeD)
    then have "(mirror_row now ?r)\<lparr>pe_from := pe_from q, pe_to := pe_to q\<rparr>
        \<in> set (ag_peerings (upsert_directory_peering (mirror_row now ?r) db))"
      using Some sql_update_memI [of q "ag_peerings db" "\<lambda>q. pe_offer_id q = dr_offer_id r"
          "\<lambda>q. (mirror_row now ?r)\<lparr>pe_from := pe_from q, pe_to := pe_to q\<rparr>"]
      by (simp add: upsert_directory_peering_def) (simp add: mirror_row_def)
    then show ?thesis by (force simp: list_ex_iff mirror_row_def)
  qed
  have same: "verify_peering_record C ?r = verify_peering_record C r" by (simp add: verify_peering_record_def fun_eq_iff)
  obtain k1 c1 where f1: "fetch_enterprise_pubkey answer (dr_from r) (Map.empty, 0) = (k1, c1)" by (metis surj_pair)
  obtain k2 c2 where f2: "fetch_enterprise_pubkey answer (dr_to r) c1 = (k2, c2)" by (metis surj_pair)
  have "\<exists>i p. k1 = Some i \<and> k2 = Some p \<and> verify_peering_record C r i p"
    using assms f1 f2
    by (auto simp: pull_and_persist_once_def pull_record_def Let_def split: option.splits if_splits)
  then show ?thesis
    using in_table f1 f2 same by (auto simp: pull_and_persist_once_def pull_record_def Let_def)
qed

section \<open>Every root is published\<close>

lemma filter_publish_le:
  assumes "set rows \<subseteq> set (filter unpublished t)" and "mset rows \<subseteq># mset (filter unpublished t)"
    and "\<And>q. q \<in> set rows \<Longrightarrow> P q" and "\<And>q. \<not> unpublished (f q)"
  shows "length (filter unpublished (sql_update P f t)) \<le> length (filter unpublished t) - length rows"
proof -
  have "filter unpublished (sql_update P f t) = filter (\<lambda>q. \<not> P q) (filter unpublished t)"
    using assms(4) by (induction t) auto
  moreover have "length (filter P (filter unpublished t)) + length (filter (\<lambda>q. \<not> P q) (filter unpublished t))
      = length (filter unpublished t)"
    by (rule sum_length_filter_compl)
  moreover have "length rows \<le> length (filter P (filter unpublished t))"
  proof -
    have "filter_mset P (mset rows) \<subseteq># filter_mset P (mset (filter unpublished t))"
      by (rule multiset_filter_mono [OF assms(2)])
    moreover have "filter P rows = rows" using assms(3) by (simp add: filter_id_conv)
    ultimately have "mset rows \<subseteq># mset (filter P (filter unpublished t))" by (metis mset_filter)
    then show ?thesis by (metis size_mset size_mset_mono)
  qed
  ultimately show ?thesis by simp
qed

definition root_key :: "root_row \<Rightarrow> string \<times> string" where
  "root_key q = (rr_enterprise_id q, rr_root_date q)"

definition published :: "string \<Rightarrow> root_row \<Rightarrow> root_row" where
  "published now q = q\<lparr>rr_published_to_directory_at := Some now\<rparr>"

lemma root_key_published [simp]: "root_key (published now q) = root_key q"
  by (simp add: root_key_def published_def)

lemma published_idem [simp]: "published now (published now q) = published now q"
  by (simp add: published_def)

lemma mark_published_update:
  "mark_published now r db = db\<lparr>rep_roots := sql_update (\<lambda>q. root_key q = root_key r) (published now) (rep_roots db)\<rparr>"
  by (simp add: mark_published_def root_key_def published_def sql_update_def)

lemma sql_update_twice:
  "(\<And>q. key (f q) = key q) \<Longrightarrow> (\<And>q. f (f q) = f q) \<Longrightarrow>
   sql_update (\<lambda>q. key q \<in> B) f (sql_update (\<lambda>q. key q \<in> A) f t) = sql_update (\<lambda>q. key q \<in> A \<union> B) f t"
  by (induction t) auto

lemma fold_mark:
  "rep_roots (fold (mark_published now) rows db)
    = sql_update (\<lambda>q. root_key q \<in> root_key ` set rows) (published now) (rep_roots db)"
proof (induction rows arbitrary: db)
  case Nil
  then show ?case by (simp add: sql_update_id)
next
  case (Cons r rows)
  have one: "rep_roots (mark_published now r db) = sql_update (\<lambda>q. root_key q \<in> {root_key r}) (published now) (rep_roots db)"
    by (simp add: mark_published_update)
  have "rep_roots (fold (mark_published now) (r # rows) db)
      = sql_update (\<lambda>q. root_key q \<in> root_key ` set rows) (published now)
          (sql_update (\<lambda>q. root_key q \<in> {root_key r}) (published now) (rep_roots db))"
    by (simp only: fold_Cons comp_def Cons.IH one)
  also have "\<dots> = sql_update (\<lambda>q. root_key q \<in> {root_key r} \<union> root_key ` set rows) (published now) (rep_roots db)"
    by (rule sql_update_twice) simp_all
  also have "{root_key r} \<union> root_key ` set rows = root_key ` set (r # rows)" by simp
  finally show ?case .
qed

lemma batch_facts:
  "set (publish_batch db) \<subseteq> set (filter unpublished (rep_roots db))"
  "mset (publish_batch db) \<subseteq># mset (filter unpublished (rep_roots db))"
  "length (publish_batch db) = min 50 (length (filter unpublished (rep_roots db)))"
proof -
  let ?o = "order_asc rr_root_date (filter unpublished (rep_roots db))"
  have b: "publish_batch db = take 50 ?o" by (simp add: publish_batch_def page_def)
  show "length (publish_batch db) = min 50 (length (filter unpublished (rep_roots db)))"
    by (simp add: b min.commute)
  have "mset (take 50 ?o) \<subseteq># mset ?o"
    by (metis append_take_drop_id mset_append mset_subset_eq_add_left)
  then show "mset (publish_batch db) \<subseteq># mset (filter unpublished (rep_roots db))" by (simp only: b mset_order_asc)
  then show "set (publish_batch db) \<subseteq> set (filter unpublished (rep_roots db))"
    using set_mset_mono by fastforce
qed

lemma tick_progress:
  assumes "\<And>r. answer r = 200 \<or> answer r = 201"
  shows "length (filter unpublished (rep_roots (publish_tick now answer db)))
    \<le> length (filter unpublished (rep_roots db)) - 50"
proof -
  have "publish_tick now answer db = fold (mark_published now) (publish_batch db) db"
    using assms by (simp add: publish_tick_fold)
  then have "rep_roots (publish_tick now answer db)
      = sql_update (\<lambda>q. root_key q \<in> root_key ` set (publish_batch db)) (published now) (rep_roots db)"
    by (simp add: fold_mark)
  moreover have "length (filter unpublished (sql_update (\<lambda>q. root_key q \<in> root_key ` set (publish_batch db)) (published now) (rep_roots db)))
      \<le> length (filter unpublished (rep_roots db)) - length (publish_batch db)"
    by (rule filter_publish_le) (use batch_facts [of db] in \<open>auto simp: published_def unpublished_def\<close>)
  ultimately show ?thesis using batch_facts(3) [of db] by (simp add: min_def split: if_splits)
qed

text \<open>C40. A directory that accepts, with answers in JSON, gets every root: each iteration of the loop
  publishes the fifty oldest, so as many iterations as there are fifties of
  unpublished roots leave none.\<close>

theorem every_root_published:
  assumes "\<And>r. answer r = 200 \<or> answer r = 201" and "length (filter unpublished (rep_roots db)) \<le> 50 * k"
  shows "list_all (\<lambda>r. rr_published_to_directory_at r \<noteq> None) (rep_roots ((publish_tick now answer ^^ k) db))"
proof -
  have "length (filter unpublished (rep_roots ((publish_tick now answer ^^ i) db)))
      \<le> length (filter unpublished (rep_roots db)) - 50 * i" for i
  proof (induction i)
    case (Suc i)
    from tick_progress [where answer = answer and now = now and db = "(publish_tick now answer ^^ i) db", OF assms(1)] Suc
    show ?case by simp
  qed simp
  from this [of k] assms(2) have "filter unpublished (rep_roots ((publish_tick now answer ^^ k) db)) = []" by simp
  then show ?thesis by (simp add: filter_empty_conv list_all_iff unpublished_def)
qed

text \<open>
  Fifty roots the directory will not take are enough to stop the rest: while
  it rejects the fifty oldest unpublished roots, no iteration changes anything,
  so no later root of any Enterprise is published either.\<close>

theorem rejected_roots_starve_the_rest:
  assumes "list_all (\<lambda>r. answer r \<noteq> 200 \<and> answer r \<noteq> 201) (publish_batch db)"
  shows "(publish_tick now answer ^^ k) db = db"
proof -
  have "fold (\<lambda>r db. if answer r = 200 \<or> answer r = 201 then mark_published now r db else db) rows s = s"
    if "list_all (\<lambda>r. answer r \<noteq> 200 \<and> answer r \<noteq> 201) rows" for rows and s :: rep_db
    using that by (induction rows) auto
  then have "publish_tick now answer db = db" using assms by (simp add: publish_tick_fold)
  then show ?thesis by (induction k) simp_all
qed

text \<open>One accepted root is enough when the directory's answer is no JSON: the oldest
  unpublished root is sent again in every iteration, never marked, and nothing
  behind it is ever sent.\<close>

lemma unreadable_answer_starves:
  assumes "publish_batch db = r # rows" and "answer r = 200 \<or> answer r = 201" and "\<not> json r"
  shows "(publish_tick_with json now answer ^^ k) db = db"
proof -
  have "publish_tick_with json now answer db = db" using assms by (auto simp: publish_tick_with_def)
  then show ?thesis by (induction k) simp_all
qed

section \<open>Bounds on the announcement\<close>

lemma announce_loop_delay:
  "delay \<le> ANNOUNCE_RETRY_MAX_SEC \<Longrightarrow> snd (announce_loop status attempt left delay) \<le> left * ANNOUNCE_RETRY_MAX_SEC"
proof (induction status attempt left delay rule: announce_loop.induct)
  case (2 status attempt left delay)
  then show ?case by (auto split: prod.splits)
qed simp

text \<open>An announcement gives up after its last attempt, and then the pull loop is
  not started; with the six attempts of the code it sleeps at most 25.5 minutes.\<close>

lemma announce_gives_up:
  "(\<And>i. status i \<notin> {200, 201, 400, 409, 422}) \<Longrightarrow> announce_with_retries status 6 = (False, 1530)"
  by (simp add: announce_with_retries_def ANNOUNCE_RETRY_BASE_SEC_def ANNOUNCE_RETRY_MAX_SEC_def numeral_eq_Suc)

section \<open>Witnesses\<close>

definition demo_record :: dir_record where
  "demo_record = \<lparr>dr_offer_id = ''o1'', dr_from = ''acme'', dr_to = ''globex'', dr_status = ''active'',
     dr_content_policy = ''summary_only'', dr_logging_policy = ''mutual_log_required'', dr_topics = ''[]'',
     dr_active_from = None, dr_expires_at = ''2026'', dr_offer_payload = ''offer'',
     dr_offer_signature = sign_raw demo_prims 5 (utf8 ''offer''), dr_offer_key_id = ''k5'',
     dr_accept_payload = ''accept'', dr_accept_signature = sign_raw demo_prims 6 (utf8 ''accept''),
     dr_accept_key_id = ''k6'', dr_endpoints = ''[]''\<rparr>"

definition demo_answer :: "nat \<Rightarrow> string \<Rightarrow> string option" where
  "demo_answer n ent = (if ent = ''acme'' then Some (public_key_b64u demo_prims 5)
     else if ent = ''globex'' then Some (public_key_b64u demo_prims 6) else None)"

definition demo_mesh_db :: mesh_db where
  "demo_mesh_db = \<lparr>db_users = [], db_user_seq = 1, act_log = [], act_retention = [], ku_rows = [], ku_index = [],
     ku_rep = empty_rep_db, ag_peers = [], ag_peerings = []\<rparr>"

lemma demo_keys_not_Nil: "public_key_b64u demo_prims k \<noteq> []"
  by (simp add: public_key_b64u_def b64u_not_Nil demo_prims_def)

lemma demo_pull:
  "fst (pull_and_persist_once demo_prims demo_answer ''now'' (Some [demo_record]) demo_mesh_db) = 1"
proof -
  have "verify_peering_record demo_prims demo_record (public_key_b64u demo_prims 5) (public_key_b64u demo_prims 6)"
    unfolding verify_peering_record_def demo_record_def dir_record.select_convs
    by (intro conjI verify_envelope_signature_sign [OF demo_prims_ok])
  moreover have "dr_from demo_record = ''acme''" "dr_to demo_record = ''globex''" by (simp_all only: demo_record_def dir_record.select_convs)
  ultimately show ?thesis
    by (simp add: pull_and_persist_once_def pull_record_def fetch_enterprise_pubkey_def demo_answer_def demo_keys_not_Nil)
qed

theorem unsigned_fields_mirrored_witness:
  "case pull_and_persist_once demo_prims demo_answer ''now'' (Some [demo_record\<lparr>dr_status := ''active'', dr_content_policy := ''full_body'',
        dr_logging_policy := ''no_log_consults'', dr_active_from := None, dr_expires_at := ''9999'', dr_endpoints := ''[]''\<rparr>]) demo_mesh_db of
     (n, db') \<Rightarrow> n = 1 \<and> list_ex (\<lambda>row. pe_offer_id row = dr_offer_id demo_record \<and> pe_status row = ''active'' \<and> pe_content_policy row = ''full_body''
        \<and> pe_logging_policy row = ''no_log_consults'' \<and> pe_active_from row = None \<and> pe_expires_at row = ''9999''
        \<and> pe_endpoints row = ''[]'') (ag_peerings db')"
  by (rule unsigned_fields_mirrored [OF demo_pull])

definition demo_roots :: rep_db where
  "demo_roots = empty_rep_db\<lparr>rep_roots := [\<lparr>rr_enterprise_id = ''acme'', rr_root_date = ''2026-01-01'', rr_event_count = 1,
     rr_merkle_root_hash = ''h'', rr_first_event_id = None, rr_last_event_id = None, rr_signature_b64u = None,
     rr_signing_key_id = None, rr_computed_at = ''c'', rr_published_to_directory_at = None\<rparr>]\<rparr>"

theorem every_root_published_witness:
  "list_all (\<lambda>r. rr_published_to_directory_at r \<noteq> None) (rep_roots ((publish_tick ''now'' (\<lambda>_. 201) ^^ 1) demo_roots))"
  by (rule every_root_published) (simp_all add: demo_roots_def unpublished_def)

theorem rejected_roots_starve_the_rest_witness:
  "(publish_tick ''now'' (\<lambda>_. 400) ^^ 3) demo_roots = demo_roots"
  by (rule rejected_roots_starve_the_rest) (simp add: list_all_iff)

end
