(* ===== verification/Bloom.thy ===== *)
theory Bloom imports PeerAuth begin

text \<open>
  The Bloom filter of \<open>aigrp/_legacy.py\<close> over domain tags, on bytes. The lemma
  \<open>bloom_bit\<close> says which bits the filter of a list of tags has, so the order of
  the tags does not matter and a tag that was put in is always found.
\<close>

unbundle bit_operations_syntax

definition BLOOM_BITS :: nat where "BLOOM_BITS = 8192"
definition BLOOM_HASHES :: nat where "BLOOM_HASHES = 5"

text \<open>\<open>int.from_bytes(b, "little")\<close>.\<close>

definition from_bytes_little :: "bytes \<Rightarrow> nat" where
  "from_bytes_little bs = foldr (\<lambda>b n. unat b + 256 * n) bs 0"

definition bloom_hashes :: "'k prims \<Rightarrow> string \<Rightarrow> nat list" where
  "bloom_hashes C domain =
     (let digest = sha256 C (utf8 domain)
      in map (\<lambda>i. from_bytes_little (take 4 (drop (i * 4) digest)) mod BLOOM_BITS) [0..<BLOOM_HASHES])"

definition set_bloom_bit :: "nat \<Rightarrow> bytes \<Rightarrow> bytes" where
  "set_bloom_bit h bitmap = bitmap[h div 8 := (bitmap ! (h div 8)) OR push_bit (h mod 8) 1]"

definition normal_tag :: "string \<Rightarrow> string" where
  "normal_tag d = lower (strip d)"

definition compute_domain_bloom :: "'k prims \<Rightarrow> string list \<Rightarrow> bytes" where
  "compute_domain_bloom C domains =
     fold (\<lambda>d bitmap. if d = [] then bitmap else fold set_bloom_bit (bloom_hashes C (normal_tag d)) bitmap)
       domains (replicate (BLOOM_BITS div 8) 0)"

definition bloom_contains :: "'k prims \<Rightarrow> bytes \<Rightarrow> string \<Rightarrow> bool" where
  "bloom_contains C bloom domain \<longleftrightarrow>
     bloom \<noteq> [] \<and> domain \<noteq> [] \<and> \<not> length bloom * 8 < BLOOM_BITS
   \<and> list_all (\<lambda>h. (bloom ! (h div 8)) AND push_bit (h mod 8) 1 \<noteq> 0) (bloom_hashes C (normal_tag domain))"

definition bloom_matches_any :: "'k prims \<Rightarrow> bytes \<Rightarrow> string list \<Rightarrow> bool" where
  "bloom_matches_any C bloom domains \<longleftrightarrow> list_ex (bloom_contains C bloom) domains"

section \<open>Which bits are set\<close>

definition bloom_bit :: "bytes \<Rightarrow> nat \<Rightarrow> bool" where
  "bloom_bit bitmap h \<longleftrightarrow> bit (bitmap ! (h div 8)) (h mod 8)"

lemma bloom_hashes_bound: "h \<in> set (bloom_hashes C d) \<Longrightarrow> h < BLOOM_BITS"
  by (auto simp: bloom_hashes_def BLOOM_BITS_def)

lemma and_mask_bit: "(w :: 8 word) AND push_bit (h mod 8) 1 \<noteq> 0 \<longleftrightarrow> bit w (h mod 8)"
  by (simp add: push_bit_of_1 and_exp_eq_0_iff_not_bit)

lemma length_set_bloom_bit [simp]: "length (set_bloom_bit h b) = length b"
  by (simp add: set_bloom_bit_def)

lemma length_fold_set [simp]: "length (fold set_bloom_bit hs b) = length b"
  by (induction hs arbitrary: b) auto

lemma set_bloom_bit_bit:
  assumes "k < 8 * length b" and "h < 8 * length b"
  shows "bloom_bit (set_bloom_bit h b) k \<longleftrightarrow> k = h \<or> bloom_bit b k"
proof (cases "k div 8 = h div 8")
  case True
  have "k mod 8 = h mod 8 \<longleftrightarrow> k = h" using True by (metis div_mult_mod_eq)
  moreover have "h div 8 < length b" using assms(2) by simp
  moreover have "bit ((w :: 8 word) OR push_bit (h mod 8) 1) (k mod 8) \<longleftrightarrow> bit w (k mod 8) \<or> k mod 8 = h mod 8" for w
    by (auto simp: bit_or_iff push_bit_of_1 bit_exp_iff possible_bit_word)
  ultimately show ?thesis using True by (auto simp: bloom_bit_def set_bloom_bit_def)
next
  case False
  then show ?thesis by (auto simp: bloom_bit_def set_bloom_bit_def)
qed

lemma fold_set_bit:
  "k < 8 * length b \<Longrightarrow> (\<And>h. h \<in> set hs \<Longrightarrow> h < 8 * length b) \<Longrightarrow>
   bloom_bit (fold set_bloom_bit hs b) k \<longleftrightarrow> k \<in> set hs \<or> bloom_bit b k"
  by (induction hs arbitrary: b) (auto simp: set_bloom_bit_bit)

lemma length_bloom [simp]: "length (compute_domain_bloom C ds) = BLOOM_BITS div 8"
proof -
  have "length (fold (\<lambda>d bm. if d = [] then bm else fold set_bloom_bit (bloom_hashes C (normal_tag d)) bm) ds b) = length b" for b
    by (induction ds arbitrary: b) auto
  then show ?thesis by (simp add: compute_domain_bloom_def)
qed

lemma bloom_bits:
  assumes "k < BLOOM_BITS"
  shows "bloom_bit (compute_domain_bloom C ds) k
    \<longleftrightarrow> (\<exists>d \<in> set ds. d \<noteq> [] \<and> k \<in> set (bloom_hashes C (normal_tag d)))"
proof -
  have step: "bloom_bit (fold (\<lambda>d bm. if d = [] then bm else fold set_bloom_bit (bloom_hashes C (normal_tag d)) bm) ds b) k
      \<longleftrightarrow> (\<exists>d \<in> set ds. d \<noteq> [] \<and> k \<in> set (bloom_hashes C (normal_tag d))) \<or> bloom_bit b k"
    if "length b = BLOOM_BITS div 8" for b
    using that
  proof (induction ds arbitrary: b)
    case (Cons d ds)
    have len: "8 * length b = BLOOM_BITS" using Cons.prems by (simp add: BLOOM_BITS_def)
    have "bloom_bit (fold set_bloom_bit (bloom_hashes C (normal_tag d)) b) k
        \<longleftrightarrow> k \<in> set (bloom_hashes C (normal_tag d)) \<or> bloom_bit b k"
      by (rule fold_set_bit) (use assms len bloom_hashes_bound in auto)
    with Cons show ?case by auto
  qed simp
  have "k div 8 < BLOOM_BITS div 8" using assms by (simp add: BLOOM_BITS_def)
  then have "\<not> bloom_bit (replicate (BLOOM_BITS div 8) 0) k" by (simp add: bloom_bit_def)
  with step [of "replicate (BLOOM_BITS div 8) 0"] show ?thesis by (simp add: compute_domain_bloom_def)
qed

text \<open>Only the set of tags matters.\<close>

lemma bloom_set_determines:
  assumes "set ds = set es" and "k < BLOOM_BITS"
  shows "bloom_bit (compute_domain_bloom C ds) k = bloom_bit (compute_domain_bloom C es) k"
  using assms by (simp add: bloom_bits)

lemma bloom_no_false_negative:
  assumes "d \<in> set ds" and "normal_tag q = normal_tag d" and "d \<noteq> []" and "q \<noteq> []"
  shows "bloom_contains C (compute_domain_bloom C ds) q"
proof -
  have "bloom_bit (compute_domain_bloom C ds) h" if "h \<in> set (bloom_hashes C (normal_tag q))" for h
    using that assms bloom_bits [OF bloom_hashes_bound [OF that]] by auto
  moreover have "compute_domain_bloom C ds \<noteq> []" using length_bloom [of C ds] by (auto simp: BLOOM_BITS_def simp del: length_bloom)
  ultimately show ?thesis
    using assms(4) by (auto simp: bloom_contains_def list_all_iff push_bit_of_1 and_exp_eq_0_iff_not_bit bloom_bit_def BLOOM_BITS_def)
qed

end
