(* ===== verification/Consults.thy ===== *)
theory Consults imports PeerAuth JsonLoads begin

text \<open>
  \<open>cq_server/consults.py\<close> and the consult tables of \<open>store/_sqlite.py\<close>: opening a
  thread on this L2, on a sibling or on a peered Enterprise, replying, closing,
  the inbox, and the three endpoints that receive forwarded requests. A handler
  returns its response, the requests it sent to other L2s and the new state;
  the answer to a sent request is a parameter. Lemmas: what each handler writes,
  and the invariant of the two tables. \<open>ConsultMesh\<close> composes several L2s.
\<close>

section \<open>Tables\<close>

record thread_row =
  th_id :: string
  th_from_l2 :: string
  th_from_persona :: string
  th_to_l2 :: string
  th_to_persona :: string
  th_subject :: "string option"
  th_status :: string
  th_claimed_by :: "string option"
  th_created_at :: string
  th_closed_at :: "string option"
  th_resolution :: "string option"

record consult_msg =
  cm_id :: string
  cm_thread :: string
  cm_from_l2 :: string
  cm_from_persona :: string
  cm_content :: string
  cm_created_at :: string

text \<open>One L2: its tables and the caches of its process.\<close>

record l2_state = mesh_db +
  co_threads :: "thread_row list"
  co_msgs :: "consult_msg list"
  co_rt :: rt_state

definition new_thread :: "string \<Rightarrow> string \<Rightarrow> string \<Rightarrow> string \<Rightarrow> string \<Rightarrow> string option \<Rightarrow> string \<Rightarrow> thread_row" where
  "new_thread tid from_l2 from_persona to_l2 to_persona subject now =
     \<lparr>th_id = tid, th_from_l2 = from_l2, th_from_persona = from_persona, th_to_l2 = to_l2, th_to_persona = to_persona,
      th_subject = subject, th_status = ''open'', th_claimed_by = None, th_created_at = now,
      th_closed_at = None, th_resolution = None\<rparr>"

definition create_consult :: "thread_row \<Rightarrow> 'a l2_state_scheme \<Rightarrow> py_exc + 'a l2_state_scheme" where
  "create_consult t st = bind_result (sql_insert th_id t (co_threads st)) (\<lambda>ts. Inr (st\<lparr>co_threads := ts\<rparr>))"

definition get_consult :: "string \<Rightarrow> 'a l2_state_scheme \<Rightarrow> thread_row option" where
  "get_consult tid st = sql_fetchone (\<lambda>t. th_id t = tid) (co_threads st)"

text \<open>SQLite reports a taken primary key before a missing foreign key.\<close>

datatype insert_failure = UniqueFailed | ForeignKeyFailed

definition append_consult_message :: "consult_msg \<Rightarrow> 'a l2_state_scheme \<Rightarrow> insert_failure + 'a l2_state_scheme" where
  "append_consult_message m st =
     (if cm_id m \<in> cm_id ` set (co_msgs st) then Inl UniqueFailed
      else if cm_thread m \<notin> th_id ` set (co_threads st) then Inl ForeignKeyFailed
      else Inr (st\<lparr>co_msgs := co_msgs st @ [m]\<rparr>))"

definition list_consult_messages :: "string \<Rightarrow> 'a l2_state_scheme \<Rightarrow> consult_msg list" where
  "list_consult_messages tid st = order_asc cm_created_at (filter (\<lambda>m. cm_thread m = tid) (co_msgs st))"

definition close_row :: "string \<Rightarrow> string option \<Rightarrow> thread_row \<Rightarrow> thread_row" where
  "close_row closed_at res t = t\<lparr>th_status := ''closed'', th_closed_at := Some closed_at, th_resolution := res\<rparr>"

definition close_consult :: "string \<Rightarrow> string \<Rightarrow> string option \<Rightarrow> 'a l2_state_scheme \<Rightarrow> bool \<times> 'a l2_state_scheme" where
  "close_consult tid closed_at res st =
     (let open_one = (\<lambda>t. th_id t = tid \<and> th_status t \<noteq> ''closed'')
      in (0 < sql_rowcount open_one (co_threads st),
          st\<lparr>co_threads := sql_update open_one (close_row closed_at res) (co_threads st)\<rparr>))"

definition list_inbox :: "string \<Rightarrow> string \<Rightarrow> bool \<Rightarrow> nat \<Rightarrow> 'a l2_state_scheme \<Rightarrow> thread_row list" where
  "list_inbox to_l2 to_persona include_closed limit st =
     page limit 0 (order_desc th_created_at
       (filter (\<lambda>t. th_to_l2 t = to_l2 \<and> th_to_persona t = to_persona \<and> (include_closed \<or> th_status t \<noteq> ''closed''))
         (co_threads st)))"

section \<open>Wire models\<close>

record consult_request =
  cr_to_l2 :: string
  cr_to_persona :: string
  cr_subject :: "string option"
  cr_content :: string

definition text_ok :: "nat \<Rightarrow> nat \<Rightarrow> string \<Rightarrow> bool" where
  "text_ok lo hi s \<longleftrightarrow> lo \<le> length s \<and> length s \<le> hi"

definition consult_request_ok :: "consult_request \<Rightarrow> bool" where
  "consult_request_ok r \<longleftrightarrow> cr_to_l2 r \<noteq> [] \<and> cr_to_persona r \<noteq> []
     \<and> (case cr_subject r of None \<Rightarrow> True | Some s \<Rightarrow> text_ok 0 200 s) \<and> text_ok 1 4096 (cr_content r)"

text \<open>The bodies of the forwarding endpoints; the first serves two of them.\<close>

record forward_request_body =
  fr_thread_id :: string
  fr_message_id :: string
  fr_from_l2 :: string
  fr_from_persona :: string
  fr_to_l2 :: string
  fr_to_persona :: string
  fr_subject :: "string option"
  fr_content :: string
  fr_created_at :: string

record forward_message_body =
  fm_thread_id :: string
  fm_message_id :: string
  fm_from_l2 :: string
  fm_from_persona :: string
  fm_content :: string
  fm_created_at :: string
  fm_thread_subject :: "string option"
  fm_thread_to_l2 :: "string option"
  fm_thread_to_persona :: "string option"
  fm_thread_from_l2 :: "string option"
  fm_thread_from_persona :: "string option"
  fm_thread_created_at :: "string option"

definition subject_ok :: "string option \<Rightarrow> bool" where
  "subject_ok s \<longleftrightarrow> (case s of None \<Rightarrow> True | Some t \<Rightarrow> length t \<le> 512)"

definition forward_request_ok :: "forward_request_body \<Rightarrow> bool" where
  "forward_request_ok b \<longleftrightarrow> fr_to_persona b \<noteq> [] \<and> subject_ok (fr_subject b) \<and> text_ok 1 4096 (fr_content b)"

definition forward_message_ok :: "forward_message_body \<Rightarrow> bool" where
  "forward_message_ok b \<longleftrightarrow> text_ok 1 4096 (fm_content b) \<and> subject_ok (fm_thread_subject b)"

definition json_or_none :: "string option \<Rightarrow> json" where
  "json_or_none s = (case s of None \<Rightarrow> JNull | Some t \<Rightarrow> JStr t)"

text \<open>\<open>body.model_dump(mode="json")\<close>.\<close>

definition forward_request_json :: "forward_request_body \<Rightarrow> json" where
  "forward_request_json b = JObj
     [(''thread_id'', JStr (fr_thread_id b)), (''message_id'', JStr (fr_message_id b)),
      (''from_l2_id'', JStr (fr_from_l2 b)), (''from_persona'', JStr (fr_from_persona b)),
      (''to_l2_id'', JStr (fr_to_l2 b)), (''to_persona'', JStr (fr_to_persona b)),
      (''subject'', json_or_none (fr_subject b)), (''content'', JStr (fr_content b)),
      (''created_at'', JStr (fr_created_at b))]"

definition forward_message_json :: "forward_message_body \<Rightarrow> json" where
  "forward_message_json b = JObj
     [(''thread_id'', JStr (fm_thread_id b)), (''message_id'', JStr (fm_message_id b)),
      (''from_l2_id'', JStr (fm_from_l2 b)), (''from_persona'', JStr (fm_from_persona b)),
      (''content'', JStr (fm_content b)), (''created_at'', JStr (fm_created_at b)),
      (''thread_subject'', json_or_none (fm_thread_subject b)), (''thread_to_l2_id'', json_or_none (fm_thread_to_l2 b)),
      (''thread_to_persona'', json_or_none (fm_thread_to_persona b)), (''thread_from_l2_id'', json_or_none (fm_thread_from_l2 b)),
      (''thread_from_persona'', json_or_none (fm_thread_from_persona b)),
      (''thread_created_at'', json_or_none (fm_thread_created_at b))]"

text \<open>A sent request. \<open>payload\<close> is the dictionary the sender signs; the typed body
  is what the receiver parses out of it.\<close>

datatype wire = WireRequest forward_request_body | WireMessage forward_message_body | WireXRequest forward_request_body

record outgoing =
  og_base :: string
  og_headers :: peer_request
  og_wire :: wire

section \<open>The world of one request\<close>

text \<open>\<open>lw_ssm\<close> is the parameter store, \<open>lw_clock\<close> the clock of the caches, \<open>lw_iso\<close>
  the clock as a string, \<open>lw_hex_thread\<close> and \<open>lw_hex_msg\<close> what \<open>uuid4().hex[:16]\<close>
  gives, \<open>lw_l2_key\<close> the L2's own key and \<open>lw_net\<close> what becomes of a request:
  the status it gets, a transport error (\<open>httpx.RequestError\<close>), or an address
  \<open>httpx\<close> cannot parse (\<open>httpx.InvalidURL\<close>, which is no \<open>RequestError\<close>).\<close>

datatype net_answer = NetStatus nat | NetError | NetInvalidURL

record 'k l2_world = "'k ku_world" +
  lw_ssm :: "string \<Rightarrow> py_exc + string"
  lw_clock :: int
  lw_iso :: string
  lw_hex_thread :: string
  lw_hex_msg :: string
  lw_l2_key :: "'k option"
  lw_net :: "outgoing \<Rightarrow> net_answer"

definition log_consult :: "'k l2_world \<Rightarrow> string \<Rightarrow> string \<Rightarrow> json \<Rightarrow> string \<Rightarrow> 'a l2_state_scheme \<Rightarrow> 'a l2_state_scheme" where
  "log_consult w username event_type payload tid st =
     log_activity (rw_env w) (kw_now_z w) (kw_act_id w) (Some username) event_type (Some payload) None (Some tid) st"

definition self_identity :: "string \<Rightarrow> 'a user_db_scheme \<Rightarrow> http_exc + string \<times> string" where
  "self_identity username db =
     (case get_user db username of
        None \<Rightarrow> Inl (HTTPException 401)
      | Some u \<Rightarrow> Inr (or_default (us_enterprise_id u) ''default-enterprise'' @ CHR ''/'' # or_default (us_group_id u) ''default-group'',
                     username))"

definition resolve_peer :: "string \<Rightarrow> 'a mesh_db_scheme \<Rightarrow> peer_row option" where
  "resolve_peer l2 db =
     (case partition_on (CHR ''/'') l2 of
        (ent, sep, _) \<Rightarrow> if sep = [] then None else List.find (\<lambda>r. ap_l2_id r = l2) (list_aigrp_peers ent db))"

text \<open>The roster of a peering: an array whose objects name an L2 each. Iterating a
  number, a boolean or null raises TypeError.\<close>

definition names_l2 :: "string \<Rightarrow> json \<Rightarrow> bool" where
  "names_l2 l2 ep \<longleftrightarrow> (case ep of JObj kvs \<Rightarrow> map_of kvs ''l2_id'' = Some (JStr l2) | _ \<Rightarrow> False)"

definition roster_find :: "string \<Rightarrow> json \<Rightarrow> py_exc + json option" where
  "roster_find l2 v =
     (case v of
        JArr eps \<Rightarrow> Inr (List.find (names_l2 l2) eps)
      | JObj _ \<Rightarrow> Inr None | JStr _ \<Rightarrow> Inr None
      | _ \<Rightarrow> Inl TypeErr)"

definition resolve_x_enterprise_target :: "string \<Rightarrow> string \<Rightarrow> string \<Rightarrow> 'a mesh_db_scheme
    \<Rightarrow> py_exc + (peering_row \<times> json) option" where
  "resolve_x_enterprise_target now to_l2 self_ent db =
     (case partition_on (CHR ''/'') to_l2 of
        (ent, sep, _) \<Rightarrow>
          if sep = [] \<or> ent = self_ent then Inr None
          else (case find_active_directory_peering self_ent ent now db of
                  None \<Rightarrow> Inr None
                | Some p \<Rightarrow>
                    let text = (if pe_endpoints p = [] then ''[]'' else pe_endpoints p);
                        eps = (case json_loads text of None \<Rightarrow> JArr [] | Some v \<Rightarrow> v)
                    in bind_result (roster_find to_l2 eps)
                         (\<lambda>found. Inr (map_option (\<lambda>ep. (p, ep)) found))))"

section \<open>Sending\<close>

text \<open>To a sibling: bearer, identity, signature when the L2 has a key. Nothing is
  sent without a bearer.\<close>

definition build_forward_headers :: "'k prims \<Rightarrow> 'k l2_world \<Rightarrow> string \<Rightarrow> json \<Rightarrow> rt_state \<Rightarrow> string \<times> peer_request \<times> rt_state" where
  "build_forward_headers C w target payload rt =
     (case outbound_bearer C (rw_env w) (lw_ssm w) (lw_clock w) target rt of
        (bearer, rt') \<Rightarrow>
          (bearer,
           \<lparr>ph_authorization = Some (''Bearer '' @ bearer), ph_forwarder = Some (self_l2_id (rw_env w)),
            ph_signature = sign_forward_request C (lw_l2_key w) payload (self_l2_id (rw_env w)),
            ph_offer_id = None\<rparr>, rt'))"

definition deliver :: "'k l2_world \<Rightarrow> outgoing \<Rightarrow> http_exc + unit" where
  "deliver w og =
     (case lw_net w og of
        NetInvalidURL \<Rightarrow> Inl (HTTPException 500)
      | NetError \<Rightarrow> Inl (HTTPException 502)
      | NetStatus status \<Rightarrow> if 400 \<le> status then Inl (HTTPException 502) else Inr ())"

definition forward_to_peer :: "'k prims \<Rightarrow> 'k l2_world \<Rightarrow> peer_row \<Rightarrow> json \<Rightarrow> wire \<Rightarrow> 'a l2_state_scheme
    \<Rightarrow> (http_exc + unit) \<times> outgoing list \<times> 'a l2_state_scheme" where
  "forward_to_peer C w target payload wire st =
     (case build_forward_headers C w (ap_l2_id target) payload (co_rt st) of
        (bearer, headers, rt') \<Rightarrow>
          let og = \<lparr>og_base = rstrip_char (CHR ''/'') (ap_endpoint target), og_headers = headers, og_wire = wire\<rparr>;
              st' = st\<lparr>co_rt := rt'\<rparr>
          in if strip bearer = [] then (Inl (HTTPException 503), [], st')
             else (deliver w og, [og], st'))"

text \<open>To a peered Enterprise: the bearer is derived from the two signatures of the
  peering. A malformed signature, or an endpoint without a URL, raises.\<close>

definition x_enterprise_forward_request :: "'k prims \<Rightarrow> 'k l2_world \<Rightarrow> peering_row \<Rightarrow> json \<Rightarrow> forward_request_body
    \<Rightarrow> (http_exc + unit) \<times> outgoing list" where
  "x_enterprise_forward_request C w p ep body =
     (case ep of
        JObj kvs \<Rightarrow>
          (case map_of kvs ''endpoint_url'' of
             Some (JStr url) \<Rightarrow>
               (case derive_peering_bearer C (pe_offer_signature p) (pe_accept_signature p) of
                  Inl _ \<Rightarrow> (Inl (HTTPException 500), [])
                | Inr bearer \<Rightarrow>
                    let og = \<lparr>og_base = rstrip_char (CHR ''/'') url,
                              og_headers = \<lparr>ph_authorization = Some (''Bearer '' @ bearer),
                                 ph_forwarder = Some (self_l2_id (rw_env w)),
                                 ph_signature = sign_forward_request C (lw_l2_key w) (forward_request_json body) (self_l2_id (rw_env w)),
                                 ph_offer_id = Some (pe_offer_id p)\<rparr>,
                              og_wire = WireXRequest body\<rparr>
                    in (deliver w og, [og]))
           | _ \<Rightarrow> (Inl (HTTPException 500), []))
      | _ \<Rightarrow> (Inl (HTTPException 500), []))"

definition redact_for_policy :: "string \<Rightarrow> string \<Rightarrow> string" where
  "redact_for_policy content policy =
     (if policy = ''mutual_log_required'' then content else ''<redacted: '' @ policy @ ''>'')"

section \<open>Opening a thread\<close>

datatype route = SameL2 | Sibling peer_row | Peered peering_row json

definition request_route :: "'k l2_world \<Rightarrow> string \<Rightarrow> string \<Rightarrow> 'a mesh_db_scheme \<Rightarrow> http_exc + route" where
  "request_route w self_l2 to_l2 db =
     (if to_l2 = self_l2 then Inr SameL2
      else (case partition_on (CHR ''/'') to_l2 of
        (ent, sep, _) \<Rightarrow>
          if sep = [] then Inl (HTTPException 400)
          else if ent = aigrp_enterprise (rw_env w) then
            (case resolve_peer to_l2 db of None \<Rightarrow> Inl (HTTPException 404) | Some r \<Rightarrow> Inr (Sibling r))
          else (case resolve_x_enterprise_target (lw_iso w) to_l2 (aigrp_enterprise (rw_env w)) db of
                  Inl _ \<Rightarrow> Inl (HTTPException 500)
                | Inr None \<Rightarrow> Inl (HTTPException 403)
                | Inr (Some (p, ep)) \<Rightarrow> Inr (Peered p ep))))"

definition route_policy :: "route \<Rightarrow> string" where
  "route_policy r = (case r of Peered p _ \<Rightarrow> pe_logging_policy p | _ \<Rightarrow> ''mutual_log_required'')"

text \<open>The two writes before anything is sent.\<close>

definition mirror_locally :: "thread_row \<Rightarrow> consult_msg \<Rightarrow> string \<Rightarrow> 'a l2_state_scheme \<Rightarrow> (http_exc + unit) \<times> 'a l2_state_scheme" where
  "mirror_locally t m policy st =
     (case create_consult t st of
        Inl _ \<Rightarrow> (Inl (HTTPException 500), st)
      | Inr st1 \<Rightarrow>
          if policy = ''no_log_consults'' then (Inr (), st1)
          else (case append_consult_message (m\<lparr>cm_content := redact_for_policy (cm_content m) policy\<rparr>) st1 of
                  Inl _ \<Rightarrow> (Inl (HTTPException 500), st1)
                | Inr st2 \<Rightarrow> (Inr (), st2)))"

definition request_body :: "'k l2_world \<Rightarrow> string \<Rightarrow> string \<Rightarrow> consult_request \<Rightarrow> forward_request_body" where
  "request_body w self_l2 persona req =
     \<lparr>fr_thread_id = ''th_'' @ lw_hex_thread w, fr_message_id = ''msg_'' @ lw_hex_msg w, fr_from_l2 = self_l2,
      fr_from_persona = persona, fr_to_l2 = cr_to_l2 req, fr_to_persona = cr_to_persona req,
      fr_subject = cr_subject req, fr_content = cr_content req, fr_created_at = lw_iso w\<rparr>"

definition body_thread :: "forward_request_body \<Rightarrow> thread_row" where
  "body_thread b = new_thread (fr_thread_id b) (fr_from_l2 b) (fr_from_persona b) (fr_to_l2 b) (fr_to_persona b)
     (fr_subject b) (fr_created_at b)"

definition body_msg :: "forward_request_body \<Rightarrow> consult_msg" where
  "body_msg b = \<lparr>cm_id = fr_message_id b, cm_thread = fr_thread_id b, cm_from_l2 = fr_from_l2 b,
     cm_from_persona = fr_from_persona b, cm_content = fr_content b, cm_created_at = fr_created_at b\<rparr>"

definition send_on_route :: "'k prims \<Rightarrow> 'k l2_world \<Rightarrow> route \<Rightarrow> forward_request_body \<Rightarrow> 'a l2_state_scheme
    \<Rightarrow> (http_exc + unit) \<times> outgoing list \<times> 'a l2_state_scheme" where
  "send_on_route C w r body st =
     (case r of
        SameL2 \<Rightarrow> (Inr (), [], st)
      | Sibling peer \<Rightarrow> forward_to_peer C w peer (forward_request_json body) (WireRequest body) st
      | Peered p ep \<Rightarrow> (case x_enterprise_forward_request C w p ep body of (res, out) \<Rightarrow> (res, out, st)))"

definition request_consult :: "'k prims \<Rightarrow> 'k l2_world \<Rightarrow> consult_request \<Rightarrow> string \<Rightarrow> 'a l2_state_scheme
    \<Rightarrow> (http_exc + thread_row) \<times> outgoing list \<times> 'a l2_state_scheme" where
  "request_consult C w req username st =
     (if \<not> consult_request_ok req then (Inl (HTTPException 422), [], st)
      else (case self_identity username st of
        Inl e \<Rightarrow> (Inl e, [], st)
      | Inr (self_l2, persona) \<Rightarrow>
        (case request_route w self_l2 (cr_to_l2 req) st of
          Inl e \<Rightarrow> (Inl e, [], st)
        | Inr r \<Rightarrow>
          let body = request_body w self_l2 persona req
          in (case mirror_locally (body_thread body) (body_msg body) (route_policy r) st of
                (Inl e, st1) \<Rightarrow> (Inl e, [], st1)
              | (Inr _, st1) \<Rightarrow>
                  (case send_on_route C w r body st1 of
                     (Inl e, out, st2) \<Rightarrow> (Inl e, out, st2)
                   | (Inr _, out, st2) \<Rightarrow>
                       (case get_consult (fr_thread_id body) st2 of
                          None \<Rightarrow> (Inl (HTTPException 500), out, st2)
                        | Some t \<Rightarrow>
                            (Inr t, out,
                             log_consult w username ''consult_open''
                               (JObj [(''thread_id'', JStr (fr_thread_id body)), (''to_l2_id'', JStr (cr_to_l2 req)),
                                      (''to_persona'', JStr (cr_to_persona req))]) (fr_thread_id body) st2)))))))"

section \<open>Replying, reading and closing\<close>

definition is_from :: "string \<times> string \<Rightarrow> thread_row \<Rightarrow> bool" where
  "is_from who t \<longleftrightarrow> who = (th_from_l2 t, th_from_persona t)"

definition participates :: "string \<times> string \<Rightarrow> thread_row \<Rightarrow> bool" where
  "participates who t \<longleftrightarrow> is_from who t \<or> who = (th_to_l2 t, th_to_persona t)"

text \<open>The checks the four participant endpoints begin with.\<close>

definition participant_thread :: "string \<Rightarrow> string \<Rightarrow> 'a l2_state_scheme \<Rightarrow> http_exc + (string \<times> string) \<times> thread_row" where
  "participant_thread tid username st =
     bind_result (self_identity username st) (\<lambda>who.
       case get_consult tid st of
         None \<Rightarrow> Inl (HTTPException 404)
       | Some t \<Rightarrow> if participates who t then Inr (who, t) else Inl (HTTPException 403))"

definition reply_body :: "thread_row \<Rightarrow> consult_msg \<Rightarrow> forward_message_body" where
  "reply_body t m =
     \<lparr>fm_thread_id = th_id t, fm_message_id = cm_id m, fm_from_l2 = cm_from_l2 m, fm_from_persona = cm_from_persona m,
      fm_content = cm_content m, fm_created_at = cm_created_at m, fm_thread_subject = th_subject t,
      fm_thread_to_l2 = Some (th_to_l2 t), fm_thread_to_persona = Some (th_to_persona t),
      fm_thread_from_l2 = Some (th_from_l2 t), fm_thread_from_persona = Some (th_from_persona t),
      fm_thread_created_at = Some (th_created_at t)\<rparr>"

definition post_consult_message :: "'k prims \<Rightarrow> 'k l2_world \<Rightarrow> string \<Rightarrow> string \<Rightarrow> string \<Rightarrow> 'a l2_state_scheme
    \<Rightarrow> (http_exc + consult_msg) \<times> outgoing list \<times> 'a l2_state_scheme" where
  "post_consult_message C w tid content username st =
     (if \<not> text_ok 1 4096 content then (Inl (HTTPException 422), [], st)
      else (case participant_thread tid username st of
        Inl e \<Rightarrow> (Inl e, [], st)
      | Inr (who, t) \<Rightarrow>
        if th_status t = ''closed'' then (Inl (HTTPException 409), [], st)
        else
          let other = (if is_from who t then th_to_l2 t else th_from_l2 t);
              m = \<lparr>cm_id = ''msg_'' @ lw_hex_msg w, cm_thread = tid, cm_from_l2 = fst who, cm_from_persona = snd who,
                   cm_content = content, cm_created_at = lw_iso w\<rparr>;
              peer = (if other = fst who then None else resolve_peer other st)
          in if other \<noteq> fst who \<and> peer = None then (Inl (HTTPException 502), [], st)
             else (case append_consult_message m st of
                Inl _ \<Rightarrow> (Inl (HTTPException 500), [], st)
              | Inr st1 \<Rightarrow>
                  (case (case peer of None \<Rightarrow> (Inr (), [], st1)
                         | Some p \<Rightarrow> forward_to_peer C w p (forward_message_json (reply_body t m)) (WireMessage (reply_body t m)) st1) of
                     (Inl e, out, st2) \<Rightarrow> (Inl e, out, st2)
                   | (Inr _, out, st2) \<Rightarrow>
                       (Inr m, out, log_consult w username ''consult_reply''
                          (JObj [(''thread_id'', JStr tid), (''message_id'', JStr (cm_id m))]) tid st2)))))"

definition get_consult_messages :: "string \<Rightarrow> string \<Rightarrow> 'a l2_state_scheme \<Rightarrow> http_exc + consult_msg list" where
  "get_consult_messages tid username st =
     bind_result (participant_thread tid username st) (\<lambda>_. Inr (list_consult_messages tid st))"

definition get_consult_thread :: "string \<Rightarrow> string \<Rightarrow> 'a l2_state_scheme \<Rightarrow> http_exc + thread_row" where
  "get_consult_thread tid username st = bind_result (participant_thread tid username st) (\<lambda>(_, t). Inr t)"

definition get_inbox :: "bool \<Rightarrow> int \<Rightarrow> string \<Rightarrow> 'a l2_state_scheme \<Rightarrow> http_exc + (string \<times> string) \<times> thread_row list" where
  "get_inbox include_closed limit username st =
     bind_result (self_identity username st) (\<lambda>(l2, persona).
       Inr ((l2, persona), list_inbox l2 persona include_closed (nat (max 1 (min limit 200))) st))"

definition closed_event :: "thread_row \<Rightarrow> string option \<Rightarrow> rep_call" where
  "closed_event t res =
     \<lparr>rc_event_type = ''consult.closed'',
      rc_body = JObj [(''thread_id'', JStr (th_id t)), (''from_l2_id'', JStr (th_from_l2 t)), (''to_l2_id'', JStr (th_to_l2 t)),
                      (''csat'', JNull), (''resolution_summary'', json_or_none res)],
      rc_enterprise_id = None, rc_l2_id = None, rc_ts = None\<rparr>"

definition close_consult_route :: "'k prims \<Rightarrow> 'k l2_world \<Rightarrow> string \<Rightarrow> string \<Rightarrow> string option \<Rightarrow> string \<Rightarrow> 'a l2_state_scheme
    \<Rightarrow> (http_exc + thread_row) \<times> 'a l2_state_scheme" where
  "close_consult_route C w tid reason res username st =
     (if reason = [] \<or> (case res of None \<Rightarrow> False | Some s \<Rightarrow> \<not> text_ok 0 4000 s) then (Inl (HTTPException 422), st)
      else (case participant_thread tid username st of
        Inl e \<Rightarrow> (Inl e, st)
      | Inr _ \<Rightarrow>
        (case close_consult tid (lw_iso w) res st of
          (did_close, st1) \<Rightarrow>
            (case get_consult tid st1 of
               None \<Rightarrow> (Inl (HTTPException 500), st1)
             | Some t \<Rightarrow>
                 let st2 = (if did_close
                            then st1\<lparr>ku_rep := snd (record_event C (rep_world.truncate w) (closed_event t res) (ku_rep st1))\<rparr>
                            else st1)
                 in (Inr t, log_consult w username ''consult_close''
                       (JObj [(''thread_id'', JStr tid), (''reason'', JStr reason)]) tid st2)))))"

section \<open>Receiving from a sibling\<close>

text \<open>Create the thread unless it is there, then append the message; a message id
  that is taken is a repeated delivery.\<close>

definition mirror_thread :: "thread_row \<Rightarrow> 'a l2_state_scheme \<Rightarrow> http_exc + 'a l2_state_scheme" where
  "mirror_thread t st =
     (if get_consult (th_id t) st = None
      then (case create_consult t st of Inl _ \<Rightarrow> Inl (HTTPException 500) | Inr st1 \<Rightarrow> Inr st1)
      else Inr st)"

definition mirror_message :: "consult_msg \<Rightarrow> 'a l2_state_scheme \<Rightarrow> (http_exc + unit) \<times> 'a l2_state_scheme" where
  "mirror_message m st =
     (case append_consult_message m st of
        Inr st1 \<Rightarrow> (Inr (), st1)
      | Inl UniqueFailed \<Rightarrow> (Inr (), st)
      | Inl ForeignKeyFailed \<Rightarrow> (Inl (HTTPException 500), st))"

definition forward_consult_request :: "'k prims \<Rightarrow> 'k l2_world \<Rightarrow> peer_request \<Rightarrow> forward_request_body \<Rightarrow> 'a l2_state_scheme
    \<Rightarrow> (http_exc + unit) \<times> 'a l2_state_scheme" where
  "forward_consult_request C w req body st =
     (case require_peer_key C (rw_env w) (lw_ssm w) (lw_clock w) req (co_rt st) of
        (Inl e, rt') \<Rightarrow> (Inl e, st\<lparr>co_rt := rt'\<rparr>)
      | (Inr _, rt') \<Rightarrow>
          let st0 = st\<lparr>co_rt := rt'\<rparr>
          in if \<not> forward_request_ok body then (Inl (HTTPException 422), st0)
             else (case require_forwarder_identity C (rw_env w) req (fr_from_l2 body) True (forward_request_json body) st0 of
                Inl e \<Rightarrow> (Inl e, st0)
              | Inr _ \<Rightarrow>
                  (case mirror_thread (body_thread body) st0 of
                     Inl e \<Rightarrow> (Inl e, st0)
                   | Inr st1 \<Rightarrow> mirror_message (body_msg body) st1)))"

definition metadata_thread :: "forward_message_body \<Rightarrow> thread_row option" where
  "metadata_thread b =
     (if truthy (fm_thread_to_l2 b) \<and> truthy (fm_thread_to_persona b) \<and> truthy (fm_thread_from_l2 b)
         \<and> truthy (fm_thread_from_persona b) \<and> truthy (fm_thread_created_at b)
      then Some (new_thread (fm_thread_id b) (the (fm_thread_from_l2 b)) (the (fm_thread_from_persona b))
                   (the (fm_thread_to_l2 b)) (the (fm_thread_to_persona b)) (fm_thread_subject b) (the (fm_thread_created_at b)))
      else None)"

definition message_of :: "forward_message_body \<Rightarrow> consult_msg" where
  "message_of b = \<lparr>cm_id = fm_message_id b, cm_thread = fm_thread_id b, cm_from_l2 = fm_from_l2 b,
     cm_from_persona = fm_from_persona b, cm_content = fm_content b, cm_created_at = fm_created_at b\<rparr>"

definition forward_consult_message :: "'k prims \<Rightarrow> 'k l2_world \<Rightarrow> peer_request \<Rightarrow> forward_message_body \<Rightarrow> 'a l2_state_scheme
    \<Rightarrow> (http_exc + unit) \<times> 'a l2_state_scheme" where
  "forward_consult_message C w req body st =
     (case require_peer_key C (rw_env w) (lw_ssm w) (lw_clock w) req (co_rt st) of
        (Inl e, rt') \<Rightarrow> (Inl e, st\<lparr>co_rt := rt'\<rparr>)
      | (Inr _, rt') \<Rightarrow>
          let st0 = st\<lparr>co_rt := rt'\<rparr>
          in if \<not> forward_message_ok body then (Inl (HTTPException 422), st0)
             else (case require_forwarder_identity C (rw_env w) req (fm_from_l2 body) True (forward_message_json body) st0 of
                Inl e \<Rightarrow> (Inl e, st0)
              | Inr _ \<Rightarrow>
                  (case (if get_consult (fm_thread_id body) st0 \<noteq> None then Inr st0
                         else (case metadata_thread body of
                                 None \<Rightarrow> Inl (HTTPException 400)
                               | Some t \<Rightarrow> mirror_thread t st0)) of
                     Inl e \<Rightarrow> (Inl e, st0)
                   | Inr st1 \<Rightarrow> mirror_message (message_of body) st1)))"

section \<open>Receiving from a peered Enterprise\<close>

definition require_x_enterprise_auth :: "'k prims \<Rightarrow> 'k l2_world \<Rightarrow> peer_request \<Rightarrow> forward_request_body \<Rightarrow> 'a mesh_db_scheme
    \<Rightarrow> http_exc + peering_row" where
  "require_x_enterprise_auth C w req body db =
     (let auth = header (ph_authorization req);
          forwarder = strip (header (ph_forwarder req));
          offer = strip (header (ph_offer_id req));
          self_ent = aigrp_enterprise (rw_env w)
      in if \<not> startswith auth ''Bearer '' then Inl (HTTPException 401)
      else if forwarder = [] then Inl (HTTPException 400)
      else if offer = [] then Inl (HTTPException 400)
      else if fr_from_l2 body \<noteq> forwarder then Inl (HTTPException 403)
      else (case filter (\<lambda>p. pe_offer_id p = offer) (list_directory_peerings None (Some ''active'') db) of
              [] \<Rightarrow> Inl (HTTPException 403)
            | p # _ \<Rightarrow>
                if pe_expires_at p \<noteq> [] \<and> pe_expires_at p < lw_iso w then Inl (HTTPException 403)
                else if fst (partition_on (CHR ''/'') forwarder) \<noteq> (if pe_to p = self_ent then pe_from p else pe_to p)
                then Inl (HTTPException 403)
                else (case derive_peering_bearer C (pe_offer_signature p) (pe_accept_signature p) of
                        Inl _ \<Rightarrow> Inl (HTTPException 500)
                      | Inr bearer \<Rightarrow> if utf8 (drop 7 auth) \<noteq> utf8 bearer then Inl (HTTPException 401) else Inr p)))"

definition persona_on_l2 :: "env \<Rightarrow> string \<Rightarrow> 'a user_db_scheme \<Rightarrow> bool" where
  "persona_on_l2 env persona db \<longleftrightarrow>
     (case get_user db persona of
        None \<Rightarrow> False
      | Some u \<Rightarrow> or_default (us_enterprise_id u) ''default-enterprise'' = aigrp_enterprise env
               \<and> or_default (us_group_id u) ''default-group'' = aigrp_group env)"

definition x_enterprise_forward_consult_request :: "'k prims \<Rightarrow> 'k l2_world \<Rightarrow> peer_request \<Rightarrow> forward_request_body
    \<Rightarrow> 'a l2_state_scheme \<Rightarrow> (http_exc + string) \<times> 'a l2_state_scheme" where
  "x_enterprise_forward_consult_request C w req body st =
     (if \<not> forward_request_ok body then (Inl (HTTPException 422), st)
      else (case require_x_enterprise_auth C w req body st of
        Inl e \<Rightarrow> (Inl e, st)
      | Inr p \<Rightarrow>
        let policy = pe_logging_policy p
        in if fr_to_persona body \<noteq> [] \<and> \<not> persona_on_l2 (rw_env w) (fr_to_persona body) st then (Inl (HTTPException 404), st)
           else (case mirror_thread (body_thread body) st of
              Inl e \<Rightarrow> (Inl e, st)
            | Inr st1 \<Rightarrow>
                if policy = ''no_log_consults'' then (Inr policy, st1)
                else (case mirror_message ((body_msg body)\<lparr>cm_content := redact_for_policy (fr_content body) policy\<rparr>) st1 of
                        (Inl e, st2) \<Rightarrow> (Inl e, st2)
                      | (Inr _, st2) \<Rightarrow> (Inr policy, st2)))))"

end
