(* ===== verification/Consents.thy ===== *)
theory Consents imports Consults begin

text \<open>
  Sharing between L2s (\<open>app.py\<close> and \<open>store/_sqlite.py\<close>): cross-Enterprise consents
  and their audit log, and \<open>/aigrp/forward-query\<close>, which answers another L2's query
  with summaries or bodies of this L2's approved units. Rows read without
  ORDER BY come in insertion order. The cosine of numpy is a parameter. Lemmas:
  which consent a lookup picks, that a revoked one is never picked again, what
  a requester gets to read.
\<close>

section \<open>Tables\<close>

record consent_row =
  cn_id :: string
  cn_req_enterprise :: string
  cn_resp_enterprise :: string
  cn_req_group :: "string option"
  cn_resp_group :: "string option"
  cn_policy :: string
  cn_signed_by :: string
  cn_signed_at :: string
  cn_expires_at :: "string option"
  cn_audit_id :: string

record audit_row =
  au_id :: string
  au_ts :: string
  au_req_l2 :: "string option"
  au_req_enterprise :: "string option"
  au_req_group :: "string option"
  au_req_persona :: "string option"
  au_resp_l2 :: "string option"
  au_resp_enterprise :: "string option"
  au_resp_group :: "string option"
  au_policy :: string
  au_count :: nat
  au_consent :: "string option"

record presence_row =
  pr_persona :: string
  pr_user :: "nat option"
  pr_enterprise :: string
  pr_group :: string
  pr_last_seen :: string
  pr_domains :: "string list option"
  pr_discoverable :: bool
  pr_hint :: "string option"
  pr_metadata :: "string option"

record fed_state = l2_state +
  fe_consents :: "consent_row list"
  fe_audit :: "audit_row list"
  fe_presence :: "presence_row list"

definition consent_live :: "string \<Rightarrow> consent_row \<Rightarrow> bool" where
  "consent_live now r \<longleftrightarrow> (case cn_expires_at r of None \<Rightarrow> True | Some e \<Rightarrow> now < e)"

definition list_cross_enterprise_consents :: "bool \<Rightarrow> string \<Rightarrow> nat \<Rightarrow> 'a fed_state_scheme \<Rightarrow> consent_row list" where
  "list_cross_enterprise_consents include_expired now limit st =
     page limit 0 (order_desc cn_signed_at (filter (\<lambda>r. include_expired \<or> consent_live now r) (fe_consents st)))"

definition get_cross_enterprise_consent :: "string \<Rightarrow> 'a fed_state_scheme \<Rightarrow> consent_row option" where
  "get_cross_enterprise_consent cid st = sql_fetchone (\<lambda>r. cn_id r = cid) (fe_consents st)"

definition revoke_cross_enterprise_consent :: "string \<Rightarrow> string \<Rightarrow> 'a fed_state_scheme \<Rightarrow> bool \<times> 'a fed_state_scheme" where
  "revoke_cross_enterprise_consent cid revoked_at st =
     (0 < sql_rowcount (\<lambda>r. cn_id r = cid) (fe_consents st),
      st\<lparr>fe_consents := sql_update (\<lambda>r. cn_id r = cid) (\<lambda>r. r\<lparr>cn_expires_at := Some revoked_at\<rparr>) (fe_consents st)\<rparr>)"

text \<open>The lookup scores each live row whose pinned groups match and keeps the first
  best; the loop starts from \<open>best_score = -1\<close>.\<close>

definition consent_score :: "string option \<Rightarrow> string option \<Rightarrow> consent_row \<Rightarrow> int" where
  "consent_score rg sg r =
     (if cn_req_group r = rg \<and> cn_req_group r \<noteq> None then 2 else 0) + (if cn_resp_group r = sg \<and> cn_resp_group r \<noteq> None then 2 else 0)
     + (if cn_req_group r = None then 1 else 0) + (if cn_resp_group r = None then 1 else 0)"

definition consent_step :: "string option \<Rightarrow> string option \<Rightarrow> consent_row \<Rightarrow> consent_row option \<times> int \<Rightarrow> consent_row option \<times> int" where
  "consent_step rg sg r best =
     (if cn_req_group r \<noteq> None \<and> cn_req_group r \<noteq> rg then best
      else if cn_resp_group r \<noteq> None \<and> cn_resp_group r \<noteq> sg then best
      else if snd best < consent_score rg sg r then (Some r, consent_score rg sg r) else best)"

definition pair_rows :: "string \<Rightarrow> string \<Rightarrow> string \<Rightarrow> 'a fed_state_scheme \<Rightarrow> consent_row list" where
  "pair_rows req resp now st =
     filter (\<lambda>r. cn_req_enterprise r = req \<and> cn_resp_enterprise r = resp \<and> consent_live now r) (fe_consents st)"

definition find_cross_enterprise_consent :: "string \<Rightarrow> string \<Rightarrow> string option \<Rightarrow> string option \<Rightarrow> string \<Rightarrow> 'a fed_state_scheme
    \<Rightarrow> consent_row option" where
  "find_cross_enterprise_consent req resp rg sg now st = fst (fold (consent_step rg sg) (pair_rows req resp now st) (None, -1))"

definition find_active_consent_for_pair :: "string \<Rightarrow> string \<Rightarrow> string option \<Rightarrow> string option \<Rightarrow> string \<Rightarrow> 'a fed_state_scheme
    \<Rightarrow> consent_row option" where
  "find_active_consent_for_pair req resp rg sg now st =
     (case sql_fetchone (\<lambda>r. cn_req_enterprise r = req \<and> cn_resp_enterprise r = resp \<and> cn_req_group r = rg
              \<and> cn_resp_group r = sg \<and> consent_live now r) (fe_consents st) of
        None \<Rightarrow> None | Some r \<Rightarrow> get_cross_enterprise_consent (cn_id r) st)"

text \<open>\<open>audit_log_id\<close> is unique, too.\<close>

definition insert_cross_enterprise_consent :: "consent_row \<Rightarrow> 'a fed_state_scheme \<Rightarrow> py_exc + 'a fed_state_scheme" where
  "insert_cross_enterprise_consent r st =
     (if cn_audit_id r \<in> cn_audit_id ` set (fe_consents st) then Inl IntegrityError
      else bind_result (sql_insert cn_id r (fe_consents st)) (\<lambda>t. Inr (st\<lparr>fe_consents := t\<rparr>)))"

definition record_cross_l2_audit :: "audit_row \<Rightarrow> 'a fed_state_scheme \<Rightarrow> py_exc + 'a fed_state_scheme" where
  "record_cross_l2_audit r st = bind_result (sql_insert au_id r (fe_audit st)) (\<lambda>t. Inr (st\<lparr>fe_audit := t\<rparr>))"

section \<open>The consent endpoints\<close>

record sign_request =
  sg_req_enterprise :: string
  sg_resp_enterprise :: string
  sg_req_group :: "string option"
  sg_resp_group :: "string option"
  sg_policy :: string
  sg_expires_at :: "string option"

definition consent_audit :: "string \<Rightarrow> string \<Rightarrow> consent_row \<Rightarrow> string \<Rightarrow> audit_row" where
  "consent_audit aid ts r what =
     \<lparr>au_id = aid, au_ts = ts, au_req_l2 = None, au_req_enterprise = Some (cn_req_enterprise r), au_req_group = cn_req_group r,
      au_req_persona = None, au_resp_l2 = None, au_resp_enterprise = Some (cn_resp_enterprise r),
      au_resp_group = cn_resp_group r, au_policy = what, au_count = 0, au_consent = Some (cn_id r)\<rparr>"

text \<open>\<open>lw_hex_thread\<close> and \<open>lw_hex_msg\<close> stand for the two \<open>uuid4().hex[:20]\<close>.\<close>

definition consents_sign :: "'k l2_world \<Rightarrow> sign_request \<Rightarrow> string \<Rightarrow> 'a fed_state_scheme \<Rightarrow> (http_exc + consent_row) \<times> 'a fed_state_scheme" where
  "consents_sign w req username st =
     (case require_admin st username of
        Inl e \<Rightarrow> (Inl e, st)
      | Inr admin \<Rightarrow>
        if sg_req_enterprise req = [] \<or> sg_resp_enterprise req = [] \<or> sg_req_enterprise req = sg_resp_enterprise req
           \<or> sg_policy req \<noteq> ''summary_only''
        then (Inl (HTTPException 422), st)
        else if find_active_consent_for_pair (sg_req_enterprise req) (sg_resp_enterprise req) (sg_req_group req) (sg_resp_group req)
                  (lw_iso w) st \<noteq> None
        then (Inl (HTTPException 409), st)
        else
          let r = \<lparr>cn_id = ''consent_'' @ lw_hex_thread w, cn_req_enterprise = sg_req_enterprise req,
                   cn_resp_enterprise = sg_resp_enterprise req, cn_req_group = sg_req_group req, cn_resp_group = sg_resp_group req,
                   cn_policy = sg_policy req, cn_signed_by = admin, cn_signed_at = lw_iso w, cn_expires_at = sg_expires_at req,
                   cn_audit_id = ''aud_'' @ lw_hex_msg w\<rparr>
          in (case insert_cross_enterprise_consent r st of
                Inl _ \<Rightarrow> (Inl (HTTPException 500), st)
              | Inr st1 \<Rightarrow>
                  (case record_cross_l2_audit (consent_audit (cn_audit_id r) (lw_iso w) r ''consent_signed'') st1 of
                     Inl _ \<Rightarrow> (Inl (HTTPException 500), st1)
                   | Inr st2 \<Rightarrow> (Inr r, st2))))"

definition consents_list :: "'k l2_world \<Rightarrow> bool \<Rightarrow> int \<Rightarrow> string \<Rightarrow> 'a fed_state_scheme \<Rightarrow> http_exc + consent_row list" where
  "consents_list w include_expired limit username st =
     (case require_admin st username of
        Inl e \<Rightarrow> Inl e
      | Inr _ \<Rightarrow> if limit \<le> 0 \<or> 500 < limit then Inl (HTTPException 422)
                 else Inr (list_cross_enterprise_consents include_expired (lw_iso w) (nat limit) st))"

definition consents_revoke :: "'k l2_world \<Rightarrow> string \<Rightarrow> string \<Rightarrow> 'a fed_state_scheme \<Rightarrow> (http_exc + string) \<times> 'a fed_state_scheme" where
  "consents_revoke w cid username st =
     (case require_admin st username of
        Inl e \<Rightarrow> (Inl e, st)
      | Inr admin \<Rightarrow>
        (case get_cross_enterprise_consent cid st of
           None \<Rightarrow> (Inl (HTTPException 404), st)
         | Some r \<Rightarrow>
             let st1 = snd (revoke_cross_enterprise_consent cid (lw_iso w) st)
             in (case record_cross_l2_audit (consent_audit (''aud_'' @ lw_hex_msg w) (lw_iso w) r ''consent_revoked'') st1 of
                   Inl _ \<Rightarrow> (Inl (HTTPException 500), st1)
                 | Inr st2 \<Rightarrow> (Inr cid, st2))))"

section \<open>Forward queries\<close>

definition decide_policy_for_ku :: "string \<Rightarrow> string \<Rightarrow> bool \<Rightarrow> string \<Rightarrow> string \<Rightarrow> consent_row option \<Rightarrow> string \<times> string list" where
  "decide_policy_for_ku ku_ent ku_grp ku_cross req_ent req_grp consent =
     (if req_ent = ku_ent then
        (if req_grp = ku_grp then (''full_body'', [])
         else if ku_cross then (''full_body'', [])
         else (''summary_only'', [''detail'', ''action'']))
      else (case consent of
              None \<Rightarrow> (''denied'', [])
            | Some c \<Rightarrow> if cn_policy c = ''full_body'' then (''full_body'', []) else (''summary_only'', [''detail'', ''action''])))"

record fq_request =
  fq_vec :: "rat list"
  fq_text :: string
  fq_l2 :: string
  fq_enterprise :: string
  fq_group :: string
  fq_persona :: string
  fq_max :: nat

definition fq_request_ok :: "fq_request \<Rightarrow> bool" where
  "fq_request_ok b \<longleftrightarrow> fq_vec b \<noteq> [] \<and> fq_l2 b \<noteq> [] \<and> fq_enterprise b \<noteq> [] \<and> fq_group b \<noteq> [] \<and> 0 < fq_max b \<and> fq_max b \<le> 20"

text \<open>\<open>vec_json\<close> serialises the list of floats.\<close>

definition fq_json :: "(rat list \<Rightarrow> json) \<Rightarrow> fq_request \<Rightarrow> json" where
  "fq_json vec_json b = JObj
     [(''query_vec'', vec_json (fq_vec b)), (''query_text'', JStr (fq_text b)), (''requester_l2_id'', JStr (fq_l2 b)),
      (''requester_enterprise'', JStr (fq_enterprise b)), (''requester_group'', JStr (fq_group b)),
      (''requester_persona'', JStr (fq_persona b)), (''max_results'', JInt (int (fq_max b)))]"

record fq_hit =
  fh_ku_id :: string
  fh_summary :: string
  fh_detail :: "string option"
  fh_action :: "string option"
  fh_domains :: "string list"
  fh_sim :: rat
  fh_confidence :: rat
  fh_redacted :: "string list"

record fq_response =
  fp_l2 :: string
  fp_enterprise :: string
  fp_group :: string
  fp_policy :: string
  fp_results :: "fq_hit list"

text \<open>The loop over the candidates: \<open>left\<close> more results are wanted.\<close>

definition fq_hit_of :: "string \<Rightarrow> string list \<Rightarrow> scoped_hit \<Rightarrow> fq_hit" where
  "fq_hit_of policy redacted h =
     (let u = sh_unit h; i = ku_insight u
      in \<lparr>fh_ku_id = ku_id u, fh_summary = in_summary i,
          fh_detail = (if policy = ''summary_only'' then None else Some (in_detail i)),
          fh_action = (if policy = ''summary_only'' then None else Some (in_action i)),
          fh_domains = ku_domains u, fh_sim = sh_similarity h, fh_confidence = ev_confidence (ku_evidence u),
          fh_redacted = (if policy = ''summary_only'' then redacted else [])\<rparr>)"

fun fq_collect :: "(scoped_hit \<Rightarrow> string \<times> string list) \<Rightarrow> nat \<Rightarrow> scoped_hit list \<Rightarrow> string \<times> fq_hit list \<Rightarrow> string \<times> fq_hit list" where
  "fq_collect decide left [] acc = acc"
| "fq_collect decide left (h # hs) (response_policy, results) =
     (let (policy, redacted) = decide h
      in if policy = ''denied'' then fq_collect decide left hs (response_policy, results)
         else
           let acc = ((if policy = ''summary_only'' then ''summary_only'' else response_policy), results @ [fq_hit_of policy redacted h])
           in if left \<le> 1 then acc else fq_collect decide (left - 1) hs acc)"

definition json_or_null :: "string \<Rightarrow> json" where
  "json_or_null s = (if s = [] then JNull else JStr s)"

definition some_or_none :: "string \<Rightarrow> string option" where
  "some_or_none s = (if s = [] then None else Some s)"

definition fq_log :: "'k l2_world \<Rightarrow> fq_request \<Rightarrow> string \<Rightarrow> fq_hit list \<Rightarrow> 'a fed_state_scheme \<Rightarrow> 'a fed_state_scheme" where
  "fq_log w b policy results st =
     log_activity (rw_env w) (kw_now_z w) (kw_act_id w) None ''query''
       (Some (JObj [(''source'', JStr ''forward_query''), (''requester_l2_id'', JStr (fq_l2 b)),
          (''requester_enterprise'', JStr (fq_enterprise b)), (''requester_group'', JStr (fq_group b)),
          (''requester_persona'', json_or_null (fq_persona b)), (''max_results'', JInt (int (fq_max b))),
          (''policy_applied'', JStr policy)]))
       (Some (JObj [(''ku_ids'', JArr (map (\<lambda>h. JStr (fh_ku_id h)) results)), (''result_count'', JInt (int (length results))),
          (''cache_hit'', JBool False)])) None st"

definition fq_audit :: "'k l2_world \<Rightarrow> fq_request \<Rightarrow> string \<Rightarrow> nat \<Rightarrow> string option \<Rightarrow> audit_row" where
  "fq_audit w b policy n consent =
     \<lparr>au_id = lw_hex_msg w, au_ts = lw_iso w, au_req_l2 = Some (fq_l2 b), au_req_enterprise = Some (fq_enterprise b),
      au_req_group = Some (fq_group b), au_req_persona = some_or_none (fq_persona b), au_resp_l2 = Some (self_l2_id (rw_env w)),
      au_resp_enterprise = Some (aigrp_enterprise (rw_env w)), au_resp_group = Some (aigrp_group (rw_env w)),
      au_policy = policy, au_count = n, au_consent = consent\<rparr>"

definition fq_answer :: "'k l2_world \<Rightarrow> fq_request \<Rightarrow> string \<Rightarrow> fq_hit list \<Rightarrow> string option \<Rightarrow> 'a fed_state_scheme
    \<Rightarrow> (http_exc + fq_response) \<times> 'a fed_state_scheme" where
  "fq_answer w b policy results consent st =
     (case record_cross_l2_audit (fq_audit w b policy (length results) consent) st of
        Inl _ \<Rightarrow> (Inl (HTTPException 500), st)
      | Inr st1 \<Rightarrow>
          (Inr \<lparr>fp_l2 = self_l2_id (rw_env w), fp_enterprise = aigrp_enterprise (rw_env w), fp_group = aigrp_group (rw_env w),
                fp_policy = policy, fp_results = results\<rparr>,
           fq_log w b policy results st1))"

text \<open>\<open>cosine v\<close> is numpy's similarity of a stored vector with \<open>v\<close>, \<open>zero v\<close> says
  that \<open>v\<close> has norm zero.\<close>

definition fq_consent :: "'k l2_world \<Rightarrow> fq_request \<Rightarrow> 'a fed_state_scheme \<Rightarrow> consent_row option" where
  "fq_consent w b st =
     (if fq_enterprise b = aigrp_enterprise (rw_env w) then None
      else find_cross_enterprise_consent (fq_enterprise b) (aigrp_enterprise (rw_env w)) (Some (fq_group b))
             (Some (aigrp_group (rw_env w))) (lw_iso w) st)"

definition forward_query_results :: "(rat list \<Rightarrow> bool) \<Rightarrow> (rat list \<Rightarrow> bytes \<Rightarrow> rat option) \<Rightarrow> consent_row option \<Rightarrow> fq_request
    \<Rightarrow> 'a ku_db_scheme \<Rightarrow> string \<times> fq_hit list" where
  "forward_query_results zero cosine consent b db =
     fq_collect (\<lambda>h. decide_policy_for_ku (sh_enterprise h) (sh_group h) (sh_cross_group h) (fq_enterprise b) (fq_group b) consent)
       (fq_max b) (semantic_query_with_scope (zero (fq_vec b)) (cosine (fq_vec b)) (fq_max b * 3) ''approved'' db) (''full_body'', [])"

definition aigrp_forward_query :: "'k prims \<Rightarrow> (rat list \<Rightarrow> json) \<Rightarrow> (rat list \<Rightarrow> bool) \<Rightarrow> (rat list \<Rightarrow> bytes \<Rightarrow> rat option) \<Rightarrow> 'k l2_world
    \<Rightarrow> peer_request \<Rightarrow> fq_request \<Rightarrow> 'a fed_state_scheme \<Rightarrow> (http_exc + fq_response) \<times> 'a fed_state_scheme" where
  "aigrp_forward_query C vec_json zero cosine w hs b st =
     (case require_peer_key C (rw_env w) (lw_ssm w) (lw_clock w) hs (co_rt st) of
        (Inl e, rt') \<Rightarrow> (Inl e, st\<lparr>co_rt := rt'\<rparr>)
      | (Inr _, rt') \<Rightarrow>
          let st0 = st\<lparr>co_rt := rt'\<rparr>
          in if \<not> fq_request_ok b then (Inl (HTTPException 422), st0)
             else (case require_forwarder_identity C (rw_env w) hs (fq_l2 b) False (fq_json vec_json b) st0 of
                Inl e \<Rightarrow> (Inl e, st0)
              | Inr _ \<Rightarrow>
                let consent = fq_consent w b st0
                in if fq_enterprise b \<noteq> aigrp_enterprise (rw_env w) \<and> consent = None then fq_answer w b ''denied'' [] None st0
                   else (case forward_query_results zero cosine consent b st0 of
                           (policy, results) \<Rightarrow> fq_answer w b policy results (map_option cn_id consent) st0)))"

end
