(* ===== verification/ConsultMesh.thy ===== *)
theory ConsultMesh imports Consults begin

text \<open>
  Any number of L2s running \<open>consults.py\<close> against each other, in one Enterprise or
  in several. A sent request may be lost, repeated, delayed or delivered to any
  L2. The lemmas: what a handler adds to the tables; that the L2s agree on how
  every thread was opened; and where a message an L2 holds comes from.
\<close>

section \<open>What the handlers add\<close>

text \<open>Status, claim, closing time and resolution are each L2's own: neither a
  claim nor a closing is forwarded. What the L2s can agree on is the rest.\<close>

definition as_opened :: "thread_row \<Rightarrow> thread_row" where
  "as_opened t = t\<lparr>th_status := ''open'', th_claimed_by := None, th_closed_at := None, th_resolution := None\<rparr>"

definition opened :: "'a l2_state_scheme \<Rightarrow> thread_row set" where
  "opened st = as_opened ` set (co_threads st)"

definition adds :: "'a l2_state_scheme \<Rightarrow> thread_row set \<Rightarrow> consult_msg set \<Rightarrow> 'a l2_state_scheme \<Rightarrow> bool" where
  "adds st T M st' \<longleftrightarrow> opened st' = opened st \<union> T \<and> set (co_msgs st') = set (co_msgs st) \<union> M \<and> db_users st' = db_users st"

lemma as_opened_simps [simp]:
  "th_id (as_opened t) = th_id t" "is_from who (as_opened t) = is_from who t"
  "participates who (as_opened t) = participates who t"
  "as_opened (close_row c r t) = as_opened t" "as_opened (body_thread b) = body_thread b"
  "as_opened (new_thread a c d e f g h) = new_thread a c d e f g h" "as_opened (as_opened t) = as_opened t"
  by (simp_all add: as_opened_def is_from_def participates_def close_row_def body_thread_def new_thread_def)

lemma body_simps [simp]:
  "th_id (body_thread b) = fr_thread_id b" "cm_id (body_msg b) = fr_message_id b" "cm_thread (body_msg b) = fr_thread_id b"
  "cm_content (body_msg b) = fr_content b" "cm_from_l2 (body_msg b) = fr_from_l2 b" "cm_from_persona (body_msg b) = fr_from_persona b"
  "cm_id (message_of f) = fm_message_id f" "cm_thread (message_of f) = fm_thread_id f"
  by (simp_all add: body_thread_def new_thread_def body_msg_def message_of_def)

lemma log_consult_frame [simp]:
  "co_threads (log_consult w u e p t st) = co_threads st" "co_msgs (log_consult w u e p t st) = co_msgs st"
  "co_rt (log_consult w u e p t st) = co_rt st" "db_users (log_consult w u e p t st) = db_users st"
  "ag_peers (log_consult w u e p t st) = ag_peers st"
  by (auto simp: log_consult_def log_activity_def append_activity_def sql_insert_def split: sum.splits if_splits)

lemma adds_refl: "co_threads st' = co_threads st \<Longrightarrow> co_msgs st' = co_msgs st \<Longrightarrow> db_users st' = db_users st \<Longrightarrow> adds st {} {} st'"
  by (simp add: adds_def opened_def)

lemma adds_trans: "adds st T M st1 \<Longrightarrow> adds st1 T' M' st2 \<Longrightarrow> adds st (T \<union> T') (M \<union> M') st2"
  by (auto simp: adds_def)

lemma get_consult_None: "get_consult tid st = None \<longleftrightarrow> (\<forall>t \<in> opened st. th_id t \<noteq> tid)"
  by (auto simp: get_consult_def opened_def table_simps)

lemma get_consult_Some: "get_consult tid st = Some t \<Longrightarrow> t \<in> set (co_threads st) \<and> th_id t = tid"
  unfolding get_consult_def by (rule sql_fetchone_SomeD)

lemma create_consult_adds:
  "create_consult t st = Inr st' \<Longrightarrow> adds st {as_opened t} {} st' \<and> get_consult (th_id t) st = None"
  by (auto simp: create_consult_def adds_def opened_def get_consult_def table_simps image_iff)

lemma append_adds:
  "append_consult_message m st = Inr st' \<Longrightarrow> adds st {} {m} st' \<and> (\<exists>t \<in> opened st'. th_id t = cm_thread m)"
  by (auto simp: append_consult_message_def adds_def opened_def split: if_splits)

lemma mirror_locally_adds:
  assumes "mirror_locally t m policy st = (res, st')"
  shows "adds st {} {} st' \<and> res \<noteq> Inr ()
    \<or> (\<exists>M. adds st {as_opened t} M st' \<and> get_consult (th_id t) st = None \<and> (res = Inr () \<or> M = {})
         \<and> (M = {} \<and> (res = Inr () \<longrightarrow> policy = ''no_log_consults'') \<or> M = {m\<lparr>cm_content := redact_for_policy (cm_content m) policy\<rparr>}))"
proof (cases "create_consult t st")
  case (Inl e)
  with assms show ?thesis by (auto simp: mirror_locally_def adds_refl)
next
  case (Inr st1)
  note c = create_consult_adds [OF Inr]
  show ?thesis
  proof (cases "policy = ''no_log_consults''")
    case True
    with assms Inr have "res = Inr ()" "st' = st1" by (simp_all add: mirror_locally_def)
    with c True show ?thesis by blast
  next
    case False
    show ?thesis
    proof (cases "append_consult_message (m\<lparr>cm_content := redact_for_policy (cm_content m) policy\<rparr>) st1")
      case Inl': (Inl e)
      with assms Inr False have "res \<noteq> Inr ()" "st' = st1" by (auto simp: mirror_locally_def)
      with c show ?thesis by blast
    next
      case Inr': (Inr st2)
      with assms Inr False have "res = Inr ()" "st' = st2" by (auto simp: mirror_locally_def)
      with c append_adds [OF Inr'] adds_trans [of st "{as_opened t}" "{}" st1 "{}"] show ?thesis by fastforce
    qed
  qed
qed

lemma forward_to_peer_adds:
  "forward_to_peer C w p payload wire st = (res, out, st') \<Longrightarrow> adds st {} {} st' \<and> (\<forall>og \<in> set out. og_wire og = wire)"
  by (auto simp: forward_to_peer_def adds_def opened_def Let_def split: prod.splits if_splits)

lemma x_forward_wires:
  "x_enterprise_forward_request C w p ep b = (res, out) \<Longrightarrow> og \<in> set out \<Longrightarrow> og_wire og = WireXRequest b"
  by (auto simp: x_enterprise_forward_request_def Let_def split: json.splits option.splits sum.splits)

text \<open>The L2 a thread is with belongs to another Enterprise than the L2 with this
  environment.\<close>

definition abroad :: "env \<Rightarrow> string \<Rightarrow> bool" where
  "abroad env to_l2 \<longleftrightarrow> fst (partition_on (CHR ''/'') to_l2) \<noteq> aigrp_enterprise env"

lemma peered_route_abroad: "request_route w l2 to_l2 st = Inr (Peered p ep) \<Longrightarrow> abroad (rw_env w) to_l2"
  by (auto simp: request_route_def abroad_def split: if_splits prod.splits option.splits sum.splits)

lemma send_on_route_adds:
  assumes "send_on_route C w r b st = (res, out, st')"
  shows "adds st {} {} st'" and "og \<in> set out \<Longrightarrow> (case r of SameL2 \<Rightarrow> False | Sibling _ \<Rightarrow> og_wire og = WireRequest b | Peered _ _ \<Rightarrow> og_wire og = WireXRequest b)"
  using assms by (auto simp: send_on_route_def adds_refl dest: forward_to_peer_adds x_forward_wires split: route.splits prod.splits)

lemma redact_mutual [simp]: "redact_for_policy c ''mutual_log_required'' = c"
  by (simp add: redact_for_policy_def)

section \<open>One lemma per handler\<close>

text \<open>Opening: nothing, or the thread, its message and the requests that carry
  exactly them.\<close>

lemma request_consult_adds:
  assumes "request_consult C w req un st = (res, out, st')"
  shows "adds st {} {} st' \<and> out = []
    \<or> (\<exists>b M. fr_thread_id b = ''th_'' @ lw_hex_thread w \<and> self_identity un st = Inr (fr_from_l2 b, un) \<and> fr_from_persona b = un
         \<and> adds st {body_thread b} M st' \<and> get_consult (fr_thread_id b) st = None
         \<and> (M = {} \<or> (\<exists>c. M = {(body_msg b)\<lparr>cm_content := c\<rparr>}))
         \<and> (\<forall>og \<in> set out. og_wire og = WireRequest b \<and> M = {body_msg b}
             \<or> og_wire og = WireXRequest b \<and> abroad (rw_env w) (fr_to_l2 b)))"
proof (cases "consult_request_ok req \<and> self_identity un st \<noteq> Inl (HTTPException 401)")
  case False
  with assms show ?thesis
    by (auto simp: request_consult_def self_identity_def adds_refl split: option.splits if_splits)
next
  case True
  then obtain l2 where who: "self_identity un st = Inr (l2, un)" by (auto simp: self_identity_def split: option.splits)
  show ?thesis
  proof (cases "request_route w l2 (cr_to_l2 req) st")
    case (Inl e)
    with assms True who show ?thesis by (auto simp: request_consult_def adds_refl)
  next
    case (Inr r)
    let ?b = "request_body w l2 un req"
    have b: "fr_thread_id ?b = ''th_'' @ lw_hex_thread w" "fr_from_l2 ?b = l2" "fr_from_persona ?b = un"
      "fr_to_l2 ?b = cr_to_l2 req"
      by (simp_all add: request_body_def)
    obtain res1 st1 where m: "mirror_locally (body_thread ?b) (body_msg ?b) (route_policy r) st = (res1, st1)" by fastforce
    show ?thesis
    proof (cases res1)
      case Inl': (Inl e)
      with assms True who Inr m have "out = []" "st' = st1" by (auto simp: request_consult_def Let_def)
      with mirror_locally_adds [OF m] b who Inl' show ?thesis by fastforce
    next
      case Inr': (Inr u)
      then obtain M where M: "adds st {body_thread ?b} M st1" "get_consult (fr_thread_id ?b) st = None"
        "M = {} \<and> route_policy r = ''no_log_consults'' \<or> M = {(body_msg ?b)\<lparr>cm_content := redact_for_policy (fr_content ?b) (route_policy r)\<rparr>}"
        using mirror_locally_adds [OF m] by auto
      obtain res2 out2 st2 where snd: "send_on_route C w r ?b st1 = (res2, out2, st2)" by (metis prod_cases3)
      have out: "out = out2" and st': "adds st2 {} {} st'"
        using assms True who Inr m Inr' snd
        by (auto simp: request_consult_def Let_def adds_refl split: sum.splits option.splits)
      have "adds st {body_thread ?b} M st'"
        using adds_trans [OF M(1) adds_trans [OF send_on_route_adds(1) [OF snd] st']] by simp
      moreover have "og_wire og = WireRequest ?b \<and> M = {body_msg ?b}
          \<or> og_wire og = WireXRequest ?b \<and> abroad (rw_env w) (fr_to_l2 ?b)" if "og \<in> set out" for og
        using send_on_route_adds(2) [OF snd] that out M(3) peered_route_abroad [of w l2 "cr_to_l2 req" st] Inr b(4)
        by (cases r) (auto simp: route_policy_def)
      ultimately show ?thesis using M b who by (intro disjI2 exI [of _ ?b] exI [of _ M]) auto
    qed
  qed
qed

text \<open>A reply: nothing, or a participant's message in an existing thread and the
  requests that carry exactly it.\<close>

lemma participant_threadD:
  assumes "participant_thread tid un st = Inr (who, t)"
  shows "t \<in> set (co_threads st)" "th_id t = tid" "participates who t" "self_identity un st = Inr who" "snd who = un"
  using assms
  by (auto simp: participant_thread_def self_identity_def dest!: get_consult_Some split: option.splits if_splits)

lemma post_consult_message_adds:
  assumes "post_consult_message C w tid content un st = (res, out, st')"
  shows "adds st {} {} st' \<and> out = []
    \<or> (\<exists>t m. t \<in> set (co_threads st) \<and> th_id t = tid \<and> cm_thread m = tid \<and> cm_from_persona m = un
         \<and> self_identity un st = Inr (cm_from_l2 m, un) \<and> participates (cm_from_l2 m, un) t
         \<and> adds st {} {m} st' \<and> (\<forall>og \<in> set out. og_wire og = WireMessage (reply_body t m)))"
proof (cases "text_ok 1 4096 content")
  case False
  with assms show ?thesis by (simp add: post_consult_message_def adds_refl)
next
  case ok: True
  show ?thesis
  proof (cases "participant_thread tid un st")
    case (Inl e)
    with assms ok show ?thesis by (simp add: post_consult_message_def adds_refl)
  next
    case (Inr a)
    then obtain who t where pt: "participant_thread tid un st = Inr (who, t)" by (cases a) auto
    note facts = participant_threadD [OF pt]
    define m where "m = \<lparr>cm_id = ''msg_'' @ lw_hex_msg w, cm_thread = tid, cm_from_l2 = fst who, cm_from_persona = snd who,
                   cm_content = content, cm_created_at = lw_iso w\<rparr>"
    show ?thesis
    proof (cases "append_consult_message m st")
      case (Inl e)
      with assms ok pt show ?thesis by (auto simp: post_consult_message_def adds_refl Let_def m_def split: if_splits)
    next
      case (Inr st1)
      note ap = conjunct1 [OF append_adds [OF Inr]]
      define other where "other = (if is_from who t then th_to_l2 t else th_from_l2 t)"
      define peer where "peer = (if other = fst who then None else resolve_peer other st)"
      note eq = assms [symmetric, unfolded post_consult_message_def eqTrueI [OF ok] pt not_True_eq_False if_False sum.case
          prod.case Let_def, folded m_def, folded other_def, folded peer_def]
      let ?send = "case peer of None \<Rightarrow> (Inr (), [], st1)
        | Some p \<Rightarrow> forward_to_peer C w p (forward_message_json (reply_body t m)) (WireMessage (reply_body t m)) st1"
      obtain res2 out2 st2 where send: "?send = (res2, out2, st2)" by (metis prod_cases3)
      have wires: "adds st1 {} {} st2 \<and> (\<forall>og \<in> set out2. og_wire og = WireMessage (reply_body t m))"
        using send by (cases peer) (auto simp: adds_refl dest: forward_to_peer_adds)
      have "adds st {} {} st' \<and> out = [] \<or> adds st1 {} {} st' \<and> (\<forall>og \<in> set out. og_wire og = WireMessage (reply_body t m))"
      proof (cases "th_status t = ''closed'' \<or> other \<noteq> fst who \<and> peer = None")
        case True
        with eq have "out = []" "st' = st" by (cases "th_status t = ''closed''"; simp)+
        then show ?thesis by (simp add: adds_refl)
      next
        case False
        have "(res, out, st') = (case ?send of (Inl e, out, st2) \<Rightarrow> (Inl e, out, st2)
            | (Inr _, out, st2) \<Rightarrow> (Inr m, out, log_consult w un ''consult_reply''
                 (JObj [(''thread_id'', JStr tid), (''message_id'', JStr (cm_id m))]) tid st2))"
          using eq False Inr by simp
        then have "out = out2 \<and> co_threads st' = co_threads st2 \<and> co_msgs st' = co_msgs st2 \<and> db_users st' = db_users st2"
          unfolding send by (auto split: sum.splits)
        with wires show ?thesis by (simp add: adds_def opened_def)
      qed
      then show ?thesis
      proof
        assume a: "adds st1 {} {} st' \<and> (\<forall>og \<in> set out. og_wire og = WireMessage (reply_body t m))"
        have "adds st {} {m} st'" using adds_trans [OF ap conjunct1 [OF a]] by simp
        with a facts show ?thesis by (intro disjI2 exI [of _ t] exI [of _ m]) (cases who, auto simp: m_def)
      qed blast
    qed
  qed
qed

lemma close_consult_route_adds:
  assumes "close_consult_route C w tid reason res un st = (r, st')"
  shows "adds st {} {} st'"
proof -
  have "as_opened ` set (sql_update P (close_row c q) ts) = as_opened ` set ts" for P c q ts
    by (induction ts) auto
  then have cl: "adds st {} {} (snd (close_consult tid c q st))" for c q
    by (simp add: close_consult_def adds_def opened_def Let_def)
  obtain d st1 where c: "close_consult tid (lw_iso w) res st = (d, st1)" by fastforce
  with cl [of "lw_iso w" res] have "adds st {} {} st1" by simp
  then show ?thesis
    using assms c
    by (auto simp: close_consult_route_def adds_def opened_def Let_def split: if_splits sum.splits option.splits)
qed

text \<open>What a receiving endpoint adds: the thread it names if there was none of
  that id, and the message it names, which then has its thread.\<close>

definition receives :: "'a l2_state_scheme \<Rightarrow> thread_row option \<Rightarrow> consult_msg \<Rightarrow> 'a l2_state_scheme \<Rightarrow> bool" where
  "receives st t m st' \<longleftrightarrow> (\<exists>T M. adds st T M st'
     \<and> (T = {} \<or> (\<exists>t0. t = Some t0 \<and> T = {as_opened t0} \<and> get_consult (th_id t0) st = None))
     \<and> (M = {} \<or> M = {m} \<and> (\<exists>t \<in> opened st'. th_id t = cm_thread m)))"

lemma mirror_message_receives:
  "mirror_message m st = (r, st') \<Longrightarrow> \<exists>M. adds st {} M st' \<and> (M = {} \<or> M = {m} \<and> (\<exists>t \<in> opened st'. th_id t = cm_thread m))"
proof (cases "append_consult_message m st")
  case (Inl e)
  moreover assume "mirror_message m st = (r, st')"
  ultimately have "st' = st" by (auto simp: mirror_message_def split: insert_failure.splits)
  then show ?thesis using adds_refl [of st st] by blast
next
  case (Inr st1)
  moreover assume "mirror_message m st = (r, st')"
  ultimately have "st' = st1" by (auto simp: mirror_message_def)
  with append_adds [OF Inr] show ?thesis by blast
qed

lemma mirror_thread_adds:
  "mirror_thread t st = Inr st1 \<Longrightarrow> \<exists>T. adds st T {} st1 \<and> (T = {} \<or> T = {as_opened t} \<and> get_consult (th_id t) st = None)"
  by (auto simp: mirror_thread_def adds_refl dest!: create_consult_adds split: sum.splits if_splits)

lemma mirror_receives:
  assumes "mirror_thread t st = Inr st1" and "mirror_message m st1 = (r, st')"
  shows "receives st (Some t) m st'"
proof -
  from mirror_thread_adds [OF assms(1)] obtain T where T: "adds st T {} st1" "T = {} \<or> T = {as_opened t} \<and> get_consult (th_id t) st = None" by blast
  from mirror_message_receives [OF assms(2)] obtain M where
    M: "adds st1 {} M st'" "M = {} \<or> M = {m} \<and> (\<exists>t \<in> opened st'. th_id t = cm_thread m)" by blast
  from adds_trans [OF T(1) M(1)] T(2) M(2) show ?thesis unfolding receives_def by auto
qed

lemma receives_refl: "adds st {} {} st' \<Longrightarrow> receives st t m st'"
  unfolding receives_def by blast

lemma receives_rt: "receives (st\<lparr>co_rt := rt\<rparr>) t m st' = receives st t m st'"
  by (simp add: receives_def adds_def opened_def get_consult_def)

lemma forward_consult_request_receives:
  assumes "forward_consult_request C w req b st = (r, st')"
  shows "receives st (Some (body_thread b)) (body_msg b) st'"
proof -
  obtain k rt where g: "require_peer_key C (rw_env w) (lw_ssm w) (lw_clock w) req (co_rt st) = (k, rt)" by fastforce
  let ?st0 = "st\<lparr>co_rt := rt\<rparr>"
  have "adds st {} {} ?st0" by (rule adds_refl) simp_all
  then have same: "st' = ?st0 \<Longrightarrow> ?thesis" by (simp add: receives_refl)
  show ?thesis
  proof (cases "k = Inl undefined \<or> (\<exists>e. k = Inl e) \<or> \<not> forward_request_ok b
      \<or> (\<exists>e. require_forwarder_identity C (rw_env w) req (fr_from_l2 b) True (forward_request_json b) ?st0 = Inl e)
      \<or> (\<exists>e. mirror_thread (body_thread b) ?st0 = Inl e)")
    case True
    with assms g show ?thesis by (intro same) (auto simp: forward_consult_request_def Let_def split: sum.splits if_splits)
  next
    case False
    then obtain st1 where st1: "mirror_thread (body_thread b) ?st0 = Inr st1" by (metis sum.exhaust)
    with False assms g have "mirror_message (body_msg b) st1 = (r, st')"
      by (auto simp: forward_consult_request_def Let_def split: sum.splits if_splits)
    from mirror_receives [OF st1 this] show ?thesis by (simp add: receives_rt)
  qed
qed

lemma forward_consult_message_receives:
  assumes "forward_consult_message C w req b st = (r, st')"
  shows "receives st (metadata_thread b) (message_of b) st'"
proof -
  obtain k rt where g: "require_peer_key C (rw_env w) (lw_ssm w) (lw_clock w) req (co_rt st) = (k, rt)" by fastforce
  let ?st0 = "st\<lparr>co_rt := rt\<rparr>"
  let ?next = "if get_consult (fm_thread_id b) ?st0 \<noteq> None then Inr ?st0
     else (case metadata_thread b of None \<Rightarrow> Inl (HTTPException 400) | Some t \<Rightarrow> mirror_thread t ?st0)"
  have "adds st {} {} ?st0" by (rule adds_refl) simp_all
  then have same: "st' = ?st0 \<Longrightarrow> ?thesis" by (simp add: receives_refl)
  show ?thesis
  proof (cases "(\<exists>e. k = Inl e) \<or> \<not> forward_message_ok b
      \<or> (\<exists>e. require_forwarder_identity C (rw_env w) req (fm_from_l2 b) True (forward_message_json b) ?st0 = Inl e)
      \<or> (\<exists>e. ?next = Inl e)")
    case True
    with assms g show ?thesis
      by (intro same) (auto simp: forward_consult_message_def Let_def split: sum.splits if_splits)
  next
    case False
    then obtain st1 where st1: "?next = Inr st1" by (metis sum.exhaust)
    with False assms g have mm: "mirror_message (message_of b) st1 = (r, st')"
      by (auto simp: forward_consult_message_def Let_def split: sum.splits if_splits)
    show ?thesis
    proof (cases "get_consult (fm_thread_id b) ?st0")
      case None
      with st1 obtain t where "metadata_thread b = Some t" "mirror_thread t ?st0 = Inr st1" by (auto split: option.splits)
      with mirror_receives [OF _ mm] have "receives ?st0 (metadata_thread b) (message_of b) st'" by simp
      then show ?thesis by (simp only: receives_rt)
    next
      case (Some t)
      with st1 have "st1 = ?st0" by simp
      with mirror_message_receives [OF mm] have "receives ?st0 (metadata_thread b) (message_of b) st'"
        unfolding receives_def by blast
      then show ?thesis by (simp add: receives_rt)
    qed
  qed
qed

text \<open>Across Enterprises the message is stored as the peering's policy says.\<close>

lemma x_enterprise_forward_receives:
  assumes "x_enterprise_forward_consult_request C w req b st = (r, st')"
  shows "\<exists>policy. receives st (Some (body_thread b)) ((body_msg b)\<lparr>cm_content := redact_for_policy (fr_content b) policy\<rparr>) st'"
proof (cases "forward_request_ok b \<and> (\<exists>p st1. require_x_enterprise_auth C w req b st = Inr p
    \<and> \<not> (fr_to_persona b \<noteq> [] \<and> \<not> persona_on_l2 (rw_env w) (fr_to_persona b) st) \<and> mirror_thread (body_thread b) st = Inr st1)")
  case False
  with assms have "st' = st"
    by (auto simp: x_enterprise_forward_consult_request_def Let_def split: sum.splits if_splits)
  then show ?thesis by (auto intro: receives_refl adds_refl)
next
  case True
  then obtain p st1 where p: "require_x_enterprise_auth C w req b st = Inr p" and st1: "mirror_thread (body_thread b) st = Inr st1" by blast
  show ?thesis
  proof (cases "pe_logging_policy p = ''no_log_consults''")
    case True': True
    with assms True p st1 have "st' = st1"
      by (auto simp: x_enterprise_forward_consult_request_def Let_def split: if_splits)
    with mirror_thread_adds [OF st1] show ?thesis unfolding receives_def by blast
  next
    case False
    with assms True p st1 obtain r' where "mirror_message ((body_msg b)\<lparr>cm_content := redact_for_policy (fr_content b) (pe_logging_policy p)\<rparr>) st1 = (r', st')"
      by (auto simp: x_enterprise_forward_consult_request_def Let_def split: if_splits prod.splits sum.splits)
    from mirror_receives [OF st1 this] show ?thesis by blast
  qed
qed

section \<open>Several L2s\<close>

text \<open>The L2s by name, and every request any of them ever sent. \<open>envs\<close> gives each
  its environment. Between the consult requests anything else may happen to an
  L2 that leaves its users and consults alone.\<close>

record mesh =
  ms_node :: "string \<Rightarrow> l2_state"
  ms_sent :: "outgoing list"

definition at_node :: "string \<Rightarrow> l2_state \<Rightarrow> outgoing list \<Rightarrow> mesh \<Rightarrow> mesh" where
  "at_node l st out m = m\<lparr>ms_node := (ms_node m)(l := st), ms_sent := ms_sent m @ out\<rparr>"

text \<open>Thread ids come from \<open>uuid4\<close>: no L2 has the new one yet.\<close>

definition fresh_thread :: "string \<Rightarrow> mesh \<Rightarrow> bool" where
  "fresh_thread tid m \<longleftrightarrow> (\<forall>l. get_consult tid (ms_node m l) = None)"

inductive mesh_step :: "'k prims \<Rightarrow> (string \<Rightarrow> env) \<Rightarrow> mesh \<Rightarrow> mesh \<Rightarrow> bool" for C envs where
  step_open: "rw_env w = envs l \<Longrightarrow> fresh_thread (''th_'' @ lw_hex_thread w) m
     \<Longrightarrow> request_consult C w req un (ms_node m l) = (res, out, st) \<Longrightarrow> mesh_step C envs m (at_node l st out m)"
| step_reply: "rw_env w = envs l \<Longrightarrow> post_consult_message C w tid content un (ms_node m l) = (res, out, st)
     \<Longrightarrow> mesh_step C envs m (at_node l st out m)"
| step_close: "rw_env w = envs l \<Longrightarrow> close_consult_route C w tid reason summary un (ms_node m l) = (res, st)
     \<Longrightarrow> mesh_step C envs m (at_node l st [] m)"
| step_request_arrives: "rw_env w = envs l \<Longrightarrow> og \<in> set (ms_sent m) \<Longrightarrow> og_wire og = WireRequest b
     \<Longrightarrow> forward_consult_request C w (og_headers og) b (ms_node m l) = (res', st) \<Longrightarrow> mesh_step C envs m (at_node l st [] m)"
| step_message_arrives: "rw_env w = envs l \<Longrightarrow> og \<in> set (ms_sent m) \<Longrightarrow> og_wire og = WireMessage f
     \<Longrightarrow> forward_consult_message C w (og_headers og) f (ms_node m l) = (res', st) \<Longrightarrow> mesh_step C envs m (at_node l st [] m)"
| step_x_request_arrives: "rw_env w = envs l \<Longrightarrow> og \<in> set (ms_sent m) \<Longrightarrow> og_wire og = WireXRequest b
     \<Longrightarrow> x_enterprise_forward_consult_request C w (og_headers og) b (ms_node m l) = (res'', st) \<Longrightarrow> mesh_step C envs m (at_node l st [] m)"
| step_elsewhere: "co_threads st = co_threads (ms_node m l) \<Longrightarrow> co_msgs st = co_msgs (ms_node m l)
     \<Longrightarrow> db_users st = db_users (ms_node m l) \<Longrightarrow> mesh_step C envs m (at_node l st [] m)"

definition mesh_start :: "mesh \<Rightarrow> bool" where
  "mesh_start m \<longleftrightarrow> (\<forall>l. co_threads (ms_node m l) = [] \<and> co_msgs (ms_node m l) = []) \<and> ms_sent m = []"

text \<open>A message some L2 has, by a user of that L2 who takes part in its thread.\<close>

definition authored :: "mesh \<Rightarrow> consult_msg \<Rightarrow> bool" where
  "authored m x \<longleftrightarrow> (\<exists>k. \<exists>t \<in> opened (ms_node m k). x \<in> set (co_msgs (ms_node m k)) \<and> th_id t = cm_thread x
     \<and> self_identity (cm_from_persona x) (ms_node m k) = Inr (cm_from_l2 x, cm_from_persona x)
     \<and> participates (cm_from_l2 x, cm_from_persona x) t)"

text \<open>A message that opened a thread with another Enterprise, as the L2 that received
  the request logs it: with its text, or with what some policy leaves of it.\<close>

definition sent_abroad :: "env \<Rightarrow> mesh \<Rightarrow> thread_row \<Rightarrow> consult_msg \<Rightarrow> bool" where
  "sent_abroad env m t x \<longleftrightarrow> is_from (cm_from_l2 x, cm_from_persona x) t \<and> abroad env (th_to_l2 t)
     \<and> (\<exists>og \<in> set (ms_sent m). \<exists>b policy. og_wire og = WireXRequest b \<and> body_thread b = t
          \<and> x = (body_msg b)\<lparr>cm_content := redact_for_policy (fr_content b) policy\<rparr>)"

definition delivered_abroad :: "(string \<Rightarrow> env) \<Rightarrow> mesh \<Rightarrow> consult_msg \<Rightarrow> bool" where
  "delivered_abroad envs m x \<longleftrightarrow> (\<exists>k. \<exists>t \<in> opened (ms_node m k). th_id t = cm_thread x
     \<and> self_identity (cm_from_persona x) (ms_node m k) = Inr (cm_from_l2 x, cm_from_persona x) \<and> sent_abroad (envs k) m t x)"

definition wire_ok :: "(string \<Rightarrow> env) \<Rightarrow> mesh \<Rightarrow> wire \<Rightarrow> bool" where
  "wire_ok envs m x \<longleftrightarrow> (case x of
     WireRequest b \<Rightarrow> (\<exists>k. body_thread b \<in> opened (ms_node m k)) \<and> authored m (body_msg b)
   | WireMessage f \<Rightarrow> (\<forall>t. metadata_thread f = Some t \<longrightarrow> (\<exists>k. t \<in> opened (ms_node m k))) \<and> authored m (message_of f)
   | WireXRequest b \<Rightarrow> (\<exists>k. body_thread b \<in> opened (ms_node m k) \<and> abroad (envs k) (fr_to_l2 b)
       \<and> self_identity (fr_from_persona b) (ms_node m k) = Inr (fr_from_l2 b, fr_from_persona b)))"

definition mesh_inv :: "(string \<Rightarrow> env) \<Rightarrow> mesh \<Rightarrow> bool" where
  "mesh_inv envs m \<longleftrightarrow>
     (\<forall>k l. \<forall>t \<in> opened (ms_node m k). \<forall>u \<in> opened (ms_node m l). th_id t = th_id u \<longrightarrow> t = u)
   \<and> (\<forall>l. \<forall>x \<in> set (co_msgs (ms_node m l)). (authored m x \<or> delivered_abroad envs m x)
        \<and> (\<exists>t \<in> opened (ms_node m l). th_id t = cm_thread x))
   \<and> (\<forall>og \<in> set (ms_sent m). wire_ok envs m (og_wire og))"

lemma at_node_simps [simp]:
  "ms_node (at_node l st out m) k = (if k = l then st else ms_node m k)" "ms_sent (at_node l st out m) = ms_sent m @ out"
  by (simp_all add: at_node_def)

lemma adds_more:
  assumes "adds (ms_node m l) T M st"
  shows "opened (ms_node m k) \<subseteq> opened (ms_node (at_node l st out m) k)"
    "set (co_msgs (ms_node m k)) \<subseteq> set (co_msgs (ms_node (at_node l st out m) k))"
    "self_identity un (ms_node (at_node l st out m) k) = self_identity un (ms_node m k)"
  using assms by (auto simp: adds_def self_identity_def get_user_def)

lemma authored_more:
  assumes "adds (ms_node m l) T M st" and "authored m x"
  shows "authored (at_node l st out m) x"
proof -
  from assms(2) obtain k t where
    "t \<in> opened (ms_node m k)" "x \<in> set (co_msgs (ms_node m k))" "th_id t = cm_thread x"
    "self_identity (cm_from_persona x) (ms_node m k) = Inr (cm_from_l2 x, cm_from_persona x)"
    "participates (cm_from_l2 x, cm_from_persona x) t"
    unfolding authored_def by blast
  with adds_more [OF assms(1), where k = k and out = out] show ?thesis unfolding authored_def by (metis subsetD)
qed

lemma delivered_abroad_more:
  assumes "adds (ms_node m l) T M st" and "delivered_abroad envs m x"
  shows "delivered_abroad envs (at_node l st out m) x"
proof -
  from assms(2) obtain k t where
    "t \<in> opened (ms_node m k)" "th_id t = cm_thread x" "sent_abroad (envs k) m t x"
    "self_identity (cm_from_persona x) (ms_node m k) = Inr (cm_from_l2 x, cm_from_persona x)"
    unfolding delivered_abroad_def by blast
  moreover from this(3) have "sent_abroad (envs k) (at_node l st out m) t x"
    unfolding sent_abroad_def by auto
  ultimately show ?thesis using adds_more [OF assms(1), where k = k and out = out] unfolding delivered_abroad_def by (metis subsetD)
qed

lemma wire_ok_more:
  assumes "adds (ms_node m l) T M st" and "wire_ok envs m x"
  shows "wire_ok envs (at_node l st out m) x"
proof (cases "\<exists>b. x = WireXRequest b")
  case True
  then obtain b k where b: "x = WireXRequest b" "body_thread b \<in> opened (ms_node m k)" "abroad (envs k) (fr_to_l2 b)"
    "self_identity (fr_from_persona b) (ms_node m k) = Inr (fr_from_l2 b, fr_from_persona b)"
    using assms(2) by (auto simp: wire_ok_def)
  note more = adds_more [OF assms(1), where k = k and out = out]
  from more(1) b(2) have "body_thread b \<in> opened (ms_node (at_node l st out m) k)" by blast
  with b(3,4) show ?thesis unfolding b(1) wire_ok_def wire.case
    by (intro exI [of _ k]) (simp only: more(3) simp_thms)
next
  case False
  have "(\<exists>k. t \<in> opened (ms_node m k)) \<Longrightarrow> (\<exists>k. t \<in> opened (ms_node (at_node l st out m) k))" for t
    using adds_more(1) [OF assms(1)] by blast
  with False assms(2) show ?thesis
    by (auto simp: wire_ok_def simp del: at_node_simps intro: authored_more [OF assms(1)] split: wire.splits)
qed

text \<open>The invariant survives a step that adds consistent threads, authored
  messages and good requests.\<close>

lemma mesh_inv_adds:
  assumes "mesh_inv envs m" and "adds (ms_node m l) T M st"
    and "\<And>t u k. t \<in> T \<Longrightarrow> u \<in> opened (ms_node m k) \<Longrightarrow> th_id t = th_id u \<Longrightarrow> t = u"
    and "\<And>t u. t \<in> T \<Longrightarrow> u \<in> T \<Longrightarrow> t = u"
    and "\<And>x. x \<in> M \<Longrightarrow> (authored (at_node l st out m) x \<or> delivered_abroad envs (at_node l st out m) x)
        \<and> (\<exists>t \<in> opened st. th_id t = cm_thread x)"
    and "\<And>og. og \<in> set out \<Longrightarrow> wire_ok envs (at_node l st out m) (og_wire og)"
  shows "mesh_inv envs (at_node l st out m)"
proof -
  let ?m = "at_node l st out m"
  have op: "t \<in> opened (ms_node ?m k) \<Longrightarrow> t \<in> T \<or> (\<exists>k. t \<in> opened (ms_node m k))" for t k
    using assms(2) by (auto simp: adds_def split: if_splits)
  have "t = u" if "t \<in> opened (ms_node ?m k)" "u \<in> opened (ms_node ?m k')" "th_id t = th_id u" for t u k k'
  proof -
    from assms(1) have old: "\<And>k k' t u. t \<in> opened (ms_node m k) \<Longrightarrow> u \<in> opened (ms_node m k') \<Longrightarrow> th_id t = th_id u \<Longrightarrow> t = u"
      unfolding mesh_inv_def by blast
    from op [OF that(1)] op [OF that(2)] show ?thesis
      using old assms(3,4) that(3) by metis
  qed
  moreover have "(authored ?m x \<or> delivered_abroad envs ?m x) \<and> (\<exists>t \<in> opened (ms_node ?m k). th_id t = cm_thread x)" if "x \<in> set (co_msgs (ms_node ?m k))" for x k
  proof (cases "x \<in> set (co_msgs (ms_node m k))")
    case True
    with assms(1) have "authored m x \<or> delivered_abroad envs m x" "\<exists>t \<in> opened (ms_node m k). th_id t = cm_thread x"
      unfolding mesh_inv_def by blast+
    with authored_more [OF assms(2)] delivered_abroad_more [OF assms(2)] adds_more(1) [OF assms(2)] show ?thesis by blast
  next
    case False
    with that assms(2) have "x \<in> M \<and> k = l" by (auto simp: adds_def split: if_splits)
    with assms(5) show ?thesis by simp
  qed
  moreover have "wire_ok envs ?m (og_wire og)" if "og \<in> set (ms_sent ?m)" for og
    using that assms(1,6) wire_ok_more [OF assms(2)] unfolding mesh_inv_def by auto
  ultimately show ?thesis unfolding mesh_inv_def by blast
qed

lemma mesh_inv_start: "mesh_start m \<Longrightarrow> mesh_inv envs m"
  by (simp add: mesh_start_def mesh_inv_def opened_def)

lemma mesh_inv_none: "mesh_inv envs m \<Longrightarrow> adds (ms_node m l) {} {} st \<Longrightarrow> mesh_inv envs (at_node l st [] m)"
  by (rule mesh_inv_adds) auto

text \<open>A request this L2 received: its thread and message are what a good request carries.\<close>

lemma mesh_inv_receives:
  assumes "mesh_inv envs m" and "receives (ms_node m l) t x st"
    and "authored m x \<or> delivered_abroad envs m x" and "\<And>u. t = Some u \<Longrightarrow> as_opened u = u \<and> (\<exists>k. u \<in> opened (ms_node m k))"
  shows "mesh_inv envs (at_node l st [] m)"
proof -
  from assms(2) obtain T M where a: "adds (ms_node m l) T M st"
    and T: "T = {} \<or> (\<exists>u. t = Some u \<and> T = {as_opened u})" and M: "M = {} \<or> M = {x} \<and> (\<exists>t \<in> opened st. th_id t = cm_thread x)"
    unfolding receives_def by blast
  have in_mesh: "u \<in> T \<Longrightarrow> (\<exists>k. u \<in> opened (ms_node m k)) \<and> T = {u}" for u
    using T assms(4) by auto
  from assms(1) have same: "\<And>k k' t u. t \<in> opened (ms_node m k) \<Longrightarrow> u \<in> opened (ms_node m k') \<Longrightarrow> th_id t = th_id u \<Longrightarrow> t = u"
    unfolding mesh_inv_def by blast
  show ?thesis
  proof (rule mesh_inv_adds [OF assms(1) a])
    fix v u k assume "v \<in> T" "u \<in> opened (ms_node m k)" "th_id v = th_id u"
    with in_mesh [of v] same show "v = u" by metis
  next
    fix v u assume "v \<in> T" "u \<in> T" with in_mesh [of v] show "v = u" by blast
  next
    fix y assume "y \<in> M"
    with M assms(3) authored_more [OF a, of x "[]"] delivered_abroad_more [OF a, of envs x "[]"]
    show "(authored (at_node l st [] m) y \<or> delivered_abroad envs (at_node l st [] m) y)
        \<and> (\<exists>t \<in> opened st. th_id t = cm_thread y)" by auto
  qed simp
qed

lemma wire_ok_sent: "mesh_inv envs m \<Longrightarrow> og \<in> set (ms_sent m) \<Longrightarrow> wire_ok envs m (og_wire og)"
  unfolding mesh_inv_def by blast

lemma metadata_reply: "metadata_thread (reply_body t m) = Some u \<Longrightarrow> u = as_opened t"
  by (auto simp: metadata_thread_def reply_body_def new_thread_def as_opened_def split: if_splits)

lemma message_of_reply: "cm_thread m = th_id t \<Longrightarrow> message_of (reply_body t m) = m"
  by (simp add: message_of_def reply_body_def)

lemma body_thread_abroad:
  "abroad env (th_to_l2 (body_thread b)) \<longleftrightarrow> abroad env (fr_to_l2 b)" "is_from (fr_from_l2 b, fr_from_persona b) (body_thread b)"
  by (simp_all add: body_thread_def new_thread_def is_from_def)

lemma participates_opener: "participates (fr_from_l2 b, fr_from_persona b) (body_thread b)"
  by (simp add: participates_def is_from_def body_thread_def new_thread_def)

lemma mesh_step_inv: "mesh_step C envs m m' \<Longrightarrow> mesh_inv envs m \<Longrightarrow> mesh_inv envs m'"
proof (induction rule: mesh_step.induct)
  case (step_open w l m req un res out st)
  from request_consult_adds [OF step_open.hyps(3)] show ?case
  proof
    assume "adds (ms_node m l) {} {} st \<and> out = []"
    with step_open.prems show ?thesis by (simp add: mesh_inv_none)
  next
    assume "\<exists>b M. fr_thread_id b = ''th_'' @ lw_hex_thread w \<and> self_identity un (ms_node m l) = Inr (fr_from_l2 b, un)
      \<and> fr_from_persona b = un \<and> adds (ms_node m l) {body_thread b} M st \<and> get_consult (fr_thread_id b) (ms_node m l) = None
      \<and> (M = {} \<or> (\<exists>c. M = {(body_msg b)\<lparr>cm_content := c\<rparr>}))
      \<and> (\<forall>og \<in> set out. og_wire og = WireRequest b \<and> M = {body_msg b}
           \<or> og_wire og = WireXRequest b \<and> abroad (rw_env w) (fr_to_l2 b))"
    then obtain b M where b: "fr_thread_id b = ''th_'' @ lw_hex_thread w" "fr_from_persona b = un"
      "self_identity un (ms_node m l) = Inr (fr_from_l2 b, un)" and a: "adds (ms_node m l) {body_thread b} M st"
      and M: "M = {} \<or> (\<exists>c. M = {(body_msg b)\<lparr>cm_content := c\<rparr>})"
      and out: "\<forall>og \<in> set out. og_wire og = WireRequest b \<and> M = {body_msg b}
        \<or> og_wire og = WireXRequest b \<and> abroad (rw_env w) (fr_to_l2 b)" by blast
    have th: "body_thread b \<in> opened st" using a by (simp add: adds_def)
    have fresh: "\<And>u k. u \<in> opened (ms_node m k) \<Longrightarrow> th_id u \<noteq> fr_thread_id b"
      using step_open.hyps(2) b(1) unfolding fresh_thread_def get_consult_None by metis
    have who: "self_identity un st = Inr (fr_from_l2 b, un)"
      using b(3) a by (simp add: adds_def self_identity_def get_user_def)
    have auth: "authored (at_node l st out m) x" if "x \<in> M" for x
    proof -
      from that M have "cm_thread x = fr_thread_id b" "cm_from_l2 x = fr_from_l2 b" "cm_from_persona x = un" using b(2) by auto
      moreover from that a have "x \<in> set (co_msgs st)" by (simp add: adds_def)
      ultimately show ?thesis
        unfolding authored_def using th who participates_opener [of b] b(2) by (intro exI [of _ l] bexI [of _ "body_thread b"]) simp_all
    qed
    show ?thesis
    proof (rule mesh_inv_adds [OF step_open.prems a])
      fix t u k assume "t \<in> {body_thread b}" "u \<in> opened (ms_node m k)" "th_id t = th_id u"
      with fresh show "t = u" by force
    next
      fix x assume "x \<in> M"
      moreover from this M have "cm_thread x = fr_thread_id b" by auto
      ultimately show "(authored (at_node l st out m) x \<or> delivered_abroad envs (at_node l st out m) x)
          \<and> (\<exists>t \<in> opened st. th_id t = cm_thread x)"
        using auth th by (intro conjI bexI [of _ "body_thread b"]) simp_all
    next
      fix og assume "og \<in> set out"
      with out consider "og_wire og = WireRequest b" "M = {body_msg b}"
        | "og_wire og = WireXRequest b" "abroad (rw_env w) (fr_to_l2 b)" by blast
      then show "wire_ok envs (at_node l st out m) (og_wire og)"
      proof cases
        case 1
        with auth th show ?thesis by (simp add: wire_ok_def) (metis at_node_simps(1))
      next
        case 2
        with th who b(2) step_open.hyps(1) show ?thesis by (auto simp: wire_ok_def intro!: exI [of _ l])
      qed
    qed simp
  qed
next
  case (step_reply w l tid content un m res out st)
  from post_consult_message_adds [OF step_reply.hyps(2)] show ?case
  proof
    assume "adds (ms_node m l) {} {} st \<and> out = []"
    with step_reply.prems show ?thesis by (simp add: mesh_inv_none)
  next
    assume "\<exists>t x. t \<in> set (co_threads (ms_node m l)) \<and> th_id t = tid \<and> cm_thread x = tid \<and> cm_from_persona x = un
      \<and> self_identity un (ms_node m l) = Inr (cm_from_l2 x, un) \<and> participates (cm_from_l2 x, un) t
      \<and> adds (ms_node m l) {} {x} st \<and> (\<forall>og \<in> set out. og_wire og = WireMessage (reply_body t x))"
    then obtain t x where t: "as_opened t \<in> opened (ms_node m l)" "th_id t = tid" "cm_thread x = tid" "cm_from_persona x = un"
      "self_identity un (ms_node m l) = Inr (cm_from_l2 x, un)" "participates (cm_from_l2 x, un) t"
      and a: "adds (ms_node m l) {} {x} st" and out: "\<forall>og \<in> set out. og_wire og = WireMessage (reply_body t x)"
      unfolding opened_def by blast
    have th: "as_opened t \<in> opened st" "x \<in> set (co_msgs st)" "self_identity un st = Inr (cm_from_l2 x, un)"
      using a t by (auto simp: adds_def self_identity_def get_user_def)
    then have auth: "authored (at_node l st out m) x"
      unfolding authored_def using t by (intro exI [of _ l] bexI [of _ "as_opened t"]) simp_all
    show ?thesis
    proof (rule mesh_inv_adds [OF step_reply.prems a])
      fix y assume "y \<in> {x}"
      with auth th t show "(authored (at_node l st out m) y \<or> delivered_abroad envs (at_node l st out m) y)
          \<and> (\<exists>t \<in> opened st. th_id t = cm_thread y)"
        by (intro conjI bexI [of _ "as_opened t"]) simp_all
    next
      fix og assume "og \<in> set out"
      with out have og: "og_wire og = WireMessage (reply_body t x)" by blast
      have "\<exists>k. u \<in> opened (ms_node (at_node l st out m) k)" if "metadata_thread (reply_body t x) = Some u" for u
        using metadata_reply [OF that] th(1) by (intro exI [of _ l]) simp
      with auth t og show "wire_ok envs (at_node l st out m) (og_wire og)" by (simp add: wire_ok_def message_of_reply)
    qed simp_all
  qed
next
  case (step_close w l tid reason summary un m res st)
  from close_consult_route_adds [OF step_close.hyps(2)] step_close.prems show ?case by (simp add: mesh_inv_none)
next
  case (step_request_arrives w l og m b res' st)
  from wire_ok_sent [OF step_request_arrives.prems step_request_arrives.hyps(2)] step_request_arrives.hyps(3)
  have "authored m (body_msg b)" "\<exists>k. body_thread b \<in> opened (ms_node m k)" by (simp_all add: wire_ok_def)
  with forward_consult_request_receives [OF step_request_arrives.hyps(4)] show ?case
    by (intro mesh_inv_receives [OF step_request_arrives.prems]) auto
next
  case (step_message_arrives w l og m f res' st)
  from wire_ok_sent [OF step_message_arrives.prems step_message_arrives.hyps(2)] step_message_arrives.hyps(3)
  have "authored m (message_of f)" "\<And>t. metadata_thread f = Some t \<Longrightarrow> \<exists>k. t \<in> opened (ms_node m k)" by (simp_all add: wire_ok_def)
  moreover have "metadata_thread f = Some t \<Longrightarrow> as_opened t = t" for t by (auto simp: metadata_thread_def split: if_splits)
  ultimately show ?case
    using forward_consult_message_receives [OF step_message_arrives.hyps(4)]
    by (intro mesh_inv_receives [OF step_message_arrives.prems]) auto
next
  case (step_x_request_arrives w l og m b res'' st)
  from wire_ok_sent [OF step_x_request_arrives.prems step_x_request_arrives.hyps(2)] step_x_request_arrives.hyps(3) obtain k where
    k: "body_thread b \<in> opened (ms_node m k)" "abroad (envs k) (fr_to_l2 b)"
      "self_identity (fr_from_persona b) (ms_node m k) = Inr (fr_from_l2 b, fr_from_persona b)" by (auto simp: wire_ok_def)
  have "delivered_abroad envs m ((body_msg b)\<lparr>cm_content := redact_for_policy (fr_content b) policy\<rparr>)" for policy
    unfolding delivered_abroad_def sent_abroad_def
    using k step_x_request_arrives.hyps(2,3) by (intro exI [of _ k] bexI [of _ "body_thread b"] conjI bexI [of _ og] exI)
      (auto simp: body_thread_abroad)
  with x_enterprise_forward_receives [OF step_x_request_arrives.hyps(4)] k(1) show ?case
    by (auto intro!: mesh_inv_receives [OF step_x_request_arrives.prems])
next
  case (step_elsewhere st m l)
  from adds_refl [OF step_elsewhere.hyps] step_elsewhere.prems show ?case by (simp add: mesh_inv_none)
qed

text \<open>C3. Requests between L2s, of one Enterprise or of several, may be lost, repeated,
  delayed or misrouted. Still every message an L2 holds was written by a user who
  takes part in its thread, on an L2 that has the thread too, and the two L2s
  agree on who the thread is between, its subject and the time it was opened
  (not on its status, claim and resolution, which nobody forwards). The writer's
  L2 has the same message, unless it is the first message of a thread with
  another Enterprise: then the writer's L2 sent it, and what is held is its text or
  the note some policy puts in its place.\<close>

theorem consults_agree:
  assumes "mesh_start m0" and "(mesh_step C envs)\<^sup>*\<^sup>* m0 m"
  shows "list_all (\<lambda>x. \<exists>k. \<exists>t \<in> opened (ms_node m l) \<inter> opened (ms_node m k). th_id t = cm_thread x
      \<and> self_identity (cm_from_persona x) (ms_node m k) = Inr (cm_from_l2 x, cm_from_persona x)
      \<and> participates (cm_from_l2 x, cm_from_persona x) t
      \<and> (x \<in> set (co_msgs (ms_node m k)) \<or> sent_abroad (envs k) m t x)) (co_msgs (ms_node m l))"
proof -
  from assms(2) have inv: "mesh_inv envs m"
    by (induction rule: rtranclp_induct) (use mesh_inv_start [OF assms(1)] mesh_step_inv in blast)+
  have "\<exists>k. \<exists>t \<in> opened (ms_node m l) \<inter> opened (ms_node m k). th_id t = cm_thread x
      \<and> self_identity (cm_from_persona x) (ms_node m k) = Inr (cm_from_l2 x, cm_from_persona x)
      \<and> participates (cm_from_l2 x, cm_from_persona x) t
      \<and> (x \<in> set (co_msgs (ms_node m k)) \<or> sent_abroad (envs k) m t x)" if "x \<in> set (co_msgs (ms_node m l))" for x
  proof -
    from inv that obtain u where u: "u \<in> opened (ms_node m l)" "th_id u = cm_thread x"
      and src: "authored m x \<or> delivered_abroad envs m x" unfolding mesh_inv_def by blast
    have part: "sent_abroad env m t x \<Longrightarrow> participates (cm_from_l2 x, cm_from_persona x) t" for env t
      unfolding sent_abroad_def participates_def by blast
    from src obtain k t where t: "t \<in> opened (ms_node m k)" "th_id t = cm_thread x"
      "self_identity (cm_from_persona x) (ms_node m k) = Inr (cm_from_l2 x, cm_from_persona x)"
      "participates (cm_from_l2 x, cm_from_persona x) t" "x \<in> set (co_msgs (ms_node m k)) \<or> sent_abroad (envs k) m t x"
      unfolding authored_def delivered_abroad_def using part by blast
    from inv u t(1,2) have "u = t" unfolding mesh_inv_def by metis
    with u t show ?thesis by blast
  qed
  then show ?thesis by (simp add: list_all_iff)
qed

end
