(* ===== verification/ConsultProps.thy ===== *)
theory ConsultProps imports ConsultMesh begin

text \<open>
  What a user of the consults can rely on and what not: a consult asked on one L2
  is read on its sibling, word for word; the logging policy of a peering keeps
  the text of a consult out of both logs. And: any L2 of the Enterprise can put
  a message into any thread, closed ones too, and a consult from another
  Enterprise cannot be answered.
\<close>

section \<open>From one L2 to its sibling\<close>

definition consult_fk :: "'a l2_state_scheme \<Rightarrow> bool" where
  "consult_fk st \<longleftrightarrow> (\<forall>m \<in> set (co_msgs st). cm_thread m \<in> th_id ` set (co_threads st))"

definition answer_status :: "http_exc + 'b \<Rightarrow> nat" where
  "answer_status r = (case r of Inl (HTTPException n) \<Rightarrow> n | Inr _ \<Rightarrow> 201)"

text \<open>The other L2 as the network of the first: it answers what its handler returns.\<close>

definition served_by :: "'k prims \<Rightarrow> 'k l2_world \<Rightarrow> l2_state \<Rightarrow> outgoing \<Rightarrow> net_answer" where
  "served_by C w st og =
     (case og_wire og of
        WireRequest b \<Rightarrow> NetStatus (answer_status (fst (forward_consult_request C w (og_headers og) b st)))
      | WireMessage f \<Rightarrow> NetStatus (answer_status (fst (forward_consult_message C w (og_headers og) f st)))
      | WireXRequest b \<Rightarrow> NetStatus (answer_status (fst (x_enterprise_forward_consult_request C w (og_headers og) b st))))"

lemma get_consult_messages_cong:
  "co_threads st = co_threads st' \<Longrightarrow> co_msgs st = co_msgs st' \<Longrightarrow> db_users st = db_users st'
   \<Longrightarrow> get_consult_messages tid un st = get_consult_messages tid un st'"
  by (simp add: get_consult_messages_def participant_thread_def self_identity_def get_user_def get_consult_def
      list_consult_messages_def)

text \<open>After the first message of a new thread, its two sides read exactly that.\<close>

lemma first_message_read:
  assumes "consult_fk st" and "get_consult (th_id t) st = None" and "cm_thread m = th_id t"
    and "co_threads st' = co_threads st @ [t]" and "co_msgs st' = co_msgs st @ [m]"
    and "self_identity un st' = Inr who" and "participates who t"
  shows "get_consult_messages (th_id t) un st' = Inr [m]"
proof -
  have "\<forall>x \<in> set (co_msgs st). cm_thread x \<noteq> th_id t"
    using assms(1,2) by (auto simp: consult_fk_def get_consult_def table_simps)
  then have "list_consult_messages (th_id t) st' = [m]"
    using assms(3,5) by (simp add: list_consult_messages_def order_asc_def filter_empty_conv)
  moreover have "get_consult (th_id t) st' = Some t"
    using assms(2,4) by (simp add: get_consult_def sql_fetchone_snoc)
  ultimately show ?thesis
    using assms(6,7) by (simp add: get_consult_messages_def participant_thread_def)
qed

lemma mirror_new:
  assumes "get_consult (th_id t) st = None" and "cm_id m \<notin> cm_id ` set (co_msgs st)" and "cm_thread m = th_id t"
  shows "mirror_thread t st = Inr (st\<lparr>co_threads := co_threads st @ [t]\<rparr>)"
    and "mirror_message m (st\<lparr>co_threads := co_threads st @ [t]\<rparr>)
      = (Inr (), st\<lparr>co_threads := co_threads st @ [t], co_msgs := co_msgs st @ [m]\<rparr>)"
  using assms
  by (auto simp: mirror_thread_def create_consult_def mirror_message_def append_consult_message_def get_consult_def sql_insert_def table_simps)

lemma mirror_locally_new:
  assumes "get_consult (th_id t) st = None" and "cm_id m \<notin> cm_id ` set (co_msgs st)" and "cm_thread m = th_id t"
  shows "mirror_locally t m ''mutual_log_required'' st
    = (Inr (), st\<lparr>co_threads := co_threads st @ [t], co_msgs := co_msgs st @ [m]\<rparr>)"
  using assms
  by (auto simp: mirror_locally_def create_consult_def append_consult_message_def get_consult_def sql_insert_def table_simps)

text \<open>The identity gate lets the owner of the key on file through.\<close>

lemma forwarder_accepted:
  assumes "ed25519_ok C" and "\<And>sk x. ed_sign C sk x \<noteq> []"
    and "strip l2 = l2" and "partition_on (CHR ''/'') l2 = (aigrp_enterprise env, [CHR ''/''], grp)" and "aigrp_enterprise env \<noteq> []"
    and "get_aigrp_peer_pubkey l2 db = map_option (public_key_b64u C) key"
    and "key = None \<longrightarrow> \<not> require_signed_forwards env"
    and "ph_forwarder req = Some l2" and "ph_signature req = sign_forward_request C key body l2"
  shows "require_forwarder_identity C env req l2 True body db = Inr l2"
proof -
  have l2: "l2 \<noteq> []" using assms(4) by (auto simp: partition_on_def)
  show ?thesis
  proof (cases key)
    case None
    with assms l2 show ?thesis by (simp add: require_forwarder_identity_def header_def truthy_def)
  next
    case (Some sk)
    have sig: "header (ph_signature req) = sign_raw C sk (signing_input_for C body l2)"
      using assms(9) Some by (simp add: header_def sign_forward_request_def)
    moreover have "sign_raw C sk y \<noteq> []" "strip (sign_raw C sk y) = sign_raw C sk y" for y
      using assms(2) by (simp_all add: sign_raw_def b64u_not_Nil)
    moreover have "truthy (get_aigrp_peer_pubkey l2 db)"
      using assms(1,6) Some by (auto simp: truthy_def public_key_b64u_def ed25519_ok_def) (metis b64u_not_Nil list.size(3) zero_neq_numeral)
    moreover have "verify_forward_signature C (the (get_aigrp_peer_pubkey l2 db)) body l2 (sign_raw C sk (signing_input_for C body l2))"
      using assms(6) Some by (simp add: verify_forward_signature_def verify_raw_sign_raw [OF assms(1)])
    moreover have "header (ph_forwarder req) = l2" using assms(8) by (simp add: header_def)
    ultimately show ?thesis
      using assms(3-5) l2 by (simp add: require_forwarder_identity_def Let_def)
  qed
qed

lemma identity_gate_rt [simp]:
  "require_forwarder_identity C env hs l2 e body (st\<lparr>co_rt := rt\<rparr>) = require_forwarder_identity C env hs l2 e body st"
proof -
  have "get_aigrp_peer_pubkey d (st\<lparr>co_rt := rt\<rparr>) = get_aigrp_peer_pubkey d st" for d by (simp add: get_aigrp_peer_pubkey_def)
  then show ?thesis unfolding require_forwarder_identity_def by (simp only:)
qed

text \<open>C31. A consult between two L2s of one Enterprise is read on both. The assumptions:
  both read the same Enterprise root, and their caches hold nothing older; the
  asker's L2 has its sibling in its peer table, and the sibling has the asker's
  key on file (or the asker does not sign, and unsigned forwards are allowed);
  the rows of both users name the L2 they are on; the new ids are new on both,
  and no message lacks its thread; and the request arrives. Then it is answered
  with the new thread, and its two participants, each on their own L2, read
  exactly the asker's words.\<close>

theorem consult_reaches_sibling:
  assumes ids: "aigrp_enterprise (rw_env w1) = ent" "aigrp_enterprise (rw_env w2) = ent" "CHR ''/'' \<notin> set ent" "ent \<noteq> []"
      "self_l2_id (rw_env w1) \<noteq> self_l2_id (rw_env w2)" "strip (self_l2_id (rw_env w1)) = self_l2_id (rw_env w1)"
    and roots: "\<And>t. read_root_from_ssm (rw_env w1) (ssm1 t) ent = Inr rk" "\<And>t. read_root_from_ssm (rw_env w2) (ssm2 t) ent = Inr rk"
      "lw_ssm w1 = ssm1 (lw_clock w1)" "lw_ssm w2 = ssm2 (lw_clock w2)"
      "rt_sound C (rw_env w1) ssm1 (lw_clock w1) (co_rt st1)" "rt_sound C (rw_env w2) ssm2 (lw_clock w2) (co_rt st2)"
    and prims: "ed25519_ok C" "\<And>sk x. ed_sign C sk x \<noteq> []" "\<And>k. hmac256 C k BEARER_INFO \<noteq> []"
    and keys: "get_aigrp_peer_pubkey (self_l2_id (rw_env w1)) st2 = map_option (public_key_b64u C) (lw_l2_key w1)"
      "lw_l2_key w1 = None \<Longrightarrow> \<not> require_signed_forwards (rw_env w2)"
    and ask: "consult_request_ok req" "cr_to_l2 req = self_l2_id (rw_env w2)" "resolve_peer (self_l2_id (rw_env w2)) st1 = Some peer"
      "self_identity un st1 = Inr (self_l2_id (rw_env w1), un)"
      "self_identity (cr_to_persona req) st2 = Inr (self_l2_id (rw_env w2), cr_to_persona req)"
    and new: "consult_fk st1" "consult_fk st2" "get_consult (''th_'' @ lw_hex_thread w1) st1 = None"
      "get_consult (''th_'' @ lw_hex_thread w1) st2 = None" "''msg_'' @ lw_hex_msg w1 \<notin> cm_id ` set (co_msgs st1)"
      "''msg_'' @ lw_hex_msg w1 \<notin> cm_id ` set (co_msgs st2)"
    and net: "lw_net w1 = served_by C w2 st2"
  shows "\<exists>t og b m st1' st2'. request_consult C w1 req un st1 = (Inr t, [og], st1') \<and> og_wire og = WireRequest b
      \<and> forward_consult_request C w2 (og_headers og) b st2 = (Inr (), st2')
      \<and> cm_content m = cr_content req \<and> cm_from_persona m = un
      \<and> get_consult_messages (th_id t) un st1' = Inr [m]
      \<and> get_consult_messages (th_id t) (cr_to_persona req) st2' = Inr [m]"
proof -
  let ?e1 = "rw_env w1" and ?e2 = "rw_env w2"
  let ?l1 = "self_l2_id ?e1" and ?l2 = "self_l2_id ?e2"
  define b where "b = request_body w1 ?l1 un req"
  have b: "fr_thread_id b = ''th_'' @ lw_hex_thread w1" "fr_message_id b = ''msg_'' @ lw_hex_msg w1" "fr_from_l2 b = ?l1"
    "fr_from_persona b = un" "fr_to_l2 b = ?l2" "fr_to_persona b = cr_to_persona req" "fr_content b = cr_content req"
    "fr_subject b = cr_subject req"
    using ask(2) by (simp_all add: b_def request_body_def)
  let ?t = "body_thread b" and ?m = "body_msg b"
  have part: "partition_on (CHR ''/'') ?l2 = (ent, [CHR ''/''], aigrp_group ?e2)" "partition_on (CHR ''/'') ?l1 = (ent, [CHR ''/''], aigrp_group ?e1)"
    using ids(1-3) by (simp_all add: self_l2_id_def partition_on_append)
  have peer: "ap_l2_id peer = ?l2"
    using ask(3) by (auto simp: resolve_peer_def find_Some_iff split: prod.splits if_splits)
  obtain bearer rt1 where out: "outbound_bearer C ?e1 (ssm1 (lw_clock w1)) (lw_clock w1) ?l2 (co_rt st1) = (bearer, rt1)" by fastforce
  let ?sig = "sign_forward_request C (lw_l2_key w1) (forward_request_json b) ?l1"
  let ?h = "\<lparr>ph_authorization = Some (''Bearer '' @ bearer), ph_forwarder = Some ?l1, ph_signature = ?sig, ph_offer_id = None\<rparr>"
  note acc = sibling_bearer_accepted [OF ids(1-3,5,6) roots(1,2,5,6) prims(3)]
  have bearer: "strip bearer \<noteq> []" using acc(1) out by (auto simp: b64u_not_Nil)
  obtain rt2 where gate: "require_peer_key C ?e2 (lw_ssm w2) (lw_clock w2) ?h (co_rt st2) = (Inr (), rt2)"
    using acc(2) [of ?sig None] out roots(4) by (metis fst_conv prod.collapse)
  define st1a where "st1a = st1\<lparr>co_threads := co_threads st1 @ [?t], co_msgs := co_msgs st1 @ [?m]\<rparr>"
  define st2a where "st2a = st2\<lparr>co_rt := rt2, co_threads := co_threads st2 @ [?t], co_msgs := co_msgs st2 @ [?m]\<rparr>"
  have fwd: "forward_consult_request C w2 ?h b st2 = (Inr (), st2a)"
  proof -
    have "forward_request_ok b"
      using ask(1) b by (auto simp: forward_request_ok_def consult_request_ok_def subject_ok_def text_ok_def split: option.splits)
    moreover have "require_forwarder_identity C ?e2 ?h (fr_from_l2 b) True (forward_request_json b) (st2\<lparr>co_rt := rt2\<rparr>) = Inr ?l1"
      unfolding b(3)
      by (rule forwarder_accepted [OF prims(1,2) ids(6)])
         (use part ids keys in \<open>simp_all add: get_aigrp_peer_pubkey_def\<close>)
    moreover have "mirror_thread ?t (st2\<lparr>co_rt := rt2\<rparr>) = Inr (st2\<lparr>co_rt := rt2, co_threads := co_threads st2 @ [?t]\<rparr>)"
      "mirror_message ?m (st2\<lparr>co_rt := rt2, co_threads := co_threads st2 @ [?t]\<rparr>) = (Inr (), st2a)"
      using mirror_new [of ?t "st2\<lparr>co_rt := rt2\<rparr>" ?m] new b by (simp_all add: get_consult_def st2a_def)
    ultimately show ?thesis using gate by (simp add: forward_consult_request_def Let_def)
  qed
  let ?og = "\<lparr>og_base = rstrip_char (CHR ''/'') (ap_endpoint peer), og_headers = ?h, og_wire = WireRequest b\<rparr>"
  have sent: "send_on_route C w1 (Sibling peer) b st1a = (Inr (), [?og], st1a\<lparr>co_rt := rt1\<rparr>)"
  proof -
    have "deliver w1 ?og = Inr ()" by (simp only: deliver_def net served_by_def outgoing.select_convs wire.case fwd) (simp add: answer_status_def)
    with out bearer roots(3) peer show ?thesis
      by (simp add: send_on_route_def forward_to_peer_def build_forward_headers_def st1a_def)
  qed
  have route: "request_route w1 ?l1 (cr_to_l2 req) st1 = Inr (Sibling peer)"
    using ask(2,3) ids(1,5) part by (simp add: request_route_def)
  have local: "mirror_locally ?t ?m ''mutual_log_required'' st1 = (Inr (), st1a)"
    using mirror_locally_new [of ?t st1 ?m] new b by (simp add: st1a_def)
  have thread: "get_consult (fr_thread_id b) (st1a\<lparr>co_rt := rt1\<rparr>) = Some ?t"
    using new(3) b by (simp add: get_consult_def st1a_def sql_fetchone_snoc)
  obtain st1' where req: "request_consult C w1 req un st1 = (Inr ?t, [?og], st1')"
    and st1': "co_threads st1' = co_threads st1a" "co_msgs st1' = co_msgs st1a" "db_users st1' = db_users st1a"
    using ask(1,4) route local sent thread
    by (simp add: request_consult_def b_def [symmetric] Let_def route_policy_def)
  have "get_consult_messages (th_id ?t) un st1' = Inr [?m]"
    by (rule first_message_read [OF new(1), where who = "(?l1, un)"])
       (use new(3) b st1' ask(4) participates_opener [of b] in \<open>simp_all add: st1a_def self_identity_def get_user_def\<close>)
  moreover have "get_consult_messages (th_id ?t) (cr_to_persona req) st2a = Inr [?m]"
    by (rule first_message_read [OF new(2), where who = "(?l2, cr_to_persona req)"])
       (use new(4) b ask(5) in \<open>simp_all add: st2a_def self_identity_def get_user_def participates_def body_thread_def new_thread_def\<close>)
  ultimately show ?thesis using req fwd b
    by (intro exI [of _ ?t] exI [of _ ?og] exI [of _ b] exI [of _ ?m] exI [of _ st1'] exI [of _ st2a]) simp
qed

section \<open>The logging policy\<close>

lemma mirror_message_content:
  "mirror_message m st = (r, st') \<Longrightarrow> x \<in> set (co_msgs st') \<Longrightarrow> x \<in> set (co_msgs st) \<or> x = m"
  by (drule mirror_message_receives) (auto simp: adds_def)

text \<open>C32. Under any policy but mutual logging, a consult between Enterprises leaves
  its text in neither log: whatever the L2 that asks and the L2 that receives
  add to their messages is the redaction, and under \<open>no_log_consults\<close> they add
  no message at all.\<close>

theorem policy_keeps_text_out:
  assumes "pe_logging_policy p \<noteq> ''mutual_log_required''"
    and "(\<exists>C w req un out res l2 ep. self_identity un st = Inr (l2, un) \<and> request_route w l2 (cr_to_l2 req) st = Inr (Peered p ep)
            \<and> request_consult C w req un st = (res, out, st'))
       \<or> (\<exists>C w hs b r. require_x_enterprise_auth C w hs b st = Inr p \<and> x_enterprise_forward_consult_request C w hs b st = (r, st'))"
  shows "list_all (\<lambda>m. m \<in> set (co_msgs st)
      \<or> pe_logging_policy p \<noteq> ''no_log_consults'' \<and> cm_content m = ''<redacted: '' @ pe_logging_policy p @ ''>'') (co_msgs st')"
proof -
  let ?ok = "\<lambda>m. m \<in> set (co_msgs st) \<or> pe_logging_policy p \<noteq> ''no_log_consults'' \<and> cm_content m = ''<redacted: '' @ pe_logging_policy p @ ''>''"
  have redacted: "redact_for_policy c (pe_logging_policy p) = ''<redacted: '' @ pe_logging_policy p @ ''>''" for c
    using assms(1) by (simp add: redact_for_policy_def)
  from assms(2) have "\<forall>m \<in> set (co_msgs st'). ?ok m"
  proof (elim disjE exE conjE)
    fix C w req un out res l2 ep
    assume who: "self_identity un st = Inr (l2, un)" and route: "request_route w l2 (cr_to_l2 req) st = Inr (Peered p ep)"
      and req: "request_consult C w req un st = (res, out, st')"
    show ?thesis
    proof (cases "consult_request_ok req")
      case False
      with req show ?thesis by (auto simp: request_consult_def)
    next
      case True
      let ?b = "request_body w l2 un req"
      obtain r1 st1 where loc: "mirror_locally (body_thread ?b) (body_msg ?b) (pe_logging_policy p) st = (r1, st1)" by fastforce
      obtain r2 o2 st2 where snd: "send_on_route C w (Peered p ep) ?b st1 = (r2, o2, st2)" by (metis prod_cases3)
      have "co_msgs st' = co_msgs st1 \<or> co_msgs st' = co_msgs st2"
        using req True who route loc snd
        by (auto simp: request_consult_def Let_def route_policy_def split: sum.splits option.splits)
      moreover have "set (co_msgs st2) = set (co_msgs st1)" using send_on_route_adds(1) [OF snd] by (simp add: adds_def)
      moreover have "\<forall>m \<in> set (co_msgs st1). ?ok m"
        using loc redacted
        by (auto simp: mirror_locally_def create_consult_def append_consult_message_def split: sum.splits if_splits)
      ultimately show ?thesis by metis
    qed
  next
    fix C w hs b r
    assume auth: "require_x_enterprise_auth C w hs b st = Inr p" and recv: "x_enterprise_forward_consult_request C w hs b st = (r, st')"
    have thread: "mirror_thread t st = Inr st1 \<Longrightarrow> co_msgs st1 = co_msgs st" for t st1
      by (auto simp: mirror_thread_def create_consult_def split: sum.splits if_splits)
    show ?thesis
    proof (cases "\<exists>st1 e. mirror_thread (body_thread b) st = Inr st1 \<and> pe_logging_policy p \<noteq> ''no_log_consults''
        \<and> mirror_message ((body_msg b)\<lparr>cm_content := redact_for_policy (fr_content b) (pe_logging_policy p)\<rparr>) st1 = (e, st')")
      case True
      then obtain st1 e where "mirror_thread (body_thread b) st = Inr st1" "pe_logging_policy p \<noteq> ''no_log_consults''"
        "mirror_message ((body_msg b)\<lparr>cm_content := redact_for_policy (fr_content b) (pe_logging_policy p)\<rparr>) st1 = (e, st')" by blast
      with mirror_message_content thread redacted show ?thesis by fastforce
    next
      case False
      with recv auth have "co_msgs st' = co_msgs st"
        by (auto simp: x_enterprise_forward_consult_request_def Let_def dest: thread split: if_splits sum.splits prod.splits)
      then show ?thesis by simp
    qed
  qed
  then show ?thesis by (simp add: list_all_iff)
qed

section \<open>What the code does against its documentation\<close>

text \<open>
  The receiving end of a reply asks neither that its sender takes part in
  the thread nor that the thread is open: any sibling that passes the two gates
  puts a message of its own, under any persona, into any thread it can name, and
  the participants read it.\<close>

theorem any_sibling_writes_into_any_thread:
  assumes "fst (require_peer_key C (rw_env w) (lw_ssm w) (lw_clock w) hs (co_rt st)) = Inr ()"
    and "require_forwarder_identity C (rw_env w) hs (fm_from_l2 f) True (forward_message_json f) st = Inr l2"
    and "forward_message_ok f" and "get_consult (fm_thread_id f) st = Some t" and "fm_message_id f \<notin> cm_id ` set (co_msgs st)"
    and "self_identity un st = Inr who" and "participates who t"
  shows "\<exists>st' ms. forward_consult_message C w hs f st = (Inr (), st') \<and> get_consult (fm_thread_id f) st' = Some t
      \<and> get_consult_messages (fm_thread_id f) un st' = Inr ms \<and> message_of f \<in> set ms"
proof -
  obtain rt where g: "require_peer_key C (rw_env w) (lw_ssm w) (lw_clock w) hs (co_rt st) = (Inr (), rt)"
    using assms(1) by (metis fst_conv prod.collapse)
  let ?st = "st\<lparr>co_rt := rt, co_msgs := co_msgs st @ [message_of f]\<rparr>"
  have id: "require_forwarder_identity C (rw_env w) hs (fm_from_l2 f) True (forward_message_json f) (st\<lparr>co_rt := rt\<rparr>) = Inr l2"
    using assms(2) by simp
  have th: "get_consult (fm_thread_id f) (st\<lparr>co_rt := rt\<rparr>) = Some t" "get_consult (fm_thread_id f) ?st = Some t"
    using assms(4) by (simp_all add: get_consult_def)
  have "fm_thread_id f \<in> th_id ` set (co_threads st)" using get_consult_Some [OF assms(4)] by force
  then have "mirror_message (message_of f) (st\<lparr>co_rt := rt\<rparr>) = (Inr (), ?st)"
    using assms(5) by (simp add: mirror_message_def append_consult_message_def)
  with g id th assms(3) have "forward_consult_message C w hs f st = (Inr (), ?st)"
    by (simp add: forward_consult_message_def Let_def)
  moreover have "self_identity un ?st = Inr who" using assms(6) by (simp add: self_identity_def get_user_def)
  then have "participant_thread (fm_thread_id f) un ?st = Inr (who, t)"
    using th(2) assms(7) by (simp add: participant_thread_def)
  then have "get_consult_messages (fm_thread_id f) un ?st = Inr (list_consult_messages (fm_thread_id f) ?st)"
    by (simp add: get_consult_messages_def)
  moreover have "message_of f \<in> set (list_consult_messages (fm_thread_id f) ?st)" by (simp add: list_consult_messages_def)
  ultimately show ?thesis using th(2) by blast
qed

text \<open>
  A consult from another Enterprise cannot be answered: replies look their
  L2 up in the table of siblings only, so every reply of a local participant is
  refused with 502 and recorded nowhere.\<close>

theorem cross_enterprise_reply_fails:
  assumes "participant_thread tid un st = Inr (who, t)" and "th_status t \<noteq> ''closed''" and "text_ok 1 4096 content"
    and "other = (if is_from who t then th_to_l2 t else th_from_l2 t)" and "other \<noteq> fst who"
    and "list_all (\<lambda>r. ap_l2_id r \<noteq> other) (ag_peers st)"
  shows "post_consult_message C w tid content un st = (Inl (HTTPException 502), [], st)"
proof -
  have "resolve_peer other st = None"
    using assms(6) by (auto simp: resolve_peer_def list_aigrp_peers_def find_None_iff list_all_iff split: prod.splits)
  then show ?thesis
    using eqTrueI [OF assms(3)] assms(2,5)
    by (simp only: post_consult_message_def assms(1) Let_def assms(4) [symmetric] not_True_eq_False if_False sum.case prod.case
        simp_thms if_True)
qed

section \<open>Witnesses\<close>

text \<open>Two L2s of Acme with one user each; Bob's L2 is in the peer table of Ann's,
  Ann's key is on file at Bob's.\<close>

definition demo_user_on :: "string \<Rightarrow> string \<Rightarrow> user_row" where
  "demo_user_on un grp = \<lparr>us_id = 1, us_username = un, us_password_hash = [], us_created_at = [], us_role = ''user'',
     us_enterprise_id = ''acme'', us_group_id = grp, us_email = None\<rparr>"

definition demo_peer :: "string \<Rightarrow> string option \<Rightarrow> peer_row" where
  "demo_peer grp key = \<lparr>ap_l2_id = ''acme/'' @ grp, ap_enterprise = ''acme'', ap_group = grp, ap_endpoint = ''https://'' @ grp,
     ap_centroid = None, ap_bloom = None, ap_ku_count = 0, ap_domain_count = 0, ap_model = None, ap_first_seen = [],
     ap_last_seen = [], ap_last_signature = None, ap_pubkey = key\<rparr>"

definition demo_l2 :: "user_row list \<Rightarrow> peer_row list \<Rightarrow> thread_row list \<Rightarrow> l2_state" where
  "demo_l2 users peers threads = \<lparr>db_users = users, db_user_seq = 2, act_log = [], act_retention = [], ku_rows = [], ku_index = [],
     ku_rep = empty_rep_db, ag_peers = peers, ag_peerings = [], co_threads = threads, co_msgs = [], co_rt = rt_empty\<rparr>"

definition demo_l2_world :: "env \<Rightarrow> (string \<Rightarrow> py_exc + string) \<Rightarrow> nat option \<Rightarrow> (outgoing \<Rightarrow> net_answer) \<Rightarrow> nat l2_world" where
  "demo_l2_world env ssm key net = \<lparr>rw_env = env, rw_key = None, rw_now = ''t'', rw_event_id = ''e'', rw_fault = NoFault,
     kw_now = ''t'', kw_now_z = ''t'', kw_act_id = ''a'', kw_act_id2 = ''b'', kw_hexid = ''h'', kw_embed = None,
     lw_ssm = ssm, lw_clock = 5, lw_iso = ''t'', lw_hex_thread = ''1'', lw_hex_msg = ''2'', lw_l2_key = key, lw_net = net\<rparr>"

definition demo_ask :: consult_request where
  "demo_ask = \<lparr>cr_to_l2 = ''acme/b'', cr_to_persona = ''bob'', cr_subject = None, cr_content = ''hi''\<rparr>"

definition demo_a :: l2_state where "demo_a = demo_l2 [demo_user_on ''ann'' ''a''] [demo_peer ''b'' None] []"

definition demo_b :: "string option \<Rightarrow> l2_state" where
  "demo_b key = demo_l2 [demo_user_on ''bob'' ''b''] [demo_peer ''a'' key] []"

definition demo_w2 :: "nat l2_world" where
  "demo_w2 = demo_l2_world demo_rt_env2 (demo_const_ssm 5) None (\<lambda>_. NetError)"

definition demo_w1 :: "nat l2_world" where
  "demo_w1 = demo_l2_world demo_rt_env (demo_const_ssm 5) (Some 5)
     (served_by demo_prims demo_w2 (demo_b (Some (public_key_b64u demo_prims 5))))"

lemma demo_world_simps [simp]:
  "rw_env (demo_l2_world env ssm key net) = env" "lw_ssm (demo_l2_world env ssm key net) = ssm"
  "lw_clock (demo_l2_world env ssm key net) = 5" "lw_l2_key (demo_l2_world env ssm key net) = key"
  "lw_net (demo_l2_world env ssm key net) = net" "lw_hex_thread (demo_l2_world env ssm key net) = ''1''"
  "lw_hex_msg (demo_l2_world env ssm key net) = ''2''"
  by (simp_all add: demo_l2_world_def)

lemma demo_l2_simps [simp]:
  "db_users (demo_l2 us ps ts) = us" "ag_peers (demo_l2 us ps ts) = ps" "co_threads (demo_l2 us ps ts) = ts"
  "co_msgs (demo_l2 us ps ts) = []" "co_rt (demo_l2 us ps ts) = rt_empty"
  by (simp_all add: demo_l2_def)

theorem consult_reaches_sibling_witness:
  "\<exists>t og b m st1' st2'. request_consult demo_prims demo_w1 demo_ask ''ann'' demo_a = (Inr t, [og], st1') \<and> og_wire og = WireRequest b
      \<and> forward_consult_request demo_prims demo_w2 (og_headers og) b (demo_b (Some (public_key_b64u demo_prims 5))) = (Inr (), st2')
      \<and> cm_content m = cr_content demo_ask \<and> cm_from_persona m = ''ann''
      \<and> get_consult_messages (th_id t) ''ann'' st1' = Inr [m]
      \<and> get_consult_messages (th_id t) (cr_to_persona demo_ask) st2' = Inr [m]"
  by (rule consult_reaches_sibling [where ent = "''acme''" and rk = "demo_root 1" and ?ssm1.0 = demo_const_ssm
        and ?ssm2.0 = demo_const_ssm and peer = "demo_peer ''b'' None"])
     (simp_all add: demo_w1_def demo_w2_def demo_a_def demo_b_def demo_ask_def demo_rt_ids demo_rt_ids2 demo_const_root rt_sound_empty
       strip_def lstrip_def is_space_def code_point_def BEARER_INFO_def demo_prims_ok consult_fk_def get_consult_def sql_fetchone_def
       consult_request_ok_def text_ok_def get_aigrp_peer_pubkey_def demo_peer_def resolve_peer_def list_aigrp_peers_def
       order_desc_def partition_on_def self_identity_def get_user_def demo_user_on_def or_default_def
       demo_prims_def [THEN arg_cong, of ed_sign] demo_prims_def [THEN arg_cong, of hmac256])

text \<open>The same L2s with a shared key and no parameter store; Bob's holds a closed thread.\<close>

definition demo_legacy_env :: "string \<Rightarrow> env" where
  "demo_legacy_env grp k = (if k = ''CQ_ENTERPRISE'' then Some ''acme'' else if k = ''CQ_GROUP'' then Some grp
     else if k = ''CQ_AIGRP_PEER_KEY'' then Some ''k'' else None)"

definition demo_legacy_world :: "string \<Rightarrow> nat l2_world" where
  "demo_legacy_world grp = demo_l2_world (demo_legacy_env grp) (\<lambda>_. Inl RuntimeErr) None (\<lambda>_. NetStatus 201)"

definition demo_closed :: thread_row where
  "demo_closed = close_row ''t'' None (new_thread ''th_0'' ''acme/a'' ''ann'' ''acme/b'' ''bob'' None ''s'')"

definition demo_intruder :: peer_request where
  "demo_intruder = \<lparr>ph_authorization = Some ''Bearer k'', ph_forwarder = Some ''acme/c'', ph_signature = None, ph_offer_id = None\<rparr>"

definition demo_intrusion :: forward_message_body where
  "demo_intrusion = \<lparr>fm_thread_id = ''th_0'', fm_message_id = ''msg_9'', fm_from_l2 = ''acme/c'', fm_from_persona = ''eve'',
     fm_content = ''no'', fm_created_at = ''u'', fm_thread_subject = None, fm_thread_to_l2 = None, fm_thread_to_persona = None,
     fm_thread_from_l2 = None, fm_thread_from_persona = None, fm_thread_created_at = None\<rparr>"

definition demo_b_closed :: l2_state where
  "demo_b_closed = demo_l2 [demo_user_on ''bob'' ''b''] [demo_peer ''a'' None] [demo_closed]"

lemma demo_gate: "fst (require_peer_key demo_prims (rw_env (demo_legacy_world ''b'')) (lw_ssm (demo_legacy_world ''b''))
    (lw_clock (demo_legacy_world ''b'')) demo_intruder (co_rt demo_b_closed)) = Inr ()"
  by code_simp

lemma demo_identity: "require_forwarder_identity demo_prims (rw_env (demo_legacy_world ''b'')) demo_intruder
    (fm_from_l2 demo_intrusion) True (forward_message_json demo_intrusion) demo_b_closed = Inr ''acme/c''"
  by code_simp

lemma demo_closed_facts:
  "get_consult (fm_thread_id demo_intrusion) demo_b_closed = Some demo_closed" "forward_message_ok demo_intrusion"
  "self_identity ''bob'' demo_b_closed = Inr (''acme/b'', ''bob'')" "participates (''acme/b'', ''bob'') demo_closed"
  "\<not> participates (fm_from_l2 demo_intrusion, fm_from_persona demo_intrusion) demo_closed" "th_status demo_closed = ''closed''"
  "fm_message_id demo_intrusion \<notin> cm_id ` set (co_msgs demo_b_closed)"
  by code_simp+

theorem any_sibling_writes_into_any_thread_witness:
  "\<not> participates (fm_from_l2 demo_intrusion, fm_from_persona demo_intrusion) demo_closed \<and> th_status demo_closed = ''closed''
   \<and> (\<exists>st' ms. forward_consult_message demo_prims (demo_legacy_world ''b'') demo_intruder demo_intrusion demo_b_closed = (Inr (), st')
      \<and> get_consult (fm_thread_id demo_intrusion) st' = Some demo_closed
      \<and> get_consult_messages (fm_thread_id demo_intrusion) ''bob'' st' = Inr ms \<and> message_of demo_intrusion \<in> set ms)"
  using any_sibling_writes_into_any_thread [OF demo_gate demo_identity demo_closed_facts(2,1,7,3,4)] demo_closed_facts(5,6) by blast

text \<open>Bob's L2 has an open thread from Globex, and Ann's a peering with Globex.\<close>

definition demo_from_globex :: l2_state where
  "demo_from_globex = demo_l2 [demo_user_on ''bob'' ''b''] [demo_peer ''a'' None]
     [new_thread ''th_0'' ''globex/x'' ''gus'' ''acme/b'' ''bob'' None ''s'']"

lemma demo_globex_thread:
  "participant_thread ''th_0'' ''bob'' demo_from_globex
   = Inr ((''acme/b'', ''bob''), new_thread ''th_0'' ''globex/x'' ''gus'' ''acme/b'' ''bob'' None ''s'')"
  by code_simp

theorem cross_enterprise_reply_fails_witness:
  "post_consult_message demo_prims (demo_legacy_world ''b'') ''th_0'' ''yes'' ''bob'' demo_from_globex
   = (Inl (HTTPException 502), [], demo_from_globex)"
  by (rule cross_enterprise_reply_fails [OF demo_globex_thread, where other = "''globex/x''"]) code_simp+

definition demo_peering :: peering_row where
  "demo_peering = \<lparr>pe_offer_id = ''o1'', pe_from = ''acme'', pe_to = ''globex'', pe_status = ''active'',
     pe_content_policy = ''summary_only'', pe_logging_policy = ''summary_only_log'', pe_topic_filters = ''[]'',
     pe_active_from = None, pe_expires_at = ''z'', pe_offer_payload = [], pe_offer_signature = ''aa'', pe_offer_key_id = [],
     pe_accept_payload = [], pe_accept_signature = ''bb'', pe_accept_key_id = [], pe_last_synced = [],
     pe_endpoints = ''[{'' @ [CHR 0x22] @ ''l2_id'' @ [CHR 0x22] @ '':'' @ [CHR 0x22] @ ''globex/x'' @ [CHR 0x22] @ '','' @ [CHR 0x22] @ ''endpoint_url'' @ [CHR 0x22] @ '':'' @ [CHR 0x22] @ ''g'' @ [CHR 0x22] @ ''}]''\<rparr>"

definition demo_globex_endpoint :: json where
  "demo_globex_endpoint = JObj [(''l2_id'', JStr ''globex/x''), (''endpoint_url'', JStr ''g'')]"

definition demo_peered :: l2_state where
  "demo_peered = (demo_l2 [demo_user_on ''ann'' ''a''] [] [])\<lparr>ag_peerings := [demo_peering]\<rparr>"

definition demo_ask_globex :: consult_request where
  "demo_ask_globex = demo_ask\<lparr>cr_to_l2 := ''globex/x'', cr_to_persona := ''gus''\<rparr>"

lemma demo_peered_route:
  "self_identity ''ann'' demo_peered = Inr (''acme/a'', ''ann'')"
  "request_route (demo_legacy_world ''a'') ''acme/a'' (cr_to_l2 demo_ask_globex) demo_peered = Inr (Peered demo_peering demo_globex_endpoint)"
  by code_simp+

theorem policy_keeps_text_out_witness:
  "cm_content (hd (co_msgs (snd (snd (request_consult demo_prims (demo_legacy_world ''a'') demo_ask_globex ''ann'' demo_peered)))))
     = ''<redacted: summary_only_log>''
   \<and> list_all (\<lambda>m. m \<in> set (co_msgs demo_peered)
      \<or> pe_logging_policy demo_peering \<noteq> ''no_log_consults'' \<and> cm_content m = ''<redacted: '' @ pe_logging_policy demo_peering @ ''>'')
      (co_msgs (snd (snd (request_consult demo_prims (demo_legacy_world ''a'') demo_ask_globex ''ann'' demo_peered))))"
proof
  show "cm_content (hd (co_msgs (snd (snd (request_consult demo_prims (demo_legacy_world ''a'') demo_ask_globex ''ann'' demo_peered)))))
     = ''<redacted: summary_only_log>''" by code_simp
next
  have "\<exists>res out. request_consult demo_prims (demo_legacy_world ''a'') demo_ask_globex ''ann'' demo_peered
      = (res, out, snd (snd (request_consult demo_prims (demo_legacy_world ''a'') demo_ask_globex ''ann'' demo_peered)))"
    by (metis prod.collapse)
  then show "list_all (\<lambda>m. m \<in> set (co_msgs demo_peered)
      \<or> pe_logging_policy demo_peering \<noteq> ''no_log_consults'' \<and> cm_content m = ''<redacted: '' @ pe_logging_policy demo_peering @ ''>'')
      (co_msgs (snd (snd (request_consult demo_prims (demo_legacy_world ''a'') demo_ask_globex ''ann'' demo_peered))))"
    using demo_peered_route by (intro policy_keeps_text_out) (simp add: demo_peering_def, blast)
qed

text \<open>Ann's request, sent and delivered.\<close>

definition demo_mesh :: mesh where
  "demo_mesh = \<lparr>ms_node = (\<lambda>l. if l = ''a'' then demo_a else demo_b None), ms_sent = []\<rparr>"

definition demo_asked :: "(http_exc + thread_row) \<times> outgoing list \<times> l2_state" where
  "demo_asked = request_consult demo_prims (demo_legacy_world ''a'') demo_ask ''ann'' demo_a"

definition demo_delivered :: "(http_exc + unit) \<times> l2_state" where
  "demo_delivered = forward_consult_request demo_prims (demo_legacy_world ''b'') (og_headers (hd (fst (snd demo_asked))))
     (request_body (demo_legacy_world ''a'') ''acme/a'' ''ann'' demo_ask) (demo_b None)"

lemma demo_run_facts:
  "length (fst (snd demo_asked)) = 1"
  "og_wire (hd (fst (snd demo_asked))) = WireRequest (request_body (demo_legacy_world ''a'') ''acme/a'' ''ann'' demo_ask)"
  "map cm_content (co_msgs (snd demo_delivered)) = [''hi'']"
  by code_simp+

theorem consults_agree_witness:
  "\<exists>m. mesh_start demo_mesh \<and> (mesh_step demo_prims demo_legacy_env)\<^sup>*\<^sup>* demo_mesh m \<and> map cm_content (co_msgs (ms_node m ''b'')) = [''hi'']
   \<and> list_all (\<lambda>x. \<exists>k. \<exists>t \<in> opened (ms_node m ''b'') \<inter> opened (ms_node m k). th_id t = cm_thread x
      \<and> self_identity (cm_from_persona x) (ms_node m k) = Inr (cm_from_l2 x, cm_from_persona x)
      \<and> participates (cm_from_l2 x, cm_from_persona x) t
      \<and> (x \<in> set (co_msgs (ms_node m k)) \<or> sent_abroad (demo_legacy_env k) m t x)) (co_msgs (ms_node m ''b''))"
proof -
  let ?og = "hd (fst (snd demo_asked))"
  let ?m1 = "at_node ''a'' (snd (snd demo_asked)) (fst (snd demo_asked)) demo_mesh"
  let ?m2 = "at_node ''b'' (snd demo_delivered) [] ?m1"
  have start: "mesh_start demo_mesh" by (simp add: mesh_start_def demo_mesh_def demo_a_def demo_b_def)
  have "mesh_step demo_prims demo_legacy_env demo_mesh ?m1"
    by (rule step_open [where w = "demo_legacy_world ''a''" and req = demo_ask and un = "''ann''" and res = "fst demo_asked"])
       (simp_all add: demo_legacy_world_def fresh_thread_def get_consult_def sql_fetchone_def demo_mesh_def demo_a_def demo_b_def,
        simp add: demo_asked_def demo_legacy_world_def demo_a_def)
  moreover have "mesh_step demo_prims demo_legacy_env ?m1 ?m2"
  proof (rule step_request_arrives [where w = "demo_legacy_world ''b''" and og = ?og and res' = "fst demo_delivered"
        and b = "request_body (demo_legacy_world ''a'') ''acme/a'' ''ann'' demo_ask"])
    show "rw_env (demo_legacy_world ''b'') = demo_legacy_env ''b''" by (simp add: demo_legacy_world_def)
    have "fst (snd demo_asked) \<noteq> []" using demo_run_facts(1) by auto
    then show "?og \<in> set (ms_sent ?m1)" by simp
    show "og_wire ?og = WireRequest (request_body (demo_legacy_world ''a'') ''acme/a'' ''ann'' demo_ask)" by (rule demo_run_facts)
    show "forward_consult_request demo_prims (demo_legacy_world ''b'') (og_headers ?og)
        (request_body (demo_legacy_world ''a'') ''acme/a'' ''ann'' demo_ask) (ms_node ?m1 ''b'') = (fst demo_delivered, snd demo_delivered)"
      by (simp add: demo_delivered_def demo_mesh_def)
  qed
  ultimately have run: "(mesh_step demo_prims demo_legacy_env)\<^sup>*\<^sup>* demo_mesh ?m2" by (meson converse_rtranclp_into_rtranclp r_into_rtranclp)
  show ?thesis
    using start run demo_run_facts(3) consults_agree [OF start run, of "''b''"] by (intro exI [of _ ?m2]) simp
qed

text \<open>Across Enterprises: Ann asks Gus of Globex, and Globex logs what the policy of
  the peering leaves of her words.\<close>

definition demo_globex_env :: env where
  "demo_globex_env k = (if k = ''CQ_ENTERPRISE'' then Some ''globex'' else if k = ''CQ_GROUP'' then Some ''x'' else None)"

definition demo_globex_world :: "nat l2_world" where
  "demo_globex_world = demo_l2_world demo_globex_env (\<lambda>_. Inl RuntimeErr) None (\<lambda>_. NetStatus 201)"

definition demo_globex :: l2_state where
  "demo_globex = (demo_l2 [(demo_user_on ''gus'' ''x'')\<lparr>us_enterprise_id := ''globex''\<rparr>] [] [])\<lparr>ag_peerings := [demo_peering]\<rparr>"

definition demo_abroad :: "(http_exc + thread_row) \<times> outgoing list \<times> l2_state" where
  "demo_abroad = request_consult demo_prims (demo_legacy_world ''a'') demo_ask_globex ''ann'' demo_peered"

definition demo_received :: "(http_exc + string) \<times> l2_state" where
  "demo_received = x_enterprise_forward_consult_request demo_prims demo_globex_world (og_headers (hd (fst (snd demo_abroad))))
     (request_body (demo_legacy_world ''a'') ''acme/a'' ''ann'' demo_ask_globex) demo_globex"

lemma abroad_delivered:
  "og_wire (hd (fst (snd demo_abroad))) = WireXRequest (request_body (demo_legacy_world ''a'') ''acme/a'' ''ann'' demo_ask_globex)"
  "map cm_content (co_msgs (snd demo_received)) = [''<redacted: summary_only_log>'']"
  by code_simp+

end
