(* ===== verification/ConsentProps.thy ===== *)
theory ConsentProps imports Consents ConsultProps UnitProps begin

text \<open>
  What consents and forward queries promise: the lookup takes the most specific
  live consent, a revoked one is never taken again, a requester reads what the
  policy allows and every answer is in the audit log. And: the policy is decided
  by what the request says about its sender, not by who sent it.
\<close>

section \<open>The most specific consent\<close>

definition consent_matches :: "string option \<Rightarrow> string option \<Rightarrow> consent_row \<Rightarrow> bool" where
  "consent_matches rg sg r \<longleftrightarrow> cn_req_group r \<in> {None, rg} \<and> cn_resp_group r \<in> {None, sg}"

definition pins :: "consent_row \<Rightarrow> nat" where
  "pins r = (if cn_req_group r = None then 0 else 1) + (if cn_resp_group r = None then 0 else 1)"

definition first_with_pins :: "string option \<Rightarrow> string option \<Rightarrow> consent_row list \<Rightarrow> nat \<Rightarrow> consent_row option" where
  "first_with_pins rg sg rows n = List.find (\<lambda>r. consent_matches rg sg r \<and> pins r = n) rows"

text \<open>The reference: the first row that pins both groups, else one, else none.\<close>

definition most_specific :: "string option \<Rightarrow> string option \<Rightarrow> consent_row list \<Rightarrow> consent_row option" where
  "most_specific rg sg rows =
     (case first_with_pins rg sg rows 2 of
        Some r \<Rightarrow> Some r
      | None \<Rightarrow> (case first_with_pins rg sg rows 1 of Some r \<Rightarrow> Some r | None \<Rightarrow> first_with_pins rg sg rows 0))"

lemma find_snoc: "List.find P (xs @ [x]) = (case List.find P xs of Some y \<Rightarrow> Some y | None \<Rightarrow> if P x then Some x else None)"
  by (induction xs) auto

lemma pins_cases: "pins r = 0 \<or> pins r = 1 \<or> pins r = 2"
  by (simp add: pins_def)

lemma first_with_pinsD: "first_with_pins rg sg rows n = Some r \<Longrightarrow> consent_matches rg sg r \<and> pins r = n"
  by (auto simp: first_with_pins_def find_Some_iff)

lemma consent_step_cases:
  "consent_step rg sg r best = (if consent_matches rg sg r \<and> snd best < 2 + int (pins r) then (Some r, 2 + int (pins r)) else best)"
  by (auto simp: consent_step_def consent_matches_def pins_def consent_score_def)

lemma consent_fold:
  "fold (consent_step rg sg) rows (None, -1)
   = (most_specific rg sg rows, case most_specific rg sg rows of None \<Rightarrow> -1 | Some r \<Rightarrow> 2 + int (pins r))"
proof (induction rows rule: rev_induct)
  case Nil
  then show ?case by (simp add: most_specific_def first_with_pins_def)
next
  case (snoc r rows)
  have first: "first_with_pins rg sg (rows @ [r]) n
      = (case first_with_pins rg sg rows n of Some y \<Rightarrow> Some y | None \<Rightarrow> if consent_matches rg sg r \<and> pins r = n then Some r else None)" for n
    by (simp add: first_with_pins_def find_snoc)
  have two: "first_with_pins rg sg rows n = Some y \<Longrightarrow> pins y = n" for n y by (simp add: first_with_pinsD)
  show ?case
    using snoc pins_cases [of r]
    by (auto simp: consent_step_cases most_specific_def first two split: option.splits dest: two)
qed

text \<open>C12. The scoring loop is equivalent to the reference: of the live consents for
  the two Enterprises it returns the first that pins both groups to the ones
  asked for, without one the first that pins one of them, and only then the
  first that pins none.\<close>

theorem consent_lookup_most_specific:
  "find_cross_enterprise_consent req resp rg sg now st = most_specific rg sg (pair_rows req resp now st)"
  by (simp add: find_cross_enterprise_consent_def consent_fold)

section \<open>Revocation\<close>

datatype 'k consent_op = CoSign "'k l2_world" sign_request string | CoRevoke "'k l2_world" string string

fun co_time :: "'k consent_op \<Rightarrow> string" where
  "co_time (CoSign w req un) = lw_iso w"
| "co_time (CoRevoke w cid un) = lw_iso w"

fun co_run :: "'k consent_op \<Rightarrow> 'a fed_state_scheme \<Rightarrow> 'a fed_state_scheme" where
  "co_run (CoSign w req un) st = snd (consents_sign w req un st)"
| "co_run (CoRevoke w cid un) st = snd (consents_revoke w cid un st)"

lemma record_audit_frame: "record_cross_l2_audit r st = Inr st' \<Longrightarrow> fe_consents st' = fe_consents st"
  by (auto simp: record_cross_l2_audit_def)

lemma consents_sign_rows:
  "fe_consents (snd (consents_sign w req un st)) = fe_consents st
   \<or> (\<exists>r. cn_id r \<notin> cn_id ` set (fe_consents st) \<and> fe_consents (snd (consents_sign w req un st)) = fe_consents st @ [r])"
  by (auto simp: consents_sign_def insert_cross_enterprise_consent_def sql_insert_def Let_def dest!: record_audit_frame
      split: sum.splits if_splits)

lemma consents_revoke_rows:
  "fe_consents (snd (consents_revoke w cid un st)) = fe_consents st
   \<or> fe_consents (snd (consents_revoke w cid un st))
     = sql_update (\<lambda>r. cn_id r = cid) (\<lambda>r. r\<lparr>cn_expires_at := Some (lw_iso w)\<rparr>) (fe_consents st)"
  by (auto simp: consents_revoke_def revoke_cross_enterprise_consent_def Let_def dest!: record_audit_frame
      split: sum.splits option.splits)

definition consent_dead :: "string \<Rightarrow> string \<Rightarrow> consent_row list \<Rightarrow> bool" where
  "consent_dead cid now rows \<longleftrightarrow> cid \<in> cn_id ` set rows \<and> (\<forall>r \<in> set rows. cn_id r = cid \<longrightarrow> \<not> consent_live now r)"

lemma consent_dead_later: "consent_dead cid now rows \<Longrightarrow> now \<le> now' \<Longrightarrow> consent_dead cid now' rows"
  by (auto simp: consent_dead_def consent_live_def split: option.splits)

lemma expire_rows:
  "cn_id ` set (sql_update P (\<lambda>r. r\<lparr>cn_expires_at := e\<rparr>) t) = cn_id ` set t"
proof -
  have "map cn_id (sql_update P (\<lambda>r. r\<lparr>cn_expires_at := e\<rparr>) t) = map cn_id t" by (rule map_key_sql_update) simp
  then show ?thesis by (metis list.set_map)
qed

lemma consent_dead_expire:
  "cid \<in> cn_id ` set t \<Longrightarrow> consent_dead cid now (sql_update (\<lambda>r. cn_id r = cid) (\<lambda>r. r\<lparr>cn_expires_at := Some now\<rparr>) t)"
  by (simp only: consent_dead_def expire_rows) (auto simp: set_sql_update consent_live_def)

lemma consent_dead_expire_any:
  "consent_dead cid now t \<Longrightarrow> consent_dead cid now (sql_update P (\<lambda>r. r\<lparr>cn_expires_at := Some now\<rparr>) t)"
  by (simp only: consent_dead_def expire_rows) (auto simp: set_sql_update consent_live_def)

lemma consent_dead_step:
  assumes "consent_dead cid now (fe_consents st)" and "now \<le> co_time op"
  shows "consent_dead cid (co_time op) (fe_consents (co_run op st))"
proof (cases op)
  case (CoSign w req un)
  with consents_sign_rows [of w req un st] consent_dead_later [OF assms]
  show ?thesis by (auto simp: consent_dead_def)
next
  case (CoRevoke w c un)
  with consents_revoke_rows [of w c un st] consent_dead_later [OF assms]
  show ?thesis by (auto intro: consent_dead_expire_any)
qed

lemma consent_dead_run:
  "consent_dead cid now (fe_consents st) \<Longrightarrow> sorted (now # map co_time ops @ [t]) \<Longrightarrow> consent_dead cid t (fe_consents (fold co_run ops st))"
proof (induction ops arbitrary: now st)
  case Nil
  then show ?case by (auto intro: consent_dead_later)
next
  case (Cons op ops)
  then show ?case using consent_dead_step [of cid now st op] by simp
qed

lemma revoked_is_dead:
  assumes "consents_revoke w cid un st = (Inr cid, st')"
  shows "consent_dead cid (lw_iso w) (fe_consents st')"
proof -
  have rows: "fe_consents st' = sql_update (\<lambda>r. cn_id r = cid) (\<lambda>r. r\<lparr>cn_expires_at := Some (lw_iso w)\<rparr>) (fe_consents st)"
    and "cid \<in> cn_id ` set (fe_consents st)"
    using assms
    by (auto simp: consents_revoke_def revoke_cross_enterprise_consent_def get_cross_enterprise_consent_def Let_def
        dest!: record_audit_frame dest: sql_fetchone_SomeD split: sum.splits option.splits)
  then show ?thesis by (simp add: consent_dead_expire)
qed

text \<open>C10. A revoked consent is dead: whatever consents are signed and revoked after
  it, no lookup at a later time, for any two Enterprises and groups, ever
  returns it again.\<close>

theorem revoked_consent_never_found:
  assumes "consents_revoke w cid un st = (Inr cid, st')" and "sorted (lw_iso w # map co_time ops @ [t])"
    and "find_cross_enterprise_consent req resp rg sg t (fold co_run ops st') = Some c"
  shows "cn_id c \<noteq> cid"
proof -
  have "consent_dead cid t (fe_consents (fold co_run ops st'))"
    by (rule consent_dead_run [OF revoked_is_dead [OF assms(1)] assms(2)])
  moreover have "c \<in> set (pair_rows req resp t (fold co_run ops st'))"
    using assms(3)
    by (auto simp: find_cross_enterprise_consent_def consent_fold most_specific_def first_with_pins_def find_Some_iff
        split: option.splits)
  ultimately show ?thesis by (auto simp: consent_dead_def pair_rows_def)
qed

section \<open>What a requester reads\<close>

definition may_read_body :: "string \<Rightarrow> string \<Rightarrow> consent_row option \<Rightarrow> ku_row \<Rightarrow> bool" where
  "may_read_body ent grp consent r \<longleftrightarrow>
     (if ent = or_default (kr_enterprise r) DEFAULT_ENTERPRISE_ID
      then grp = or_default (kr_group r) DEFAULT_GROUP_ID \<or> kr_cross_group r
      else (case consent of None \<Rightarrow> False | Some c \<Rightarrow> cn_policy c = ''full_body''))"

definition may_read_summary :: "string \<Rightarrow> consent_row option \<Rightarrow> ku_row \<Rightarrow> bool" where
  "may_read_summary ent consent r \<longleftrightarrow> ent = or_default (kr_enterprise r) DEFAULT_ENTERPRISE_ID \<or> consent \<noteq> None"

lemma semantic_hit_row:
  assumes "h \<in> set (semantic_query_with_scope z sim n s db)"
  shows "\<exists>r \<in> set (ku_rows db). kr_status r = s \<and> sh_unit h = kr_data r
    \<and> sh_enterprise h = or_default (kr_enterprise r) DEFAULT_ENTERPRISE_ID \<and> sh_group h = or_default (kr_group r) DEFAULT_GROUP_ID
    \<and> sh_cross_group h = kr_cross_group r"
proof -
  from assms have "h \<in> set (concat (map (\<lambda>r. case kr_embedding r of None \<Rightarrow> [] | Some e \<Rightarrow> (case sim e of None \<Rightarrow> [] | Some s \<Rightarrow>
                 [\<lparr>sh_unit = kr_data r, sh_similarity = s,
                   sh_enterprise = or_default (kr_enterprise r) DEFAULT_ENTERPRISE_ID,
                   sh_group = or_default (kr_group r) DEFAULT_GROUP_ID, sh_cross_group = kr_cross_group r\<rparr>]))
             (filter (\<lambda>r. kr_status r = s) (ku_rows db))))"
    unfolding semantic_query_with_scope_def by (auto split: if_splits dest: in_set_takeD)
  then show ?thesis by (auto split: option.splits)
qed

text \<open>Every result comes from a candidate the policy does not deny.\<close>

lemma fq_collect_results:
  assumes "fq_collect decide k hs (p, rs) = (p', rs')" and "x \<in> set rs'"
  shows "x \<in> set rs \<or> (\<exists>h \<in> set hs. fst (decide h) \<noteq> ''denied'' \<and> x = fq_hit_of (fst (decide h)) (snd (decide h)) h)"
  using assms
proof (induction decide k hs "(p, rs)" arbitrary: p rs rule: fq_collect.induct)
  case (2 decide left h hs p rs)
  obtain pol red where d: "decide h = (pol, red)" by fastforce
  show ?case
  proof (cases "pol = ''denied''")
    case True
    with 2 d show ?thesis by fastforce
  next
    case False
    let ?acc = "((if pol = ''summary_only'' then ''summary_only'' else p), rs @ [fq_hit_of pol red h])"
    show ?thesis
    proof (cases "left \<le> 1")
      case True
      with "2.prems" d False show ?thesis by (auto split: if_splits)
    next
      case more: False
      with "2.prems" d False have "fq_collect decide (left - 1) hs ?acc = (p', rs')" by simp
      with "2.hyps"(2) [OF d [symmetric] refl False refl more] "2.prems"(2) d False show ?thesis by auto
    qed
  qed
qed simp

definition reads_within_policy :: "string \<Rightarrow> string \<Rightarrow> consent_row option \<Rightarrow> ku_row list \<Rightarrow> fq_hit \<Rightarrow> bool" where
  "reads_within_policy ent grp consent rows x \<longleftrightarrow>
     (\<exists>r \<in> set rows. kr_status r = ''approved'' \<and> fh_ku_id x = ku_id (kr_data r) \<and> may_read_summary ent consent r
        \<and> (fh_detail x \<noteq> None \<or> fh_action x \<noteq> None \<longrightarrow> may_read_body ent grp consent r))"

lemma forward_query_results_policy:
  assumes "forward_query_results zero cosine consent b db = (p, rs)" and "x \<in> set rs"
  shows "reads_within_policy (fq_enterprise b) (fq_group b) consent (ku_rows db) x"
proof -
  let ?decide = "\<lambda>h. decide_policy_for_ku (sh_enterprise h) (sh_group h) (sh_cross_group h) (fq_enterprise b) (fq_group b) consent"
  from fq_collect_results [OF assms(1) [unfolded forward_query_results_def] assms(2)] obtain h where
    h: "h \<in> set (semantic_query_with_scope (zero (fq_vec b)) (cosine (fq_vec b)) (fq_max b * 3) ''approved'' db)"
    "fst (?decide h) \<noteq> ''denied''" "x = fq_hit_of (fst (?decide h)) (snd (?decide h)) h" by auto
  from semantic_hit_row [OF h(1)] obtain r where r: "r \<in> set (ku_rows db)" "kr_status r = ''approved''" "sh_unit h = kr_data r"
    "sh_enterprise h = or_default (kr_enterprise r) DEFAULT_ENTERPRISE_ID" "sh_group h = or_default (kr_group r) DEFAULT_GROUP_ID"
    "sh_cross_group h = kr_cross_group r" by blast
  have "fh_ku_id x = ku_id (kr_data r)" using h(3) r(3) by (simp add: fq_hit_of_def Let_def)
  moreover have "may_read_summary (fq_enterprise b) consent r"
    using h(2) r by (auto simp: decide_policy_for_ku_def may_read_summary_def split: if_splits option.splits)
  moreover have "fh_detail x \<noteq> None \<or> fh_action x \<noteq> None \<longrightarrow> may_read_body (fq_enterprise b) (fq_group b) consent r"
    using h(2,3) r
    by (auto simp: decide_policy_for_ku_def may_read_body_def fq_hit_of_def Let_def split: if_splits option.splits)
  ultimately show ?thesis using r(1,2) unfolding reads_within_policy_def by blast
qed

lemma fq_answer_facts:
  "fq_answer w b p rs c st = (Inr resp, st') \<Longrightarrow>
   fp_results resp = rs \<and> fp_policy resp = p \<and> fe_audit st' = fe_audit st @ [fq_audit w b p (length rs) c]"
  by (auto simp: fq_answer_def record_cross_l2_audit_def sql_insert_def fq_log_def log_activity_def append_activity_def
      split: sum.splits if_splits)

lemma forward_query_answer:
  assumes "aigrp_forward_query C vec_json zero cosine w hs b st = (Inr resp, st')"
  shows "\<exists>rt p rs. let st0 = st\<lparr>co_rt := rt\<rparr> in
      require_forwarder_identity C (rw_env w) hs (fq_l2 b) False (fq_json vec_json b) st = Inr (fq_l2 b)
    \<and> fq_answer w b p rs (if fq_enterprise b \<noteq> aigrp_enterprise (rw_env w) \<and> fq_consent w b st = None then None
        else map_option cn_id (fq_consent w b st)) st0 = (Inr resp, st')
    \<and> (p, rs) = (if fq_enterprise b \<noteq> aigrp_enterprise (rw_env w) \<and> fq_consent w b st = None then (''denied'', [])
        else forward_query_results zero cosine (fq_consent w b st) b st)"
proof -
  obtain k rt where g: "require_peer_key C (rw_env w) (lw_ssm w) (lw_clock w) hs (co_rt st) = (k, rt)" by fastforce
  let ?st0 = "st\<lparr>co_rt := rt\<rparr>"
  have same: "fq_consent w b ?st0 = fq_consent w b st" "forward_query_results zero cosine c b ?st0 = forward_query_results zero cosine c b st" for c
    by (simp_all add: fq_consent_def find_cross_enterprise_consent_def pair_rows_def forward_query_results_def
        semantic_query_with_scope_def)
  have k: "k = Inr ()" using assms g by (cases k) (auto simp: aigrp_forward_query_def)
  have "fq_request_ok b" using assms g k by (auto simp: aigrp_forward_query_def Let_def split: if_splits)
  obtain l where l: "require_forwarder_identity C (rw_env w) hs (fq_l2 b) False (fq_json vec_json b) st = Inr l"
    using assms g k \<open>fq_request_ok b\<close>
    by (cases "require_forwarder_identity C (rw_env w) hs (fq_l2 b) False (fq_json vec_json b) st")
       (auto simp: aigrp_forward_query_def Let_def)
  then have "l = fq_l2 b" by (auto simp: require_forwarder_identity_def Let_def split: prod.splits if_splits)
  with assms g k l \<open>fq_request_ok b\<close> show ?thesis
    by (intro exI [of _ rt])
       (auto simp: aigrp_forward_query_def same Let_def split: if_splits prod.splits)
qed

text \<open>C11. An answered forward query gives, for the Enterprise and group the request
  names, no more than the policy: only approved units, bodies only of its own
  group or shared with the Enterprise, nothing to another Enterprise without a
  live consent and bodies only under a consent for them. And it leaves exactly
  one more row in the audit log, which names the authenticated L2, the policy
  and the number of results.\<close>

theorem forward_query_within_policy:
  assumes "aigrp_forward_query C vec_json zero cosine w hs b st = (Inr resp, st')"
  shows "list_all (reads_within_policy (fq_enterprise b) (fq_group b) (fq_consent w b st) (ku_rows st)) (fp_results resp)
    \<and> (fq_enterprise b = aigrp_enterprise (rw_env w) \<or> fq_consent w b st \<noteq> None \<or> fp_results resp = [])
    \<and> (\<exists>a. fe_audit st' = fe_audit st @ [a] \<and> au_req_l2 a = Some (strip (header (ph_forwarder hs)))
         \<and> au_policy a = fp_policy resp \<and> au_count a = length (fp_results resp))"
proof -
  from forward_query_answer [OF assms] obtain rt p rs c where
    id: "require_forwarder_identity C (rw_env w) hs (fq_l2 b) False (fq_json vec_json b) st = Inr (fq_l2 b)" and
    a: "fq_answer w b p rs c (st\<lparr>co_rt := rt\<rparr>) = (Inr resp, st')" and
    prs: "(p, rs) = (if fq_enterprise b \<noteq> aigrp_enterprise (rw_env w) \<and> fq_consent w b st = None then (''denied'', [])
        else forward_query_results zero cosine (fq_consent w b st) b st)"
    by (auto simp: Let_def)
  note facts = fq_answer_facts [OF a]
  have "strip (header (ph_forwarder hs)) = fq_l2 b"
    using id by (auto simp: require_forwarder_identity_def Let_def split: prod.splits if_splits)
  moreover have "list_all (reads_within_policy (fq_enterprise b) (fq_group b) (fq_consent w b st) (ku_rows st)) rs"
    using prs forward_query_results_policy [of zero cosine "fq_consent w b st" b st p rs] by (auto simp: list_all_iff split: if_splits)
  moreover have "fq_enterprise b = aigrp_enterprise (rw_env w) \<or> fq_consent w b st \<noteq> None \<or> rs = []"
    using prs by (auto split: if_splits)
  ultimately show ?thesis using facts by (auto simp: fq_audit_def)
qed

text \<open>
  But the Enterprise and the group are the request's own words: two L2s that
  both get an answer and claim the same Enterprise and group get the same
  results, whoever they are, so any L2 of the Enterprise reads any group's
  bodies, and a foreign one with its Enterprise's name left out of the body
  needs no consent.\<close>

theorem answer_ignores_the_sender:
  assumes "aigrp_forward_query C vec_json zero cosine w hs1 b st = (Inr resp1, st1)"
    and "aigrp_forward_query C vec_json zero cosine w hs2 (b\<lparr>fq_l2 := l2\<rparr>) st = (Inr resp2, st2)"
  shows "fp_results resp1 = fp_results resp2 \<and> fp_policy resp1 = fp_policy resp2"
proof -
  have same: "fq_consent w (b\<lparr>fq_l2 := l2\<rparr>) st = fq_consent w b st"
    "forward_query_results zero cosine c (b\<lparr>fq_l2 := l2\<rparr>) st = forward_query_results zero cosine c b st" for c
    by (simp_all add: fq_consent_def forward_query_results_def)
  from forward_query_answer [OF assms(1)] obtain rt1 p1 rs1 c1 where
    a1: "fq_answer w b p1 rs1 c1 (st\<lparr>co_rt := rt1\<rparr>) = (Inr resp1, st1)" and
    r1: "(p1, rs1) = (if fq_enterprise b \<noteq> aigrp_enterprise (rw_env w) \<and> fq_consent w b st = None then (''denied'', [])
        else forward_query_results zero cosine (fq_consent w b st) b st)"
    by (auto simp: Let_def)
  from forward_query_answer [OF assms(2)] obtain rt2 p2 rs2 c2 where
    a2: "fq_answer w (b\<lparr>fq_l2 := l2\<rparr>) p2 rs2 c2 (st\<lparr>co_rt := rt2\<rparr>) = (Inr resp2, st2)" and
    r2: "(p2, rs2) = (if fq_enterprise b \<noteq> aigrp_enterprise (rw_env w) \<and> fq_consent w b st = None then (''denied'', [])
        else forward_query_results zero cosine (fq_consent w b st) b st)"
    by (auto simp: Let_def same)
  from r1 r2 have "(p1, rs1) = (p2, rs2)" by simp
  with fq_answer_facts [OF a1] fq_answer_facts [OF a2] show ?thesis by simp
qed

section \<open>Witnesses\<close>

definition demo_consent :: "string \<Rightarrow> string option \<Rightarrow> consent_row" where
  "demo_consent cid grp = \<lparr>cn_id = cid, cn_req_enterprise = ''globex'', cn_resp_enterprise = ''acme'', cn_req_group = grp,
     cn_resp_group = None, cn_policy = ''summary_only'', cn_signed_by = ''ann'', cn_signed_at = ''s'', cn_expires_at = None,
     cn_audit_id = cid\<rparr>"

text \<open>An L2 of Acme, group b, with one approved unit of that group and two consents.\<close>

definition demo_shared_row :: ku_row where
  "demo_shared_row = (new_ku_row ''t0'' demo_unit (Some ''acme'') (Some ''b''))\<lparr>kr_status := ''approved'', kr_embedding := Some [1]\<rparr>"

definition demo_fed :: fed_state where
  "demo_fed = \<lparr>db_users = [demo_user 1 ''ann'' ''admin'' ''acme'' ''b''], db_user_seq = 2, act_log = [], act_retention = [],
     ku_rows = [demo_shared_row], ku_index = [], ku_rep = empty_rep_db, ag_peers = [], ag_peerings = [], co_threads = [], co_msgs = [],
     co_rt = rt_empty, fe_consents = [demo_consent ''c1'' (Some ''x''), demo_consent ''c2'' None], fe_audit = [], fe_presence = []\<rparr>"

lemma demo_revoked:
  "fst (consents_revoke (demo_legacy_world ''b'') ''c1'' ''ann'' demo_fed) = Inr ''c1''"
  "find_cross_enterprise_consent ''globex'' ''acme'' (Some ''x'') None ''u'' demo_fed = Some (demo_consent ''c1'' (Some ''x''))"
  "find_cross_enterprise_consent ''globex'' ''acme'' (Some ''x'') None ''u'' (snd (consents_revoke (demo_legacy_world ''b'') ''c1'' ''ann'' demo_fed))
   = Some (demo_consent ''c2'' None)"
  by code_simp+

theorem revoked_consent_never_found_witness:
  "find_cross_enterprise_consent ''globex'' ''acme'' (Some ''x'') None ''u'' demo_fed = Some (demo_consent ''c1'' (Some ''x''))
   \<and> cn_id (demo_consent ''c2'' None) \<noteq> ''c1''"
proof (rule conjI [OF demo_revoked(2)])
  let ?st = "snd (consents_revoke (demo_legacy_world ''b'') ''c1'' ''ann'' demo_fed)"
  have r: "consents_revoke (demo_legacy_world ''b'') ''c1'' ''ann'' demo_fed = (Inr ''c1'', ?st)"
    using demo_revoked(1) by (metis prod.collapse)
  show "cn_id (demo_consent ''c2'' None) \<noteq> ''c1''"
    by (rule revoked_consent_never_found [OF r, of "[]" "''u''" "''globex''" "''acme''" "Some ''x''" None])
       (use demo_revoked(3) in \<open>simp_all add: demo_legacy_world_def demo_l2_world_def\<close>)
qed

definition demo_query_body :: fq_request where
  "demo_query_body = \<lparr>fq_vec = [1], fq_text = ''parser'', fq_l2 = ''acme/c'', fq_enterprise = ''acme'', fq_group = ''b'', fq_persona = [], fq_max = 5\<rparr>"

definition demo_foreigner :: peer_request where
  "demo_foreigner = demo_intruder\<lparr>ph_forwarder := Some ''globex/x''\<rparr>"

definition demo_fq :: "peer_request \<Rightarrow> fq_request \<Rightarrow> (http_exc + fq_response) \<times> fed_state" where
  "demo_fq hs b = aigrp_forward_query demo_prims (\<lambda>_. JNull) (\<lambda>_. False) (\<lambda>_ _. Some 1) (demo_legacy_world ''b'') hs b demo_fed"

lemma demo_fq_answers:
  "case fst (demo_fq demo_intruder demo_query_body) of Inl _ \<Rightarrow> False | Inr r \<Rightarrow> map fh_action (fp_results r) = [Some ''pin it in the lock file'']"
  "case fst (demo_fq demo_foreigner (demo_query_body\<lparr>fq_l2 := ''globex/x''\<rparr>)) of Inl _ \<Rightarrow> False | Inr r \<Rightarrow> map fh_action (fp_results r) = [Some ''pin it in the lock file'']"
  by code_simp+

theorem forward_query_within_policy_witness:
  "\<exists>resp st'. demo_fq demo_intruder demo_query_body = (Inr resp, st') \<and> map fh_action (fp_results resp) = [Some ''pin it in the lock file'']
    \<and> list_all (reads_within_policy (fq_enterprise demo_query_body) (fq_group demo_query_body)
          (fq_consent (demo_legacy_world ''b'') demo_query_body demo_fed) (ku_rows demo_fed)) (fp_results resp)
    \<and> (fq_enterprise demo_query_body = aigrp_enterprise (rw_env (demo_legacy_world ''b''))
        \<or> fq_consent (demo_legacy_world ''b'') demo_query_body demo_fed \<noteq> None \<or> fp_results resp = [])
    \<and> (\<exists>a. fe_audit st' = fe_audit demo_fed @ [a] \<and> au_req_l2 a = Some (strip (header (ph_forwarder demo_intruder)))
         \<and> au_policy a = fp_policy resp \<and> au_count a = length (fp_results resp))"
proof -
  obtain resp where resp: "fst (demo_fq demo_intruder demo_query_body) = Inr resp" "map fh_action (fp_results resp) = [Some ''pin it in the lock file'']"
    using demo_fq_answers(1) by (cases "fst (demo_fq demo_intruder demo_query_body)") simp_all
  then obtain st' where st': "demo_fq demo_intruder demo_query_body = (Inr resp, st')" by (metis prod.collapse)
  show ?thesis
    using st' resp(2) forward_query_within_policy [OF st' [unfolded demo_fq_def]]
    by (intro exI [of _ resp] exI [of _ st']) blast
qed

theorem answer_ignores_the_sender_witness:
  "\<exists>resp1 st1 resp2 st2. demo_fq demo_intruder demo_query_body = (Inr resp1, st1)
    \<and> demo_fq demo_foreigner (demo_query_body\<lparr>fq_l2 := ''globex/x''\<rparr>) = (Inr resp2, st2)
    \<and> map fh_action (fp_results resp2) = [Some ''pin it in the lock file'']
    \<and> fp_results resp1 = fp_results resp2 \<and> fp_policy resp1 = fp_policy resp2"
proof -
  let ?b2 = "demo_query_body\<lparr>fq_l2 := ''globex/x''\<rparr>"
  obtain r1 where r1: "fst (demo_fq demo_intruder demo_query_body) = Inr r1"
    using demo_fq_answers(1) by (cases "fst (demo_fq demo_intruder demo_query_body)") simp_all
  obtain r2 where r2: "fst (demo_fq demo_foreigner ?b2) = Inr r2" "map fh_action (fp_results r2) = [Some ''pin it in the lock file'']"
    using demo_fq_answers(2) by (cases "fst (demo_fq demo_foreigner ?b2)") simp_all
  obtain s1 s2 where s: "demo_fq demo_intruder demo_query_body = (Inr r1, s1)" "demo_fq demo_foreigner ?b2 = (Inr r2, s2)"
    using r1 r2(1) by (metis prod.collapse)
  show ?thesis
    using s r2(2) answer_ignores_the_sender [OF s(1) [unfolded demo_fq_def] s(2) [unfolded demo_fq_def]]
    by (intro exI [of _ r1] exI [of _ s1] exI [of _ r2] exI [of _ s2] conjI) simp_all
qed

end
