(* ===== verification/Gossip.thy ===== *)
theory Gossip imports Bloom ConsentProps begin

text \<open>
  The mesh of an Enterprise (\<open>app.py\<close>): hello with its flood, announce, the peer
  list, the corpus signature, bootstrap from a seed and the poll of every peer;
  and the presence registry. Answers of other L2s are parameters; byte strings
  travel as bytes (their base64 text is left out). The centroid of the stored
  vectors is numpy's.
\<close>

section \<open>Hello and announce\<close>

record hello_body =
  he_l2 :: string
  he_enterprise :: string
  he_group :: string
  he_url :: string
  he_pubkey :: "string option"

record announcement =
  an_base :: string
  an_headers :: peer_request
  an_body :: hello_body
  an_by :: string

definition hello_ok :: "hello_body \<Rightarrow> bool" where
  "hello_ok b \<longleftrightarrow> he_l2 b \<noteq> [] \<and> he_enterprise b \<noteq> [] \<and> he_group b \<noteq> []"

text \<open>A row without a signature: what hello, announce and bootstrap store.\<close>

definition learn_peer :: "string \<Rightarrow> hello_body \<Rightarrow> 'a mesh_db_scheme \<Rightarrow> 'a mesh_db_scheme" where
  "learn_peer now b db = upsert_aigrp_peer now (he_l2 b) (he_enterprise b) (he_group b) (he_url b) None None 0 0 None False (he_pubkey b) db"

definition self_entry :: "'k prims \<Rightarrow> 'k l2_world \<Rightarrow> peer_row" where
  "self_entry C w = \<lparr>ap_l2_id = self_l2_id (rw_env w), ap_enterprise = aigrp_enterprise (rw_env w), ap_group = aigrp_group (rw_env w),
     ap_endpoint = self_url (rw_env w), ap_centroid = None, ap_bloom = None, ap_ku_count = 0, ap_domain_count = 0, ap_model = None,
     ap_first_seen = lw_iso w, ap_last_seen = lw_iso w, ap_last_signature = None,
     ap_pubkey = self_public_key_b64u C (lw_l2_key w)\<rparr>"

text \<open>What \<open>urllib.request.Request\<close> takes: it strips the text, unwraps \<open><...>\<close> and
  \<open>URL:\<close>, cuts the fragment off, and raises \<open>ValueError\<close> unless a scheme is left.\<close>

definition unwrap_url :: "string \<Rightarrow> string" where
  "unwrap_url url =
     (let u = strip url;
          v = (if startswith u ''<'' \<and> endswith u ''>'' then strip (butlast (tl u)) else u)
      in if startswith v ''URL:'' then strip (drop 4 v) else v)"

definition cut_fragment :: "string \<Rightarrow> string" where
  "cut_fragment u = (if CHR 0x23 \<in> set u then rev (tl (dropWhile (\<lambda>c. c \<noteq> CHR 0x23) (rev u))) else u)"

definition has_scheme :: "string \<Rightarrow> bool" where
  "has_scheme u \<longleftrightarrow> (case dropWhile (\<lambda>c. c \<noteq> CHR ''/'' \<and> c \<noteq> CHR '':'') u of
     [] \<Rightarrow> False | c # _ \<Rightarrow> c = CHR '':'' \<and> hd u \<noteq> CHR '':'')"

definition request_url_ok :: "string \<Rightarrow> bool" where
  "request_url_ok url \<longleftrightarrow> has_scheme (cut_fragment (unwrap_url url))"

definition announce_url :: "peer_row \<Rightarrow> string" where
  "announce_url p = rstrip_char (CHR ''/'') (ap_endpoint p) @ ''/api/v1/aigrp/announce''"

text \<open>The background task. The request is built outside the inner \<open>try\<close>: an address
  it cannot be built for ends the task.\<close>

fun flood :: "'k prims \<Rightarrow> 'k l2_world \<Rightarrow> hello_body \<Rightarrow> peer_row list \<Rightarrow> rt_state \<Rightarrow> announcement list \<times> rt_state" where
  "flood C w b [] rt = ([], rt)"
| "flood C w b (p # ps) rt =
     (if ap_l2_id p = he_l2 b \<or> ap_l2_id p = self_l2_id (rw_env w) \<or> ap_endpoint p = [] then flood C w b ps rt
      else (case outbound_bearer C (rw_env w) (lw_ssm w) (lw_clock w) (ap_l2_id p) rt of
              (bearer, rt1) \<Rightarrow>
                if \<not> request_url_ok (announce_url p) then ([], rt1)
                else (case flood C w b ps rt1 of
                        (sent, rt2) \<Rightarrow>
                          (\<lparr>an_base = rstrip_char (CHR ''/'') (ap_endpoint p),
                            an_headers = \<lparr>ph_authorization = Some (''Bearer '' @ bearer), ph_forwarder = Some (self_l2_id (rw_env w)),
                                          ph_signature = None, ph_offer_id = None\<rparr>,
                            an_body = b, an_by = self_l2_id (rw_env w)\<rparr> # sent, rt2))))"

text \<open>The response and the announcements of the background task.\<close>

definition aigrp_hello :: "'k prims \<Rightarrow> 'k l2_world \<Rightarrow> peer_request \<Rightarrow> hello_body \<Rightarrow> 'a l2_state_scheme
    \<Rightarrow> (http_exc + peer_row list) \<times> announcement list \<times> 'a l2_state_scheme" where
  "aigrp_hello C w hs b st =
     (case require_peer_key C (rw_env w) (lw_ssm w) (lw_clock w) hs (co_rt st) of
        (Inl e, rt') \<Rightarrow> (Inl e, [], st\<lparr>co_rt := rt'\<rparr>)
      | (Inr _, rt') \<Rightarrow>
          let st0 = st\<lparr>co_rt := rt'\<rparr>
          in if \<not> hello_ok b then (Inl (HTTPException 422), [], st0)
             else if he_enterprise b \<noteq> aigrp_enterprise (rw_env w) then (Inl (HTTPException 403), [], st0)
             else
               let st1 = learn_peer (lw_iso w) b st0; peers = list_aigrp_peers (aigrp_enterprise (rw_env w)) st1
               in (case flood C w b peers (co_rt st1) of
                     (sent, rt2) \<Rightarrow> (Inr (peers @ [self_entry C w]), sent, st1\<lparr>co_rt := rt2\<rparr>)))"

definition aigrp_announce :: "'k prims \<Rightarrow> 'k l2_world \<Rightarrow> peer_request \<Rightarrow> hello_body \<Rightarrow> 'a l2_state_scheme
    \<Rightarrow> (http_exc + string) \<times> 'a l2_state_scheme" where
  "aigrp_announce C w hs b st =
     (case require_peer_key C (rw_env w) (lw_ssm w) (lw_clock w) hs (co_rt st) of
        (Inl e, rt') \<Rightarrow> (Inl e, st\<lparr>co_rt := rt'\<rparr>)
      | (Inr _, rt') \<Rightarrow>
          let st0 = st\<lparr>co_rt := rt'\<rparr>
          in if \<not> hello_ok b then (Inl (HTTPException 422), st0)
             else if he_enterprise b \<noteq> aigrp_enterprise (rw_env w) then (Inl (HTTPException 403), st0)
             else (Inr (he_l2 b), learn_peer (lw_iso w) b st0))"

definition aigrp_peers :: "'k prims \<Rightarrow> 'k l2_world \<Rightarrow> peer_request \<Rightarrow> 'a l2_state_scheme \<Rightarrow> (http_exc + peer_row list) \<times> 'a l2_state_scheme" where
  "aigrp_peers C w hs st =
     (case require_peer_key C (rw_env w) (lw_ssm w) (lw_clock w) hs (co_rt st) of
        (Inl e, rt') \<Rightarrow> (Inl e, st\<lparr>co_rt := rt'\<rparr>)
      | (Inr _, rt') \<Rightarrow> (Inr (list_aigrp_peers (aigrp_enterprise (rw_env w)) st), st\<lparr>co_rt := rt'\<rparr>))"

section \<open>Signatures\<close>

record corpus_signature =
  sn_l2 :: string
  sn_enterprise :: string
  sn_group :: string
  sn_url :: string
  sn_ku_count :: int
  sn_domain_count :: int
  sn_model :: "string option"
  sn_centroid :: "bytes option"
  sn_bloom :: "bytes option"

text \<open>The approved domains are a set, of which the filter is computed in any order;
  here in the order of the strings.\<close>

definition build_self_signature :: "'k prims \<Rightarrow> (bytes list \<Rightarrow> bytes option) \<Rightarrow> string \<Rightarrow> env \<Rightarrow> 'a ku_db_scheme \<Rightarrow> corpus_signature" where
  "build_self_signature C centroid model env db =
     (let embeddings = approved_embeddings db; domains = approved_domains db
      in \<lparr>sn_l2 = self_l2_id env, sn_enterprise = aigrp_enterprise env, sn_group = aigrp_group env, sn_url = self_url env,
          sn_ku_count = int (length embeddings), sn_domain_count = int (card domains),
          sn_model = (if embeddings = [] then None else Some model),
          sn_centroid = centroid embeddings,
          sn_bloom = Some (compute_domain_bloom C (sorted_list_of_set domains))\<rparr>)"

definition aigrp_signature :: "'k prims \<Rightarrow> (bytes list \<Rightarrow> bytes option) \<Rightarrow> string \<Rightarrow> 'k l2_world \<Rightarrow> peer_request \<Rightarrow> 'a l2_state_scheme
    \<Rightarrow> (http_exc + corpus_signature) \<times> 'a l2_state_scheme" where
  "aigrp_signature C centroid model w hs st =
     (case require_peer_key C (rw_env w) (lw_ssm w) (lw_clock w) hs (co_rt st) of
        (Inl e, rt') \<Rightarrow> (Inl e, st\<lparr>co_rt := rt'\<rparr>)
      | (Inr _, rt') \<Rightarrow> (Inr (build_self_signature C centroid model (rw_env w) st), st\<lparr>co_rt := rt'\<rparr>))"

section \<open>Bootstrap and poll\<close>

text \<open>\<open>answer\<close> is the seed's peer list, None when the call failed.\<close>

definition try_bootstrap :: "'k l2_world \<Rightarrow> peer_row list option \<Rightarrow> 'a mesh_db_scheme \<Rightarrow> bool \<times> 'a mesh_db_scheme" where
  "try_bootstrap w answer db =
     (case answer of
        None \<Rightarrow> (False, db)
      | Some ps \<Rightarrow>
          (True, fold (\<lambda>p db. if ap_l2_id p = self_l2_id (rw_env w) then db
             else upsert_aigrp_peer (lw_iso w) (ap_l2_id p) (ap_enterprise p) (ap_group p) (ap_endpoint p) None None
                    (ap_ku_count p) (ap_domain_count p) (ap_model p) False (ap_pubkey p) db) ps db))"

definition non_empty :: "bytes option \<Rightarrow> bytes option" where
  "non_empty b = (if b = Some [] then None else b)"

text \<open>One peer: hello again (best effort), then its signature; \<open>answer p\<close> is None
  when that call failed. A stored signature is a heartbeat in the reputation log.\<close>

definition poll_peer :: "'k prims \<Rightarrow> 'k l2_world \<Rightarrow> (peer_row \<Rightarrow> corpus_signature option) \<Rightarrow> peer_row \<Rightarrow> 'a mesh_db_scheme \<Rightarrow> 'a mesh_db_scheme" where
  "poll_peer C w answer p db =
     (if ap_l2_id p = self_l2_id (rw_env w) \<or> ap_endpoint p = [] then db
      else (case answer p of
              None \<Rightarrow> db
            | Some s \<Rightarrow>
                let db1 = upsert_aigrp_peer (lw_iso w) (sn_l2 s) (sn_enterprise s) (sn_group s)
                            (if sn_url s = [] then ap_endpoint p else sn_url s) (non_empty (sn_centroid s)) (non_empty (sn_bloom s))
                            (sn_ku_count s) (sn_domain_count s) (sn_model s) True None db;
                    call = \<lparr>rc_event_type = ''peer.heartbeat'',
                       rc_body = JObj [(''peer_l2_id'', JStr (sn_l2 s)), (''peer_enterprise'', JStr (sn_enterprise s)),
                                       (''ku_count'', JInt (sn_ku_count s)), (''domain_count'', JInt (sn_domain_count s))],
                       rc_enterprise_id = None, rc_l2_id = None, rc_ts = None\<rparr>
                in db1\<lparr>ku_rep := snd (record_event C (rep_world.truncate w) call (ku_rep db1))\<rparr>))"

text \<open>One turn of the loop: the bootstrap while it is pending, then every peer.\<close>

definition poll_cycle :: "'k prims \<Rightarrow> 'k l2_world \<Rightarrow> peer_row list option \<Rightarrow> (peer_row \<Rightarrow> corpus_signature option)
    \<Rightarrow> bool \<times> 'a mesh_db_scheme \<Rightarrow> bool \<times> 'a mesh_db_scheme" where
  "poll_cycle C w seed answer s =
     (case s of (needs_bootstrap, db) \<Rightarrow>
        case (if needs_bootstrap then (case try_bootstrap w seed db of (ok, db1) \<Rightarrow> (\<not> ok, db1)) else (False, db)) of
          (needs, db1) \<Rightarrow> (needs, fold (poll_peer C w answer) (list_aigrp_peers (aigrp_enterprise (rw_env w)) db1) db1))"

definition needs_bootstrap :: "env \<Rightarrow> bool" where
  "needs_bootstrap env \<longleftrightarrow> \<not> is_first_deploy_runtime env \<and> seed_peer_url env \<noteq> []"

section \<open>Presence\<close>

definition upsert_peer :: "presence_row \<Rightarrow> 'a fed_state_scheme \<Rightarrow> 'a fed_state_scheme" where
  "upsert_peer r st =
     (if sql_fetchone (\<lambda>q. pr_persona q = pr_persona r) (fe_presence st) = None
      then st\<lparr>fe_presence := fe_presence st @ [r]\<rparr>
      else st\<lparr>fe_presence := sql_update (\<lambda>q. pr_persona q = pr_persona r) (\<lambda>_. r) (fe_presence st)\<rparr>)"

definition list_active_peers :: "string \<Rightarrow> string \<Rightarrow> string option \<Rightarrow> string option \<Rightarrow> 'a fed_state_scheme \<Rightarrow> presence_row list" where
  "list_active_peers ent since grp exclude st =
     order_desc pr_last_seen (filter (\<lambda>r. pr_enterprise r = ent \<and> since \<le> pr_last_seen r \<and> pr_discoverable r
       \<and> matches_opt grp (\<lambda>g. pr_group r = g) \<and> matches_opt exclude (\<lambda>x. pr_persona r \<noteq> x)) (fe_presence st))"

record heartbeat_request =
  hb_persona :: string
  hb_discoverable :: bool
  hb_hint :: "string option"
  hb_domains :: "string list option"

definition heartbeat_ok :: "heartbeat_request \<Rightarrow> bool" where
  "heartbeat_ok r \<longleftrightarrow> text_ok 1 128 (hb_persona r) \<and> subject_ok (hb_hint r)"

definition peers_heartbeat :: "'k l2_world \<Rightarrow> heartbeat_request \<Rightarrow> string \<Rightarrow> 'a fed_state_scheme \<Rightarrow> (http_exc + string) \<times> 'a fed_state_scheme" where
  "peers_heartbeat w req username st =
     (if \<not> heartbeat_ok req then (Inl (HTTPException 422), st)
      else (case get_user st username of
        None \<Rightarrow> (Inl (HTTPException 401), st)
      | Some u \<Rightarrow>
          (Inr (lw_iso w),
           upsert_peer \<lparr>pr_persona = hb_persona req, pr_user = Some (us_id u), pr_enterprise = us_enterprise_id u, pr_group = us_group_id u,
              pr_last_seen = lw_iso w, pr_domains = hb_domains req, pr_discoverable = hb_discoverable req, pr_hint = hb_hint req,
              pr_metadata = None\<rparr> st)))"

text \<open>\<open>ago m\<close> is the clock minus \<open>m\<close> minutes, as a string. The minutes since a
  row was seen are left out of the answer.\<close>

definition since_ok :: "int \<Rightarrow> bool" where "since_ok m \<longleftrightarrow> 0 < m \<and> m \<le> 24 * 60"

definition peers_active :: "(int \<Rightarrow> string) \<Rightarrow> string option \<Rightarrow> int \<Rightarrow> bool \<Rightarrow> string option \<Rightarrow> string \<Rightarrow> 'a fed_state_scheme
    \<Rightarrow> http_exc + presence_row list" where
  "peers_active ago grp since_minutes include_self self_persona username st =
     (if \<not> since_ok since_minutes then Inl (HTTPException 422)
      else (case get_user st username of
        None \<Rightarrow> Inl (HTTPException 401)
      | Some u \<Rightarrow> Inr (list_active_peers (us_enterprise_id u) (ago since_minutes) grp (if include_self then None else self_persona) st)))"

definition aigrp_peers_active :: "'k prims \<Rightarrow> 'k l2_world \<Rightarrow> (int \<Rightarrow> string) \<Rightarrow> peer_request \<Rightarrow> string option \<Rightarrow> int \<Rightarrow> 'a fed_state_scheme
    \<Rightarrow> (http_exc + presence_row list) \<times> 'a fed_state_scheme" where
  "aigrp_peers_active C w ago hs grp since_minutes st =
     (case require_peer_key C (rw_env w) (lw_ssm w) (lw_clock w) hs (co_rt st) of
        (Inl e, rt') \<Rightarrow> (Inl e, st\<lparr>co_rt := rt'\<rparr>)
      | (Inr _, rt') \<Rightarrow>
          (if \<not> since_ok since_minutes then Inl (HTTPException 422)
           else Inr (map (\<lambda>r. r\<lparr>pr_hint := None\<rparr>)
             (list_active_peers (aigrp_enterprise (rw_env w)) (ago since_minutes) grp None st)), st\<lparr>co_rt := rt'\<rparr>))"

end
