(* ===== verification/GossipProps.thy ===== *)
theory GossipProps imports Gossip begin

text \<open>
  What the mesh promises: a joiner learns every peer of its seed, each other peer
  is told of it once, and a heartbeat is seen by the members of the caller's
  Enterprise and nobody else. And what it lets a sibling do: hello and announce
  do not tie the L2 they speak of to the L2 that speaks, so any sibling replaces
  the key another one is known by; a heartbeat takes a persona over from
  whoever used it.
\<close>

section \<open>The peer table\<close>

definition peer_of :: "string \<Rightarrow> 'a mesh_db_scheme \<Rightarrow> peer_row option" where
  "peer_of l2 db = sql_fetchone (\<lambda>r. ap_l2_id r = l2) (ag_peers db)"

lemma set_pubkey_keep [simp]:
  "ap_l2_id (set_pubkey pk r) = ap_l2_id r" "ap_endpoint (set_pubkey pk r) = ap_endpoint r"
  "ap_enterprise (set_pubkey pk r) = ap_enterprise r" "ap_group (set_pubkey pk r) = ap_group r"
  "ap_bloom (set_pubkey pk r) = ap_bloom r"
  "ap_pubkey (set_pubkey pk r) = (if pk = None then ap_pubkey r else pk)"
  by (simp_all add: set_pubkey_def split: option.split)

lemma fetch_update_key:
  assumes "\<And>q. key (f q) = key q"
  shows "sql_fetchone (\<lambda>q. key q = k) (sql_update (\<lambda>q. key q = l) f t)
    = (if k = l then map_option f (sql_fetchone (\<lambda>q. key q = k) t) else sql_fetchone (\<lambda>q. key q = k) t)"
  using assms by (induction t) (auto simp: sql_fetchone_def)

lemma upsert_other: "k \<noteq> l2 \<Longrightarrow> peer_of k (upsert_aigrp_peer now l2 ent grp url ce bl kus doms m sig pk db) = peer_of k db"
  by (auto simp: peer_of_def upsert_aigrp_peer_def sql_fetchone_snoc fetch_update_key split: option.split)

lemma upsert_same:
  "\<exists>r. peer_of l2 (upsert_aigrp_peer now l2 ent grp url ce bl kus doms m sig pk db) = Some r
    \<and> ap_l2_id r = l2 \<and> ap_enterprise r = ent \<and> ap_group r = grp \<and> ap_endpoint r = url \<and> (pk \<noteq> None \<longrightarrow> ap_pubkey r = pk)
    \<and> (sig \<longrightarrow> ap_bloom r = bl)"
proof (cases "sql_fetchone (\<lambda>r. ap_l2_id r = l2) (ag_peers db)")
  case None
  then show ?thesis by (simp add: peer_of_def upsert_aigrp_peer_def sql_fetchone_snoc)
next
  case (Some q)
  then have "ap_l2_id q = l2" using sql_fetchone_SomeD by fastforce
  with Some show ?thesis by (simp add: peer_of_def upsert_aigrp_peer_def fetch_update_key)
qed

lemma upsert_ids:
  "ap_l2_id ` set (ag_peers (upsert_aigrp_peer now l2 ent grp url ce bl kus doms m sig pk db)) = insert l2 (ap_l2_id ` set (ag_peers db))"
proof (cases "sql_fetchone (\<lambda>r. ap_l2_id r = l2) (ag_peers db)")
  case None
  then show ?thesis by (simp add: upsert_aigrp_peer_def)
next
  case (Some r)
  have "l2 \<in> ap_l2_id ` set (ag_peers db)" using sql_fetchone_SomeD [OF Some] by force
  moreover have "map ap_l2_id (ag_peers (upsert_aigrp_peer now l2 ent grp url ce bl kus doms m sig pk db)) = map ap_l2_id (ag_peers db)"
    using Some by (simp add: upsert_aigrp_peer_def map_key_sql_update)
  then have "ap_l2_id ` set (ag_peers (upsert_aigrp_peer now l2 ent grp url ce bl kus doms m sig pk db)) = ap_l2_id ` set (ag_peers db)"
    by (metis list.set_map)
  ultimately show ?thesis by auto
qed

lemma upsert_unique:
  assumes "unique_key ap_l2_id (ag_peers db)"
  shows "unique_key ap_l2_id (ag_peers (upsert_aigrp_peer now l2 ent grp url ce bl kus doms m sig pk db))"
proof (cases "sql_fetchone (\<lambda>r. ap_l2_id r = l2) (ag_peers db)")
  case None
  then show ?thesis using assms by (auto simp: upsert_aigrp_peer_def unique_key_def table_simps)
next
  case (Some r)
  with assms show ?thesis by (simp add: upsert_aigrp_peer_def unique_key_sql_update)
qed

lemma upsert_keeps [simp]:
  "db_users (upsert_aigrp_peer now l2 ent grp url ce bl kus doms m sig pk db) = db_users db"
  "ku_rows (upsert_aigrp_peer now l2 ent grp url ce bl kus doms m sig pk db) = ku_rows db"
  by (simp_all add: upsert_aigrp_peer_def)

lemma learn_keeps [simp]:
  "co_rt (learn_peer now b db) = co_rt db"
  "co_threads (learn_peer now b db) = co_threads db"
  "ku_rows (learn_peer now b db) = ku_rows db"
  by (simp_all add: learn_peer_def upsert_aigrp_peer_def)

lemma learn_peer_of:
  "peer_of k (learn_peer now b db) = (if k = he_l2 b then peer_of k (learn_peer now b db) else peer_of k db)"
  by (simp add: learn_peer_def upsert_other)

lemma learned:
  "\<exists>r. peer_of (he_l2 b) (learn_peer now b db) = Some r \<and> ap_l2_id r = he_l2 b \<and> ap_enterprise r = he_enterprise b
    \<and> ap_endpoint r = he_url b \<and> (he_pubkey b \<noteq> None \<longrightarrow> ap_pubkey r = he_pubkey b)"
  unfolding learn_peer_def by (rule exE [OF upsert_same]) blast

lemma pubkey_peer_of: "get_aigrp_peer_pubkey k db = (case peer_of k db of None \<Rightarrow> None | Some r \<Rightarrow> ap_pubkey r)"
  by (simp add: get_aigrp_peer_pubkey_def peer_of_def)

section \<open>Joining\<close>

definition same_entry :: "peer_row \<Rightarrow> peer_row \<Rightarrow> bool" where
  "same_entry p r \<longleftrightarrow> ap_enterprise r = ap_enterprise p \<and> ap_group r = ap_group p \<and> ap_endpoint r = ap_endpoint p
     \<and> (ap_pubkey p \<noteq> None \<longrightarrow> ap_pubkey r = ap_pubkey p)"

definition knows :: "'a mesh_db_scheme \<Rightarrow> peer_row \<Rightarrow> bool" where
  "knows db p \<longleftrightarrow> (case peer_of (ap_l2_id p) db of None \<Rightarrow> False | Some r \<Rightarrow> same_entry p r)"

lemma bootstrap_learns:
  assumes "distinct (map ap_l2_id ps)" and "p \<in> set ps" and "ap_l2_id p \<noteq> self_l2_id (rw_env w)"
  shows "knows (snd (try_bootstrap w (Some ps) db)) p"
  using assms(1,2)
proof (induction ps rule: rev_induct)
  case Nil
  then show ?case by simp
next
  case (snoc q ps)
  let ?db = "snd (try_bootstrap w (Some ps) db)"
  have step: "snd (try_bootstrap w (Some (ps @ [q])) db) = (if ap_l2_id q = self_l2_id (rw_env w) then ?db
      else upsert_aigrp_peer (lw_iso w) (ap_l2_id q) (ap_enterprise q) (ap_group q) (ap_endpoint q) None None
             (ap_ku_count q) (ap_domain_count q) (ap_model q) False (ap_pubkey q) ?db)"
    by (simp add: try_bootstrap_def)
  show ?case
  proof (cases "p = q")
    case True
    obtain r where r: "peer_of (ap_l2_id q) (snd (try_bootstrap w (Some (ps @ [q])) db)) = Some r" "same_entry q r"
      using True assms(3)
        upsert_same [of "ap_l2_id q" "lw_iso w" "ap_enterprise q" "ap_group q" "ap_endpoint q" None None "ap_ku_count q"
            "ap_domain_count q" "ap_model q" False "ap_pubkey q" ?db]
      by (auto simp: step same_entry_def)
    with True show ?thesis by (simp add: knows_def)
  next
    case False
    with snoc.prems have "p \<in> set ps" by simp
    moreover from this have "ap_l2_id p \<in> ap_l2_id ` set ps" by (rule imageI)
    then have "ap_l2_id p \<noteq> ap_l2_id q" using snoc.prems(1) by auto
    ultimately show ?thesis using snoc by (simp add: step knows_def upsert_other)
  qed
qed

definition flood_targets :: "env \<Rightarrow> hello_body \<Rightarrow> peer_row list \<Rightarrow> peer_row list" where
  "flood_targets env b ps = filter (\<lambda>p. ap_l2_id p \<noteq> he_l2 b \<and> ap_l2_id p \<noteq> self_l2_id env \<and> ap_endpoint p \<noteq> []) ps"

lemma flood_sent:
  "map (\<lambda>a. (an_base a, an_body a)) (fst (flood C w b ps rt))
     = map (\<lambda>p. (rstrip_char (CHR ''/'') (ap_endpoint p), b))
         (takeWhile (\<lambda>p. request_url_ok (announce_url p)) (flood_targets (rw_env w) b ps))"
  by (induction C w b ps rt rule: flood.induct) (auto simp: flood_targets_def split: prod.split)

text \<open>C34. Joining. A joiner that says hello to a seed gets back a list from which it
  learns every L2 the seed knows of and the seed itself, each with its address
  and, where the seed has one, its key; the seed learns the joiner; and the
  other L2s the seed has an address of, the ones it had before, are sent one
  announcement each, in the order of its list and up to the first address \<open>urllib\<close>
  rejects: that one ends the flood, and the L2s behind it are not told.\<close>

theorem joiner_learns_the_mesh:
  assumes "aigrp_hello C w hs b st = (Inr peers, sent, st')" and "he_l2 b = self_l2_id (rw_env wj)"
    and "unique_key ap_l2_id (ag_peers st)" and "peer_of (self_l2_id (rw_env w)) st = None"
    and "self_l2_id (rw_env wj) \<noteq> self_l2_id (rw_env w)"
  shows "list_all (\<lambda>p. ap_l2_id p = self_l2_id (rw_env wj) \<or> knows (snd (try_bootstrap wj (Some peers) db)) p)
      (self_entry C w # list_aigrp_peers (aigrp_enterprise (rw_env w)) st)
    \<and> (\<exists>r. peer_of (he_l2 b) st' = Some r \<and> ap_endpoint r = he_url b \<and> (he_pubkey b \<noteq> None \<longrightarrow> ap_pubkey r = he_pubkey b))
    \<and> map (\<lambda>a. (an_base a, an_body a)) sent
      = map (\<lambda>p. (rstrip_char (CHR ''/'') (ap_endpoint p), b)) (takeWhile (\<lambda>p. request_url_ok (announce_url p))
          (flood_targets (rw_env w) b (list_aigrp_peers (aigrp_enterprise (rw_env w)) st')))
    \<and> mset (flood_targets (rw_env w) b (list_aigrp_peers (aigrp_enterprise (rw_env w)) st'))
      = mset (flood_targets (rw_env w) b (list_aigrp_peers (aigrp_enterprise (rw_env w)) st))"
proof -
  let ?ent = "aigrp_enterprise (rw_env w)"
  obtain rt where gate: "require_peer_key C (rw_env w) (lw_ssm w) (lw_clock w) hs (co_rt st) = (Inr (), rt)"
    using assms(1) by (auto simp: aigrp_hello_def split: prod.splits sum.splits)
  define st1 where "st1 = learn_peer (lw_iso w) b (st\<lparr>co_rt := rt\<rparr>)"
  have ent: "he_enterprise b = ?ent" and peers: "peers = list_aigrp_peers ?ent st1 @ [self_entry C w]"
    and sent: "sent = fst (flood C w b (list_aigrp_peers ?ent st1) (co_rt st1))"
    and st': "ag_peers st' = ag_peers st1"
    using assms(1) gate by (auto simp: aigrp_hello_def Let_def st1_def split: prod.splits if_splits)
  have rt: "peer_of k (st\<lparr>co_rt := rt\<rparr>) = peer_of k st" for k by (simp add: peer_of_def)
  have others: "filter (\<lambda>r. ap_l2_id r \<noteq> he_l2 b) (ag_peers st1) = filter (\<lambda>r. ap_l2_id r \<noteq> he_l2 b) (ag_peers st)"
    by (auto simp: st1_def learn_peer_def upsert_aigrp_peer_def intro!: sql_update_frame)
  have uniq: "unique_key ap_l2_id (ag_peers st1)"
    unfolding st1_def learn_peer_def by (rule upsert_unique) (simp add: assms(3))
  have no_self: "\<forall>r \<in> set (ag_peers st1). ap_l2_id r \<noteq> self_l2_id (rw_env w)"
  proof -
    have "ap_l2_id ` set (ag_peers st1) = insert (he_l2 b) (ap_l2_id ` set (ag_peers st))"
      by (simp add: st1_def learn_peer_def upsert_ids)
    moreover have "self_l2_id (rw_env w) \<notin> ap_l2_id ` set (ag_peers st)"
      using assms(4) by (auto simp: peer_of_def table_simps)
    ultimately show ?thesis using assms(2,5) by (metis imageI insert_iff)
  qed
  have dist: "distinct (map ap_l2_id peers)"
  proof -
    have "distinct (map ap_l2_id (list_aigrp_peers ?ent st1))"
      using uniq by (simp add: list_aigrp_peers_def unique_key_def distinct_map inj_on_def order_desc_def distinct_filter)
    with no_self show ?thesis by (auto simp: peers list_aigrp_peers_def self_entry_def)
  qed
  have "\<forall>p \<in> set (self_entry C w # list_aigrp_peers ?ent st). ap_l2_id p = self_l2_id (rw_env wj) \<or> p \<in> set peers"
  proof -
    have "p \<in> set (ag_peers st1)" if "p \<in> set (ag_peers st)" "ap_l2_id p \<noteq> he_l2 b" for p
    proof -
      have "p \<in> set (filter (\<lambda>r. ap_l2_id r \<noteq> he_l2 b) (ag_peers st1))" unfolding others using that by simp
      then show ?thesis by simp
    qed
    then show ?thesis using assms(2) by (auto simp: peers list_aigrp_peers_def)
  qed
  then have "list_all (\<lambda>p. ap_l2_id p = self_l2_id (rw_env wj) \<or> knows (snd (try_bootstrap wj (Some peers) db)) p)
      (self_entry C w # list_aigrp_peers ?ent st)"
    using bootstrap_learns [OF dist] by (auto simp: list_all_iff)
  moreover have "\<exists>r. peer_of (he_l2 b) st' = Some r \<and> ap_endpoint r = he_url b \<and> (he_pubkey b \<noteq> None \<longrightarrow> ap_pubkey r = he_pubkey b)"
    using learned [of b "lw_iso w" "st\<lparr>co_rt := rt\<rparr>"] st' by (auto simp: peer_of_def st1_def)
  moreover have "mset (flood_targets (rw_env w) b (list_aigrp_peers ?ent st1)) = mset (flood_targets (rw_env w) b (list_aigrp_peers ?ent st))"
  proof -
    have same: "mset (flood_targets (rw_env w) b (list_aigrp_peers ?ent db'))
        = filter_mset (\<lambda>p. ap_enterprise p = ?ent \<and> ap_l2_id p \<noteq> self_l2_id (rw_env w) \<and> ap_endpoint p \<noteq> [])
            (mset (filter (\<lambda>r. ap_l2_id r \<noteq> he_l2 b) (ag_peers db')))" for db' :: "'a l2_state_scheme"
      by (simp add: flood_targets_def list_aigrp_peers_def mset_filter filter_filter_mset conj_ac)
    show ?thesis by (simp add: same others)
  qed
  moreover have "list_aigrp_peers ?ent st' = list_aigrp_peers ?ent st1" by (simp add: list_aigrp_peers_def st')
  ultimately show ?thesis by (simp add: sent flood_sent)
qed

section \<open>Taking a sibling's identity\<close>

text \<open>C35. Announce does not ask whether the L2 it is told of is the one that
  speaks: whoever passes the key gate replaces the key on file for any L2 by one
  of its own, and from then on the identity gate takes the forwards it signs
  with that key for the other L2's.\<close>

theorem announce_takes_over_identity:
  assumes "ed25519_ok C" and "\<And>sk x. ed_sign C sk x \<noteq> []"
    and "fst (require_peer_key C (rw_env w) (lw_ssm w) (lw_clock w) hs (co_rt st)) = Inr ()" and "hello_ok b"
    and "he_enterprise b = aigrp_enterprise (rw_env w)" and "he_pubkey b = Some (public_key_b64u C sk)"
    and "strip (he_l2 b) = he_l2 b" and "partition_on (CHR ''/'') (he_l2 b) = (aigrp_enterprise (rw_env w), [CHR ''/''], grp)"
    and "ph_forwarder req = Some (he_l2 b)" and "ph_signature req = sign_forward_request C (Some sk) body (he_l2 b)"
  shows "\<exists>st'. aigrp_announce C w hs b st = (Inr (he_l2 b), st')
    \<and> require_forwarder_identity C (rw_env w) req (he_l2 b) True body st' = Inr (he_l2 b)"
proof -
  obtain rt where g: "require_peer_key C (rw_env w) (lw_ssm w) (lw_clock w) hs (co_rt st) = (Inr (), rt)"
    using assms(3) by (metis fst_conv prod.collapse)
  let ?st = "learn_peer (lw_iso w) b (st\<lparr>co_rt := rt\<rparr>)"
  have "get_aigrp_peer_pubkey (he_l2 b) ?st = map_option (public_key_b64u C) (Some sk)"
    using learned [of b "lw_iso w" "st\<lparr>co_rt := rt\<rparr>"] assms(6) by (auto simp: pubkey_peer_of)
  moreover have "aigrp_enterprise (rw_env w) \<noteq> []" using assms(4,5) by (auto simp: hello_ok_def)
  ultimately have "require_forwarder_identity C (rw_env w) req (he_l2 b) True body ?st = Inr (he_l2 b)"
    by (intro forwarder_accepted [OF assms(1,2,7,8) _ _ _ assms(9,10)]) simp_all
  moreover have "aigrp_announce C w hs b st = (Inr (he_l2 b), ?st)"
    using g assms(4,5) by (simp add: aigrp_announce_def Let_def)
  ultimately show ?thesis by blast
qed

section \<open>Presence\<close>

lemma upsert_peer_rows:
  assumes "unique_key pr_persona (fe_presence st)" and "q \<in> set (fe_presence (upsert_peer r st))" and "pr_persona q = pr_persona r"
  shows "q = r"
  using assms by (auto simp: upsert_peer_def table_simps split: if_splits)

lemma upsert_peer_present: "r \<in> set (fe_presence (upsert_peer r st))"
proof (cases "sql_fetchone (\<lambda>q. pr_persona q = pr_persona r) (fe_presence st)")
  case None
  then show ?thesis by (simp add: upsert_peer_def)
next
  case (Some q)
  with sql_fetchone_SomeD [OF Some] show ?thesis by (force simp: upsert_peer_def table_simps)
qed

text \<open>
  A heartbeat shows the persona to the members of the caller's Enterprise,
  and to nobody else: whatever the persona was registered as before, for anyone
  who then asks for the active peers it is there exactly when it is discoverable
  and both are of one Enterprise and, if a group was asked for, of the caller's
  group. Nothing asks whose persona it is, so a heartbeat from another
  Enterprise on the same L2 takes it away from the first.\<close>

theorem heartbeat_moves_persona:
  assumes "peers_heartbeat w req un st = (Inr t, st')" and "unique_key pr_persona (fe_presence st)"
    and "get_user st un = Some u" and "get_user st un' = Some v"
    and "peers_active ago grp m True None un' st' = Inr rows" and "ago m \<le> lw_iso w"
  shows "hb_persona req \<in> set (map pr_persona rows)
    \<longleftrightarrow> hb_discoverable req \<and> us_enterprise_id v = us_enterprise_id u \<and> grp \<in> {None, Some (us_group_id u)}"
proof -
  let ?r = "\<lparr>pr_persona = hb_persona req, pr_user = Some (us_id u), pr_enterprise = us_enterprise_id u, pr_group = us_group_id u,
              pr_last_seen = lw_iso w, pr_domains = hb_domains req, pr_discoverable = hb_discoverable req, pr_hint = hb_hint req,
              pr_metadata = None\<rparr>"
  have st': "st' = upsert_peer ?r st"
    using assms(1,3) by (auto simp: peers_heartbeat_def split: if_splits)
  have "get_user st' un' = Some v" using assms(4) by (simp add: st' upsert_peer_def get_user_def)
  then have rows: "rows = list_active_peers (us_enterprise_id v) (ago m) grp None st'"
    using assms(5) by (auto simp: peers_active_def split: if_splits)
  have "hb_persona req \<in> set (map pr_persona rows) \<longleftrightarrow> ?r \<in> set rows"
  proof
    assume "hb_persona req \<in> set (map pr_persona rows)"
    then obtain q where q: "q \<in> set rows" "pr_persona q = pr_persona ?r" by auto
    then have "q \<in> set (fe_presence st')" by (simp add: rows list_active_peers_def)
    with upsert_peer_rows [OF assms(2), of q ?r] q st' show "?r \<in> set rows" by simp
  next
    assume "?r \<in> set rows"
    then show "hb_persona req \<in> set (map pr_persona rows)" by force
  qed
  also have "?r \<in> set rows \<longleftrightarrow> hb_discoverable req \<and> us_enterprise_id v = us_enterprise_id u \<and> grp \<in> {None, Some (us_group_id u)}"
    using upsert_peer_present [of ?r st] assms(6) by (auto simp: rows st' list_active_peers_def matches_opt_def split: option.splits)
  finally show ?thesis .
qed

section \<open>Witnesses\<close>

definition demo_hello :: "string \<Rightarrow> string option \<Rightarrow> hello_body" where
  "demo_hello grp key = \<lparr>he_l2 = ''acme/'' @ grp, he_enterprise = ''acme'', he_group = grp, he_url = ''https://'' @ grp, he_pubkey = key\<rparr>"

text \<open>A joiner c, which knows nobody, says hello to b, which knows a.\<close>

definition demo_joined :: "(http_exc + peer_row list) \<times> announcement list \<times> l2_state" where
  "demo_joined = aigrp_hello demo_prims (demo_legacy_world ''b'') demo_intruder (demo_hello ''c'' None) (demo_b (Some ''key''))"

lemma demo_join_facts:
  "fst demo_joined = Inr [demo_peer ''a'' (Some ''key''), (demo_peer ''c'' None)\<lparr>ap_first_seen := ''t'', ap_last_seen := ''t''\<rparr>,
      self_entry demo_prims (demo_legacy_world ''b'')]
   \<or> fst demo_joined = Inr [(demo_peer ''c'' None)\<lparr>ap_first_seen := ''t'', ap_last_seen := ''t''\<rparr>, demo_peer ''a'' (Some ''key''),
      self_entry demo_prims (demo_legacy_world ''b'')]"
  "map an_base (fst (snd demo_joined)) = [''https://a'']"
  "self_l2_id (rw_env (demo_legacy_world ''c'')) = ''acme/c''" "self_l2_id (rw_env (demo_legacy_world ''b'')) = ''acme/b''"
  "peer_of ''acme/b'' (demo_b (Some ''key'')) = None"
  by code_simp+

theorem joiner_learns_the_mesh_witness:
  "\<exists>peers sent st'. aigrp_hello demo_prims (demo_legacy_world ''b'') demo_intruder (demo_hello ''c'' None) (demo_b (Some ''key'')) = (Inr peers, sent, st')
    \<and> map an_base sent = [''https://a'']
    \<and> list_all (\<lambda>p. ap_l2_id p = ''acme/c'' \<or> knows (snd (try_bootstrap (demo_legacy_world ''c'') (Some peers) (demo_l2 [] [] []))) p)
      (self_entry demo_prims (demo_legacy_world ''b'')
       # list_aigrp_peers (aigrp_enterprise (rw_env (demo_legacy_world ''b''))) (demo_b (Some ''key'')))"
proof -
  obtain peers where "fst demo_joined = Inr peers" using demo_join_facts(1) by auto
  then obtain sent st' where j: "demo_joined = (Inr peers, sent, st')" by (metis prod.collapse)
  have "unique_key ap_l2_id (ag_peers (demo_b (Some ''key'')))" by (simp add: demo_b_def unique_key_def)
  from joiner_learns_the_mesh [OF j [unfolded demo_joined_def] _ this, of "demo_legacy_world ''c''" "demo_l2 [] [] []"]
  show ?thesis using j demo_join_facts(2-5)
    by (intro exI [of _ peers] exI [of _ sent] exI [of _ st'] conjI) (simp_all add: demo_joined_def demo_hello_def)
qed

definition demo_forged :: peer_request where
  "demo_forged = \<lparr>ph_authorization = Some ''Bearer k'', ph_forwarder = Some ''acme/a'',
     ph_signature = sign_forward_request demo_prims (Some 6) JNull ''acme/a'', ph_offer_id = None\<rparr>"

theorem announce_takes_over_identity_witness:
  "get_aigrp_peer_pubkey ''acme/a'' (demo_b (Some ''key'')) = Some ''key''
   \<and> require_forwarder_identity demo_prims (rw_env (demo_legacy_world ''b'')) demo_forged ''acme/a'' True JNull (demo_b (Some ''key''))
     = Inl (HTTPException 403)
   \<and> (\<exists>st'. aigrp_announce demo_prims (demo_legacy_world ''b'') demo_intruder (demo_hello ''a'' (Some (public_key_b64u demo_prims 6))) (demo_b (Some ''key''))
        = (Inr ''acme/a'', st')
      \<and> require_forwarder_identity demo_prims (rw_env (demo_legacy_world ''b'')) demo_forged ''acme/a'' True JNull st' = Inr ''acme/a'')"
proof (intro conjI)
  show "get_aigrp_peer_pubkey ''acme/a'' (demo_b (Some ''key'')) = Some ''key''" by code_simp
  show "require_forwarder_identity demo_prims (rw_env (demo_legacy_world ''b'')) demo_forged ''acme/a'' True JNull (demo_b (Some ''key''))
     = Inl (HTTPException 403)" by code_simp
  have l2: "he_l2 (demo_hello ''a'' k) = ''acme/a''" for k by (simp add: demo_hello_def)
  have gate: "fst (require_peer_key demo_prims (rw_env (demo_legacy_world ''b'')) (lw_ssm (demo_legacy_world ''b''))
      (lw_clock (demo_legacy_world ''b'')) demo_intruder (co_rt (demo_b (Some ''key'')))) = Inr ()" by code_simp
  have ok: "hello_ok (demo_hello ''a'' (Some k))" "he_enterprise (demo_hello ''a'' (Some k)) = aigrp_enterprise (rw_env (demo_legacy_world ''b''))" for k
    by (simp_all add: hello_ok_def demo_hello_def aigrp_enterprise_def demo_legacy_world_def demo_legacy_env_def getenv_def)
  have part: "strip ''acme/a'' = ''acme/a''"
    "partition_on (CHR ''/'') ''acme/a'' = (aigrp_enterprise (rw_env (demo_legacy_world ''b'')), [CHR ''/''], ''a'')" by code_simp+
  show "\<exists>st'. aigrp_announce demo_prims (demo_legacy_world ''b'') demo_intruder (demo_hello ''a'' (Some (public_key_b64u demo_prims 6))) (demo_b (Some ''key''))
        = (Inr ''acme/a'', st')
      \<and> require_forwarder_identity demo_prims (rw_env (demo_legacy_world ''b'')) demo_forged ''acme/a'' True JNull st' = Inr ''acme/a''"
    by (rule announce_takes_over_identity [OF demo_prims_ok _ gate ok, where sk = 6 and grp = "''a''", unfolded l2])
       (simp_all add: part demo_forged_def demo_hello_def demo_prims_def [THEN arg_cong, of ed_sign])
qed

definition demo_presence :: presence_row where
  "demo_presence = \<lparr>pr_persona = ''p'', pr_user = Some 7, pr_enterprise = ''globex'', pr_group = ''x'', pr_last_seen = ''s'', pr_domains = None,
     pr_discoverable = True, pr_hint = None, pr_metadata = None\<rparr>"

definition demo_fed2 :: fed_state where
  "demo_fed2 = demo_fed\<lparr>db_users := [demo_user 1 ''ann'' ''user'' ''acme'' ''b'', demo_user 7 ''gus'' ''user'' ''globex'' ''x''],
     fe_presence := [demo_presence]\<rparr>"

definition demo_beat :: heartbeat_request where
  "demo_beat = \<lparr>hb_persona = ''p'', hb_discoverable = True, hb_hint = None, hb_domains = None\<rparr>"

lemma demo_beat_facts:
  "fst (peers_heartbeat (demo_legacy_world ''b'') demo_beat ''ann'' demo_fed2) = Inr ''t''"
  "case peers_active (\<lambda>_. ''a'') None 15 True None ''gus'' demo_fed2 of Inr rows \<Rightarrow> map pr_persona rows = [''p''] | Inl _ \<Rightarrow> False"
  "case peers_active (\<lambda>_. ''a'') None 15 True None ''gus'' (snd (peers_heartbeat (demo_legacy_world ''b'') demo_beat ''ann'' demo_fed2)) of
     Inr rows \<Rightarrow> rows = [] | Inl _ \<Rightarrow> False"
  "get_user demo_fed2 ''ann'' = Some (demo_user 1 ''ann'' ''user'' ''acme'' ''b'')"
  "get_user demo_fed2 ''gus'' = Some (demo_user 7 ''gus'' ''user'' ''globex'' ''x'')"
  by code_simp+

theorem heartbeat_moves_persona_witness:
  "\<exists>rows. peers_active (\<lambda>_. ''a'') None 15 True None ''gus'' (snd (peers_heartbeat (demo_legacy_world ''b'') demo_beat ''ann'' demo_fed2)) = Inr rows
     \<and> hb_persona demo_beat \<notin> set (map pr_persona rows)"
proof -
  let ?st = "snd (peers_heartbeat (demo_legacy_world ''b'') demo_beat ''ann'' demo_fed2)"
  have b: "peers_heartbeat (demo_legacy_world ''b'') demo_beat ''ann'' demo_fed2 = (Inr ''t'', ?st)"
    using demo_beat_facts(1) by (metis prod.collapse)
  obtain rows where rows: "peers_active (\<lambda>_. ''a'') None 15 True None ''gus'' ?st = Inr rows"
    using demo_beat_facts(3) by (auto split: sum.splits)
  have "unique_key pr_persona (fe_presence demo_fed2)" by (simp add: demo_fed2_def unique_key_def)
  from heartbeat_moves_persona [OF b this demo_beat_facts(4,5) rows] rows show ?thesis
    by (intro exI [of _ rows]) (simp add: demo_user_def demo_legacy_world_def demo_l2_world_def)
qed

end
