(* ===== verification/Lookup.thy ===== *)
theory Lookup imports GossipProps JsonLoads begin

text \<open>
  Federated lookup: \<open>aigrp/federation.py\<close> (which siblings are asked, what is made of
  their answers) and \<open>/aigrp/lookup\<close> and \<open>/query/semantic\<close> of \<open>app.py\<close>. The network
  is a parameter: what a sibling answers to a request, as decoded JSON, or None
  for a timeout, an error status or a body that is no JSON. The tasks of the
  fan-out resolve their bearers in order before any of them waits.
\<close>

section \<open>Answers of other L2s\<close>

text \<open>Decoded JSON with its numbers; objects have distinct keys.\<close>

datatype wire = WNull | WBool bool | WNum rat | WStr string | WArr "wire list" | WObj "(string \<times> wire) list"

text \<open>\<open>str\<close> of a value that is no string, and \<open>float\<close> of a string (None: ValueError).\<close>

record wire_ops =
  wo_repr :: "wire \<Rightarrow> string"
  wo_float :: "string \<Rightarrow> rat option"
  wo_num :: "rat \<Rightarrow> json"

fun wire_true :: "wire \<Rightarrow> bool" where
  "wire_true WNull \<longleftrightarrow> False"
| "wire_true (WBool b) \<longleftrightarrow> b"
| "wire_true (WNum q) \<longleftrightarrow> q \<noteq> 0"
| "wire_true (WStr s) \<longleftrightarrow> s \<noteq> []"
| "wire_true (WArr xs) \<longleftrightarrow> xs \<noteq> []"
| "wire_true (WObj kvs) \<longleftrightarrow> kvs \<noteq> []"

definition wire_get :: "string \<Rightarrow> (string \<times> wire) list \<Rightarrow> wire" where
  "wire_get k kvs = (case map_of kvs k of None \<Rightarrow> WNull | Some v \<Rightarrow> v)"

definition wire_str :: "wire_ops \<Rightarrow> wire \<Rightarrow> string" where
  "wire_str W v = (case v of WStr s \<Rightarrow> s | _ \<Rightarrow> wo_repr W v)"

definition str_or_empty :: "wire_ops \<Rightarrow> wire \<Rightarrow> string" where
  "str_or_empty W v = (if wire_true v then wire_str W v else [])"

definition float_or_zero :: "wire_ops \<Rightarrow> wire \<Rightarrow> py_exc + rat" where
  "float_or_zero W v =
     (if \<not> wire_true v then Inr 0
      else (case v of
              WNum q \<Rightarrow> Inr q
            | WBool b \<Rightarrow> Inr 1
            | WStr s \<Rightarrow> (case wo_float W s of None \<Rightarrow> Inl ValueError | Some q \<Rightarrow> Inr q)
            | _ \<Rightarrow> Inl TypeErr))"

definition list_or_empty :: "wire \<Rightarrow> py_exc + wire list" where
  "list_or_empty v =
     (if \<not> wire_true v then Inr []
      else (case v of
              WArr xs \<Rightarrow> Inr xs
            | WStr s \<Rightarrow> Inr (map (\<lambda>c. WStr [c]) s)
            | WObj kvs \<Rightarrow> Inr (map (WStr \<circ> fst) kvs)
            | _ \<Rightarrow> Inl TypeErr))"

record remote_hit =
  rh_ku_id :: string
  rh_summary :: string
  rh_detail :: wire
  rh_action :: wire
  rh_domains :: "wire list"
  rh_similarity :: rat
  rh_confidence :: rat
  rh_created_by :: string
  rh_peer :: string
  rh_policy :: string

definition parse_hit :: "wire_ops \<Rightarrow> string \<Rightarrow> string \<Rightarrow> wire \<Rightarrow> py_exc + remote_hit" where
  "parse_hit W peer policy raw =
     (case raw of
        WObj kvs \<Rightarrow>
          (case map_of kvs ''ku_id'' of
             None \<Rightarrow> Inl KeyError
           | Some i \<Rightarrow>
               bind_result (list_or_empty (wire_get ''domains'' kvs)) (\<lambda>ds.
               bind_result (float_or_zero W (wire_get ''sim_score'' kvs)) (\<lambda>sim.
               bind_result (float_or_zero W (wire_get ''confidence'' kvs)) (\<lambda>conf.
                 Inr \<lparr>rh_ku_id = wire_str W i, rh_summary = str_or_empty W (wire_get ''summary'' kvs),
                      rh_detail = wire_get ''detail'' kvs, rh_action = wire_get ''action'' kvs, rh_domains = ds,
                      rh_similarity = sim, rh_confidence = conf, rh_created_by = str_or_empty W (wire_get ''created_by'' kvs),
                      rh_peer = peer, rh_policy = policy\<rparr>))))
      | _ \<Rightarrow> Inl TypeErr)"

text \<open>A hit that raises is skipped: the errors of \<open>parse_hit\<close> are the ones the loop
  catches.\<close>

definition parse_hits :: "wire_ops \<Rightarrow> string \<Rightarrow> string \<Rightarrow> wire list \<Rightarrow> remote_hit list" where
  "parse_hits W peer policy raws =
     concat (map (\<lambda>raw. case parse_hit W peer policy raw of Inl _ \<Rightarrow> [] | Inr h \<Rightarrow> [h]) raws)"

definition answer_hits :: "wire_ops \<Rightarrow> string \<Rightarrow> wire \<Rightarrow> py_exc + remote_hit list" where
  "answer_hits W peer data =
     (case data of
        WObj kvs \<Rightarrow>
          bind_result (list_or_empty (wire_get ''results'' kvs)) (\<lambda>raws.
            Inr (parse_hits W peer (str_or_empty W (wire_get ''policy_applied'' kvs)) raws))
      | _ \<Rightarrow> Inl AttributeError)"

section \<open>Which siblings are asked\<close>

text \<open>\<open>int(parts[1])\<close> raises on a digit that is not decimal.\<close>

definition octet_172_ok :: "string list \<Rightarrow> py_exc + bool" where
  "octet_172_ok parts =
     (if 2 \<le> length parts \<and> isdigit (parts ! 1)
      then (case py_int (parts ! 1) of None \<Rightarrow> Inl ValueError | Some n \<Rightarrow> Inr (\<not> (16 \<le> n \<and> n \<le> 31)))
      else Inr True)"

definition endpoint_host :: "string \<Rightarrow> string" where
  "endpoint_host url = hd (split_on (CHR '':'') (last (split_on (CHR ''@'') (hd (split_on (CHR ''/'') (drop 8 url))))))"

definition endpoint_is_safe :: "string \<Rightarrow> py_exc + bool" where
  "endpoint_is_safe endpoint_url =
     (let url = lower (strip endpoint_url)
      in if \<not> startswith url ''https://'' then Inr False
         else let host = endpoint_host url
         in if host \<in> {''localhost'', []} \<or> endswith host ''.localhost'' then Inr False
         else if list_ex (startswith host) [''127.'', ''10.'', ''192.168.'', ''169.254.'', ''0.''] then Inr False
         else if host = ''::1'' \<or> startswith host ''[::1]'' then Inr False
         else if startswith host ''172.'' then octet_172_ok (split_on (CHR ''.'') host)
         else Inr True)"

definition bloom_excludes :: "'k prims \<Rightarrow> bytes option \<Rightarrow> string list \<Rightarrow> bool" where
  "bloom_excludes C bloom domains \<longleftrightarrow>
     (case bloom of None \<Rightarrow> False | Some b \<Rightarrow> domains \<noteq> [] \<and> b \<noteq> [] \<and> \<not> bloom_matches_any C b domains)"

fun select_peers :: "'k prims \<Rightarrow> env \<Rightarrow> string list \<Rightarrow> peer_row list \<Rightarrow> py_exc + peer_row list" where
  "select_peers C env domains [] = Inr []"
| "select_peers C env domains (p # ps) =
     (if ap_l2_id p = self_l2_id env \<or> ap_endpoint p = [] then select_peers C env domains ps
      else bind_result (endpoint_is_safe (ap_endpoint p)) (\<lambda>safe.
        if \<not> safe \<or> bloom_excludes C (ap_bloom p) domains then select_peers C env domains ps
        else bind_result (select_peers C env domains ps) (\<lambda>sel. Inr (p # sel))))"

definition select_peers_for_query :: "'k prims \<Rightarrow> env \<Rightarrow> peer_row list \<Rightarrow> string list \<Rightarrow> py_exc + peer_row list" where
  "select_peers_for_query C env peers domains = select_peers C env (filter (\<lambda>d. d \<noteq> []) domains) peers"

section \<open>Asking\<close>

record fq_outgoing =
  fo_base :: string
  fo_headers :: peer_request
  fo_body :: fq_request

definition forward_query_peer :: "'k prims \<Rightarrow> wire_ops \<Rightarrow> (rat list \<Rightarrow> json) \<Rightarrow> 'k l2_world \<Rightarrow> (fq_outgoing \<Rightarrow> wire option) \<Rightarrow> fq_request
    \<Rightarrow> peer_row \<Rightarrow> rt_state \<Rightarrow> (py_exc + remote_hit list) \<times> rt_state" where
  "forward_query_peer C W vec_json w ask b p rt =
     (let endpoint = rstrip_char (CHR ''/'') (ap_endpoint p)
      in if endpoint = [] then (Inr [], rt)
      else (case outbound_bearer C (rw_env w) (lw_ssm w) (lw_clock w) (ap_l2_id p) rt of
              (bearer, rt') \<Rightarrow>
                let og = \<lparr>fo_base = endpoint,
                          fo_headers = \<lparr>ph_authorization = Some (''Bearer '' @ bearer), ph_forwarder = Some (fq_l2 b),
                            ph_signature = sign_forward_request C (lw_l2_key w) (fq_json vec_json b) (fq_l2 b), ph_offer_id = None\<rparr>,
                          fo_body = b\<rparr>
                in ((case ask og of None \<Rightarrow> Inr [] | Some data \<Rightarrow> answer_hits W (ap_l2_id p) data), rt')))"

text \<open>A task that raised contributes nothing.\<close>

fun gather_hits :: "'k prims \<Rightarrow> wire_ops \<Rightarrow> (rat list \<Rightarrow> json) \<Rightarrow> 'k l2_world \<Rightarrow> (fq_outgoing \<Rightarrow> wire option) \<Rightarrow> fq_request
    \<Rightarrow> peer_row list \<Rightarrow> rt_state \<Rightarrow> remote_hit list \<times> rt_state" where
  "gather_hits C W vec_json w ask b [] rt = ([], rt)"
| "gather_hits C W vec_json w ask b (p # ps) rt =
     (case forward_query_peer C W vec_json w ask b p rt of
        (r, rt1) \<Rightarrow>
          (case gather_hits C W vec_json w ask b ps rt1 of
             (hits, rt2) \<Rightarrow> ((case r of Inl _ \<Rightarrow> [] | Inr hs \<Rightarrow> hs) @ hits, rt2)))"

definition fan_out_forward_query :: "'k prims \<Rightarrow> wire_ops \<Rightarrow> (rat list \<Rightarrow> json) \<Rightarrow> 'k l2_world \<Rightarrow> (fq_outgoing \<Rightarrow> wire option) \<Rightarrow> fq_request
    \<Rightarrow> string list \<Rightarrow> peer_row list \<Rightarrow> rt_state \<Rightarrow> py_exc + remote_hit list \<times> rt_state" where
  "fan_out_forward_query C W vec_json w ask b domains peers rt =
     bind_result (select_peers_for_query C (rw_env w) peers domains) (\<lambda>selected.
       Inr (if selected = [] then ([], rt) else gather_hits C W vec_json w ask b selected rt))"

section \<open>Lookup\<close>

record lookup_request =
  lk_context :: string
  lk_trigger :: string
  lk_session :: string
  lk_persona :: string
  lk_max :: nat
  lk_min_confidence :: rat
  lk_min_similarity :: rat
  lk_exclude_self :: bool

definition lookup_ok :: "lookup_request \<Rightarrow> bool" where
  "lookup_ok q \<longleftrightarrow> lk_context q \<noteq> [] \<and> 0 < lk_max q \<and> lk_max q \<le> 20 \<and> 0 \<le> lk_min_confidence q \<and> lk_min_confidence q \<le> 1
     \<and> 0 \<le> lk_min_similarity q \<and> lk_min_similarity q \<le> 1"

record lookup_hit =
  lh_ku_id :: string
  lh_summary :: string
  lh_action :: string
  lh_domains :: "string list"
  lh_similarity :: rat
  lh_confidence :: rat
  lh_created_by :: string

record lookup_response =
  lr_trigger :: string
  lr_results :: "lookup_hit list"
  lr_filtered :: nat

definition local_candidate :: "ku \<times> rat \<Rightarrow> lookup_hit" where
  "local_candidate us =
     (case us of (u, sim) \<Rightarrow>
        \<lparr>lh_ku_id = ku_id u, lh_summary = in_summary (ku_insight u), lh_action = in_action (ku_insight u), lh_domains = ku_domains u,
         lh_similarity = sim, lh_confidence = ev_confidence (ku_evidence u), lh_created_by = ku_created_by u\<rparr>)"

text \<open>The response model wants strings; None is its ValidationError.\<close>

definition wire_string :: "wire \<Rightarrow> string option" where
  "wire_string v = (case v of WStr s \<Rightarrow> Some s | _ \<Rightarrow> None)"

definition remote_candidate :: "remote_hit \<Rightarrow> lookup_hit option" where
  "remote_candidate h =
     (case (if wire_true (rh_action h) then wire_string (rh_action h) else Some [], those (map wire_string (rh_domains h))) of
        (Some action, Some domains) \<Rightarrow>
          Some \<lparr>lh_ku_id = rh_ku_id h, lh_summary = rh_summary h, lh_action = action, lh_domains = domains,
                lh_similarity = rh_similarity h, lh_confidence = rh_confidence h, lh_created_by = rh_created_by h\<rparr>
      | _ \<Rightarrow> None)"

definition better_copy :: "lookup_hit \<Rightarrow> (string \<times> lookup_hit) list \<Rightarrow> (string \<times> lookup_hit) list" where
  "better_copy c by_id =
     (case map_of by_id (lh_ku_id c) of
        None \<Rightarrow> dict_set (lh_ku_id c) c by_id
      | Some e \<Rightarrow> if lh_similarity e < lh_similarity c then dict_set (lh_ku_id c) c by_id else by_id)"

definition merge_candidates :: "lookup_hit list \<Rightarrow> lookup_hit list" where
  "merge_candidates cands = order_desc lh_similarity (map snd (fold better_copy cands []))"

definition lookup_drops :: "lookup_request \<Rightarrow> lookup_hit \<Rightarrow> bool" where
  "lookup_drops q c \<longleftrightarrow> lh_similarity c < lk_min_similarity q \<or> lh_confidence c < lk_min_confidence q
     \<or> lk_exclude_self q \<and> lk_persona q \<noteq> [] \<and> lh_created_by c = lk_persona q"

fun lookup_filter :: "lookup_request \<Rightarrow> lookup_hit list \<Rightarrow> lookup_hit list \<Rightarrow> nat \<Rightarrow> lookup_hit list \<times> nat" where
  "lookup_filter q [] filtered dropped = (filtered, dropped)"
| "lookup_filter q (c # cs) filtered dropped =
     (if lookup_drops q c then lookup_filter q cs filtered (dropped + 1)
      else let filtered' = filtered @ [c]
      in if lk_max q \<le> length filtered' then (filtered', dropped) else lookup_filter q cs filtered' dropped)"

definition lookup_event :: "wire_ops \<Rightarrow> lookup_request \<Rightarrow> bool \<Rightarrow> json" where
  "lookup_event W q embed_unavailable = JObj
     [(''trigger'', JStr (lk_trigger q)), (''session_id'', JStr (lk_session q)), (''max_results'', JInt (int (lk_max q))),
      (''min_confidence'', wo_num W (lk_min_confidence q)), (''min_similarity'', wo_num W (lk_min_similarity q)),
      (''embed_unavailable'', JBool embed_unavailable)]"

definition lookup_summary :: "wire_ops \<Rightarrow> lookup_hit list \<Rightarrow> nat \<Rightarrow> int \<Rightarrow> json" where
  "lookup_summary W hits dropped elapsed = JObj
     [(''ku_ids'', JArr (map (\<lambda>h. JStr (lh_ku_id h)) hits)),
      (''matches'', JArr (map (\<lambda>h. JObj [(''ku_id'', JStr (lh_ku_id h)), (''similarity'', wo_num W (lh_similarity h))]) hits)),
      (''hits'', JInt (int (length hits))), (''filtered_count'', JInt (int dropped)), (''elapsed_ms'', JInt elapsed)]"

definition no_hits_summary :: json where
  "no_hits_summary = JObj [(''ku_ids'', JArr []), (''hits'', JInt 0), (''filtered_count'', JInt 0), (''elapsed_ms'', JInt 0)]"

definition log_lookup :: "wire_ops \<Rightarrow> 'k l2_world \<Rightarrow> lookup_request \<Rightarrow> string \<Rightarrow> bool \<Rightarrow> json \<Rightarrow> 'a l2_state_scheme \<Rightarrow> 'a l2_state_scheme" where
  "log_lookup W w q username embed_unavailable res st =
     log_activity (rw_env w) (kw_now_z w) (kw_act_id w) (Some username) ''aigrp_lookup'' (Some (lookup_event W q embed_unavailable)) (Some res)
       (some_or_none (lk_session q)) st"

definition lookup_query :: "'k l2_world \<Rightarrow> lookup_request \<Rightarrow> rat list \<Rightarrow> fq_request" where
  "lookup_query w q vec =
     \<lparr>fq_vec = vec, fq_text = lk_context q, fq_l2 = self_l2_id (rw_env w), fq_enterprise = aigrp_enterprise (rw_env w),
      fq_group = aigrp_group (rw_env w), fq_persona = lk_persona q, fq_max = lk_max q\<rparr>"

text \<open>\<open>unpack\<close> turns the stored bytes of the embedding into its vector.\<close>

definition remote_hits :: "'k prims \<Rightarrow> wire_ops \<Rightarrow> (rat list \<Rightarrow> json) \<Rightarrow> 'k l2_world \<Rightarrow> (fq_outgoing \<Rightarrow> wire option) \<Rightarrow> lookup_request
    \<Rightarrow> rat list \<Rightarrow> (ku \<times> rat) list \<Rightarrow> 'a l2_state_scheme \<Rightarrow> py_exc + remote_hit list \<times> rt_state" where
  "remote_hits C W vec_json w ask q vec raw st =
     (let peers = list_aigrp_peers (aigrp_enterprise (rw_env w)) st
      in if peers = [] then Inr ([], co_rt st)
         else fan_out_forward_query C W vec_json w ask (lookup_query w q vec) (concat (map (ku_domains \<circ> fst) raw)) peers (co_rt st))"

definition aigrp_lookup :: "'k prims \<Rightarrow> wire_ops \<Rightarrow> (rat list \<Rightarrow> json) \<Rightarrow> (bytes \<Rightarrow> rat list) \<Rightarrow> (rat list \<Rightarrow> bool)
    \<Rightarrow> (rat list \<Rightarrow> bytes \<Rightarrow> rat option) \<Rightarrow> (fq_outgoing \<Rightarrow> wire option) \<Rightarrow> 'k l2_world \<Rightarrow> int \<Rightarrow> lookup_request \<Rightarrow> string
    \<Rightarrow> 'a l2_state_scheme \<Rightarrow> (http_exc + lookup_response) \<times> 'a l2_state_scheme" where
  "aigrp_lookup C W vec_json unpack zero cosine ask w elapsed q username st =
     (if \<not> lookup_ok q then (Inl (HTTPException 422), st)
      else (case kw_embed w of
        None \<Rightarrow> (Inr \<lparr>lr_trigger = lk_trigger q, lr_results = [], lr_filtered = 0\<rparr>, log_lookup W w q username True no_hits_summary st)
      | Some (blob, model) \<Rightarrow>
          let vec = unpack blob;
              raw = semantic_query (zero vec) (cosine vec) (lk_max q * 3) ''approved'' st
          in (case remote_hits C W vec_json w ask q vec raw st of
                Inl _ \<Rightarrow> (Inl (HTTPException 500), st)
              | Inr (hits, rt) \<Rightarrow>
                  let st1 = st\<lparr>co_rt := rt\<rparr>
                  in (case those (map remote_candidate hits) of
                        None \<Rightarrow> (Inl (HTTPException 500), st1)
                      | Some remote \<Rightarrow>
                          (case lookup_filter q (merge_candidates (map local_candidate raw @ remote)) [] 0 of
                             (results, dropped) \<Rightarrow>
                               (Inr \<lparr>lr_trigger = lk_trigger q, lr_results = results, lr_filtered = dropped\<rparr>,
                                log_lookup W w q username False (lookup_summary W results dropped elapsed) st1))))))"

definition query_semantic :: "(bytes \<Rightarrow> rat list) \<Rightarrow> (rat list \<Rightarrow> bool) \<Rightarrow> (rat list \<Rightarrow> bytes \<Rightarrow> rat option) \<Rightarrow> 'k ku_world
    \<Rightarrow> string \<Rightarrow> int \<Rightarrow> 'a ku_db_scheme \<Rightarrow> http_exc + (ku \<times> rat) list" where
  "query_semantic unpack zero cosine w q limit db =
     (if q = [] \<or> limit \<le> 0 \<or> 50 < limit then Inl (HTTPException 422)
      else (case kw_embed w of
              None \<Rightarrow> Inl (HTTPException 503)
            | Some (blob, model) \<Rightarrow> Inr (semantic_query (zero (unpack blob)) (cosine (unpack blob)) (nat limit) ''approved'' db)))"

end
