(* ===== verification/LookupProps.thy ===== *)
theory LookupProps imports Lookup begin

text \<open>
  What the federated lookup promises: of the local and remote candidates it
  returns the most similar ones that pass the request's filters, one per unit;
  and the Bloom filter a sibling was polled with never hides it from a query
  about a domain it holds. What it does not keep: one sibling with a malformed
  address makes every lookup fail.
\<close>

section \<open>Merging\<close>

text \<open>What \<open>by_id\<close> holds after a list of candidates: under every id one of its
  candidates, and none more similar.\<close>

definition best_copies :: "lookup_hit list \<Rightarrow> (string \<times> lookup_hit) list \<Rightarrow> bool" where
  "best_copies cands d \<longleftrightarrow> distinct (map fst d)
     \<and> (\<forall>k c. map_of d k = Some c \<longrightarrow> lh_ku_id c = k \<and> c \<in> set cands)
     \<and> (\<forall>c \<in> set cands. \<exists>e. map_of d (lh_ku_id c) = Some e \<and> lh_similarity c \<le> lh_similarity e)"

lemma best_copies_entry: "best_copies cands d \<Longrightarrow> map_of d k = Some c \<Longrightarrow> lh_ku_id c = k \<and> c \<in> set cands"
  by (simp add: best_copies_def)

lemma best_copies_found:
  "best_copies cands d \<Longrightarrow> c \<in> set cands \<Longrightarrow> \<exists>e. map_of d (lh_ku_id c) = Some e \<and> lh_similarity c \<le> lh_similarity e"
  unfolding best_copies_def by blast

lemma best_copies_step:
  assumes "best_copies cands d"
  shows "best_copies (cands @ [c]) (better_copy c d)"
proof -
  have keys: "distinct (map fst (dict_set k v d))" for k v
    using assms by (auto simp: best_copies_def keys_dict_set)
  have set: "best_copies (cands @ [c]) (dict_set (lh_ku_id c) c d)"
    if "\<And>e. map_of d (lh_ku_id c) = Some e \<Longrightarrow> lh_similarity e < lh_similarity c"
    using assms keys that unfolding best_copies_def
    by (auto simp: map_of_dict_set) (metis order.strict_implies_order order_trans option.inject)
  show ?thesis
  proof (cases "map_of d (lh_ku_id c)")
    case None
    then show ?thesis using set by (simp add: better_copy_def)
  next
    case (Some e)
    show ?thesis
    proof (cases "lh_similarity e < lh_similarity c")
      case True
      with Some set show ?thesis by (simp add: better_copy_def)
    next
      case False
      with Some assms show ?thesis by (auto simp: better_copy_def best_copies_def)
    qed
  qed
qed

lemma best_copies_fold: "best_copies cands (fold better_copy cands [])"
proof (induction cands rule: rev_induct)
  case Nil
  then show ?case by (simp add: best_copies_def)
next
  case (snoc c cands)
  then show ?case by (simp add: best_copies_step)
qed

lemma lookup_filter_take:
  "length acc < lk_max q \<Longrightarrow>
   fst (lookup_filter q cs acc n) = acc @ take (lk_max q - length acc) (filter (\<lambda>c. \<not> lookup_drops q c) cs)"
proof (induction q cs acc n rule: lookup_filter.induct)
  case (2 q c cs acc n)
  show ?case
  proof (cases "lookup_drops q c")
    case True
    with 2 show ?thesis by simp
  next
    case False
    show ?thesis
    proof (cases "lk_max q \<le> length (acc @ [c])")
      case True
      then have "lk_max q - length acc = 1" using "2.prems" by simp
      with True False show ?thesis by simp
    next
      case more: False
      then have d: "lk_max q - length acc = Suc (lk_max q - length (acc @ [c]))" by simp
      show ?thesis unfolding d using "2.IH"(2) [OF False refl more] False more by simp
    qed
  qed
qed simp

section \<open>The answer of a lookup\<close>

text \<open>What the answer to a request should be, given the candidates.\<close>

definition right_answer :: "lookup_request \<Rightarrow> lookup_hit list \<Rightarrow> lookup_hit list \<Rightarrow> bool" where
  "right_answer q cands results \<longleftrightarrow>
     length results \<le> lk_max q \<and> distinct (map lh_ku_id results)
   \<and> sorted_wrt (\<lambda>a b. lh_similarity b \<le> lh_similarity a) results
   \<and> (\<forall>h \<in> set results. h \<in> set cands \<and> \<not> lookup_drops q h
        \<and> (\<forall>c \<in> set cands. lh_ku_id c = lh_ku_id h \<longrightarrow> lh_similarity c \<le> lh_similarity h))
   \<and> (\<forall>c \<in> set cands. \<not> lookup_drops q c
        \<and> (\<forall>e \<in> set cands. lh_ku_id e = lh_ku_id c \<longrightarrow> e = c \<or> lh_similarity e < lh_similarity c)
        \<longrightarrow> c \<in> set results \<or> length results = lk_max q \<and> (\<forall>h \<in> set results. lh_similarity c \<le> lh_similarity h))"

lemma right_answer_filter:
  assumes "0 < lk_max q"
  shows "right_answer q cands (fst (lookup_filter q (merge_candidates cands) [] 0))"
proof -
  let ?d = "fold better_copy cands []"
  let ?good = "\<lambda>c. \<not> lookup_drops q c"
  let ?all = "filter ?good (merge_candidates cands)"
  let ?res = "fst (lookup_filter q (merge_candidates cands) [] 0)"
  have res: "?res = take (lk_max q) ?all" using lookup_filter_take [of "[]" q] assms by simp
  have d: "best_copies cands ?d" by (rule best_copies_fold)
  have in_d: "c \<in> set (merge_candidates cands) \<longleftrightarrow> map_of ?d (lh_ku_id c) = Some c" for c
  proof -
    have "c \<in> set (merge_candidates cands) \<longleftrightarrow> (\<exists>k. (k, c) \<in> set ?d)" by (force simp: merge_candidates_def)
    also have "\<dots> \<longleftrightarrow> (\<exists>k. map_of ?d k = Some c)" using d by (auto simp: best_copies_def)
    also have "\<dots> \<longleftrightarrow> map_of ?d (lh_ku_id c) = Some c" using best_copies_entry [OF d] by blast
    finally show ?thesis .
  qed
  have srt: "sorted_wrt (\<lambda>a b. lh_similarity b \<le> lh_similarity a) ?all"
    unfolding merge_candidates_def by (rule sorted_wrt_filter, rule order_desc_ge)
  have dist: "distinct (map lh_ku_id (merge_candidates cands))"
  proof -
    have "lh_ku_id (snd e) = fst e" if "e \<in> set ?d" for e
    proof -
      have "map_of ?d (fst e) = Some (snd e)" using that d by (simp add: best_copies_def)
      with d show ?thesis by (simp add: best_copies_def)
    qed
    then have keys: "map lh_ku_id (map snd ?d) = map fst ?d" by simp
    have "distinct (map lh_ku_id (map snd ?d))" using d unfolding keys best_copies_def by blast
    moreover have "mset (map lh_ku_id (merge_candidates cands)) = mset (map lh_ku_id (map snd ?d))"
      by (simp add: merge_candidates_def multiset.map_comp)
    ultimately show ?thesis by (metis mset_eq_imp_distinct_iff)
  qed
  have "distinct (map lh_ku_id ?res)"
    unfolding res using dist by (simp add: take_map [symmetric] distinct_map_filter)
  moreover have "sorted_wrt (\<lambda>a b. lh_similarity b \<le> lh_similarity a) ?res"
    unfolding res using srt by (rule sorted_wrt_take)
  moreover have "h \<in> set cands \<and> ?good h \<and> (\<forall>c \<in> set cands. lh_ku_id c = lh_ku_id h \<longrightarrow> lh_similarity c \<le> lh_similarity h)"
    if "h \<in> set ?res" for h
  proof -
    have "h \<in> set ?all" using that unfolding res by (rule in_set_takeD)
    then have "h \<in> set (merge_candidates cands)" and good: "?good h" by simp_all
    then have h: "map_of ?d (lh_ku_id h) = Some h" by (simp only: in_d)
    have "lh_similarity c \<le> lh_similarity h" if "c \<in> set cands" "lh_ku_id c = lh_ku_id h" for c
    proof -
      from best_copies_found [OF d that(1)]
      obtain e where e: "map_of ?d (lh_ku_id c) = Some e" "lh_similarity c \<le> lh_similarity e" by blast
      have "e = h" by (rule option.inject [THEN iffD1, OF trans [OF e(1) [unfolded that(2), symmetric] h]])
      with e(2) show ?thesis by (simp only:)
    qed
    moreover have "h \<in> set cands" using best_copies_entry [OF d h] by blast
    ultimately show ?thesis using good by blast
  qed
  moreover have "c \<in> set ?res \<or> length ?res = lk_max q \<and> (\<forall>h \<in> set ?res. lh_similarity c \<le> lh_similarity h)"
    if "c \<in> set cands" "?good c" "\<forall>e \<in> set cands. lh_ku_id e = lh_ku_id c \<longrightarrow> e = c \<or> lh_similarity e < lh_similarity c" for c
  proof -
    from best_copies_found [OF d that(1)]
    obtain e where e: "map_of ?d (lh_ku_id c) = Some e" "lh_similarity c \<le> lh_similarity e" by blast
    moreover note best_copies_entry [OF d e(1)]
    ultimately have "e = c" using that(3) by fastforce
    with e(1) have "c \<in> set (merge_candidates cands)" by (simp only: in_d)
    with that(2) have "c \<in> set ?all" by simp
    from take_best [OF srt this, of "lk_max q"] show ?thesis by (simp add: res)
  qed
  moreover have "length ?res \<le> lk_max q" by (simp add: res)
  ultimately show ?thesis unfolding right_answer_def by blast
qed

text \<open>C9. What a lookup answers: with the local hits and those of the siblings'
  answers as candidates, at most the number asked for, the most similar first,
  each a candidate that passes the filters and the most similar copy of its
  unit, no unit twice; and a candidate that passes the filters and is the best
  copy of its unit is missing only when the answer is full of units at least as
  similar. The local candidates are the most similar approved units of the L2,
  whatever Enterprise and group they and the caller belong to.\<close>

theorem lookup_answers_best:
  assumes "aigrp_lookup C W vec_json unpack zero cosine ask w elapsed q un st = (Inr resp, st')" and "kw_embed w = Some (blob, model)"
    and "raw = semantic_query (zero (unpack blob)) (cosine (unpack blob)) (lk_max q * 3) ''approved'' st"
  shows "\<exists>hits rt remote. remote_hits C W vec_json w ask q (unpack blob) raw st = Inr (hits, rt)
    \<and> those (map remote_candidate hits) = Some remote
    \<and> right_answer q (map local_candidate raw @ remote) (lr_results resp)"
proof -
  obtain hits rt remote where r: "lookup_ok q" "remote_hits C W vec_json w ask q (unpack blob) raw st = Inr (hits, rt)"
    "those (map remote_candidate hits) = Some remote"
    "lr_results resp = fst (lookup_filter q (merge_candidates (map local_candidate raw @ remote)) [] 0)"
    using assms(1,2) unfolding assms(3) by (auto simp: aigrp_lookup_def Let_def split: if_splits sum.splits prod.splits option.splits)
  then have "0 < lk_max q" by (simp add: lookup_ok_def)
  with r right_answer_filter show ?thesis by metis
qed

section \<open>Which siblings are asked\<close>

lemma select_peers_keeps:
  assumes "select_peers C env ds ps = Inr sel" and "p \<in> set ps" and "ap_l2_id p \<noteq> self_l2_id env" and "ap_endpoint p \<noteq> []"
    and "endpoint_is_safe (ap_endpoint p) = Inr True" and "\<not> bloom_excludes C (ap_bloom p) ds"
  shows "p \<in> set sel"
  using assms(1,2)
proof (induction ps arbitrary: sel)
  case (Cons r ps)
  show ?case
  proof (cases "r = p")
    case True
    with Cons.prems(1) assms(3-) show ?thesis by auto
  next
    case False
    from Cons.prems(1) have "\<exists>sel'. select_peers C env ds ps = Inr sel' \<and> set sel' \<subseteq> set sel"
      by (auto split: if_splits)
    with Cons False show ?thesis by auto
  qed
qed simp

lemma select_peers_raises:
  assumes "p \<in> set ps" and "ap_l2_id p \<noteq> self_l2_id env" and "ap_endpoint p \<noteq> []" and "endpoint_is_safe (ap_endpoint p) = Inl e"
  shows "\<exists>e. select_peers C env ds ps = Inl e"
  using assms(1)
proof (induction ps)
  case (Cons r ps)
  show ?case
  proof (cases "r = p")
    case True
    with assms(2-) show ?thesis by simp
  next
    case False
    with Cons obtain x where "select_peers C env ds ps = Inl x" by auto
    then show ?thesis by (cases "endpoint_is_safe (ap_endpoint r)") auto
  qed
qed simp

lemma endpoint_Nil: "endpoint_is_safe [] = Inr False"
  by (simp add: endpoint_is_safe_def lower_def)

lemma poll_stores_signature:
  assumes "answer p = Some s" and "ap_l2_id p \<noteq> self_l2_id (rw_env w)" and "ap_endpoint p \<noteq> []"
  shows "\<exists>r. peer_of (sn_l2 s) (poll_peer C w answer p db) = Some r \<and> ap_l2_id r = sn_l2 s \<and> ap_enterprise r = sn_enterprise s
    \<and> ap_endpoint r = (if sn_url s = [] then ap_endpoint p else sn_url s) \<and> ap_bloom r = non_empty (sn_bloom s)"
proof -
  let ?url = "if sn_url s = [] then ap_endpoint p else sn_url s"
  have "peer_of k (poll_peer C w answer p db)
      = peer_of k (upsert_aigrp_peer (lw_iso w) (sn_l2 s) (sn_enterprise s) (sn_group s) ?url (non_empty (sn_centroid s))
          (non_empty (sn_bloom s)) (sn_ku_count s) (sn_domain_count s) (sn_model s) True None db)" for k
    using assms by (simp add: poll_peer_def Let_def peer_of_def)
  with upsert_same [of "sn_l2 s" "lw_iso w" "sn_enterprise s" "sn_group s" ?url "non_empty (sn_centroid s)" "non_empty (sn_bloom s)"
      "sn_ku_count s" "sn_domain_count s" "sn_model s" True None db]
  show ?thesis by auto
qed

lemma peer_of_listed: "peer_of k db = Some r \<Longrightarrow> r \<in> set (list_aigrp_peers (ap_enterprise r) db)"
  unfolding peer_of_def list_aigrp_peers_def by (drule sql_fetchone_SomeD) simp

lemma finite_approved_domains [simp]: "finite (approved_domains db)"
  by (simp add: approved_domains_def)

text \<open>C33. The prefilter loses no one: once a sibling has been polled with the
  signature of its own corpus, a query about a domain in which that corpus has
  an approved unit, however the query spells its case and outer blanks, is sent
  to it, as long as its address passes the check.\<close>

theorem relevant_sibling_asked:
  assumes "answer p = Some s" and "s = build_self_signature C centroid model env2 db2"
    and "ap_l2_id p \<noteq> self_l2_id (rw_env w)" and "ap_endpoint p \<noteq> []"
    and "self_l2_id env2 \<noteq> self_l2_id (rw_env w)" and "aigrp_enterprise env2 = aigrp_enterprise (rw_env w)"
    and "endpoint_is_safe (if self_url env2 = [] then ap_endpoint p else self_url env2) = Inr True"
    and "d \<in> approved_domains db2" and "q \<in> set domains" and "q \<noteq> []" and "normal_tag q = normal_tag d"
    and "select_peers_for_query C (rw_env w) (list_aigrp_peers (aigrp_enterprise (rw_env w)) (poll_peer C w answer p db)) domains = Inr selected"
  shows "\<exists>r \<in> set selected. ap_l2_id r = self_l2_id env2"
proof -
  have s: "sn_l2 s = self_l2_id env2" "sn_enterprise s = aigrp_enterprise env2" "sn_url s = self_url env2"
    "sn_bloom s = Some (compute_domain_bloom C (sorted_list_of_set (approved_domains db2)))"
    by (simp_all add: assms(2) build_self_signature_def Let_def)
  let ?b = "compute_domain_bloom C (sorted_list_of_set (approved_domains db2))"
  have b: "?b \<noteq> []" using length_bloom [of C "sorted_list_of_set (approved_domains db2)"] by (auto simp: BLOOM_BITS_def simp del: length_bloom)
  obtain r where r: "peer_of (self_l2_id env2) (poll_peer C w answer p db) = Some r" "ap_l2_id r = self_l2_id env2"
    "ap_enterprise r = aigrp_enterprise (rw_env w)" "ap_endpoint r = (if self_url env2 = [] then ap_endpoint p else self_url env2)"
    "ap_bloom r = Some ?b"
    using poll_stores_signature [of answer p s w C db] assms(1,3,4) b by (auto simp: s non_empty_def assms(6))
  have "d \<noteq> []" using assms(8) by (auto simp: approved_domains_def)
  then have "bloom_contains C ?b q" using assms(8,10,11) by (intro bloom_no_false_negative) simp_all
  then have "bloom_matches_any C ?b (filter (\<lambda>d. d \<noteq> []) domains)"
    using assms(9,10) by (auto simp: bloom_matches_any_def list_ex_iff)
  then have "\<not> bloom_excludes C (ap_bloom r) (filter (\<lambda>d. d \<noteq> []) domains)" by (simp add: bloom_excludes_def r)
  moreover have "endpoint_is_safe (ap_endpoint r) = Inr True" using assms(7) r(4) by simp
  moreover from this have "ap_endpoint r \<noteq> []" using endpoint_Nil by auto
  ultimately have "r \<in> set selected"
    using assms(5) r(2) peer_of_listed [OF r(1)]
    by (intro select_peers_keeps [OF assms(12) [unfolded select_peers_for_query_def]]) (simp_all add: r(3))
  with r(2) show ?thesis by blast
qed

text \<open>
  One sibling breaks every lookup: \<open>int(parts[1])\<close> raises for an address
  whose second octet has a digit that is not decimal, such as a superscript two,
  and nothing around the choice of the peers catches it. After a hello with such an
  address every lookup of every user, with an embedding at hand, ends in 500.\<close>

theorem one_hello_breaks_every_lookup:
  assumes "aigrp_hello C w hs b st = (Inr peers, sent, st')" and "he_l2 b \<noteq> self_l2_id (rw_env w)"
    and "endpoint_is_safe (he_url b) = Inl e"
    and "lookup_ok q" and "kw_embed w2 = Some (blob, model)" and "rw_env w2 = rw_env w"
  shows "aigrp_lookup C W vec_json unpack zero cosine ask w2 elapsed q un st' = (Inl (HTTPException 500), st')"
proof -
  obtain rt where st1: "ag_peers st' = ag_peers (learn_peer (lw_iso w) b (st\<lparr>co_rt := rt\<rparr>))" and ent: "he_enterprise b = aigrp_enterprise (rw_env w)"
    using assms(1) by (auto simp: aigrp_hello_def Let_def split: prod.splits sum.splits if_splits)
  obtain r where r: "peer_of (he_l2 b) (learn_peer (lw_iso w) b (st\<lparr>co_rt := rt\<rparr>)) = Some r" "ap_l2_id r = he_l2 b"
    "ap_enterprise r = aigrp_enterprise (rw_env w)" "ap_endpoint r = he_url b"
    using learned [of b "lw_iso w" "st\<lparr>co_rt := rt\<rparr>"] ent by auto
  then have "peer_of (he_l2 b) st' = Some r" by (simp add: peer_of_def st1)
  from peer_of_listed [OF this] have listed: "r \<in> set (list_aigrp_peers (aigrp_enterprise (rw_env w)) st')" by (simp add: r(3))
  have "he_url b \<noteq> []" using assms(3) endpoint_Nil by auto
  then have "\<exists>x. select_peers C (rw_env w) ds (list_aigrp_peers (aigrp_enterprise (rw_env w)) st') = Inl x" for ds
    using assms(2,3) r(2,4) by (intro select_peers_raises [OF listed]) simp_all
  then have "\<exists>x. remote_hits C W vec_json w2 ask q vec raw st' = Inl x" for vec raw
    using listed by (auto simp: remote_hits_def fan_out_forward_query_def select_peers_for_query_def assms(6) Let_def bind_result_Inl_iff)
  then obtain x where "remote_hits C W vec_json w2 ask q (unpack blob)
      (semantic_query (zero (unpack blob)) (cosine (unpack blob)) (lk_max q * 3) ''approved'' st') st' = Inl x" by blast
  then show ?thesis using assms(4,5) by (simp add: aigrp_lookup_def Let_def)
qed

section \<open>Witnesses\<close>

definition demo_wire_ops :: wire_ops where
  "demo_wire_ops = \<lparr>wo_repr = (\<lambda>_. []), wo_float = (\<lambda>_. None), wo_num = (\<lambda>_. JNull)\<rparr>"

definition demo_lookup_world :: "nat l2_world" where
  "demo_lookup_world = (demo_legacy_world ''b'')\<lparr>kw_embed := Some ([1], ''m'')\<rparr>"

definition demo_lookup_request :: lookup_request where
  "demo_lookup_request = \<lparr>lk_context = ''parser'', lk_trigger = ''user_prompt'', lk_session = [], lk_persona = ''ann'', lk_max = 5,
     lk_min_confidence = 0, lk_min_similarity = 0, lk_exclude_self = True\<rparr>"

definition demo_lookup_db :: l2_state where
  "demo_lookup_db = (demo_l2 [demo_user_on ''bob'' ''b''] [demo_peer ''a'' None] [])
     \<lparr>ku_rows := [demo_shared_row], ku_index := [(kr_id demo_shared_row, ''python'')]\<rparr>"

text \<open>The sibling a answers with two units, one of them under the id of the local one.\<close>

definition demo_wire_hit :: "string \<Rightarrow> rat \<Rightarrow> wire" where
  "demo_wire_hit i sim = WObj [(''ku_id'', WStr i), (''summary'', WStr ''s''), (''action'', WNull), (''domains'', WArr [WStr ''d'']),
     (''sim_score'', WNum sim), (''confidence'', WNum 1)]"

definition demo_answer :: "fq_outgoing \<Rightarrow> wire option" where
  "demo_answer og = Some (WObj [(''policy_applied'', WStr ''summary_only''),
     (''results'', WArr [demo_wire_hit ''ku_8'' (1/2), demo_wire_hit (ku_id demo_unit) (1/3), WNum 7])])"

definition demo_lookup :: "(http_exc + lookup_response) \<times> l2_state" where
  "demo_lookup = aigrp_lookup demo_prims demo_wire_ops (\<lambda>_. JNull) (map (\<lambda>b. of_int (uint b))) (\<lambda>_. False) (\<lambda>_ _. Some (1/4)) demo_answer
     demo_lookup_world 3 demo_lookup_request ''bob'' demo_lookup_db"

lemma demo_lookup_results:
  "case fst demo_lookup of Inl _ \<Rightarrow> False | Inr r \<Rightarrow> map (\<lambda>h. (lh_ku_id h, lh_similarity h)) (lr_results r) = [(''ku_8'', 1/2), (ku_id demo_unit, 1/3)]"
  by code_simp

theorem lookup_answers_best_witness:
  "\<exists>resp st' hits rt remote. demo_lookup = (Inr resp, st')
    \<and> map (\<lambda>h. (lh_ku_id h, lh_similarity h)) (lr_results resp) = [(''ku_8'', 1/2), (ku_id demo_unit, 1/3)]
    \<and> those (map remote_candidate hits) = Some remote
    \<and> remote_hits demo_prims demo_wire_ops (\<lambda>_. JNull) demo_lookup_world demo_answer demo_lookup_request [1]
        (semantic_query False (\<lambda>_. Some (1/4)) 15 ''approved'' demo_lookup_db) demo_lookup_db = Inr (hits, rt)
    \<and> right_answer demo_lookup_request
        (map local_candidate (semantic_query False (\<lambda>_. Some (1/4)) 15 ''approved'' demo_lookup_db) @ remote) (lr_results resp)"
proof -
  obtain resp where r: "fst demo_lookup = Inr resp"
    "map (\<lambda>h. (lh_ku_id h, lh_similarity h)) (lr_results resp) = [(''ku_8'', 1/2), (ku_id demo_unit, 1/3)]"
    using demo_lookup_results by (auto split: sum.splits)
  then obtain st' where l: "demo_lookup = (Inr resp, st')" by (metis prod.collapse)
  have e: "kw_embed demo_lookup_world = Some ([1], ''m'')" by (simp add: demo_lookup_world_def)
  have m: "lk_max demo_lookup_request * 3 = 15" "map (\<lambda>b. rat_of_int (uint b)) [1 :: 8 word] = [1]" by (simp_all add: demo_lookup_request_def)
  from lookup_answers_best [OF l [unfolded demo_lookup_def] e refl, unfolded m] obtain hits rt remote where
    "remote_hits demo_prims demo_wire_ops (\<lambda>_. JNull) demo_lookup_world demo_answer demo_lookup_request [1]
        (semantic_query False (\<lambda>_. Some (1/4)) 15 ''approved'' demo_lookup_db) demo_lookup_db = Inr (hits, rt)"
    "those (map remote_candidate hits) = Some remote"
    "right_answer demo_lookup_request
        (map local_candidate (semantic_query False (\<lambda>_. Some (1/4)) 15 ''approved'' demo_lookup_db) @ remote) (lr_results resp)"
    by blast
  with l r(2) show ?thesis
    by (intro exI [of _ resp] exI [of _ st'] exI [of _ hits] exI [of _ rt] exI [of _ remote] conjI)
qed

text \<open>The poll of sibling a by b, and a query about \<open>PYTHON\<close>.\<close>

definition demo_signature :: corpus_signature where
  "demo_signature = build_self_signature demo_prims (\<lambda>_. None) ''m'' (demo_legacy_env ''a'') demo_lookup_db"

lemma demo_ids: "self_l2_id (demo_legacy_env ''a'') = ''acme/a''" "self_l2_id (demo_legacy_env ''b'') = ''acme/b''"
  "self_url (demo_legacy_env ''a'') = []" "aigrp_enterprise (demo_legacy_env grp) = ''acme''"
  by (simp_all add: self_l2_id_def aigrp_enterprise_def aigrp_group_def self_url_def getenv_def demo_legacy_env_def rstrip_char_def)

lemma demo_safe: "endpoint_is_safe ''https://a'' = Inr True"
  by code_simp

lemma demo_polled:
  "\<exists>r. list_aigrp_peers ''acme'' (poll_peer demo_prims (demo_legacy_world ''b'') (\<lambda>_. Some demo_signature) (demo_peer ''a'' None) demo_lookup_db) = [r]
    \<and> ap_endpoint r = ''https://a''"
proof -
  have s: "sn_l2 demo_signature = ''acme/a''" "sn_enterprise demo_signature = ''acme''" "sn_url demo_signature = []"
    by (simp_all add: demo_signature_def build_self_signature_def Let_def demo_ids)
  show ?thesis
    by (simp add: poll_peer_def Let_def s demo_peer_def demo_ids demo_legacy_world_def list_aigrp_peers_def upsert_aigrp_peer_def
        demo_lookup_db_def sql_fetchone_def order_desc_def set_pubkey_def)
qed

theorem relevant_sibling_asked_witness:
  "\<exists>sel. select_peers_for_query demo_prims (rw_env (demo_legacy_world ''b''))
      (list_aigrp_peers (aigrp_enterprise (rw_env (demo_legacy_world ''b'')))
        (poll_peer demo_prims (demo_legacy_world ''b'') (\<lambda>_. Some demo_signature) (demo_peer ''a'' None) demo_lookup_db)) [''PYTHON ''] = Inr sel
    \<and> (\<exists>r \<in> set sel. ap_l2_id r = self_l2_id (demo_legacy_env ''a''))"
proof -
  have env: "rw_env (demo_legacy_world ''b'') = demo_legacy_env ''b''" by (simp add: demo_legacy_world_def)
  obtain r where r: "list_aigrp_peers ''acme'' (poll_peer demo_prims (demo_legacy_world ''b'') (\<lambda>_. Some demo_signature) (demo_peer ''a'' None) demo_lookup_db) = [r]"
    "ap_endpoint r = ''https://a''" using demo_polled by blast
  obtain sel where sel: "select_peers_for_query demo_prims (demo_legacy_env ''b'') [r] [''PYTHON ''] = Inr sel"
    by (cases "ap_l2_id r = self_l2_id (demo_legacy_env ''b'')"; cases "bloom_excludes demo_prims (ap_bloom r) [''PYTHON '']")
       (simp_all add: select_peers_for_query_def r(2) demo_safe)
  have pa: "ap_l2_id (demo_peer ''a'' None) = ''acme/a''" "ap_endpoint (demo_peer ''a'' None) = ''https://a''" by (simp_all add: demo_peer_def)
  have n: "normal_tag ''PYTHON '' = normal_tag ''python''" by code_simp
  have d: "''python'' \<in> approved_domains demo_lookup_db" by code_simp
  have "\<exists>r \<in> set sel. ap_l2_id r = self_l2_id (demo_legacy_env ''a'')"
    by (rule relevant_sibling_asked [where answer = "\<lambda>_. Some demo_signature" and p = "demo_peer ''a'' None" and w = "demo_legacy_world ''b''"
          and d = "''python''" and q = "''PYTHON ''" and domains = "[''PYTHON '']" and db = demo_lookup_db and C = demo_prims,
          OF refl demo_signature_def])
       (simp_all add: env demo_ids pa demo_safe n d r(1) sel)
  with sel r(1) show ?thesis by (simp add: env demo_ids)
qed

definition demo_bad_hello :: hello_body where
  "demo_bad_hello = (demo_hello ''c'' None)\<lparr>he_url := ''https://172.'' @ [CHR 0xB2]\<rparr>"

lemma demo_bad_facts:
  "endpoint_is_safe (he_url demo_bad_hello) = Inl ValueError"
  "case fst (aigrp_hello demo_prims (demo_legacy_world ''b'') demo_intruder demo_bad_hello demo_lookup_db) of Inr _ \<Rightarrow> True | Inl _ \<Rightarrow> False"
  "he_l2 demo_bad_hello \<noteq> self_l2_id (rw_env (demo_legacy_world ''b''))" "lookup_ok demo_lookup_request"
  by code_simp+

theorem one_hello_breaks_every_lookup_witness:
  "\<exists>peers sent st'. aigrp_hello demo_prims (demo_legacy_world ''b'') demo_intruder demo_bad_hello demo_lookup_db = (Inr peers, sent, st')
    \<and> aigrp_lookup demo_prims demo_wire_ops (\<lambda>_. JNull) (map (\<lambda>b. of_int (uint b))) (\<lambda>_. False) (\<lambda>_ _. Some (1/4)) demo_answer
        demo_lookup_world 3 demo_lookup_request ''bob'' st' = (Inl (HTTPException 500), st')"
proof -
  obtain peers sent st' where h: "aigrp_hello demo_prims (demo_legacy_world ''b'') demo_intruder demo_bad_hello demo_lookup_db = (Inr peers, sent, st')"
    using demo_bad_facts(2) by (cases "aigrp_hello demo_prims (demo_legacy_world ''b'') demo_intruder demo_bad_hello demo_lookup_db") (auto split: sum.splits)
  from one_hello_breaks_every_lookup [OF h demo_bad_facts(3,1,4), of demo_lookup_world "[1]" "''m''"] h
  show ?thesis by (simp add: demo_lookup_world_def)
qed

end
