(* ===== verification/Crosstalk.thy ===== *)
theory Crosstalk imports Activity begin

text \<open>
  \<open>crosstalk_routes.py\<close> and the crosstalk tables of \<open>store/_sqlite.py\<close>: threads of
  messages between the users of an L2, an inbox with read marks, and retries
  under ids the client chose. The participants column is kept as the list its
  JSON text encodes; its text matters to the thread list alone, which matches
  it with \<open>LIKE\<close>. Times and generated ids come from the world of a call.
\<close>

section \<open>Tables\<close>

record xt_thread =
  xt_id :: string
  xt_subject :: string
  xt_status :: string
  xt_closed_at :: "string option"
  xt_closed_by :: "string option"
  xt_closed_reason :: "string option"
  xt_enterprise :: string
  xt_group :: string
  xt_created_at :: string
  xt_created_by :: string
  xt_participants :: "string list"

record xt_msg =
  xm_id :: string
  xm_thread :: string
  xm_from :: string
  xm_from_persona :: "string option"
  xm_to :: "string option"
  xm_content :: string
  xm_sent_at :: string
  xm_read_at :: "string option"
  xm_enterprise :: string
  xm_group :: string

record xt_state = activity_db +
  xt_threads :: "xt_thread list"
  xt_msgs :: "xt_msg list"

definition create_crosstalk_thread :: "string \<Rightarrow> string \<Rightarrow> string \<Rightarrow> string \<Rightarrow> string \<Rightarrow> string \<Rightarrow> string list
    \<Rightarrow> 'a xt_state_scheme \<Rightarrow> py_exc + 'a xt_state_scheme" where
  "create_crosstalk_thread tid subject ent grp created_at created_by participants st =
     bind_result (sql_insert xt_id
       \<lparr>xt_id = tid, xt_subject = subject, xt_status = ''open'', xt_closed_at = None, xt_closed_by = None, xt_closed_reason = None,
        xt_enterprise = ent, xt_group = grp, xt_created_at = created_at, xt_created_by = created_by,
        xt_participants = participants\<rparr> (xt_threads st))
       (\<lambda>t. Inr (st\<lparr>xt_threads := t\<rparr>))"

text \<open>The message's thread is a foreign key.\<close>

definition append_crosstalk_message :: "xt_msg \<Rightarrow> 'a xt_state_scheme \<Rightarrow> py_exc + 'a xt_state_scheme" where
  "append_crosstalk_message m st =
     (if xm_thread m \<notin> xt_id ` set (xt_threads st) then Inl IntegrityError
      else bind_result (sql_insert xm_id m (xt_msgs st)) (\<lambda>t. Inr (st\<lparr>xt_msgs := t\<rparr>)))"

definition in_tenant :: "string \<Rightarrow> string option \<Rightarrow> string \<Rightarrow> string \<Rightarrow> bool" where
  "in_tenant ent grp row_ent row_grp \<longleftrightarrow> row_ent = ent \<and> matches_opt grp (\<lambda>g. row_grp = g)"

definition get_crosstalk_thread :: "string \<Rightarrow> string \<Rightarrow> string option \<Rightarrow> 'a xt_state_scheme \<Rightarrow> xt_thread option" where
  "get_crosstalk_thread tid ent grp st =
     sql_fetchone (\<lambda>t. xt_id t = tid \<and> in_tenant ent grp (xt_enterprise t) (xt_group t)) (xt_threads st)"

definition list_crosstalk_messages :: "string \<Rightarrow> string \<Rightarrow> string option \<Rightarrow> nat \<Rightarrow> 'a xt_state_scheme \<Rightarrow> xt_msg list" where
  "list_crosstalk_messages tid ent grp limit st =
     page limit 0 (order_asc (\<lambda>m. (xm_sent_at m, xm_id m))
       (filter (\<lambda>m. xm_thread m = tid \<and> in_tenant ent grp (xm_enterprise m) (xm_group m)) (xt_msgs st)))"

text \<open>SQLite's \<open>LIKE\<close>: percent stands for any text, underscore for any character,
  ASCII letters match in either case.\<close>

fun sql_like :: "string \<Rightarrow> string \<Rightarrow> bool" where
  "sql_like [] s \<longleftrightarrow> s = []"
| "sql_like (p # ps) [] \<longleftrightarrow> p = CHR ''%'' \<and> sql_like ps []"
| "sql_like (p # ps) (c # s) \<longleftrightarrow>
     (if p = CHR ''%'' then sql_like ps (c # s) \<or> sql_like (p # ps) s
      else (p = CHR ''_'' \<or> fold_ascii p = fold_ascii c) \<and> sql_like ps s)"

text \<open>\<open>json.dumps\<close> of a list of strings, with its default separators; what is not
  printable ASCII is escaped.\<close>

definition ascii_char :: "char \<Rightarrow> string" where
  "ascii_char c = (let n = code_point c in
     if n < 127 then esc_char c else CHR 0x5C # ''u00'' @ [hex_digit (n div 16), hex_digit (n mod 16)])"

definition quote_ascii :: "string \<Rightarrow> string" where
  "quote_ascii s = CHR 0x22 # concat (map ascii_char s) @ [CHR 0x22]"

fun join_comma :: "string list \<Rightarrow> string" where
  "join_comma [] = []"
| "join_comma [s] = s"
| "join_comma (s # t # ts) = s @ '', '' @ join_comma (t # ts)"

definition participants_text :: "string list \<Rightarrow> string" where
  "participants_text ps = CHR ''['' # join_comma (map quote_ascii ps) @ '']''"

definition participants_pattern :: "string \<Rightarrow> string" where
  "participants_pattern username = CHR ''%'' # CHR 0x22 # username @ [CHR 0x22, CHR ''%'']"

definition list_crosstalk_threads_for_user :: "string \<Rightarrow> string \<Rightarrow> string option \<Rightarrow> bool \<Rightarrow> nat \<Rightarrow> 'a xt_state_scheme \<Rightarrow> xt_thread list" where
  "list_crosstalk_threads_for_user username ent grp is_admin limit st =
     page limit 0 (order_desc xt_created_at (filter (\<lambda>t. in_tenant ent grp (xt_enterprise t) (xt_group t)
       \<and> (is_admin \<or> sql_like (participants_pattern username) (participants_text (xt_participants t)))) (xt_threads st)))"

definition open_in :: "string \<Rightarrow> string \<Rightarrow> string option \<Rightarrow> xt_thread \<Rightarrow> bool" where
  "open_in tid ent grp t \<longleftrightarrow> xt_id t = tid \<and> in_tenant ent grp (xt_enterprise t) (xt_group t) \<and> xt_status t = ''open''"

definition close_crosstalk_thread :: "string \<Rightarrow> string \<Rightarrow> string \<Rightarrow> string option \<Rightarrow> string \<Rightarrow> string option \<Rightarrow> 'a xt_state_scheme
    \<Rightarrow> bool \<times> 'a xt_state_scheme" where
  "close_crosstalk_thread tid closed_by closed_at reason ent grp st =
     (0 < sql_rowcount (open_in tid ent grp) (xt_threads st),
      st\<lparr>xt_threads := sql_update (open_in tid ent grp)
           (\<lambda>t. t\<lparr>xt_status := ''closed'', xt_closed_at := Some closed_at, xt_closed_by := Some closed_by,
                xt_closed_reason := reason\<rparr>) (xt_threads st)\<rparr>)"

definition unread_for :: "string \<Rightarrow> string \<Rightarrow> string option \<Rightarrow> xt_msg \<Rightarrow> bool" where
  "unread_for username ent grp m \<longleftrightarrow>
     xm_to m = Some username \<and> in_tenant ent grp (xm_enterprise m) (xm_group m) \<and> xm_read_at m = None"

text \<open>The answer has no read time, whether or not the rows are marked.\<close>

definition crosstalk_inbox_for_user :: "string \<Rightarrow> string \<Rightarrow> string option \<Rightarrow> nat \<Rightarrow> string option \<Rightarrow> 'a xt_state_scheme
    \<Rightarrow> xt_msg list \<times> 'a xt_state_scheme" where
  "crosstalk_inbox_for_user username ent grp limit mark st =
     (let rows = page limit 0 (order_asc xm_sent_at (filter (unread_for username ent grp) (xt_msgs st)))
      in (rows, case mark of None \<Rightarrow> st
                | Some now \<Rightarrow> st\<lparr>xt_msgs := sql_update (\<lambda>m. xm_id m \<in> xm_id ` set rows) (\<lambda>m. m\<lparr>xm_read_at := Some now\<rparr>) (xt_msgs st)\<rparr>))"

section \<open>Requests\<close>

record xt_world =
  xw_env :: env
  xw_now :: string
  xw_act_id :: string
  xw_thread_hex :: string
  xw_msg_hex :: string

record send_request =
  sm_to :: string
  sm_content :: string
  sm_persona :: "string option"
  sm_subject :: string
  sm_thread_id :: "string option"
  sm_message_id :: "string option"

record reply_request =
  rq_content :: string
  rq_persona :: "string option"
  rq_message_id :: "string option"

record send_response =
  sr_thread :: string
  sr_message :: string
  sr_sent_at :: string

definition crosstalk_caller :: "string \<Rightarrow> 'a user_db_scheme \<Rightarrow> http_exc + string \<times> string \<times> string" where
  "crosstalk_caller username db =
     (case get_user db username of
        None \<Rightarrow> Inl (HTTPException 401)
      | Some u \<Rightarrow>
          if us_enterprise_id u = [] \<or> us_group_id u = [] then Inl (HTTPException 500)
          else Inr (us_enterprise_id u, us_group_id u, if us_role u = [] then ''user'' else us_role u))"

definition recipient_ok :: "string \<Rightarrow> string option \<Rightarrow> string \<Rightarrow> 'a user_db_scheme \<Rightarrow> bool" where
  "recipient_ok ent grp to db =
     (case get_user db to of
        None \<Rightarrow> False
      | Some r \<Rightarrow> us_enterprise_id r = ent \<and> matches_opt grp (\<lambda>g. us_group_id r = g))"

definition find_message :: "string \<Rightarrow> xt_msg list \<Rightarrow> xt_msg option" where
  "find_message mid ms = List.find (\<lambda>m. xm_id m = mid) ms"

definition text_or_null :: "string option \<Rightarrow> json" where
  "text_or_null s = (case s of None \<Rightarrow> JNull | Some t \<Rightarrow> JStr t)"

definition log_message :: "xt_world \<Rightarrow> string \<Rightarrow> string \<Rightarrow> xt_msg \<Rightarrow> 'a xt_state_scheme \<Rightarrow> 'a xt_state_scheme" where
  "log_message w username event_type m st =
     log_activity (xw_env w) (xw_now w) (xw_act_id w) (Some username) event_type
       (Some (JObj [(''thread_id'', JStr (xm_thread m)), (''message_id'', JStr (xm_id m)), (''to_username'', text_or_null (xm_to m)),
          (''persona'', text_or_null (xm_from_persona m)), (''content_first_60_chars'', JStr (take 60 (xm_content m)))]))
       None (Some (xm_thread m)) st"

text \<open>The tail of a send and of a reply: append, then log; a taken id raises.\<close>

definition post_message :: "xt_world \<Rightarrow> string \<Rightarrow> string \<Rightarrow> xt_msg \<Rightarrow> 'a xt_state_scheme
    \<Rightarrow> (http_exc + send_response) \<times> 'a xt_state_scheme" where
  "post_message w username event_type m st =
     (case append_crosstalk_message m st of
        Inl _ \<Rightarrow> (Inl (HTTPException 500), st)
      | Inr st1 \<Rightarrow> (Inr \<lparr>sr_thread = xm_thread m, sr_message = xm_id m, sr_sent_at = xm_sent_at m\<rparr>, log_message w username event_type m st1))"

definition send_thread_id :: "xt_world \<Rightarrow> send_request \<Rightarrow> string" where
  "send_thread_id w req = py_or (sm_thread_id req) (''thread_'' @ xw_thread_hex w)"

definition send_message_id :: "xt_world \<Rightarrow> string option \<Rightarrow> string" where
  "send_message_id w mid = py_or mid (''msg_'' @ xw_msg_hex w)"

definition sent_before :: "string \<Rightarrow> string \<Rightarrow> string option \<Rightarrow> string \<Rightarrow> 'a xt_state_scheme \<Rightarrow> xt_msg option" where
  "sent_before tid ent grp mid st =
     (case get_crosstalk_thread tid ent grp st of
        None \<Rightarrow> None
      | Some _ \<Rightarrow> find_message mid (list_crosstalk_messages tid ent grp 200 st))"

definition send_message :: "xt_world \<Rightarrow> send_request \<Rightarrow> string \<Rightarrow> 'a xt_state_scheme \<Rightarrow> (http_exc + send_response) \<times> 'a xt_state_scheme" where
  "send_message w req username st =
     (if sm_content req = [] then (Inl (HTTPException 422), st)
      else (case crosstalk_caller username st of
        Inl e \<Rightarrow> (Inl e, st)
      | Inr (ent, grp, role) \<Rightarrow>
        (case scope_filter (xw_env w) ent (Some grp) of (rent, rgrp) \<Rightarrow>
          if \<not> recipient_ok ent rgrp (sm_to req) st then (Inl (HTTPException 404), st)
          else
            let tid = send_thread_id w req; mid = send_message_id w (sm_message_id req);
                m = \<lparr>xm_id = mid, xm_thread = tid, xm_from = username, xm_from_persona = sm_persona req, xm_to = Some (sm_to req),
                     xm_content = sm_content req, xm_sent_at = xw_now w, xm_read_at = None, xm_enterprise = ent, xm_group = grp\<rparr>
            in (case (if sm_message_id req = None then None else sent_before tid rent rgrp mid st) of
                  Some old \<Rightarrow> (Inr \<lparr>sr_thread = tid, sr_message = mid, sr_sent_at = xm_sent_at old\<rparr>, st)
                | None \<Rightarrow>
                    (case (if sm_thread_id req = None then None else get_crosstalk_thread tid rent rgrp st) of
                       None \<Rightarrow>
                         (case create_crosstalk_thread tid (sm_subject req) ent grp (xw_now w) username [username, sm_to req] st of
                            Inl _ \<Rightarrow> (Inl (HTTPException 500), st)
                          | Inr st1 \<Rightarrow> post_message w username ''crosstalk_send'' m st1)
                     | Some t \<Rightarrow>
                         if xt_status t \<noteq> ''open'' then (Inl (HTTPException 409), st)
                         else if username \<notin> set (xt_participants t) then (Inl (HTTPException 403), st)
                         else post_message w username ''crosstalk_send'' m st)))))"

definition may_see_thread :: "string \<Rightarrow> string \<Rightarrow> xt_thread \<Rightarrow> bool" where
  "may_see_thread username role t \<longleftrightarrow> username \<in> set (xt_participants t) \<or> is_admin_role (Some role)"

definition reply_on_thread :: "xt_world \<Rightarrow> string \<Rightarrow> reply_request \<Rightarrow> string \<Rightarrow> 'a xt_state_scheme
    \<Rightarrow> (http_exc + send_response) \<times> 'a xt_state_scheme" where
  "reply_on_thread w tid req username st =
     (if rq_content req = [] then (Inl (HTTPException 422), st)
      else (case crosstalk_caller username st of
        Inl e \<Rightarrow> (Inl e, st)
      | Inr (ent, grp, role) \<Rightarrow>
        (case scope_filter (xw_env w) ent (Some grp) of (rent, rgrp) \<Rightarrow>
          (case get_crosstalk_thread tid rent rgrp st of
             None \<Rightarrow> (Inl (HTTPException 404), st)
           | Some t \<Rightarrow>
              if xt_status t \<noteq> ''open'' then (Inl (HTTPException 409), st)
              else if \<not> may_see_thread username role t then (Inl (HTTPException 403), st)
              else
                let others = filter (\<lambda>p. p \<noteq> username) (xt_participants t);
                    mid = send_message_id w (rq_message_id req);
                    m = \<lparr>xm_id = mid, xm_thread = tid, xm_from = username, xm_from_persona = rq_persona req,
                         xm_to = (case others of [] \<Rightarrow> None | p # _ \<Rightarrow> Some p),
                         xm_content = rq_content req, xm_sent_at = xw_now w, xm_read_at = None, xm_enterprise = ent, xm_group = grp\<rparr>
                in (case (if rq_message_id req = None then None
                          else find_message mid (list_crosstalk_messages tid rent rgrp 200 st)) of
                      Some old \<Rightarrow> (Inr \<lparr>sr_thread = tid, sr_message = mid, sr_sent_at = xm_sent_at old\<rparr>, st)
                    | None \<Rightarrow> post_message w username ''crosstalk_reply'' m st)))))"

definition list_threads :: "xt_world \<Rightarrow> int \<Rightarrow> string \<Rightarrow> 'a xt_state_scheme \<Rightarrow> http_exc + xt_thread list" where
  "list_threads w limit username st =
     (if limit \<le> 0 \<or> 200 < limit then Inl (HTTPException 422)
      else bind_result (crosstalk_caller username st) (\<lambda>(ent, grp, role).
        case scope_filter (xw_env w) ent (Some grp) of (rent, rgrp) \<Rightarrow>
          Inr (list_crosstalk_threads_for_user username rent rgrp (is_admin_role (Some role)) (nat limit) st)))"

definition get_thread :: "xt_world \<Rightarrow> string \<Rightarrow> int \<Rightarrow> string \<Rightarrow> 'a xt_state_scheme \<Rightarrow> http_exc + xt_thread \<times> xt_msg list" where
  "get_thread w tid limit username st =
     (if limit \<le> 0 \<or> 200 < limit then Inl (HTTPException 422)
      else bind_result (crosstalk_caller username st) (\<lambda>(ent, grp, role).
        case scope_filter (xw_env w) ent (Some grp) of (rent, rgrp) \<Rightarrow>
          (case get_crosstalk_thread tid rent rgrp st of
             None \<Rightarrow> Inl (HTTPException 404)
           | Some t \<Rightarrow>
               if \<not> may_see_thread username role t then Inl (HTTPException 403)
               else Inr (t, list_crosstalk_messages tid rent rgrp (nat limit) st))))"

definition close_thread :: "xt_world \<Rightarrow> string \<Rightarrow> string option \<Rightarrow> string \<Rightarrow> 'a xt_state_scheme \<Rightarrow> (http_exc + string) \<times> 'a xt_state_scheme" where
  "close_thread w tid reason username st =
     (case crosstalk_caller username st of
        Inl e \<Rightarrow> (Inl e, st)
      | Inr (ent, grp, role) \<Rightarrow>
        (case scope_filter (xw_env w) ent (Some grp) of (rent, rgrp) \<Rightarrow>
          (case get_crosstalk_thread tid rent rgrp st of
             None \<Rightarrow> (Inl (HTTPException 404), st)
           | Some t \<Rightarrow>
               if \<not> may_see_thread username role t then (Inl (HTTPException 403), st)
               else (case close_crosstalk_thread tid username (xw_now w) reason rent rgrp st of
                       (won, st1) \<Rightarrow>
                         if \<not> won then (Inl (HTTPException 409), st1)
                         else (Inr tid, log_activity (xw_env w) (xw_now w) (xw_act_id w) (Some username) ''crosstalk_close''
                                (Some (JObj [(''thread_id'', JStr tid), (''reason'', text_or_null reason)])) None (Some tid) st1)))))"

definition inbox :: "xt_world \<Rightarrow> int \<Rightarrow> bool \<Rightarrow> string \<Rightarrow> 'a xt_state_scheme \<Rightarrow> (http_exc + xt_msg list) \<times> 'a xt_state_scheme" where
  "inbox w limit mark_read username st =
     (if limit \<le> 0 \<or> 200 < limit then (Inl (HTTPException 422), st)
      else (case crosstalk_caller username st of
        Inl e \<Rightarrow> (Inl e, st)
      | Inr (ent, grp, role) \<Rightarrow>
        (case scope_filter (xw_env w) ent (Some grp) of (rent, rgrp) \<Rightarrow>
          (case crosstalk_inbox_for_user username rent rgrp (nat limit) (if mark_read then Some (xw_now w) else None) st of
             (rows, st1) \<Rightarrow> (Inr rows, st1)))))"

end
