(* ===== verification/CrosstalkProps.thy ===== *)
theory CrosstalkProps imports Crosstalk begin

text \<open>
  What crosstalk promises: a send repeated under the client's ids is a no-op, a
  closed thread stays as it was closed, and reading the inbox with marking
  delivers each message once, oldest first. And where it falls short: a retry
  that names only its message id fails, and the thread list of a user whose name
  holds an underscore shows threads of others.
\<close>

lemma log_keeps_crosstalk [simp]:
  "xt_threads (log_activity env now aid un et p res th st) = xt_threads st"
  "xt_msgs (log_activity env now aid un et p res th st) = xt_msgs st"
  by (auto simp: log_activity_def append_activity_def split: sum.splits)

lemma log_message_keeps [simp]:
  "xt_threads (log_message w un et m st) = xt_threads st" "xt_msgs (log_message w un et m st) = xt_msgs st"
  "db_users (log_message w un et m st) = db_users st"
  by (simp_all add: log_message_def)

lemma crosstalk_caller_cong: "db_users st' = db_users st \<Longrightarrow> crosstalk_caller un st' = crosstalk_caller un st"
  by (simp add: crosstalk_caller_def get_user_def)

lemma recipient_ok_cong: "db_users st' = db_users st \<Longrightarrow> recipient_ok e g to st' = recipient_ok e g to st"
  by (simp add: recipient_ok_def get_user_def)

lemma post_messageD:
  "post_message w un et m st = (Inr r, st') \<Longrightarrow>
   xm_thread m \<in> xt_id ` set (xt_threads st) \<and> xm_id m \<notin> xm_id ` set (xt_msgs st)
   \<and> r = \<lparr>sr_thread = xm_thread m, sr_message = xm_id m, sr_sent_at = xm_sent_at m\<rparr>
   \<and> xt_threads st' = xt_threads st \<and> xt_msgs st' = xt_msgs st @ [m] \<and> db_users st' = db_users st"
  by (auto simp: post_message_def append_crosstalk_message_def sql_insert_def split: if_splits)

lemma post_message_rows:
  "snd (post_message w un et m st) = st
   \<or> (xm_thread m \<in> xt_id ` set (xt_threads st) \<and> xm_id m \<notin> xm_id ` set (xt_msgs st)
      \<and> xt_threads (snd (post_message w un et m st)) = xt_threads st \<and> xt_msgs (snd (post_message w un et m st)) = xt_msgs st @ [m])"
  by (auto simp: post_message_def append_crosstalk_message_def sql_insert_def)

lemma create_threadD:
  "create_crosstalk_thread tid s e g at by_user ps st = Inr st' \<Longrightarrow>
   tid \<notin> xt_id ` set (xt_threads st) \<and> xt_msgs st' = xt_msgs st \<and> db_users st' = db_users st
   \<and> xt_threads st' = xt_threads st @ [\<lparr>xt_id = tid, xt_subject = s, xt_status = ''open'', xt_closed_at = None, xt_closed_by = None,
       xt_closed_reason = None, xt_enterprise = e, xt_group = g, xt_created_at = at, xt_created_by = by_user, xt_participants = ps\<rparr>]"
  by (auto simp: create_crosstalk_thread_def table_simps)

section \<open>Retries\<close>

definition thread_transcript :: "string \<Rightarrow> string \<Rightarrow> string option \<Rightarrow> 'a xt_state_scheme \<Rightarrow> xt_msg list" where
  "thread_transcript tid ent grp st = filter (\<lambda>m. xm_thread m = tid \<and> in_tenant ent grp (xm_enterprise m) (xm_group m)) (xt_msgs st)"

lemma find_the_message:
  assumes "m \<in> set ms" and "\<And>x. x \<in> set ms \<Longrightarrow> xm_id x = xm_id m \<Longrightarrow> x = m"
  shows "find_message (xm_id m) ms = Some m"
proof -
  obtain x where "find_message (xm_id m) ms = Some x"
    using assms(1) by (cases "find_message (xm_id m) ms") (auto simp: find_message_def find_None_iff)
  moreover from this have "x \<in> set ms" "xm_id x = xm_id m" by (auto simp: find_message_def find_Some_iff)
  ultimately show ?thesis using assms(2) by blast
qed

lemma scope_in_tenant: "scope_filter env ent (Some grp) = (rent, rgrp) \<Longrightarrow> in_tenant rent rgrp ent grp"
  by (auto simp: scope_filter_def in_tenant_def matches_opt_def split: if_splits)

text \<open>A message just posted to a thread the caller reads is found again, as long as
  the thread has no more than the 200 messages the check looks at.\<close>

lemma posted_is_found:
  assumes "post_message w un et m st = (Inr r, st')" and "get_crosstalk_thread (xm_thread m) rent rgrp st = Some t"
    and "in_tenant rent rgrp (xm_enterprise m) (xm_group m)" and "length (thread_transcript (xm_thread m) rent rgrp st') \<le> 200"
  shows "sent_before (xm_thread m) rent rgrp (xm_id m) st' = Some m"
proof -
  note p = post_messageD [OF assms(1)]
  let ?l = "list_crosstalk_messages (xm_thread m) rent rgrp 200 st'"
  have set: "set ?l = set (thread_transcript (xm_thread m) rent rgrp st')"
    using assms(4) by (simp add: list_crosstalk_messages_def thread_transcript_def page_def)
  have "find_message (xm_id m) ?l = Some m"
    by (rule find_the_message) (use p assms(3) in \<open>auto simp: set thread_transcript_def image_iff\<close>)
  moreover have "get_crosstalk_thread (xm_thread m) rent rgrp st' = Some t"
    using assms(2) p by (simp add: get_crosstalk_thread_def)
  ultimately show ?thesis by (simp add: sent_before_def)
qed

text \<open>C30. A send that went through and is repeated, under the thread and message
  ids the client chose, is answered the same and changes nothing: neither a
  second message nor a second row in the activity log. The thread must hold no
  more than 200 messages.\<close>

theorem retried_send_is_no_op:
  assumes "send_message w req un st = (Inr r, st1)" and "sm_thread_id req = Some tid" and "tid \<noteq> []"
    and "sm_message_id req = Some mid" and "mid \<noteq> []" and "xw_env w' = xw_env w"
    and "\<And>e g. length (thread_transcript tid e g st1) \<le> 200"
  shows "send_message w' req un st1 = (Inr r, st1)"
proof -
  have ids: "send_thread_id v req = tid" "send_message_id v (sm_message_id req) = mid" "send_message_id v (Some mid) = mid" for v
    using assms(2-5) by (simp_all add: send_thread_id_def send_message_id_def py_or_def)
  obtain ent grp role rent rgrp where c: "sm_content req \<noteq> []" "crosstalk_caller un st = Inr (ent, grp, role)"
    "scope_filter (xw_env w) ent (Some grp) = (rent, rgrp)" "recipient_ok ent rgrp (sm_to req) st"
    using assms(1) by (auto simp: send_message_def split: if_splits sum.splits prod.splits)
  note tenant = scope_in_tenant [OF c(3)]
  have again: "send_message w' req un st1 = (Inr \<lparr>sr_thread = tid, sr_message = mid, sr_sent_at = xm_sent_at old\<rparr>, st1)"
    if "sent_before tid rent rgrp mid st1 = Some old" "db_users st1 = db_users st" for old
    using that c assms(4,6) crosstalk_caller_cong [OF that(2)] recipient_ok_cong [OF that(2)]
    by (simp add: send_message_def ids Let_def)
  show ?thesis
  proof (cases "sent_before tid rent rgrp mid st")
    case (Some old)
    with assms(1,4) c have "st1 = st" "r = \<lparr>sr_thread = tid, sr_message = mid, sr_sent_at = xm_sent_at old\<rparr>"
      by (auto simp: send_message_def ids Let_def)
    with again Some show ?thesis by simp
  next
    case None
    let ?m = "\<lparr>xm_id = mid, xm_thread = tid, xm_from = un, xm_from_persona = sm_persona req, xm_to = Some (sm_to req),
       xm_content = sm_content req, xm_sent_at = xw_now w, xm_read_at = None, xm_enterprise = ent, xm_group = grp\<rparr>"
    have "\<exists>s t. post_message w un ''crosstalk_send'' ?m s = (Inr r, st1) \<and> get_crosstalk_thread tid rent rgrp s = Some t
        \<and> db_users s = db_users st"
    proof (cases "get_crosstalk_thread tid rent rgrp st")
      case (Some t)
      with assms(1,2,4) c None have "post_message w un ''crosstalk_send'' ?m st = (Inr r, st1)"
        by (auto simp: send_message_def ids Let_def split: if_splits)
      with Some show ?thesis by blast
    next
      case no: None
      with assms(1,2,4) c None obtain s where s: "create_crosstalk_thread tid (sm_subject req) ent grp (xw_now w) un [un, sm_to req] st = Inr s"
        "post_message w un ''crosstalk_send'' ?m s = (Inr r, st1)"
        by (auto simp: send_message_def ids Let_def split: if_splits sum.splits)
      moreover have "\<exists>t. get_crosstalk_thread tid rent rgrp s = Some t"
        using no create_threadD [OF s(1)] tenant by (simp add: get_crosstalk_thread_def sql_fetchone_snoc)
      ultimately show ?thesis using create_threadD [OF s(1)] by blast
    qed
    then obtain s t where s: "post_message w un ''crosstalk_send'' ?m s = (Inr r, st1)" "get_crosstalk_thread tid rent rgrp s = Some t"
      "db_users s = db_users st" by blast
    have "sent_before tid rent rgrp mid st1 = Some ?m"
      using posted_is_found [OF s(1), of rent rgrp t] s(2) tenant assms(7) [of rent rgrp] by simp
    from again [OF this] show ?thesis using post_messageD [OF s(1)] s(3) by simp
  qed
qed

text \<open>
  A retry that names its message but leaves the thread to the server is no
  no-op: the check looks in the thread just named, which is a new one. The
  retry is refused with 500, and leaves a new thread without a message.\<close>

theorem retry_without_thread_id_fails:
  assumes "send_message w req un st = (Inr r, st1)" and "sm_thread_id req = None"
    and "sm_message_id req = Some mid" and "mid \<noteq> []" and "xw_env w' = xw_env w"
    and "''thread_'' @ xw_thread_hex w' \<notin> xt_id ` set (xt_threads st1)"
  shows "\<exists>t st2. send_message w' req un st1 = (Inl (HTTPException 500), st2)
    \<and> xt_threads st2 = xt_threads st1 @ [t] \<and> xt_id t = ''thread_'' @ xw_thread_hex w' \<and> xt_msgs st2 = xt_msgs st1"
proof -
  have ids: "send_thread_id v req = ''thread_'' @ xw_thread_hex v" "send_message_id v (sm_message_id req) = mid" "send_message_id v (Some mid) = mid" for v
    using assms(2-4) by (simp_all add: send_thread_id_def send_message_id_def py_or_def)
  obtain ent grp role rent rgrp where c: "sm_content req \<noteq> []" "crosstalk_caller un st = Inr (ent, grp, role)"
    "scope_filter (xw_env w) ent (Some grp) = (rent, rgrp)" "recipient_ok ent rgrp (sm_to req) st"
    using assms(1) by (auto simp: send_message_def split: if_splits sum.splits prod.splits)
  have taken: "mid \<in> xm_id ` set (xt_msgs st1) \<and> db_users st1 = db_users st"
  proof (cases "sent_before (''thread_'' @ xw_thread_hex w) rent rgrp mid st")
    case (Some old)
    with assms(1-3) c have "st1 = st" by (auto simp: send_message_def ids Let_def)
    moreover from Some have "old \<in> set (xt_msgs st)" "xm_id old = mid"
      by (auto simp: sent_before_def find_message_def find_Some_iff list_crosstalk_messages_def
          dest!: nth_mem subsetD [OF set_page] split: option.splits)
    ultimately show ?thesis by auto
  next
    case None
    with assms(1-3) c obtain s m where s: "create_crosstalk_thread (''thread_'' @ xw_thread_hex w) (sm_subject req) ent grp (xw_now w) un [un, sm_to req] st = Inr s"
      "post_message w un ''crosstalk_send'' m s = (Inr r, st1)" "xm_id m = mid"
      by (auto simp: send_message_def ids Let_def split: if_splits sum.splits)
    with create_threadD [OF s(1)] post_messageD [OF s(2)] show ?thesis by auto
  qed
  let ?tid = "''thread_'' @ xw_thread_hex w'"
  have "get_crosstalk_thread ?tid rent rgrp st1 = None"
    using assms(6) by (auto simp: get_crosstalk_thread_def table_simps image_iff)
  then have none: "sent_before ?tid rent rgrp mid st1 = None" by (simp add: sent_before_def)
  obtain st2 where create: "create_crosstalk_thread ?tid (sm_subject req) ent grp (xw_now w') un [un, sm_to req] st1 = Inr st2"
    using assms(6) by (simp add: create_crosstalk_thread_def sql_insert_def)
  have "post_message w' un ''crosstalk_send'' m st2 = (Inl (HTTPException 500), st2)" if "xm_id m = mid" for m
    using that taken create_threadD [OF create] by (simp add: post_message_def append_crosstalk_message_def sql_insert_def)
  then have "send_message w' req un st1 = (Inl (HTTPException 500), st2)"
    using c assms(2,3,5) none create taken crosstalk_caller_cong [of st1 st un] recipient_ok_cong [of st1 st]
    by (simp add: send_message_def ids Let_def)
  with create_threadD [OF create] show ?thesis by auto
qed

section \<open>Closed threads\<close>

datatype xt_op =
  XtSend xt_world send_request string
| XtReply xt_world string reply_request string
| XtClose xt_world string "string option" string
| XtInbox xt_world int bool string

fun xt_step :: "xt_op \<Rightarrow> 'a xt_state_scheme \<Rightarrow> 'a xt_state_scheme" where
  "xt_step (XtSend w req un) st = snd (send_message w req un st)"
| "xt_step (XtReply w tid req un) st = snd (reply_on_thread w tid req un st)"
| "xt_step (XtClose w tid reason un) st = snd (close_thread w tid reason un st)"
| "xt_step (XtInbox w limit mark un) st = snd (inbox w limit mark un st)"

text \<open>What is on record of a thread: its row, and its messages without their read marks.\<close>

definition thread_record :: "string \<Rightarrow> 'a xt_state_scheme \<Rightarrow> xt_thread list \<times> xt_msg list" where
  "thread_record tid st = (filter (\<lambda>t. xt_id t = tid) (xt_threads st),
     map (\<lambda>m. m\<lparr>xm_read_at := None\<rparr>) (filter (\<lambda>m. xm_thread m = tid) (xt_msgs st)))"

definition record_closed :: "xt_thread list \<times> xt_msg list \<Rightarrow> bool" where
  "record_closed r \<longleftrightarrow> fst r \<noteq> [] \<and> list_all (\<lambda>t. xt_status t \<noteq> ''open'') (fst r)"

lemma record_closed_thread:
  "record_closed (thread_record tid st) \<longleftrightarrow> tid \<in> xt_id ` set (xt_threads st) \<and> (\<forall>t \<in> set (xt_threads st). xt_id t = tid \<longrightarrow> xt_status t \<noteq> ''open'')"
  by (auto simp: record_closed_def thread_record_def list_all_iff filter_empty_conv image_iff)

lemma post_keeps_record:
  assumes "xm_thread m \<noteq> tid"
  shows "thread_record tid (snd (post_message w un et m st)) = thread_record tid st"
  using post_message_rows [of w un et m st] assms by (auto simp: thread_record_def)

lemma create_keeps_record:
  "create_crosstalk_thread tid' s e g at by_user ps st = Inr st' \<Longrightarrow> tid' \<noteq> tid \<Longrightarrow> thread_record tid st' = thread_record tid st"
  by (drule create_threadD) (simp add: thread_record_def)

lemma get_crosstalk_threadD: "get_crosstalk_thread tid e g st = Some t \<Longrightarrow> t \<in> set (xt_threads st) \<and> xt_id t = tid"
  by (auto simp: get_crosstalk_thread_def dest: sql_fetchone_SomeD)

lemma post_open_keeps:
  assumes "get_crosstalk_thread tid' e g st = Some t" and "xt_status t = ''open''" and "record_closed (thread_record tid st)"
    and "xm_thread m = tid'"
  shows "thread_record tid (snd (post_message w un et m st)) = thread_record tid st"
proof -
  have "tid' \<noteq> tid" using assms(1-3) get_crosstalk_threadD by (fastforce simp: record_closed_thread)
  with assms(4) post_keeps_record show ?thesis by blast
qed

lemma post_created_keeps:
  assumes "create_crosstalk_thread tid' s e g at by_user ps st = Inr st'" and "record_closed (thread_record tid st)" and "xm_thread m = tid'"
  shows "thread_record tid (snd (post_message w un et m st')) = thread_record tid st"
proof -
  have "tid' \<noteq> tid" using create_threadD [OF assms(1)] assms(2) by (auto simp: record_closed_thread)
  with assms(1,3) post_keeps_record [of m tid] create_keeps_record show ?thesis by metis
qed

lemma send_keeps_closed:
  "record_closed (thread_record tid st) \<Longrightarrow> thread_record tid (snd (send_message w req un st)) = thread_record tid st"
  unfolding send_message_def Let_def
  by (simp split: sum.split prod.split option.split) (auto intro: post_open_keeps post_created_keeps split: if_splits)

lemma reply_keeps_closed:
  "record_closed (thread_record tid st) \<Longrightarrow> thread_record tid (snd (reply_on_thread w tid' req un st)) = thread_record tid st"
  unfolding reply_on_thread_def Let_def
  by (simp split: sum.split prod.split option.split) (auto intro: post_open_keeps split: if_splits)

lemma close_keeps_closed:
  assumes "record_closed (thread_record tid st)"
  shows "thread_record tid (snd (close_thread w tid' reason un st)) = thread_record tid st"
proof -
  have "filter (\<lambda>t. xt_id t = tid) (sql_update (open_in tid' e g) f (xt_threads st)) = filter (\<lambda>t. xt_id t = tid) (xt_threads st)"
    if "\<And>t. xt_id (f t) = xt_id t" for e g f
    by (rule sql_update_frame) (use assms that in \<open>auto simp: record_closed_thread open_in_def\<close>)
  then have "thread_record tid (snd (close_crosstalk_thread tid' cb ca reason e g st)) = thread_record tid st" for cb ca e g
    by (simp add: close_crosstalk_thread_def thread_record_def)
  moreover have "snd (close_thread w tid' reason un st) = st
      \<or> (\<exists>cb ca e g. xt_threads (snd (close_thread w tid' reason un st)) = xt_threads (snd (close_crosstalk_thread tid' cb ca reason e g st))
          \<and> xt_msgs (snd (close_thread w tid' reason un st)) = xt_msgs (snd (close_crosstalk_thread tid' cb ca reason e g st)))"
    unfolding close_thread_def by (auto split: if_splits sum.splits prod.splits option.splits) (metis log_keeps_crosstalk snd_conv)+
  ultimately show ?thesis unfolding thread_record_def by (metis (no_types, lifting))
qed

lemma inbox_keeps_record: "thread_record tid (snd (inbox w limit mark un st)) = thread_record tid st"
proof -
  have "map (\<lambda>m. m\<lparr>xm_read_at := None\<rparr>) (filter (\<lambda>m. xm_thread m = tid) (sql_update P (\<lambda>m. m\<lparr>xm_read_at := r\<rparr>) ms))
      = map (\<lambda>m. m\<lparr>xm_read_at := None\<rparr>) (filter (\<lambda>m. xm_thread m = tid) ms)" for P r ms
    by (induction ms) auto
  then show ?thesis
    by (auto simp: inbox_def crosstalk_inbox_for_user_def thread_record_def Let_def split: sum.splits prod.splits option.splits)
qed

interpretation crosstalk: lifecycle xt_step "thread_record tid" record_closed for tid
proof unfold_locales
  fix s :: "'a xt_state_scheme" and a
  assume "record_closed (thread_record tid s)"
  then show "thread_record tid (xt_step a s) = thread_record tid s"
    by (cases a) (simp_all add: send_keeps_closed reply_keeps_closed close_keeps_closed inbox_keeps_record)
qed

text \<open>C13. A thread that was closed stays as it was closed: whatever is sent,
  replied, closed and read afterwards, its row, with who closed it and why, is
  the same, and so are its messages, none more and none less, but for the marks
  an inbox read sets on them.\<close>

theorem closed_thread_is_final:
  assumes "close_thread w tid reason un st = (Inr tid, st1)" and "unique_key xt_id (xt_threads st)"
  shows "thread_record tid (fold xt_step ops st1) = thread_record tid st1
    \<and> list_all (\<lambda>t. xt_closed_by t = Some un \<and> xt_closed_reason t = reason) (fst (thread_record tid st1)) \<and> fst (thread_record tid st1) \<noteq> []"
proof -
  obtain rent rgrp where won: "0 < sql_rowcount (open_in tid rent rgrp) (xt_threads st)"
    and rows: "xt_threads st1 = sql_update (open_in tid rent rgrp)
        (\<lambda>t. t\<lparr>xt_status := ''closed'', xt_closed_at := Some (xw_now w), xt_closed_by := Some un, xt_closed_reason := reason\<rparr>) (xt_threads st)"
    using assms(1) by (auto simp: close_thread_def close_crosstalk_thread_def split: if_splits sum.splits prod.splits option.splits)
  from won obtain t where t: "t \<in> set (xt_threads st)" "open_in tid rent rgrp t" by (auto simp: table_simps)
  have only: "q = t" if "q \<in> set (xt_threads st)" "xt_id q = tid" for q
    using unique_key_eq [OF assms(2) that(1) t(1)] that(2) t(2) by (simp add: open_in_def)
  have all: "xt_status q = ''closed'' \<and> xt_closed_by q = Some un \<and> xt_closed_reason q = reason"
    if "q \<in> set (xt_threads st1)" "xt_id q = tid" for q
    using that only t by (auto simp: rows set_sql_update)
  moreover have "tid \<in> xt_id ` set (xt_threads st1)"
  proof -
    have "map xt_id (xt_threads st1) = map xt_id (xt_threads st)" unfolding rows by (rule map_key_sql_update) simp
    then have "xt_id ` set (xt_threads st1) = xt_id ` set (xt_threads st)" by (metis list.set_map)
    with t show ?thesis by (auto simp: open_in_def)
  qed
  ultimately have closed: "record_closed (thread_record tid st1)" by (auto simp: record_closed_thread)
  then have "thread_record tid (fold xt_step ops st1) = thread_record tid st1" by (rule crosstalk.run_terminal)
  moreover have "fst (thread_record tid st1) \<noteq> []" using closed by (simp add: record_closed_def)
  moreover have "list_all (\<lambda>t. xt_closed_by t = Some un \<and> xt_closed_reason t = reason) (fst (thread_record tid st1))"
    using all by (simp add: thread_record_def list_all_iff)
  ultimately show ?thesis by blast
qed

section \<open>The inbox\<close>

text \<open>Read after read with marking, until the calls run out; an error ends it.\<close>

fun drain :: "xt_world list \<Rightarrow> int \<Rightarrow> string \<Rightarrow> 'a xt_state_scheme \<Rightarrow> xt_msg list \<times> 'a xt_state_scheme" where
  "drain [] limit un st = ([], st)"
| "drain (w # ws) limit un st =
     (case inbox w limit True un st of
        (Inl e, st1) \<Rightarrow> ([], st1)
      | (Inr rows, st1) \<Rightarrow> (case drain ws limit un st1 of (rest, st2) \<Rightarrow> (rows @ rest, st2)))"

lemma filter_not_taken:
  assumes "distinct (map key xs)"
  shows "filter (\<lambda>x. key x \<notin> key ` set (take n xs)) xs = drop n xs"
proof -
  have d: "distinct (map key (take n xs) @ map key (drop n xs))" using assms by (metis append_take_drop_id map_append)
  have "filter (\<lambda>x. key x \<notin> key ` set (take n xs)) (take n xs) = []" by (simp add: filter_empty_conv)
  moreover have "filter (\<lambda>x. key x \<notin> key ` set (take n xs)) (drop n xs) = drop n xs"
    using d by (intro filter_True) auto
  ultimately show ?thesis by (metis append_self_conv2 append_take_drop_id filter_append)
qed

lemma unread_after_mark:
  assumes "unique_key xm_id ms" and "rows = take n (order_asc xm_sent_at (filter (unread_for un e g) ms))"
  shows "order_asc xm_sent_at (filter (unread_for un e g) (sql_update (\<lambda>m. xm_id m \<in> xm_id ` set rows) (\<lambda>m. m\<lparr>xm_read_at := Some t\<rparr>) ms))
    = drop n (order_asc xm_sent_at (filter (unread_for un e g) ms))"
proof -
  let ?U = "filter (unread_for un e g) ms"
  have "filter (unread_for un e g) (sql_update (\<lambda>m. xm_id m \<in> I) (\<lambda>m. m\<lparr>xm_read_at := Some t\<rparr>) ms) = filter (\<lambda>m. xm_id m \<notin> I) ?U" for I
    by (induction ms) (auto simp: unread_for_def)
  moreover have "order_asc xm_sent_at (filter (\<lambda>m. xm_id m \<notin> I) ?U) = filter (\<lambda>m. xm_id m \<notin> I) (order_asc xm_sent_at ?U)" for I
    by (simp add: order_asc_def filter_sort)
  moreover have "distinct (map xm_id (order_asc xm_sent_at ?U))"
  proof -
    have "distinct (map xm_id ?U)" using assms(1) by (simp add: unique_key_def distinct_map_filter)
    moreover have "mset (map xm_id (order_asc xm_sent_at ?U)) = mset (map xm_id ?U)" by simp
    ultimately show ?thesis by (metis mset_eq_imp_distinct_iff)
  qed
  ultimately show ?thesis unfolding assms(2) by (simp only: filter_not_taken)
qed

lemma inbox_reads:
  assumes "crosstalk_caller un st = Inr (ent, grp, role)" and "scope_filter (xw_env w) ent (Some grp) = (e, g)" and "0 < limit" and "limit \<le> 200"
    and "unique_key xm_id (xt_msgs st)"
  shows "\<exists>st1. inbox w limit True un st = (Inr (take (nat limit) (order_asc xm_sent_at (filter (unread_for un e g) (xt_msgs st)))), st1)
    \<and> order_asc xm_sent_at (filter (unread_for un e g) (xt_msgs st1)) = drop (nat limit) (order_asc xm_sent_at (filter (unread_for un e g) (xt_msgs st)))
    \<and> unique_key xm_id (xt_msgs st1) \<and> db_users st1 = db_users st"
  using assms unread_after_mark [OF assms(5) refl]
  by (simp add: inbox_def crosstalk_inbox_for_user_def page_def Let_def unique_key_sql_update)

text \<open>C14. The inbox loses nothing and repeats nothing: reading it with marking, in
  calls of one size, gives every unread message of the caller exactly once, the
  oldest first, and after enough calls none is left.\<close>

theorem inbox_drains:
  assumes "unique_key xm_id (xt_msgs st)" and "crosstalk_caller un st = Inr (ent, grp, role)"
    and "list_all (\<lambda>w. scope_filter (xw_env w) ent (Some grp) = (e, g)) ws" and "0 < limit" and "limit \<le> 200"
    and "length (filter (unread_for un e g) (xt_msgs st)) \<le> length ws * nat limit"
  shows "fst (drain ws limit un st) = order_asc xm_sent_at (filter (unread_for un e g) (xt_msgs st))
    \<and> filter (unread_for un e g) (xt_msgs (snd (drain ws limit un st))) = []"
  using assms(1-3,6)
proof (induction ws arbitrary: st)
  case Nil
  then show ?case by (simp add: order_asc_def)
next
  case (Cons w ws)
  from Cons.prems(3) have sc: "scope_filter (xw_env w) ent (Some grp) = (e, g)" by simp
  let ?all = "order_asc xm_sent_at (filter (unread_for un e g) (xt_msgs st))"
  from inbox_reads [OF Cons.prems(2) sc assms(4,5) Cons.prems(1)] obtain st1 where
    st1: "inbox w limit True un st = (Inr (take (nat limit) ?all), st1)"
    "order_asc xm_sent_at (filter (unread_for un e g) (xt_msgs st1)) = drop (nat limit) ?all"
    "unique_key xm_id (xt_msgs st1)" "db_users st1 = db_users st" by blast
  have "length (filter (unread_for un e g) (xt_msgs st1)) = length ?all - nat limit" using st1(2) by (metis length_drop length_order_asc)
  then have "length (filter (unread_for un e g) (xt_msgs st1)) \<le> length ws * nat limit" using Cons.prems(4) by simp
  with Cons.IH [of st1] Cons.prems st1 crosstalk_caller_cong [OF st1(4)] show ?case by (auto split: prod.splits)
qed

section \<open>The thread list\<close>

definition plain_char :: "char \<Rightarrow> bool" where
  "plain_char c \<longleftrightarrow> (let n = code_point c in 32 \<le> n \<and> n < 127 \<and> n \<noteq> 34 \<and> n \<noteq> 92)"

lemma quote_ascii_plain: "list_all plain_char s \<Longrightarrow> quote_ascii s = CHR 0x22 # s @ [CHR 0x22]"
proof -
  assume "list_all plain_char s"
  then have "concat (map ascii_char s) = s"
    by (induction s) (auto simp: ascii_char_def esc_char_def plain_char_def Let_def)
  then show ?thesis by (simp add: quote_ascii_def)
qed

lemma like_percent: "sql_like (CHR ''%'' # ps) s \<longleftrightarrow> (\<exists>a b. s = a @ b \<and> sql_like ps b)"
proof (induction s)
  case Nil
  then show ?case by simp
next
  case (Cons c s)
  have "sql_like (CHR ''%'' # ps) (c # s) \<longleftrightarrow> sql_like ps (c # s) \<or> (\<exists>a b. s = a @ b \<and> sql_like ps b)" using Cons by simp
  also have "\<dots> \<longleftrightarrow> (\<exists>a b. c # s = a @ b \<and> sql_like ps b)" by (metis Cons_eq_append_conv append_Cons)
  finally show ?case .
qed

text \<open>A pattern text that stands for a name: character by character the same, or an
  underscore in the pattern.\<close>

definition stands_for :: "string \<Rightarrow> string \<Rightarrow> bool" where
  "stands_for un p \<longleftrightarrow> list_all2 (\<lambda>u c. u = CHR ''_'' \<or> u = c) un p"

lemma like_stands_for: "stands_for un p \<Longrightarrow> CHR ''%'' \<notin> set un \<Longrightarrow> sql_like ps b \<Longrightarrow> sql_like (un @ ps) (p @ b)"
  unfolding stands_for_def by (induction rule: list_all2_induct) auto

lemma join_comma_mem: "x \<in> set xs \<Longrightarrow> \<exists>a b. join_comma xs = a @ x @ b"
proof (induction xs rule: join_comma.induct)
  case (3 s t ts)
  show ?case
  proof (cases "x = s")
    case True
    then have "join_comma (s # t # ts) = [] @ x @ '', '' @ join_comma (t # ts)" by simp
    then show ?thesis by blast
  next
    case False
    with 3 obtain a b where "join_comma (t # ts) = a @ x @ b" by auto
    then have "join_comma (s # t # ts) = (s @ '', '' @ a) @ x @ b" by simp
    then show ?thesis by blast
  qed
next
  case (2 s)
  then show ?case by (intro exI [of _ "[]"]) simp
qed simp

lemma like_participants:
  assumes "p \<in> set ps" and "list_all plain_char p" and "stands_for un p" and "CHR ''%'' \<notin> set un"
  shows "sql_like (participants_pattern un) (participants_text ps)"
proof -
  have "quote_ascii p \<in> set (map quote_ascii ps)" using assms(1) by simp
  from join_comma_mem [OF this] obtain a b where "join_comma (map quote_ascii ps) = a @ (CHR 0x22 # p @ [CHR 0x22]) @ b"
    using quote_ascii_plain [OF assms(2)] by auto
  then have t: "participants_text ps = (CHR ''['' # a) @ CHR 0x22 # p @ CHR 0x22 # b @ '']''" by (simp add: participants_text_def)
  have "sql_like [CHR ''%''] x" for x by (simp add: like_percent)
  then have "sql_like (CHR 0x22 # [CHR ''%'']) (CHR 0x22 # b @ '']'')" by simp
  from like_stands_for [OF assms(3,4) this]
  have "sql_like (CHR 0x22 # un @ CHR 0x22 # [CHR ''%'']) (CHR 0x22 # p @ CHR 0x22 # b @ '']'')" by simp
  then show ?thesis unfolding participants_pattern_def t by (subst like_percent) blast
qed

text \<open>
  The thread list of a user has every thread of the tenant one of whose
  participants the user's name stands for, character by character the same or
  with an underscore in the user's name in its place. So everyone finds their
  own threads; but an underscore in a name matches any character, and the
  user finds the threads of others, their subjects and participants, too.\<close>

theorem thread_list_matches_names:
  assumes "crosstalk_caller un st = Inr (ent, grp, role)" and "scope_filter (xw_env w) ent (Some grp) = (e, g)"
    and "t \<in> set (xt_threads st)" and "in_tenant e g (xt_enterprise t) (xt_group t)"
    and "p \<in> set (xt_participants t)" and "list_all plain_char p" and "stands_for un p" and "CHR ''%'' \<notin> set un"
    and "length (xt_threads st) \<le> 200"
  shows "\<exists>ts. list_threads w 200 un st = Inr ts \<and> t \<in> set ts"
proof -
  have "t \<in> set (filter (\<lambda>t. in_tenant e g (xt_enterprise t) (xt_group t)
       \<and> (is_admin_role (Some role) \<or> sql_like (participants_pattern un) (participants_text (xt_participants t)))) (xt_threads st))"
    using assms(3,4) like_participants [OF assms(5-8)] by simp
  moreover have "length (filter P (xt_threads st)) \<le> 200" for P using assms(9) by (meson length_filter_le order_trans)
  ultimately show ?thesis
    using assms(1,2) by (simp add: list_threads_def list_crosstalk_threads_for_user_def page_def)
qed

section \<open>Witnesses\<close>

definition demo_xt_user :: "string \<Rightarrow> user_row" where
  "demo_xt_user un = \<lparr>us_id = length un, us_username = un, us_password_hash = [], us_created_at = [], us_role = ''user'',
     us_enterprise_id = ''acme'', us_group_id = ''b'', us_email = None\<rparr>"

definition demo_xt :: xt_state where
  "demo_xt = \<lparr>db_users = map demo_xt_user [''ann'', ''bo'', ''a_n''], db_user_seq = 4, act_log = [], act_retention = [],
     xt_threads = [], xt_msgs = []\<rparr>"

definition demo_xt_world :: "string \<Rightarrow> xt_world" where
  "demo_xt_world t = \<lparr>xw_env = (\<lambda>_. None), xw_now = t, xw_act_id = t, xw_thread_hex = t, xw_msg_hex = t\<rparr>"

definition demo_send :: "string option \<Rightarrow> string \<Rightarrow> send_request" where
  "demo_send tid mid = \<lparr>sm_to = ''bo'', sm_content = ''hi'', sm_persona = None, sm_subject = ''s'', sm_thread_id = tid, sm_message_id = Some mid\<rparr>"

definition demo_sent :: "string option \<Rightarrow> (http_exc + send_response) \<times> xt_state" where
  "demo_sent tid = send_message (demo_xt_world ''1'') (demo_send tid ''m'') ''ann'' demo_xt"

lemma demo_sent_facts:
  "fst (demo_sent (Some ''t'')) = Inr \<lparr>sr_thread = ''t'', sr_message = ''m'', sr_sent_at = ''1''\<rparr>"
  "fst (demo_sent None) = Inr \<lparr>sr_thread = ''thread_1'', sr_message = ''m'', sr_sent_at = ''1''\<rparr>"
  "length (xt_msgs (snd (demo_sent (Some ''t'')))) = 1"
  "xt_id ` set (xt_threads (snd (demo_sent None))) = {''thread_1''}"
  "fst (close_thread (demo_xt_world ''2'') ''t'' None ''bo'' (snd (demo_sent (Some ''t'')))) = Inr ''t''"
  "map xt_id (xt_threads (snd (demo_sent (Some ''t'')))) = [''t'']"
  by code_simp+

theorem retried_send_is_no_op_witness:
  "send_message (demo_xt_world ''9'') (demo_send (Some ''t'') ''m'') ''ann'' (snd (demo_sent (Some ''t'')))
   = (Inr \<lparr>sr_thread = ''t'', sr_message = ''m'', sr_sent_at = ''1''\<rparr>, snd (demo_sent (Some ''t'')))"
proof -
  have s: "send_message (demo_xt_world ''1'') (demo_send (Some ''t'') ''m'') ''ann'' demo_xt
      = (Inr \<lparr>sr_thread = ''t'', sr_message = ''m'', sr_sent_at = ''1''\<rparr>, snd (demo_sent (Some ''t'')))"
    using demo_sent_facts(1) unfolding demo_sent_def by (metis prod.collapse)
  have "length (thread_transcript x e g (snd (demo_sent (Some ''t'')))) \<le> 200" for x e g
    unfolding thread_transcript_def using demo_sent_facts(3) length_filter_le [of _ "xt_msgs (snd (demo_sent (Some ''t'')))"]
    by (metis le_trans one_le_numeral)
  from retried_send_is_no_op [OF s, of "''t''" "''m''" "demo_xt_world ''9''", OF _ _ _ _ _ this]
  show ?thesis by (simp add: demo_send_def demo_xt_world_def)
qed

theorem retry_without_thread_id_fails_witness:
  "\<exists>t st2. send_message (demo_xt_world ''9'') (demo_send None ''m'') ''ann'' (snd (demo_sent None)) = (Inl (HTTPException 500), st2)
    \<and> xt_threads st2 = xt_threads (snd (demo_sent None)) @ [t] \<and> xt_id t = ''thread_9'' \<and> xt_msgs st2 = xt_msgs (snd (demo_sent None))"
proof -
  have s: "send_message (demo_xt_world ''1'') (demo_send None ''m'') ''ann'' demo_xt
      = (Inr \<lparr>sr_thread = ''thread_1'', sr_message = ''m'', sr_sent_at = ''1''\<rparr>, snd (demo_sent None))"
    using demo_sent_facts(2) unfolding demo_sent_def by (metis prod.collapse)
  from retry_without_thread_id_fails [OF s, of "''m''" "demo_xt_world ''9''"] demo_sent_facts(4)
  show ?thesis by (simp add: demo_send_def demo_xt_world_def)
qed

theorem closed_thread_is_final_witness:
  "\<exists>st1. close_thread (demo_xt_world ''2'') ''t'' None ''bo'' (snd (demo_sent (Some ''t''))) = (Inr ''t'', st1)
    \<and> thread_record ''t'' (fold xt_step [XtSend (demo_xt_world ''3'') (demo_send (Some ''t'') ''n'') ''ann'', XtInbox (demo_xt_world ''4'') 5 True ''bo''] st1)
      = thread_record ''t'' st1"
proof -
  let ?st = "snd (demo_sent (Some ''t''))"
  have c: "close_thread (demo_xt_world ''2'') ''t'' None ''bo'' ?st = (Inr ''t'', snd (close_thread (demo_xt_world ''2'') ''t'' None ''bo'' ?st))"
    using demo_sent_facts(5) by (metis prod.collapse)
  have "unique_key xt_id (xt_threads ?st)" using demo_sent_facts(6) by (simp add: unique_key_def)
  from closed_thread_is_final [OF c this] c show ?thesis by blast
qed

definition demo_inbox :: xt_state where
  "demo_inbox = snd (send_message (demo_xt_world ''2'') (demo_send (Some ''t'') ''n'') ''ann'' (snd (demo_sent (Some ''t''))))"

lemma demo_inbox_facts:
  "map (\<lambda>m. (xm_id m, xm_to m, xm_enterprise m, xm_read_at m)) (xt_msgs demo_inbox)
   = [(''m'', Some ''bo'', ''acme'', None), (''n'', Some ''bo'', ''acme'', None)]"
  "crosstalk_caller ''bo'' demo_inbox = Inr (''acme'', ''b'', ''user'')"
  "map xm_id (order_asc xm_sent_at (filter (unread_for ''bo'' ''acme'' None) (xt_msgs demo_inbox))) = [''m'', ''n'']"
  by code_simp+

theorem inbox_drains_witness:
  "map xm_id (fst (drain [demo_xt_world ''3'', demo_xt_world ''4''] 1 ''bo'' demo_inbox)) = [''m'', ''n'']
   \<and> filter (unread_for ''bo'' ''acme'' None) (xt_msgs (snd (drain [demo_xt_world ''3'', demo_xt_world ''4''] 1 ''bo'' demo_inbox))) = []"
proof -
  have ids: "map xm_id (xt_msgs demo_inbox) = [''m'', ''n'']"
    using arg_cong [OF demo_inbox_facts(1), of "map fst"] by (simp add: o_def)
  then have u: "unique_key xm_id (xt_msgs demo_inbox)" by (simp add: unique_key_def)
  have "length (filter (unread_for ''bo'' ''acme'' None) (xt_msgs demo_inbox)) \<le> length [demo_xt_world ''3'', demo_xt_world ''4''] * nat 1"
    by (rule order_trans [OF length_filter_le]) (use arg_cong [OF ids, of length] in simp)
  from inbox_drains [OF u demo_inbox_facts(2) _ _ _ this] demo_inbox_facts(3) show ?thesis
    by (simp add: demo_xt_world_def scope_filter_def per_l2_isolation_enabled_def getenv_def lower_def)
qed

text \<open>Ann's thread with Bo, seen by the user \<open>a_n\<close>.\<close>

lemma demo_listed_facts:
  "crosstalk_caller ''a_n'' demo_inbox = Inr (''acme'', ''b'', ''user'')"
  "map (\<lambda>t. (xt_id t, xt_participants t, xt_enterprise t)) (xt_threads demo_inbox) = [(''t'', [''ann'', ''bo''], ''acme'')]"
  by code_simp+

theorem thread_list_matches_names_witness:
  "\<exists>ts t. list_threads (demo_xt_world ''5'') 200 ''a_n'' demo_inbox = Inr ts \<and> t \<in> set ts \<and> xt_participants t = [''ann'', ''bo'']"
proof -
  obtain t where t: "xt_threads demo_inbox = [t]" "xt_participants t = [''ann'', ''bo'']" "xt_enterprise t = ''acme''"
    using demo_listed_facts(2) by auto
  have "\<exists>ts. list_threads (demo_xt_world ''5'') 200 ''a_n'' demo_inbox = Inr ts \<and> t \<in> set ts"
    by (rule thread_list_matches_names [OF demo_listed_facts(1), where p = "''ann''" and e = "''acme''" and g = None])
       (simp_all add: t demo_xt_world_def scope_filter_def per_l2_isolation_enabled_def getenv_def lower_def in_tenant_def matches_opt_def
         plain_char_def code_point_def stands_for_def)
  with t(2) show ?thesis by blast
qed

end
