(* ===== verification/Transactional.thy ===== *)
theory Transactional imports Invites Crypto JsonLoads begin

text \<open>
  The central mail service (\<open>transactional/\<close>): HMAC authentication of the calling
  L2 with its cached key, the idempotency cache, the tenancy check, the
  suppression list with its SNS writer, and \<open>/transactional/send\<close>. The mail
  service itself (SES), the parameter store and the JSON parser of the request
  model are parameters; what was handed to SES is kept in the state. Times are
  those of the monotonic clock in any unit, \<open>ttl\<close> is the cache's.
\<close>

section \<open>Authentication\<close>

definition SIGNATURE_PREFIX :: string where "SIGNATURE_PREFIX = ''sha256=''"

definition compute_signature :: "'k prims \<Rightarrow> string \<Rightarrow> bytes \<Rightarrow> string" where
  "compute_signature C key body = SIGNATURE_PREFIX @ hex (hmac256 C (utf8 key) body)"

definition verify_hmac_signature :: "'k prims \<Rightarrow> bytes \<Rightarrow> string option \<Rightarrow> string option \<Rightarrow> bool" where
  "verify_hmac_signature C body signature_header key =
     (case signature_header of
        None \<Rightarrow> False
      | Some s \<Rightarrow> s \<noteq> [] \<and> startswith s SIGNATURE_PREFIX
          \<and> (case key of None \<Rightarrow> False | Some k \<Rightarrow> compute_signature C k body = s))"

type_synonym key_cache = "(string \<times> int \<times> string) list"

text \<open>\<open>ssm\<close> reads one parameter: None when the call fails or gives no value.\<close>

definition ssm_resolve_key :: "int \<Rightarrow> int \<Rightarrow> (string \<Rightarrow> string option) \<Rightarrow> string \<Rightarrow> key_cache \<Rightarrow> string option \<times> key_cache" where
  "ssm_resolve_key ttl now ssm l2 cache =
     (case map_of cache l2 of
        Some (t, v) \<Rightarrow> if now - t < ttl then (Some v, cache)
          else (case partition_on (CHR ''/'') l2 of (ent, sep, grp) \<Rightarrow>
                  if sep = [] then (None, cache)
                  else (case ssm (''/8th-layer/l2/'' @ ent @ ''/'' @ grp @ ''/tx_send_key'') of
                          None \<Rightarrow> (None, cache)
                        | Some v \<Rightarrow> (Some v, if v = [] then cache else dict_set l2 (now, v) cache)))
      | None \<Rightarrow>
          (case partition_on (CHR ''/'') l2 of (ent, sep, grp) \<Rightarrow>
             if sep = [] then (None, cache)
             else (case ssm (''/8th-layer/l2/'' @ ent @ ''/'' @ grp @ ''/tx_send_key'') of
                     None \<Rightarrow> (None, cache)
                   | Some v \<Rightarrow> (Some v, if v = [] then cache else dict_set l2 (now, v) cache))))"

section \<open>Idempotency\<close>

text \<open>The response envelope without its status; a blocked address is reported with
  the reason on file.\<close>

datatype tx_body = TxPassed string "string option" | TxBlocked string

type_synonym idem_cache = "(string \<times> int \<times> nat \<times> tx_body) list"

definition idem_get :: "int \<Rightarrow> int \<Rightarrow> string \<Rightarrow> idem_cache \<Rightarrow> (nat \<times> tx_body) option \<times> idem_cache" where
  "idem_get ttl now key entries =
     (if key = [] then (None, entries)
      else (case map_of entries key of
              None \<Rightarrow> (None, entries)
            | Some (ts, cached) \<Rightarrow>
                if ttl < now - ts then (None, filter (\<lambda>e. fst e \<noteq> key) entries) else (Some cached, entries)))"

definition idem_put :: "int \<Rightarrow> string \<Rightarrow> nat \<times> tx_body \<Rightarrow> idem_cache \<Rightarrow> idem_cache" where
  "idem_put now key cached entries = (if key = [] then entries else dict_set key (now, cached) entries)"

definition idem_sweep :: "int \<Rightarrow> int \<Rightarrow> idem_cache \<Rightarrow> idem_cache" where
  "idem_sweep ttl now entries = filter (\<lambda>e. \<not> ttl < now - fst (snd e)) entries"

definition derive_idempotency_key :: "string option \<Rightarrow> string \<Rightarrow> string option \<Rightarrow> string option" where
  "derive_idempotency_key header_key l2 audit_ref =
     (if truthy header_key then Some (l2 @ '':hdr:'' @ the header_key)
      else if truthy audit_ref then Some (l2 @ '':ref:'' @ the audit_ref)
      else None)"

section \<open>State\<close>

record suppression_row =
  su_address :: string
  su_reason :: string
  su_at :: string
  su_event :: "string option"

record mail =
  ml_persona :: string
  ml_to :: string
  ml_subject :: string
  ml_text :: string
  ml_html :: "string option"

text \<open>\<open>tx_sent\<close> is what SES accepted.\<close>

record tx_state = invite_db +
  tx_suppressed :: "suppression_row list"
  tx_cache :: idem_cache
  tx_sent :: "mail list"

section \<open>Suppression\<close>

definition check_suppression :: "string \<Rightarrow> 'a tx_state_scheme \<Rightarrow> suppression_row option" where
  "check_suppression address st = sql_fetchone (\<lambda>r. su_address r = lower address) (tx_suppressed st)"

text \<open>\<open>INSERT OR IGNORE\<close>: the first reason stays.\<close>

definition record_suppression :: "string \<Rightarrow> string \<Rightarrow> string \<Rightarrow> string option \<Rightarrow> 'a tx_state_scheme \<Rightarrow> bool \<times> 'a tx_state_scheme" where
  "record_suppression now address reason event_id st =
     (if check_suppression address st \<noteq> None then (False, st)
      else (True, st\<lparr>tx_suppressed := tx_suppressed st @
                  [\<lparr>su_address = lower address, su_reason = reason, su_at = now, su_event = event_id\<rparr>]\<rparr>))"

fun json_true :: "json \<Rightarrow> bool" where
  "json_true JNull \<longleftrightarrow> False"
| "json_true (JBool b) \<longleftrightarrow> b"
| "json_true (JInt i) \<longleftrightarrow> i \<noteq> 0"
| "json_true (JStr s) \<longleftrightarrow> s \<noteq> []"
| "json_true (JArr xs) \<longleftrightarrow> xs \<noteq> []"
| "json_true (JObj kvs) \<longleftrightarrow> kvs \<noteq> []"

definition obj_get :: "string \<Rightarrow> json \<Rightarrow> json \<Rightarrow> py_exc + json" where
  "obj_get k d v = (case v of
     JObj kvs \<Rightarrow> Inr (case map_of kvs k of None \<Rightarrow> d | Some x \<Rightarrow> x) | _ \<Rightarrow> Inl AttributeError)"

text \<open>\<open>(x.get("timestamp", "") or "")[:10] or "unknown"\<close>; \<open>show_list\<close> is \<open>str\<close> of a list.\<close>

definition event_date :: "(json list \<Rightarrow> string) \<Rightarrow> json \<Rightarrow> py_exc + string" where
  "event_date show_list v =
     (if \<not> json_true v then Inr ''unknown''
      else (case v of
              JStr s \<Rightarrow> Inr (take 10 s)
            | JArr xs \<Rightarrow> Inr (show_list (take 10 xs))
            | _ \<Rightarrow> Inl TypeErr))"

text \<open>\<open>(recipient or {}).get("emailAddress")\<close>.\<close>

definition recipient_address :: "json \<Rightarrow> py_exc + json" where
  "recipient_address r = (if json_true r then obj_get ''emailAddress'' JNull r else Inr JNull)"

text \<open>The loop; an address that is no string raises inside its own try.\<close>

fun suppress_all :: "string \<Rightarrow> string \<Rightarrow> string option \<Rightarrow> json list \<Rightarrow> nat \<Rightarrow> 'a tx_state_scheme \<Rightarrow> (py_exc + nat) \<times> 'a tx_state_scheme" where
  "suppress_all now reason event_id [] n st = (Inr n, st)"
| "suppress_all now reason event_id (r # rs) n st =
     (case recipient_address r of
        Inl e \<Rightarrow> (Inl e, st)
      | Inr (JStr a) \<Rightarrow>
          if a = [] then suppress_all now reason event_id rs n st
          else (case record_suppression now a reason event_id st of
                  (ok, st1) \<Rightarrow> suppress_all now reason event_id rs (if ok then n + 1 else n) st1)
      | Inr _ \<Rightarrow> suppress_all now reason event_id rs n st)"

text \<open>Iterating: a list gives its items, a string its characters and an object its
  keys; anything else raises.\<close>

definition json_items :: "json \<Rightarrow> py_exc + json list" where
  "json_items v = (case v of
     JArr xs \<Rightarrow> Inr xs | JStr s \<Rightarrow> Inr (map (\<lambda>c. JStr [c]) s) | JObj kvs \<Rightarrow> Inr (map (JStr \<circ> fst) kvs) | _ \<Rightarrow> Inl TypeErr)"

definition sns_plan :: "(json list \<Rightarrow> string) \<Rightarrow> json \<Rightarrow> py_exc + (string \<times> json list) option" where
  "sns_plan show_list envelope =
     bind_result (obj_get ''notificationType'' JNull envelope) (\<lambda>kind.
       if kind = JStr ''Bounce'' then
         bind_result (obj_get ''bounce'' (JObj []) envelope) (\<lambda>bounce.
         bind_result (obj_get ''bounceType'' (JStr ''Unknown'') bounce) (\<lambda>bounce_type.
           if bounce_type \<noteq> JStr ''Permanent'' then Inr None
           else bind_result (obj_get ''timestamp'' (JStr []) bounce) (\<lambda>ts.
                bind_result (event_date show_list ts) (\<lambda>d.
                bind_result (obj_get ''bouncedRecipients'' (JArr []) bounce) (\<lambda>rs.
                bind_result (json_items rs) (\<lambda>items. Inr (Some (''hard_bounce_'' @ d, items))))))))
       else if kind = JStr ''Complaint'' then
         bind_result (obj_get ''complaint'' (JObj []) envelope) (\<lambda>complaint.
         bind_result (obj_get ''timestamp'' (JStr []) complaint) (\<lambda>ts.
         bind_result (event_date show_list ts) (\<lambda>d.
         bind_result (obj_get ''complainedRecipients'' (JArr []) complaint) (\<lambda>rs.
         bind_result (json_items rs) (\<lambda>items. Inr (Some (''complaint_'' @ d, items)))))))
       else Inr None)"

definition handle_sns_message :: "(json list \<Rightarrow> string) \<Rightarrow> string \<Rightarrow> string \<Rightarrow> string option \<Rightarrow> 'a tx_state_scheme
    \<Rightarrow> (py_exc + nat) \<times> 'a tx_state_scheme" where
  "handle_sns_message show_list now message_body event_id st =
     (case json_loads message_body of
        None \<Rightarrow> (Inr 0, st)
      | Some envelope \<Rightarrow>
          (case sns_plan show_list envelope of
             Inl e \<Rightarrow> (Inl e, st)
           | Inr None \<Rightarrow> (Inr 0, st)
           | Inr (Some (reason, recipients)) \<Rightarrow> suppress_all now reason event_id recipients 0 st))"

text \<open>Lambda's records: the message and its id; the first that raises ends the call.\<close>

fun handle_lambda_event :: "(json list \<Rightarrow> string) \<Rightarrow> string \<Rightarrow> (string \<times> string option) list \<Rightarrow> nat \<Rightarrow> nat \<Rightarrow> 'a tx_state_scheme
    \<Rightarrow> (py_exc + nat \<times> nat) \<times> 'a tx_state_scheme" where
  "handle_lambda_event show_list now [] recorded skipped st = (Inr (recorded, skipped), st)"
| "handle_lambda_event show_list now ((message, event_id) # rest) recorded skipped st =
     (case handle_sns_message show_list now message event_id st of
        (Inl e, st1) \<Rightarrow> (Inl e, st1)
      | (Inr n, st1) \<Rightarrow> handle_lambda_event show_list now rest (recorded + n) (if n = 0 then skipped + 1 else skipped) st1)"

section \<open>Tenancy\<close>

definition INVITE_CATEGORIES :: "string list" where
  "INVITE_CATEGORIES = [''invite_magic_link'', ''password_reset'', ''two_factor'']"

definition USER_ONLY_CATEGORIES :: "string list" where
  "USER_ONLY_CATEGORIES = [''account_event'', ''security_alert'']"

definition user_by_address :: "string \<Rightarrow> 'a user_db_scheme \<Rightarrow> user_row option" where
  "user_by_address address db =
     sql_fetchone (\<lambda>u. (case us_email u of None \<Rightarrow> False | Some e \<Rightarrow> sql_lower e = address)) (db_users db)"

definition pending_invitee :: "string \<Rightarrow> string \<Rightarrow> string \<Rightarrow> 'a invite_db_scheme \<Rightarrow> bool" where
  "pending_invitee address ent grp db \<longleftrightarrow>
     list_ex (\<lambda>i. sql_lower (iv_email i) = address \<and> iv_claimed_at i = None \<and> iv_revoked_at i = None
        \<and> list_ex (\<lambda>u. us_id u = iv_issued_by i \<and> us_enterprise_id u = ent \<and> us_group_id u = grp) (db_users db)) (db_invites db)"

definition enforce_tenancy :: "string \<Rightarrow> string \<Rightarrow> string \<Rightarrow> string \<Rightarrow> 'a invite_db_scheme \<Rightarrow> bool" where
  "enforce_tenancy ent grp to category db =
     (let address = lower to
      in case user_by_address address db of
           Some u \<Rightarrow>
             if us_enterprise_id u = ent \<and> us_group_id u = grp then True
             else if category \<in> set USER_ONLY_CATEGORIES then False
             else category \<in> set INVITE_CATEGORIES \<and> pending_invitee address ent grp db
         | None \<Rightarrow>
             if category \<in> set USER_ONLY_CATEGORIES then False
             else category \<in> set INVITE_CATEGORIES \<and> pending_invitee address ent grp db)"

section \<open>Sending\<close>

definition SENDER_PERSONAS :: "string list" where "SENDER_PERSONAS = [''invites'', ''auth'', ''notifications'']"

definition PERSONA_SENDERS :: "string \<Rightarrow> string option" where
  "PERSONA_SENDERS p =
     (if p \<in> set SENDER_PERSONAS then Some (p @ ''@8th-layer.ai'') else None)"

record tx_request =
  tq_persona :: string
  tq_to :: string
  tq_subject :: string
  tq_text :: string
  tq_html :: "string option"
  tq_category :: string
  tq_audit_ref :: "string option"

definition text_field :: "string \<Rightarrow> (string \<times> json) list \<Rightarrow> string option" where
  "text_field k kvs = (case map_of kvs k of Some (JStr s) \<Rightarrow> Some s | _ \<Rightarrow> None)"

text \<open>An optional field: absent and null are None; another type is invalid.\<close>

definition opt_text_field :: "string \<Rightarrow> (string \<times> json) list \<Rightarrow> string option option" where
  "opt_text_field k kvs = (case map_of kvs k of None \<Rightarrow> Some None | Some JNull \<Rightarrow> Some None | Some (JStr s) \<Rightarrow> Some (Some s) | _ \<Rightarrow> None)"

definition lower_to :: "string \<Rightarrow> string option" where
  "lower_to value = (let v = lower (strip value)
     in if CHR ''@'' \<notin> set v \<or> startswith v ''@'' \<or> endswith v ''@'' then None else Some v)"

text \<open>The request model: types, lengths, literals, then the validator of \<open>to\<close>.\<close>

definition tx_request_of_json :: "json \<Rightarrow> tx_request option" where
  "tx_request_of_json v =
     (case v of
        JObj kvs \<Rightarrow>
          (case (text_field ''from_persona'' kvs, text_field ''to'' kvs, text_field ''subject'' kvs, text_field ''text'' kvs,
                 opt_text_field ''html'' kvs, text_field ''category'' kvs, opt_text_field ''audit_ref'' kvs) of
             (Some persona, Some to, Some subject, Some txt, Some html, Some category, Some ref) \<Rightarrow>
               if persona \<in> set SENDER_PERSONAS \<and> 3 \<le> length to \<and> length to \<le> 320 \<and> 1 \<le> length subject \<and> length subject \<le> 998
                  \<and> txt \<noteq> [] \<and> category \<in> set INVITE_CATEGORIES \<union> set USER_ONLY_CATEGORIES
                  \<and> (case ref of None \<Rightarrow> True | Some r \<Rightarrow> length r \<le> 128)
               then (case lower_to to of
                       None \<Rightarrow> None
                     | Some a \<Rightarrow> Some \<lparr>tq_persona = persona, tq_to = a, tq_subject = subject, tq_text = txt, tq_html = html,
                                  tq_category = category, tq_audit_ref = ref\<rparr>)
               else None
           | _ \<Rightarrow> None)
      | _ \<Rightarrow> None)"

text \<open>One HTTP request: its raw body and headers.\<close>

record tx_call =
  tc_body :: bytes
  tc_l2 :: "string option"
  tc_signature :: "string option"
  tc_idempotency :: "string option"

text \<open>\<open>ses\<close> answers a mail: None when the call raises, else the message id if it has
  one. \<open>key\<close> is what the resolver gives for an L2, \<open>hexid\<close> the 16 random bytes.\<close>

record tx_world =
  tw_now :: int
  tw_ttl :: int
  tw_key :: "string \<Rightarrow> string option"
  tw_parse :: "bytes \<Rightarrow> json option"
  tw_ses :: "mail \<Rightarrow> string option option"
  tw_hexid :: string

text \<open>A response with its status and body, or an HTTPException, whose detail is a
  text or the body of a blocked send.\<close>

datatype tx_reply = TxReply nat tx_body | TxError nat "tx_body option"

definition mail_of :: "tx_request \<Rightarrow> mail" where
  "mail_of q = \<lparr>ml_persona = tq_persona q, ml_to = tq_to q, ml_subject = tq_subject q, ml_text = tq_text q, ml_html = tq_html q\<rparr>"

definition remember :: "tx_world \<Rightarrow> string option \<Rightarrow> nat \<times> tx_body \<Rightarrow> 'a tx_state_scheme \<Rightarrow> 'a tx_state_scheme" where
  "remember w dedup cached st =
     (case dedup of None \<Rightarrow> st | Some k \<Rightarrow> st\<lparr>tx_cache := idem_put (tw_now w) k cached (tx_cache st)\<rparr>)"

definition send_checked :: "tx_world \<Rightarrow> string option \<Rightarrow> tx_request \<Rightarrow> 'a tx_state_scheme \<Rightarrow> tx_reply \<times> 'a tx_state_scheme" where
  "send_checked w dedup q st =
     (case check_suppression (tq_to q) st of
        Some r \<Rightarrow> (TxError 409 (Some (TxBlocked (su_reason r))), remember w dedup (409, TxBlocked (su_reason r)) st)
      | None \<Rightarrow>
          (case tw_ses w (mail_of q) of
             None \<Rightarrow> (TxError 502 None, st)
           | Some mid \<Rightarrow>
               let body = TxPassed (''tx_'' @ tw_hexid w) mid
               in (TxReply 202 body, remember w dedup (202, body) (st\<lparr>tx_sent := tx_sent st @ [mail_of q]\<rparr>))))"

definition send_transactional :: "'k prims \<Rightarrow> tx_world \<Rightarrow> tx_call \<Rightarrow> 'a tx_state_scheme \<Rightarrow> tx_reply \<times> 'a tx_state_scheme" where
  "send_transactional C w c st =
     (case tc_l2 c of
        None \<Rightarrow> (TxError 401 None, st)
      | Some l2 \<Rightarrow>
        (case partition_on (CHR ''/'') l2 of (ent, sep, grp) \<Rightarrow>
          if l2 = [] \<or> sep = [] then (TxError 401 None, st)
          else if \<not> verify_hmac_signature C (tc_body c) (tc_signature c) (tw_key w l2) then (TxError 401 None, st)
          else (case (case tw_parse w (tc_body c) of None \<Rightarrow> None | Some v \<Rightarrow> tx_request_of_json v) of
                  None \<Rightarrow> (TxError 422 None, st)
                | Some q \<Rightarrow>
                    let dedup = derive_idempotency_key (tc_idempotency c) l2 (tq_audit_ref q);
                        (cached, entries) = (case dedup of None \<Rightarrow> (None, tx_cache st) | Some k \<Rightarrow> idem_get (tw_ttl w) (tw_now w) k (tx_cache st));
                        st1 = st\<lparr>tx_cache := entries\<rparr>
                    in (case cached of
                          Some (status, body) \<Rightarrow> (TxReply status body, st1)
                        | None \<Rightarrow>
                            if \<not> enforce_tenancy ent grp (tq_to q) (tq_category q) st1 then (TxError 403 None, st1)
                            else send_checked w dedup q st1))))"

end
