(* ===== verification/TransactionalProps.thy ===== *)
theory TransactionalProps imports Transactional begin

text \<open>
  What the mail service promises: a mail goes out only for a signed call and to
  a recipient of the caller's tenancy who is not suppressed; a call repeated
  under its key inside the window is answered from the cache and sends nothing;
  an address that bounced is never mailed again.
\<close>

section \<open>One call\<close>

text \<open>The request and the key a call is deduplicated under.\<close>

definition call_request :: "tx_world \<Rightarrow> tx_call \<Rightarrow> tx_request option" where
  "call_request w c = (case tw_parse w (tc_body c) of None \<Rightarrow> None | Some v \<Rightarrow> tx_request_of_json v)"

definition call_key :: "tx_world \<Rightarrow> tx_call \<Rightarrow> string option" where
  "call_key w c = (case (tc_l2 c, call_request w c) of
     (Some l2, Some q) \<Rightarrow> derive_idempotency_key (tc_idempotency c) l2 (tq_audit_ref q) | _ \<Rightarrow> None)"

definition call_signed :: "'k prims \<Rightarrow> tx_world \<Rightarrow> tx_call \<Rightarrow> bool" where
  "call_signed C w c \<longleftrightarrow> (case tc_l2 c of None \<Rightarrow> False
     | Some l2 \<Rightarrow> CHR ''/'' \<in> set l2 \<and> verify_hmac_signature C (tc_body c) (tc_signature c) (tw_key w l2))"

lemma call_key_not_Nil: "call_key w c = Some k \<Longrightarrow> k \<noteq> []"
  by (auto simp: call_key_def derive_idempotency_key_def split: option.splits if_splits)

lemma partition_sep: "partition_on c s = (a, sep, b) \<Longrightarrow> sep = [] \<longleftrightarrow> c \<notin> set s"
  by (auto simp: partition_on_def split: if_splits)

text \<open>Past the gates, a call is a cache lookup and then the checked send.\<close>

definition cache_lookup :: "tx_world \<Rightarrow> string option \<Rightarrow> 'a tx_state_scheme \<Rightarrow> (nat \<times> tx_body) option \<times> idem_cache" where
  "cache_lookup w dedup st = (case dedup of None \<Rightarrow> (None, tx_cache st) | Some k \<Rightarrow> idem_get (tw_ttl w) (tw_now w) k (tx_cache st))"

lemma send_transactional_cases:
  "send_transactional C w c st =
     (case call_request w c of
        None \<Rightarrow> (TxError (if call_signed C w c then 422 else 401) None, st)
      | Some q \<Rightarrow>
          if \<not> call_signed C w c then (TxError 401 None, st)
          else (case cache_lookup w (call_key w c) st of
                  (Some (status, body), entries) \<Rightarrow> (TxReply status body, st\<lparr>tx_cache := entries\<rparr>)
                | (None, entries) \<Rightarrow>
                    (case partition_on (CHR ''/'') (the (tc_l2 c)) of (ent, sep, grp) \<Rightarrow>
                       if \<not> enforce_tenancy ent grp (tq_to q) (tq_category q) (st\<lparr>tx_cache := entries\<rparr>)
                       then (TxError 403 None, st\<lparr>tx_cache := entries\<rparr>)
                       else send_checked w (call_key w c) q (st\<lparr>tx_cache := entries\<rparr>))))"
proof (cases "tc_l2 c")
  case None
  then show ?thesis by (simp add: send_transactional_def call_signed_def split: option.split)
next
  case (Some l2)
  obtain ent sep grp where p: "partition_on (CHR ''/'') l2 = (ent, sep, grp)" by (cases "partition_on (CHR ''/'') l2")
  have sep: "(l2 = [] \<or> sep = []) = (CHR ''/'' \<notin> set l2)" using partition_sep [OF p] by auto
  show ?thesis
  proof (cases "call_signed C w c")
    case True
    then have v: "CHR ''/'' \<in> set l2" "verify_hmac_signature C (tc_body c) (tc_signature c) (tw_key w l2)"
      using Some by (simp_all add: call_signed_def)
    show ?thesis
    proof (cases "call_request w c")
      case None
      then show ?thesis using True Some p v sep by (simp add: send_transactional_def call_request_def)
    next
      case q: (Some q)
      have k: "call_key w c = derive_idempotency_key (tc_idempotency c) l2 (tq_audit_ref q)" by (simp add: call_key_def Some q)
      obtain r es where e: "cache_lookup w (call_key w c) st = (r, es)" by (cases "cache_lookup w (call_key w c) st")
      show ?thesis
        using True Some p v sep q e [unfolded cache_lookup_def]
        by (simp add: send_transactional_def call_request_def [symmetric] k [symmetric] e Let_def split: option.split)
    qed
  next
    case False
    then have "send_transactional C w c st = (TxError 401 None, st)"
      using Some p sep by (auto simp: send_transactional_def call_signed_def)
    with False show ?thesis by (simp split: option.split)
  qed
qed

lemma enforce_tenancy_cong:
  assumes "db_users st' = db_users st" and "db_invites st' = db_invites st"
  shows "enforce_tenancy e g to cat st' = enforce_tenancy e g to cat st"
  unfolding enforce_tenancy_def Let_def user_by_address_def pending_invitee_def assms by (rule refl)

text \<open>C6. A mail goes out only when the caller knows the key of the L2 it names, and
  then exactly one, to a recipient of that L2's tenancy, or an invitee of it
  where the category allows that, who is not on the suppression list.\<close>

theorem mail_authorised:
  assumes "send_transactional C w c st = (r, st')" and "tx_sent st' \<noteq> tx_sent st"
  shows "\<exists>l2 key ent sep grp q. tc_l2 c = Some l2 \<and> tw_key w l2 = Some key
    \<and> tc_signature c = Some (compute_signature C key (tc_body c)) \<and> partition_on (CHR ''/'') l2 = (ent, sep, grp) \<and> sep \<noteq> []
    \<and> call_request w c = Some q \<and> tx_sent st' = tx_sent st @ [mail_of q]
    \<and> enforce_tenancy ent grp (tq_to q) (tq_category q) st \<and> check_suppression (tq_to q) st = None"
proof -
  obtain q where q: "call_request w c = Some q" and signed: "call_signed C w c"
    using assms by (auto simp: send_transactional_cases split: option.splits if_splits)
  then obtain l2 where l2: "tc_l2 c = Some l2" "CHR ''/'' \<in> set l2" by (auto simp: call_signed_def split: option.splits)
  obtain ent sep grp where p: "partition_on (CHR ''/'') l2 = (ent, sep, grp)" by (cases "partition_on (CHR ''/'') l2")
  obtain cached entries where e: "cache_lookup w (call_key w c) st = (cached, entries)" by fastforce
  let ?st = "st\<lparr>tx_cache := entries\<rparr>"
  have "enforce_tenancy ent grp (tq_to q) (tq_category q) ?st \<and> send_checked w (call_key w c) q ?st = (r, st')"
    using assms q signed l2 p e by (auto simp: send_transactional_cases split: option.splits if_splits)
  moreover have "enforce_tenancy ent grp (tq_to q) (tq_category q) ?st = enforce_tenancy ent grp (tq_to q) (tq_category q) st"
    by (rule enforce_tenancy_cong) simp_all
  moreover have "check_suppression (tq_to q) ?st = check_suppression (tq_to q) st" by (simp add: check_suppression_def)
  ultimately have facts: "enforce_tenancy ent grp (tq_to q) (tq_category q) st" "check_suppression (tq_to q) st = None"
    "tx_sent st' = tx_sent st @ [mail_of q]"
    using assms(2) by (auto simp: send_checked_def remember_def Let_def split: option.splits)
  obtain key where "tw_key w l2 = Some key" "tc_signature c = Some (compute_signature C key (tc_body c))"
    using signed l2 by (auto simp: call_signed_def verify_hmac_signature_def split: option.splits)
  with facts l2 p q partition_sep [OF p] show ?thesis by blast
qed

section \<open>Sequences of calls and events\<close>

datatype 'k tx_op = TxSend tx_world tx_call | TxSns "json list \<Rightarrow> string" string "(string \<times> string option) list"

fun tx_step :: "'k prims \<Rightarrow> 'k tx_op \<Rightarrow> 'a tx_state_scheme \<Rightarrow> 'a tx_state_scheme" where
  "tx_step C (TxSend w c) st = snd (send_transactional C w c st)"
| "tx_step C (TxSns sl now records) st = snd (handle_lambda_event sl now records 0 0 st)"

lemma record_suppression_keeps [simp]:
  "tx_cache (snd (record_suppression now a reason ev st)) = tx_cache st" "tx_sent (snd (record_suppression now a reason ev st)) = tx_sent st"
  by (simp_all add: record_suppression_def)

lemma suppress_all_keeps [simp]:
  "tx_cache (snd (suppress_all now reason ev rs n st)) = tx_cache st \<and> tx_sent (snd (suppress_all now reason ev rs n st)) = tx_sent st"
proof (induction now reason ev rs n st rule: suppress_all.induct)
  case (2 now reason ev r rs n st)
  have "tx_cache s1 = tx_cache st \<and> tx_sent s1 = tx_sent st" if "record_suppression now a reason ev st = (ok, s1)" for a ok s1
    using record_suppression_keeps [of now a reason ev st] that by simp
  with 2 show ?case by (auto split: sum.split json.split prod.split)
qed simp

lemma sns_keeps [simp]:
  "tx_cache (snd (handle_sns_message sl now m ev st)) = tx_cache st" "tx_sent (snd (handle_sns_message sl now m ev st)) = tx_sent st"
  by (simp_all add: handle_sns_message_def split: option.split sum.split)

lemma lambda_keeps [simp]:
  "tx_cache (snd (handle_lambda_event sl now rs a b st)) = tx_cache st \<and> tx_sent (snd (handle_lambda_event sl now rs a b st)) = tx_sent st"
proof (induction rs arbitrary: a b st)
  case (Cons r rs)
  obtain m ev where r: "r = (m, ev)" by fastforce
  obtain x st1 where h: "handle_sns_message sl now m ev st = (x, st1)" by fastforce
  have "tx_cache st1 = tx_cache st" "tx_sent st1 = tx_sent st" using sns_keeps [of sl now m ev st] h by simp_all
  with Cons show ?case by (simp add: r h split: sum.split)
qed simp

text \<open>The entry of a key stays while it is fresh: a call under it is a hit, and a
  call under another key leaves it alone.\<close>

fun op_time :: "'k tx_op \<Rightarrow> int option" where
  "op_time (TxSend w c) = Some (tw_now w)"
| "op_time (TxSns sl now records) = None"

definition within :: "int \<Rightarrow> int \<Rightarrow> 'k tx_op \<Rightarrow> bool" where
  "within ttl t0 op \<longleftrightarrow> (case op of TxSend w c \<Rightarrow> tw_ttl w = ttl \<and> tw_now w \<le> t0 + ttl | TxSns _ _ _ \<Rightarrow> True)"

lemma map_of_filter_key: "map_of (filter (\<lambda>e. fst e \<noteq> k') es) k = (if k = k' then None else map_of es k)"
  by (induction es) auto

lemma fresh_entry_kept:
  assumes "map_of (tx_cache st) k = Some (t0, v)" and "within ttl t0 op"
  shows "map_of (tx_cache (tx_step C op st)) k = Some (t0, v)"
proof (cases op)
  case (TxSns sl now records)
  then show ?thesis using assms by simp
next
  case (TxSend w c)
  then have fresh: "\<not> tw_ttl w < tw_now w - t0" using assms(2) by (simp add: within_def)
  obtain cached entries where e: "cache_lookup w (call_key w c) st = (cached, entries)" by fastforce
  have kept: "map_of entries k = Some (t0, v)" and hit: "call_key w c = Some k \<Longrightarrow> cached \<noteq> None"
    using e assms(1) fresh call_key_not_Nil
    by (auto simp: cache_lookup_def idem_get_def map_of_filter_key split: option.splits if_splits prod.splits)
  have put: "map_of (tx_cache (remember w (call_key w c) x s)) k = Some (t0, v)"
    if "call_key w c \<noteq> Some k" "tx_cache s = entries" for x and s :: "'a tx_state_scheme"
    using that kept by (auto simp: remember_def idem_put_def map_of_dict_set split: option.split)
  have "map_of (tx_cache (snd (send_checked w (call_key w c) q (st\<lparr>tx_cache := entries\<rparr>)))) k = Some (t0, v)"
    if "call_key w c \<noteq> Some k" for q
    using that kept by (simp add: send_checked_def Let_def put split: option.split)
  with TxSend e kept hit assms(1) show ?thesis
    by (auto simp: send_transactional_cases split: option.split prod.split)
qed

lemma fresh_entry_run:
  "map_of (tx_cache st) k = Some (t0, v) \<Longrightarrow> list_all (within ttl t0) ops \<Longrightarrow> map_of (tx_cache (fold (tx_step C) ops st)) k = Some (t0, v)"
  by (induction ops arbitrary: st) (auto intro: fresh_entry_kept)

text \<open>What the outcome of a call leaves in the cache: its status and body.\<close>

definition outcome :: "tx_reply \<Rightarrow> (nat \<times> tx_body) option" where
  "outcome r = (case r of TxReply n b \<Rightarrow> Some (n, b) | TxError n (Some b) \<Rightarrow> Some (n, b) | TxError n None \<Rightarrow> None)"

text \<open>
  Idempotency. A call that sent its mail, or was told the address is
  suppressed, and comes again with its key within the window, is answered with
  the same status and body and changes nothing, no mail and no cache entry,
  whatever calls and bounces there were in between, the call itself included. A
  blocked address alone is reported in another form the second time: a plain
  response in place of an error with the body as its detail.\<close>

theorem same_key_answered_from_cache:
  assumes "send_transactional C w c st = (r, st1)" and "outcome r = Some (n, b)"
    and "call_key w c = Some k" and "map_of (tx_cache st) k = None"
    and "list_all (within (tw_ttl w) (tw_now w)) ops" and "within (tw_ttl w) (tw_now w) (TxSend w' c)"
    and "tw_key w' = tw_key w" and "tw_parse w' = tw_parse w"
  shows "send_transactional C w' c (fold (tx_step C) ops st1) = (TxReply n b, fold (tx_step C) ops st1)
    \<and> (r = TxReply n b \<or> r = TxError n (Some b) \<and> n = 409)"
proof -
  have miss: "cache_lookup w (call_key w c) st = (None, tx_cache st)"
    using assms(3,4) call_key_not_Nil by (simp add: cache_lookup_def idem_get_def)
  obtain q where q: "call_request w c = Some q" using assms(1,2) by (auto simp: send_transactional_cases outcome_def split: option.splits)
  have signed: "call_signed C w c" using assms(1,2) q by (auto simp: send_transactional_cases outcome_def split: if_splits)
  have "send_checked w (Some k) q st = (r, st1)"
    using assms(1-3) q signed miss by (auto simp: send_transactional_cases outcome_def split: if_splits prod.splits)
  then have stored: "map_of (tx_cache st1) k = Some (tw_now w, n, b)" and form: "r = TxReply n b \<or> r = TxError n (Some b) \<and> n = 409"
    using assms(2) call_key_not_Nil [OF assms(3)]
    by (auto simp: send_checked_def remember_def idem_put_def outcome_def map_of_dict_set Let_def split: option.splits)
  let ?st = "fold (tx_step C) ops st1"
  have "map_of (tx_cache ?st) k = Some (tw_now w, n, b)" by (rule fresh_entry_run [OF stored assms(5)])
  moreover have "call_request w' c = Some q" using q unfolding call_request_def assms(8) .
  moreover from this have "call_key w' c = Some k" using assms(3) q by (simp add: call_key_def)
  moreover have "call_signed C w' c" using signed unfolding call_signed_def assms(7) .
  ultimately have "send_transactional C w' c ?st = (TxReply n b, ?st)"
    using assms(6) call_key_not_Nil [OF assms(3)] by (simp add: send_transactional_cases cache_lookup_def idem_get_def within_def)
  with form show ?thesis by blast
qed

section \<open>Suppression\<close>

definition suppressed :: "string \<Rightarrow> 'a tx_state_scheme \<Rightarrow> bool" where
  "suppressed a st \<longleftrightarrow> lower a \<in> su_address ` set (tx_suppressed st)"

lemma check_suppressed: "check_suppression a st \<noteq> None \<longleftrightarrow> suppressed a st"
  by (auto simp: check_suppression_def suppressed_def sql_fetchone_None image_iff dest: sql_fetchone_SomeD)
     (metis sql_fetchone_None option.exhaust)

lemma record_suppresses: "suppressed a st \<or> x = a \<Longrightarrow> suppressed a (snd (record_suppression now x reason ev st))"
  using check_suppressed [of x st] by (auto simp: record_suppression_def suppressed_def)

lemma suppress_all_keeps_suppressed: "suppressed a st \<Longrightarrow> suppressed a (snd (suppress_all now reason ev rs n st))"
proof (induction now reason ev rs n st rule: suppress_all.induct)
  case (2 now reason ev r rs n st)
  have "suppressed a (st1)" if "record_suppression now x reason ev st = (ok, st1)" for x ok st1
    using record_suppresses [of a st x now reason ev] "2.prems" that by simp
  with 2 show ?case by (auto split: sum.split json.split prod.split)
qed simp

lemma suppress_all_suppresses:
  assumes "fst (suppress_all now reason ev rs n st) = Inr m" and "r \<in> set rs" and "recipient_address r = Inr (JStr a)" and "a \<noteq> []"
  shows "suppressed a (snd (suppress_all now reason ev rs n st))"
  using assms(1,2)
proof (induction rs arbitrary: n st)
  case (Cons x rs)
  show ?case
  proof (cases "r = x")
    case True
    obtain ok st1 where s: "record_suppression now a reason ev st = (ok, st1)" by fastforce
    have "suppressed a st1" using record_suppresses [of a st a now reason ev] s by simp
    with True assms(3,4) s show ?thesis by (simp add: suppress_all_keeps_suppressed)
  next
    case False
    with Cons show ?thesis by (auto split: sum.splits json.splits if_splits prod.splits)
  qed
qed simp

lemma send_mails:
  "\<exists>new. tx_sent (snd (send_transactional C w c st)) = tx_sent st @ new \<and> list_all (\<lambda>m. \<not> suppressed (ml_to m) st) new
    \<and> tx_suppressed (snd (send_transactional C w c st)) = tx_suppressed st"
proof -
  have "\<exists>new. tx_sent (snd (send_checked w k q s)) = tx_sent s @ new \<and> list_all (\<lambda>m. \<not> suppressed (ml_to m) s) new
      \<and> tx_suppressed (snd (send_checked w k q s)) = tx_suppressed s" for k q and s :: "'a tx_state_scheme"
    using check_suppressed [of "tq_to q" s]
    by (auto simp: send_checked_def remember_def mail_of_def Let_def split: option.split)
  from this [of "call_key w c" _ "st\<lparr>tx_cache := _\<rparr>"] show ?thesis
    by (auto simp: send_transactional_cases suppressed_def split: option.split prod.split)
qed

lemma lambda_keeps_suppressed: "suppressed a st \<Longrightarrow> suppressed a (snd (handle_lambda_event sl now rs x y st))"
proof (induction rs arbitrary: x y st)
  case (Cons r rs)
  obtain m ev where r: "r = (m, ev)" by fastforce
  obtain res st1 where h: "handle_sns_message sl now m ev st = (res, st1)" by fastforce
  have "suppressed a (snd (handle_sns_message sl now m ev st))"
    using Cons.prems by (auto simp: handle_sns_message_def suppress_all_keeps_suppressed split: option.split sum.split)
  with h Cons.IH show ?case by (auto simp: r h split: sum.split)
qed simp

lemma suppressed_run:
  "suppressed a st \<Longrightarrow> suppressed a (fold (tx_step C) ops st)
     \<and> (\<exists>new. tx_sent (fold (tx_step C) ops st) = tx_sent st @ new \<and> list_all (\<lambda>m. lower (ml_to m) \<noteq> lower a) new)"
proof (induction ops arbitrary: st)
  case (Cons op ops)
  have step: "suppressed a (tx_step C op st) \<and> (\<exists>new. tx_sent (tx_step C op st) = tx_sent st @ new \<and> list_all (\<lambda>m. lower (ml_to m) \<noteq> lower a) new)"
  proof (cases op)
    case (TxSend w c)
    from send_mails [of C w c st] obtain new where "tx_sent (snd (send_transactional C w c st)) = tx_sent st @ new"
      "list_all (\<lambda>m. \<not> suppressed (ml_to m) st) new" "tx_suppressed (snd (send_transactional C w c st)) = tx_suppressed st" by blast
    with TxSend Cons.prems show ?thesis by (auto simp: suppressed_def list_all_iff)
  next
    case (TxSns sl now rs)
    with Cons.prems show ?thesis by (simp add: lambda_keeps_suppressed)
  qed
  then obtain new where new: "tx_sent (tx_step C op st) = tx_sent st @ new" "list_all (\<lambda>m. lower (ml_to m) \<noteq> lower a) new" by blast
  from Cons.IH [of "tx_step C op st"] step obtain new' where
    "tx_sent (fold (tx_step C) ops (tx_step C op st)) = tx_sent (tx_step C op st) @ new'" "list_all (\<lambda>m. lower (ml_to m) \<noteq> lower a) new'"
    "suppressed a (fold (tx_step C) ops (tx_step C op st))" by blast
  with new show ?case by (intro conjI exI [of _ "new @ new'"]) auto
qed simp

text \<open>C28. An address in a hard bounce or a complaint that was processed is never
  mailed again, in whatever case it is written: whatever calls and events
  follow, no mail to it is added to what was sent.\<close>

theorem bounced_address_never_mailed:
  assumes "json_loads m = Some envelope" and "sns_plan sl envelope = Inr (Some (reason, rs))"
    and "r \<in> set rs" and "recipient_address r = Inr (JStr a)" and "a \<noteq> []"
    and "handle_sns_message sl now m ev st = (Inr n, st1)"
  shows "\<exists>new. tx_sent (fold (tx_step C) ops st1) = tx_sent st @ new \<and> list_all (\<lambda>x. lower (ml_to x) \<noteq> lower a) new"
proof -
  have s: "suppress_all now reason ev rs 0 st = (Inr n, st1)" using assms(1,2,6) by (simp add: handle_sns_message_def)
  then have "suppressed a st1" using suppress_all_suppresses [of now reason ev rs 0 st n r a] assms(3-5) by simp
  moreover have "tx_sent st1 = tx_sent st" using suppress_all_keeps [of now reason ev rs 0 st] s by simp
  ultimately show ?thesis using suppressed_run [of a st1 C ops] by simp
qed

section \<open>Witnesses\<close>

definition demo_tx :: tx_state where
  "demo_tx = \<lparr>db_users = [\<lparr>us_id = 1, us_username = ''ann'', us_password_hash = [], us_created_at = [], us_role = ''user'',
       us_enterprise_id = ''acme'', us_group_id = ''b'', us_email = Some ''Ann@x.io''\<rparr>], db_user_seq = 2,
     db_invites = [], db_invite_seq = 1, tx_suppressed = [], tx_cache = [], tx_sent = []\<rparr>"

definition demo_tx_json :: json where
  "demo_tx_json = JObj [(''from_persona'', JStr ''auth''), (''to'', JStr '' ANN@x.io''), (''subject'', JStr ''s''), (''text'', JStr ''t''),
     (''category'', JStr ''two_factor''), (''audit_ref'', JStr ''r1'')]"

definition demo_tx_world :: "int \<Rightarrow> tx_world" where
  "demo_tx_world t = \<lparr>tw_now = t, tw_ttl = 60, tw_key = (\<lambda>l2. if l2 = ''acme/b'' then Some ''k'' else None),
     tw_parse = (\<lambda>_. Some demo_tx_json), tw_ses = (\<lambda>_. Some (Some ''m1'')), tw_hexid = ''h''\<rparr>"

definition demo_tx_call :: tx_call where
  "demo_tx_call = \<lparr>tc_body = [1], tc_l2 = Some ''acme/b'', tc_signature = Some (compute_signature demo_prims ''k'' [1]), tc_idempotency = None\<rparr>"

definition demo_mail :: mail where
  "demo_mail = \<lparr>ml_persona = ''auth'', ml_to = ''ann@x.io'', ml_subject = ''s'', ml_text = ''t'', ml_html = None\<rparr>"

definition demo_tx_sent :: "tx_reply \<times> tx_state" where
  "demo_tx_sent = send_transactional demo_prims (demo_tx_world 5) demo_tx_call demo_tx"

lemma demo_tx_facts:
  "fst demo_tx_sent = TxReply 202 (TxPassed ''tx_h'' (Some ''m1''))" "tx_sent (snd demo_tx_sent) = [demo_mail]"
  "tx_sent demo_tx = []" "call_key (demo_tx_world 5) demo_tx_call = Some ''acme/b:ref:r1''" "map_of (tx_cache demo_tx) k = None"
  by code_simp+

theorem mail_authorised_witness:
  "\<exists>st' q ent sep grp. send_transactional demo_prims (demo_tx_world 5) demo_tx_call demo_tx = (TxReply 202 (TxPassed ''tx_h'' (Some ''m1'')), st')
    \<and> tx_sent st' = [demo_mail] \<and> partition_on (CHR ''/'') ''acme/b'' = (ent, sep, grp)
    \<and> mail_of q = demo_mail \<and> enforce_tenancy ent grp (tq_to q) (tq_category q) demo_tx"
proof -
  have s: "send_transactional demo_prims (demo_tx_world 5) demo_tx_call demo_tx = (TxReply 202 (TxPassed ''tx_h'' (Some ''m1'')), snd demo_tx_sent)"
    using demo_tx_facts(1) by (metis demo_tx_sent_def prod.collapse)
  have "tx_sent (snd demo_tx_sent) \<noteq> tx_sent demo_tx" by (simp add: demo_tx_facts)
  from mail_authorised [OF s this] obtain ent sep grp q where "partition_on (CHR ''/'') ''acme/b'' = (ent, sep, grp)"
    "tx_sent (snd demo_tx_sent) = tx_sent demo_tx @ [mail_of q]" "enforce_tenancy ent grp (tq_to q) (tq_category q) demo_tx"
    by (auto simp: demo_tx_call_def)
  moreover from this have "mail_of q = demo_mail" by (simp add: demo_tx_facts)
  ultimately show ?thesis using s demo_tx_facts(2) by blast
qed

text \<open>The bounce of Ann's address, between the call and its retry.\<close>

definition demo_bounce :: json where
  "demo_bounce = JObj [(''bounce'', JObj [(''bounceType'', JStr ''Permanent''), (''bouncedRecipients'', JArr [JObj [(''emailAddress'', JStr ''Ann@X.io'')]])]),
     (''notificationType'', JStr ''Bounce'')]"

definition demo_bounce_text :: string where "demo_bounce_text = dumps demo_bounce"

lemma demo_bounce_facts:
  "json_loads demo_bounce_text = Some demo_bounce"
  "sns_plan (\<lambda>_. []) demo_bounce = Inr (Some (''hard_bounce_unknown'', [JObj [(''emailAddress'', JStr ''Ann@X.io'')]]))"
  "recipient_address (JObj [(''emailAddress'', JStr ''Ann@X.io'')]) = Inr (JStr ''Ann@X.io'')"
  "fst (handle_sns_message (\<lambda>_. []) ''t'' demo_bounce_text None demo_tx) = Inr 1"
  by code_simp+

theorem same_key_answered_from_cache_witness:
  "\<exists>st1. send_transactional demo_prims (demo_tx_world 5) demo_tx_call demo_tx = (TxReply 202 (TxPassed ''tx_h'' (Some ''m1'')), st1)
    \<and> send_transactional demo_prims (demo_tx_world 65) demo_tx_call
        (fold (tx_step demo_prims) [TxSns (\<lambda>_. []) ''t'' [(demo_bounce_text, None)]] st1)
      = (TxReply 202 (TxPassed ''tx_h'' (Some ''m1'')), fold (tx_step demo_prims) [TxSns (\<lambda>_. []) ''t'' [(demo_bounce_text, None)]] st1)"
proof -
  have s: "send_transactional demo_prims (demo_tx_world 5) demo_tx_call demo_tx = (TxReply 202 (TxPassed ''tx_h'' (Some ''m1'')), snd demo_tx_sent)"
    using demo_tx_facts(1) by (metis demo_tx_sent_def prod.collapse)
  have o: "outcome (TxReply 202 (TxPassed ''tx_h'' (Some ''m1''))) = Some (202, TxPassed ''tx_h'' (Some ''m1''))" by (simp add: outcome_def)
  have "send_transactional demo_prims (demo_tx_world 65) demo_tx_call (fold (tx_step demo_prims) [TxSns (\<lambda>_. []) ''t'' [(demo_bounce_text, None)]] (snd demo_tx_sent))
      = (TxReply 202 (TxPassed ''tx_h'' (Some ''m1'')), fold (tx_step demo_prims) [TxSns (\<lambda>_. []) ''t'' [(demo_bounce_text, None)]] (snd demo_tx_sent))"
    by (rule same_key_answered_from_cache [OF s o demo_tx_facts(4,5), THEN conjunct1]) (simp_all add: within_def demo_tx_world_def)
  with s show ?thesis by blast
qed

theorem bounced_address_never_mailed_witness:
  "\<exists>st1 new. handle_sns_message (\<lambda>_. []) ''t'' demo_bounce_text None demo_tx = (Inr 1, st1)
    \<and> tx_sent (fold (tx_step demo_prims) [TxSend (demo_tx_world 5) demo_tx_call] st1) = tx_sent demo_tx @ new
    \<and> list_all (\<lambda>x. lower (ml_to x) \<noteq> lower ''Ann@X.io'') new"
proof -
  obtain st1 where h: "handle_sns_message (\<lambda>_. []) ''t'' demo_bounce_text None demo_tx = (Inr 1, st1)"
    using demo_bounce_facts(4) by (metis prod.collapse)
  from bounced_address_never_mailed [OF demo_bounce_facts(1,2) _ demo_bounce_facts(3) _ h, of demo_prims "[TxSend (demo_tx_world 5) demo_tx_call]"] h
  show ?thesis by auto
qed

end
