(* ===== verification/LocalStore.thy ===== *)
theory LocalStore imports UnitStore begin

text \<open>
  The agent's own store, \<open>sdk/python/src/cq/store.py\<close>, and the SDK's scoring
  (\<open>sdk/python/src/cq/scoring.py\<close>): three tables, of units, of domain tags and of
  the text index, and the operations that keep them together. The \<open>data\<close> column
  holds the unit itself (see \<open>Units\<close>); the lock makes an operation atomic; rows
  read without ORDER BY come in insertion order. The text index is FTS5 of
  SQLite: \<open>fts e\<close> says which rows match the expression \<open>e\<close>, None is an error of the
  query. The lemmas: the SDK scores like the server, the three tables agree under
  every operation, and the store refines a map from ids to units.
\<close>

section \<open>Scoring\<close>

definition sdk_domain_score :: "ku \<Rightarrow> string list \<Rightarrow> rat" where
  "sdk_domain_score u domains =
     (if ku_domains u \<noteq> [] \<or> domains \<noteq> []
      then of_nat (card (set (ku_domains u) \<inter> set domains)) / of_nat (card (set (ku_domains u) \<union> set domains))
      else 0)"

definition sdk_overlap :: "string list option \<Rightarrow> string list \<Rightarrow> rat" where
  "sdk_overlap asked own =
     (case asked of None \<Rightarrow> 0
      | Some q \<Rightarrow> if q \<noteq> [] \<and> list_ex (\<lambda>x. x \<in> set own) q then 1 else 0)"

definition sdk_pattern_score :: "string \<Rightarrow> string \<Rightarrow> rat" where
  "sdk_pattern_score asked own = (if asked \<noteq> [] \<and> own \<noteq> [] \<and> lower asked = lower own then 1 else 0)"

text \<open>The weights are read from \<open>schema/scoring.values.json\<close>.\<close>

definition sdk_relevance :: "ku \<Rightarrow> string list \<Rightarrow> string list option \<Rightarrow> string list option \<Rightarrow> string \<Rightarrow> rat" where
  "sdk_relevance u domains languages frameworks pattern =
     (let score = 55/100 * sdk_domain_score u domains
                + 15/100 * sdk_overlap languages (cx_languages (ku_context u))
                + 15/100 * sdk_overlap frameworks (cx_frameworks (ku_context u))
                + 15/100 * sdk_pattern_score pattern (cx_pattern (ku_context u))
      in min (max score 0) 1)"

definition sdk_apply_confirmation :: "string \<Rightarrow> ku \<Rightarrow> ku" where
  "sdk_apply_confirmation now u =
     (let ev = ku_evidence u
      in u\<lparr>ku_evidence := ev\<lparr>ev_confidence := min (ev_confidence ev + 1/10) 1,
                             ev_confirmations := ev_confirmations ev + 1,
                             ev_last_confirmed := Some now\<rparr>\<rparr>)"

definition sdk_apply_flag :: "string \<Rightarrow> flag_reason \<Rightarrow> string option \<Rightarrow> ku \<Rightarrow> py_exc + ku" where
  "sdk_apply_flag now reason duplicate_of u =
     (let ev = ku_evidence u; confidence = max (ev_confidence ev - 15/100) 0
      in bind_result (make_flag now reason None duplicate_of) (\<lambda>f.
           Inr (u\<lparr>ku_evidence := ev\<lparr>ev_confidence := confidence\<rparr>, ku_flags := ku_flags u @ [f]\<rparr>)))"

section \<open>Tables\<close>

record local_row =
  lr_id :: string
  lr_data :: ku

record fts_row =
  ft_id :: string
  ft_summary :: string
  ft_detail :: string
  ft_action :: string

record local_db =
  ld_units :: "local_row list"
  ld_domains :: "(string \<times> string) list"
  ld_fts :: "fts_row list"
  ld_closed :: bool

definition fts_of :: "ku \<Rightarrow> fts_row" where
  "fts_of u = \<lparr>ft_id = ku_id u, ft_summary = in_summary (ku_insight u), ft_detail = in_detail (ku_insight u),
               ft_action = in_action (ku_insight u)\<rparr>"

definition empty_local :: local_db where
  "empty_local = \<lparr>ld_units = [], ld_domains = [], ld_fts = [], ld_closed = False\<rparr>"

section \<open>Writing\<close>

text \<open>A failing statement undoes the transaction: the operation returns the error
  and no database.\<close>

definition local_insert :: "ku \<Rightarrow> local_db \<Rightarrow> py_exc + local_db" where
  "local_insert u db =
     (let domains = normalize_domains (ku_domains u)
      in if domains = [] then Inl ValueError
         else if ld_closed db then Inl RuntimeErr
         else let u' = u\<lparr>ku_domains := domains\<rparr>
         in bind_result (sql_insert lr_id \<lparr>lr_id = ku_id u', lr_data = u'\<rparr> (ld_units db)) (\<lambda>units.
            bind_result (insert_domains (ku_id u') domains (ld_domains db)) (\<lambda>tags.
              Inr (db\<lparr>ld_units := units, ld_domains := tags, ld_fts := ld_fts db @ [fts_of u']\<rparr>))))"

definition local_get :: "string \<Rightarrow> local_db \<Rightarrow> py_exc + ku option" where
  "local_get i db =
     (if ld_closed db then Inl RuntimeErr
      else Inr (map_option lr_data (sql_fetchone (\<lambda>r. lr_id r = i) (ld_units db))))"

definition local_all :: "local_db \<Rightarrow> py_exc + ku list" where
  "local_all db = (if ld_closed db then Inl RuntimeErr else Inr (map lr_data (ld_units db)))"

text \<open>The domain rows go with the unit by ON DELETE CASCADE.\<close>

definition local_delete :: "string \<Rightarrow> local_db \<Rightarrow> py_exc + local_db" where
  "local_delete i db =
     (if ld_closed db then Inl RuntimeErr
      else if sql_rowcount (\<lambda>r. lr_id r = i) (ld_units db) = 0 then Inl KeyError
      else Inr (db\<lparr>ld_fts := sql_delete (\<lambda>r. ft_id r = i) (ld_fts db),
                   ld_units := sql_delete (\<lambda>r. lr_id r = i) (ld_units db),
                   ld_domains := sql_delete (\<lambda>r. fst r = i) (ld_domains db)\<rparr>))"

definition local_update :: "ku \<Rightarrow> local_db \<Rightarrow> py_exc + local_db" where
  "local_update u db =
     (let domains = normalize_domains (ku_domains u)
      in if domains = [] then Inl ValueError
         else if ld_closed db then Inl RuntimeErr
         else let u' = u\<lparr>ku_domains := domains\<rparr>
         in if sql_rowcount (\<lambda>r. lr_id r = ku_id u') (ld_units db) = 0 then Inl KeyError
         else bind_result (insert_domains (ku_id u') domains (sql_delete (\<lambda>r. fst r = ku_id u') (ld_domains db))) (\<lambda>tags.
           Inr (db\<lparr>ld_units := sql_update (\<lambda>r. lr_id r = ku_id u') (\<lambda>r. r\<lparr>lr_data := u'\<rparr>) (ld_units db),
                   ld_domains := tags,
                   ld_fts := sql_delete (\<lambda>r. ft_id r = ku_id u') (ld_fts db) @ [fts_of u']\<rparr>)))"

definition local_close :: "local_db \<Rightarrow> local_db" where
  "local_close db = db\<lparr>ld_closed := True\<rparr>"

section \<open>Searching\<close>

definition FTS_MAX_TERMS :: nat where "FTS_MAX_TERMS = 20"
definition FTS_MAX_TERM_LENGTH :: nat where "FTS_MAX_TERM_LENGTH = 200"
definition MAX_QUERY_DOMAINS :: nat where "MAX_QUERY_DOMAINS = 50"

definition fts_term :: "string \<Rightarrow> string" where
  "fts_term t = take FTS_MAX_TERM_LENGTH (strip (filter (\<lambda>c. c \<noteq> CHR 34) t))"

fun join_or :: "string list \<Rightarrow> string" where
  "join_or [] = []"
| "join_or [t] = t"
| "join_or (t # s # ts) = t @ '' OR '' @ join_or (s # ts)"

text \<open>The loop stops after the term that fills the list.\<close>

fun fts_terms :: "nat \<Rightarrow> string list \<Rightarrow> string list" where
  "fts_terms n [] = []"
| "fts_terms n (t # ts) =
     (let c = fts_term t; n' = (if c = [] then n else n + 1)
      in (if c = [] then [] else [[CHR 34] @ c @ [CHR 34]]) @ (if FTS_MAX_TERMS \<le> n' then [] else fts_terms n' ts))"

definition build_fts_match_expr :: "string list \<Rightarrow> string" where
  "build_fts_match_expr terms = join_or (fts_terms 0 terms)"

type_synonym fts = "string \<Rightarrow> (fts_row \<Rightarrow> bool) option"

text \<open>The rows of the two statements, then each unit once.\<close>

definition domain_rows :: "string list \<Rightarrow> local_db \<Rightarrow> ku list" where
  "domain_rows ds db = map lr_data (filter (\<lambda>r. \<exists>t \<in> set (ld_domains db). fst t = lr_id r \<and> snd t \<in> set ds) (ld_units db))"

definition fts_rows :: "fts \<Rightarrow> string list \<Rightarrow> local_db \<Rightarrow> ku list" where
  "fts_rows fts ds db =
     (let e = build_fts_match_expr ds
      in if e = [] then []
         else case fts e of None \<Rightarrow> []
         | Some m \<Rightarrow> List.map_filter (\<lambda>f. if m f then map_option lr_data (sql_fetchone (\<lambda>r. lr_id r = ft_id f) (ld_units db))
                                     else None) (ld_fts db))"

fun dedup_units :: "string list \<Rightarrow> ku list \<Rightarrow> ku list" where
  "dedup_units seen [] = []"
| "dedup_units seen (u # us) =
     (if ku_id u \<in> set seen then dedup_units seen us else u # dedup_units (ku_id u # seen) us)"

definition local_score :: "string list \<Rightarrow> string list option \<Rightarrow> string list option \<Rightarrow> string \<Rightarrow> ku \<Rightarrow> rat" where
  "local_score ds languages frameworks pattern u =
     sdk_relevance u ds languages frameworks pattern * ev_confidence (ku_evidence u)"

text \<open>\<open>sort(reverse=True)\<close> keeps the order of equal keys.\<close>

definition local_query :: "fts \<Rightarrow> string list \<Rightarrow> string list option \<Rightarrow> string list option \<Rightarrow> string \<Rightarrow> int \<Rightarrow> local_db
    \<Rightarrow> py_exc + ku list" where
  "local_query fts domains languages frameworks pattern limit db =
     (if limit \<le> 0 then Inl ValueError
      else if domains = [] then Inr []
      else let ds = take MAX_QUERY_DOMAINS (normalize_domains domains)
      in if ds = [] then Inr []
      else if ld_closed db then Inl RuntimeErr
      else let units = dedup_units [] (domain_rows ds db @ fts_rows fts ds db)
      in Inr (take (nat limit) (order_desc (local_score ds languages frameworks pattern) units)))"

section \<open>Statistics\<close>

record store_stats =
  ss_total :: int
  ss_domains :: "(string \<times> int) list"
  ss_recent :: "ku list"
  ss_confidence :: "(string \<times> int) list"
  ss_tiers :: "(string \<times> int) list"

definition local_confidence_bucket :: "rat \<Rightarrow> string" where
  "local_confidence_bucket c =
     (if c < 3/10 then ''0.0-0.3'' else if c < 5/10 then ''0.3-0.5'' else if c < 7/10 then ''0.5-0.7'' else ''0.7-1.0'')"

definition local_confidence_distribution :: "ku list \<Rightarrow> (string \<times> int) list" where
  "local_confidence_distribution us =
     map (\<lambda>l. (l, int (length (filter (\<lambda>u. local_confidence_bucket (ev_confidence (ku_evidence u)) = l) us))))
       [''0.0-0.3'', ''0.3-0.5'', ''0.5-0.7'', ''0.7-1.0'']"

text \<open>\<open>GROUP BY domain ORDER BY cnt DESC\<close>: groups come in the order of the tag.\<close>

definition local_domain_counts :: "(string \<times> string) list \<Rightarrow> (string \<times> int) list" where
  "local_domain_counts tags =
     order_desc snd (map (\<lambda>d. (d, int (length (filter (\<lambda>t. snd t = d) tags)))) (sort (dedup (map snd tags))))"

text \<open>Units without a time of confirmation sort last; the others by its text.\<close>

definition local_stats :: "int \<Rightarrow> local_db \<Rightarrow> py_exc + store_stats" where
  "local_stats recent_limit db =
     (if recent_limit < 0 then Inl ValueError
      else if ld_closed db then Inl RuntimeErr
      else let units = order_desc (\<lambda>u. ev_last_confirmed (ku_evidence u)) (map lr_data (ld_units db))
      in Inr \<lparr>ss_total = int (length (ld_units db)), ss_domains = local_domain_counts (ld_domains db),
              ss_recent = take (nat recent_limit) units, ss_confidence = local_confidence_distribution units, ss_tiers = []\<rparr>)"

section \<open>The SDK scores like the server\<close>

lemma sdk_relevance_server: "sdk_relevance u ds ls fs p = calculate_relevance u ds ls fs p"
proof -
  have "sdk_domain_score u ds = jaccard (ku_domains u) ds"
    by (simp add: sdk_domain_score_def jaccard_def)
  moreover have "sdk_overlap q own = overlap_score q own" for q own
    by (cases q) (auto simp: sdk_overlap_def overlap_score_def)
  moreover have "sdk_pattern_score p (cx_pattern (ku_context u))
      = (if p \<noteq> [] \<and> cx_pattern (ku_context u) \<noteq> [] \<and> lower p = lower (cx_pattern (ku_context u)) then 1 else 0)"
    by (simp add: sdk_pattern_score_def)
  ultimately show ?thesis
    using relevance_bounds [of u ds ls fs p] by (simp add: sdk_relevance_def calculate_relevance_def Let_def)
qed

lemma sdk_confirmation_server: "sdk_apply_confirmation now u = apply_confirmation now u"
  by (simp add: sdk_apply_confirmation_def apply_confirmation_def Let_def CONFIRMATION_BOOST_def CONFIDENCE_CEILING_def)

lemma sdk_flag_server: "sdk_apply_flag now reason None u = apply_flag now reason u"
  by (simp add: sdk_apply_flag_def apply_flag_def Let_def FLAG_PENALTY_def CONFIDENCE_FLOOR_def)

section \<open>The three tables agree\<close>

definition local_map :: "local_db \<Rightarrow> string \<Rightarrow> ku option" where
  "local_map db i = map_option lr_data (sql_fetchone (\<lambda>r. lr_id r = i) (ld_units db))"

definition local_inv :: "local_db \<Rightarrow> bool" where
  "local_inv db \<longleftrightarrow> unique_key lr_id (ld_units db) \<and> (\<forall>r \<in> set (ld_units db). ku_id (lr_data r) = lr_id r)
     \<and> distinct (ld_domains db)
     \<and> (\<forall>i d. (i, d) \<in> set (ld_domains db) \<longleftrightarrow> (\<exists>u. local_map db i = Some u \<and> d \<in> set (ku_domains u)))
     \<and> unique_key ft_id (ld_fts db)
     \<and> (\<forall>f. f \<in> set (ld_fts db) \<longleftrightarrow> (\<exists>u. local_map db (ft_id f) = Some u \<and> f = fts_of u))"

definition normalized :: "ku \<Rightarrow> ku" where
  "normalized u = u\<lparr>ku_domains := normalize_domains (ku_domains u)\<rparr>"

lemma normalized_simps [simp]:
  "ku_id (normalized u) = ku_id u" "ku_domains (normalized u) = normalize_domains (ku_domains u)"
  "ku_insight (normalized u) = ku_insight u" "ku_tier (normalized u) = ku_tier u"
  "ft_id (fts_of u) = ku_id u" "fts_of (normalized u) = fts_of u"
  by (simp_all add: normalized_def fts_of_def)

lemma local_map_id: "local_inv db \<Longrightarrow> local_map db i = Some u \<Longrightarrow> ku_id u = i"
  by (auto simp: local_inv_def local_map_def dest!: sql_fetchone_SomeD)

lemma local_map_row: "local_inv db \<Longrightarrow> r \<in> set (ld_units db) \<Longrightarrow> local_map db (lr_id r) = Some (lr_data r)"
  by (simp add: local_inv_def local_map_def sql_fetchone_key)

lemma local_map_None: "local_map db i = None \<longleftrightarrow> i \<notin> lr_id ` set (ld_units db)"
  by (auto simp: local_map_def table_simps)

lemma local_inv_empty: "local_inv empty_local" "local_map empty_local = Map.empty"
  by (auto simp: local_inv_def local_map_def empty_local_def sql_fetchone_def)

lemma local_insertI:
  assumes "local_inv db" and "\<not> ld_closed db" and "normalize_domains (ku_domains u) \<noteq> []"
  shows "if local_map db (ku_id u) = None
    then \<exists>db'. local_insert u db = Inr db' \<and> local_inv db' \<and> \<not> ld_closed db'
           \<and> ld_units db' = ld_units db @ [\<lparr>lr_id = ku_id u, lr_data = normalized u\<rparr>]
           \<and> local_map db' = (local_map db)(ku_id u \<mapsto> normalized u)
    else local_insert u db = Inl IntegrityError"
proof (cases "local_map db (ku_id u) = None")
  case False
  then have "ku_id u \<in> lr_id ` set (ld_units db)" by (simp add: local_map_None)
  with False assms show ?thesis by (simp add: local_insert_def Let_def sql_insert_def)
next
  case True
  let ?r = "\<lparr>lr_id = ku_id u, lr_data = normalized u\<rparr>"
  let ?db = "db\<lparr>ld_units := ld_units db @ [?r],
                ld_domains := ld_domains db @ map (Pair (ku_id u)) (normalize_domains (ku_domains u)),
                ld_fts := ld_fts db @ [fts_of u]\<rparr>"
  from True have fresh: "ku_id u \<notin> lr_id ` set (ld_units db)" by (simp add: local_map_None)
  have tags: "(ku_id u, d) \<notin> set (ld_domains db)" for d using assms(1) True by (simp add: local_inv_def)
  have ins: "local_insert u db = Inr ?db"
    using assms(2,3) fresh tags by (simp add: local_insert_def Let_def sql_insert_def insert_domains_ok normalized_def fts_of_def)
  have m: "local_map ?db = (local_map db)(ku_id u \<mapsto> normalized u)"
  proof
    fix i show "local_map ?db i = ((local_map db)(ku_id u \<mapsto> normalized u)) i"
      using True by (auto simp: local_map_def sql_fetchone_snoc split: option.split)
  qed
  have "ft_id f \<noteq> ku_id u" if "f \<in> set (ld_fts db)" for f
    using that assms(1) True by (auto simp: local_inv_def)
  then have "local_inv ?db"
    using assms(1) fresh tags True unfolding local_inv_def m
    by (auto simp: unique_key_def distinct_map_Pair)
  with ins m True assms(2) show ?thesis by simp
qed

lemma sql_fetchone_delete:
  "sql_fetchone (\<lambda>r. k r = j) (sql_delete (\<lambda>r. k r = i) t) = (if j = i then None else sql_fetchone (\<lambda>r. k r = j) t)"
  by (induction t) (auto simp: sql_fetchone_def sql_delete_def)

lemma local_rowcount: "sql_rowcount (\<lambda>r. lr_id r = i) (ld_units db) = 0 \<longleftrightarrow> local_map db i = None"
  by (auto simp: local_map_None table_simps)

lemma local_deleteI:
  assumes "local_inv db" and "\<not> ld_closed db"
  shows "if local_map db i = None then local_delete i db = Inl KeyError
    else \<exists>db'. local_delete i db = Inr db' \<and> local_inv db' \<and> \<not> ld_closed db'
           \<and> ld_units db' = sql_delete (\<lambda>r. lr_id r = i) (ld_units db)
           \<and> local_map db' = (local_map db)(i := None)"
proof (cases "local_map db i = None")
  case True
  with assms(2) show ?thesis by (simp add: local_delete_def local_rowcount)
next
  case False
  let ?db = "db\<lparr>ld_fts := sql_delete (\<lambda>r. ft_id r = i) (ld_fts db),
                ld_units := sql_delete (\<lambda>r. lr_id r = i) (ld_units db),
                ld_domains := sql_delete (\<lambda>r. fst r = i) (ld_domains db)\<rparr>"
  have del: "local_delete i db = Inr ?db" using assms(2) False by (simp add: local_delete_def local_rowcount)
  have m: "local_map ?db = (local_map db)(i := None)"
    by (rule ext) (simp add: local_map_def sql_fetchone_delete)
  have "local_inv ?db"
    using assms(1) unfolding local_inv_def m
    by (auto simp: unique_key_sql_delete table_simps)
  with del m False assms(2) show ?thesis by simp
qed

lemma local_updateI:
  assumes "local_inv db" and "\<not> ld_closed db" and "normalize_domains (ku_domains u) \<noteq> []"
  shows "if local_map db (ku_id u) = None then local_update u db = Inl KeyError
    else \<exists>db'. local_update u db = Inr db' \<and> local_inv db' \<and> \<not> ld_closed db'
           \<and> local_map db' = (local_map db)(ku_id u \<mapsto> normalized u)"
proof (cases "local_map db (ku_id u) = None")
  case True
  with assms(2,3) show ?thesis by (simp add: local_update_def Let_def local_rowcount)
next
  case False
  let ?f = "\<lambda>r. r\<lparr>lr_data := normalized u\<rparr>"
  let ?db = "db\<lparr>ld_units := sql_update (\<lambda>r. lr_id r = ku_id u) ?f (ld_units db),
                ld_domains := sql_delete (\<lambda>r. fst r = ku_id u) (ld_domains db) @ map (Pair (ku_id u)) (normalize_domains (ku_domains u)),
                ld_fts := sql_delete (\<lambda>r. ft_id r = ku_id u) (ld_fts db) @ [fts_of u]\<rparr>"
  have upd: "local_update u db = Inr ?db"
    using assms(2,3) False
    by (simp add: local_update_def Let_def local_rowcount insert_domains_ok in_sql_delete normalized_def fts_of_def)
  have m: "local_map ?db = (local_map db)(ku_id u \<mapsto> normalized u)"
  proof
    fix i
    show "local_map ?db i = ((local_map db)(ku_id u \<mapsto> normalized u)) i"
    proof (cases "sql_fetchone (\<lambda>r. lr_id r = i) (ld_units db)")
      case None
      with False show ?thesis by (auto simp: local_map_def sql_fetchone_update)
    next
      case (Some q)
      with sql_fetchone_SomeD [OF this] show ?thesis by (simp add: local_map_def sql_fetchone_update)
    qed
  qed
  have ids: "\<forall>r \<in> set (ld_units ?db). ku_id (lr_data r) = lr_id r"
    using assms(1) by (auto simp: local_inv_def in_sql_update)
  moreover have "unique_key lr_id (ld_units ?db)" using assms(1) by (simp add: local_inv_def unique_key_sql_update)
  moreover have "distinct (ld_domains ?db)"
    using assms(1) by (auto simp: local_inv_def distinct_map_Pair table_simps)
  moreover have "unique_key ft_id (ld_fts ?db)"
    using assms(1) unique_key_sql_delete [of ft_id "ld_fts db" "\<lambda>r. ft_id r = ku_id u"]
    by (auto simp: local_inv_def unique_key_def table_simps)
  moreover have "(i, d) \<in> set (ld_domains ?db) \<longleftrightarrow> (\<exists>v. local_map ?db i = Some v \<and> d \<in> set (ku_domains v))" for i d
    using assms(1) unfolding m by (auto simp: local_inv_def table_simps)
  moreover have "f \<in> set (ld_fts ?db) \<longleftrightarrow> (\<exists>v. local_map ?db (ft_id f) = Some v \<and> f = fts_of v)" for f
    using assms(1) unfolding m by (auto simp: local_inv_def table_simps)
  ultimately have "local_inv ?db" unfolding local_inv_def by blast
  with upd m False assms(2) show ?thesis by simp
qed

end
