(* ===== verification/Client.thy ===== *)
theory Client imports LocalStore JsonLoads begin

text \<open>
  \<open>sdk/python/src/cq/client.py\<close>: the agent's client, which works on its own store,
  on a remote L2, or on both. The remote is a function \<open>send\<close> from a request and
  the state of the other side to an answer and its new state: a failure of the
  transport, or a status code with a body (None when the body is no JSON). The
  parameter \<open>V\<close> is \<open>KnowledgeUnit.model_validate\<close>, pydantic's check of a decoded
  body. Warnings are kept as the ids or the number they are about.
\<close>

section \<open>The remote\<close>

datatype http_answer = Transport | Answer int "json option"

datatype remote_request =
  GetStats
| GetQuery "string list" int "string list option" "string list option" string
| PostPropose "string list" insight unit_context string
| PostConfirm string
| PostFlag string flag_reason

type_synonym 's sender = "remote_request \<Rightarrow> 's \<Rightarrow> http_answer \<times> 's"

datatype client_exc = RemoteError int | TransportError | Raised py_exc | FallbackError ku

definition is_success :: "int \<Rightarrow> bool" where
  "is_success code \<longleftrightarrow> 200 \<le> code \<and> code < 300"

text \<open>\<open>data.get("knowledge_unit", data) if isinstance(data, dict) else data\<close>, validated.\<close>

definition unit_of_body :: "(json \<Rightarrow> ku option) \<Rightarrow> json option \<Rightarrow> ku option" where
  "unit_of_body V body =
     (case body of None \<Rightarrow> None
      | Some (JObj fs) \<Rightarrow> V (case map_of fs ''knowledge_unit'' of None \<Rightarrow> JObj fs | Some v \<Rightarrow> v)
      | Some v \<Rightarrow> V v)"

definition cleared :: "ku \<Rightarrow> ku" where
  "cleared u = u\<lparr>ku_tier := TierPrivate, ku_created_by := [],
     ku_evidence := (ku_evidence u)\<lparr>ev_first_observed := None, ev_last_confirmed := None\<rparr>\<rparr>"

definition remote_propose :: "(json \<Rightarrow> ku option) \<Rightarrow> 's sender \<Rightarrow> ku \<Rightarrow> 's \<Rightarrow> (client_exc + ku) \<times> 's" where
  "remote_propose V send u s =
     (case send (PostPropose (ku_domains u) (ku_insight u) (ku_context u) (ku_created_by u)) s of
        (Transport, s') \<Rightarrow> (Inl TransportError, s')
      | (Answer code body, s') \<Rightarrow>
          if \<not> is_success code then (Inl (RemoteError code), s')
          else (Inr (case unit_of_body V body of None \<Rightarrow> cleared u | Some v \<Rightarrow> v), s'))"

text \<open>Confirming and flagging read their answer alike.\<close>

definition unit_answer :: "(json \<Rightarrow> ku option) \<Rightarrow> http_answer \<Rightarrow> client_exc + ku option" where
  "unit_answer V a =
     (case a of Transport \<Rightarrow> Inr None
      | Answer code body \<Rightarrow>
          if \<not> is_success code then Inl (RemoteError code)
          else case unit_of_body V body of None \<Rightarrow> Inl (RemoteError code) | Some v \<Rightarrow> Inr (Some v))"

definition remote_confirm :: "(json \<Rightarrow> ku option) \<Rightarrow> 's sender \<Rightarrow> string \<Rightarrow> 's \<Rightarrow> (client_exc + ku option) \<times> 's" where
  "remote_confirm V send i s = (case send (PostConfirm i) s of (a, s') \<Rightarrow> (unit_answer V a, s'))"

definition remote_flag :: "(json \<Rightarrow> ku option) \<Rightarrow> 's sender \<Rightarrow> string \<Rightarrow> flag_reason \<Rightarrow> 's \<Rightarrow> (client_exc + ku option) \<times> 's" where
  "remote_flag V send i reason s = (case send (PostFlag i reason) s of (a, s') \<Rightarrow> (unit_answer V a, s'))"

text \<open>The units of a query's answer; None stands for the exceptions \<open>query\<close> catches.
  Iterating a non-empty object or string yields strings, which are no units.\<close>

fun validate_all :: "(json \<Rightarrow> ku option) \<Rightarrow> json list \<Rightarrow> ku list option" where
  "validate_all V [] = Some []"
| "validate_all V (v # vs) =
     (case V v of None \<Rightarrow> None | Some u \<Rightarrow> map_option ((#) u) (validate_all V vs))"

definition items_of :: "(json \<Rightarrow> ku option) \<Rightarrow> json \<Rightarrow> ku list option" where
  "items_of V v =
     (case v of JArr vs \<Rightarrow> validate_all V vs
      | JObj fs \<Rightarrow> if fs = [] then Some [] else None
      | JStr t \<Rightarrow> if t = [] then Some [] else None
      | _ \<Rightarrow> None)"

definition query_payload :: "(json \<Rightarrow> ku option) \<Rightarrow> json \<Rightarrow> ku list option" where
  "query_payload V payload =
     (case payload of
        JObj fs \<Rightarrow> (case map_of fs ''data'' of
            None \<Rightarrow> items_of V payload
          | Some JNull \<Rightarrow> Some []
          | Some v \<Rightarrow> items_of V v)
      | _ \<Rightarrow> items_of V payload)"

definition nonempty :: "'a list option \<Rightarrow> 'a list option" where
  "nonempty x = (case x of Some (y # ys) \<Rightarrow> Some (y # ys) | _ \<Rightarrow> None)"

definition remote_query :: "(json \<Rightarrow> ku option) \<Rightarrow> 's sender \<Rightarrow> string list \<Rightarrow> string list option \<Rightarrow> string list option
    \<Rightarrow> string \<Rightarrow> int \<Rightarrow> 's \<Rightarrow> ku list option \<times> 's" where
  "remote_query V send domains languages frameworks pattern limit s =
     (case send (GetQuery domains limit (nonempty languages) (nonempty frameworks) pattern) s of
        (Answer code (Some payload), s') \<Rightarrow> (if is_success code then query_payload V payload else None, s')
      | (_, s') \<Rightarrow> (None, s'))"

definition remote_stats :: "'s sender \<Rightarrow> 's \<Rightarrow> (py_exc + json option) \<times> 's" where
  "remote_stats send s =
     (case send GetStats s of
        (Transport, s') \<Rightarrow> (Inr None, s')
      | (Answer code body, s') \<Rightarrow>
          if \<not> is_success code then (Inr None, s')
          else case body of None \<Rightarrow> (Inl ValueError, s') | Some v \<Rightarrow> (Inr (Some v), s'))"

section \<open>The client\<close>

text \<open>\<open>cl_http\<close>: an address is configured.\<close>

record client =
  cl_http :: bool
  cl_db :: local_db

record query_result =
  qr_source :: string
  qr_units :: "ku list"
  qr_warnings :: nat

definition merge_results :: "ku list \<Rightarrow> ku list \<Rightarrow> int \<Rightarrow> ku list" where
  "merge_results own remote limit = take (nat limit) (dedup_units [] (own @ remote))"

definition client_query :: "fts \<Rightarrow> (json \<Rightarrow> ku option) \<Rightarrow> 's sender \<Rightarrow> string list \<Rightarrow> string list option
    \<Rightarrow> string list option \<Rightarrow> string \<Rightarrow> int \<Rightarrow> client \<Rightarrow> 's \<Rightarrow> (client_exc + query_result) \<times> 's" where
  "client_query fts V send domains languages frameworks pattern limit cl s =
     (case local_query fts domains languages frameworks pattern limit (cl_db cl) of
        Inl e \<Rightarrow> (Inl (Raised e), s)
      | Inr own \<Rightarrow>
          if \<not> cl_http cl then (Inr \<lparr>qr_source = ''local'', qr_units = own, qr_warnings = 0\<rparr>, s)
          else case remote_query V send domains languages frameworks pattern limit s of
             (None, s') \<Rightarrow> (Inr \<lparr>qr_source = ''local'', qr_units = merge_results own [] limit, qr_warnings = 1\<rparr>, s')
           | (Some remote, s') \<Rightarrow>
               (Inr \<lparr>qr_source = ''remote'', qr_units = merge_results own remote limit, qr_warnings = 0\<rparr>, s'))"

section \<open>Proposing\<close>

text \<open>A rejection that is the data's fault is passed on; the others fall back.\<close>

definition falls_back :: "client_exc \<Rightarrow> bool" where
  "falls_back e =
     (case e of RemoteError c \<Rightarrow> c \<in> {401, 403} \<or> 500 \<le> c \<and> c < 600 | _ \<Rightarrow> True)"

definition store_fallback :: "bool \<Rightarrow> ku \<Rightarrow> client \<Rightarrow> (client_exc + ku) \<times> client" where
  "store_fallback failed u cl =
     (case local_insert u (cl_db cl) of
        Inl e \<Rightarrow> (Inl (Raised (if failed then RuntimeErr else e)), cl)
      | Inr db \<Rightarrow> (if failed then Inl (FallbackError u) else Inr u, cl\<lparr>cl_db := db\<rparr>))"

definition client_propose :: "(json \<Rightarrow> ku option) \<Rightarrow> 's sender \<Rightarrow> string \<Rightarrow> string \<Rightarrow> insight \<Rightarrow> string list
    \<Rightarrow> string list option \<Rightarrow> string list option \<Rightarrow> string \<Rightarrow> string \<Rightarrow> client \<Rightarrow> 's
    \<Rightarrow> (client_exc + ku) \<times> client \<times> 's" where
  "client_propose V send now hexid i domains languages frameworks pattern created_by cl s =
     (let cx = \<lparr>cx_languages = (case languages of None \<Rightarrow> [] | Some l \<Rightarrow> l),
                cx_frameworks = (case frameworks of None \<Rightarrow> [] | Some l \<Rightarrow> l), cx_pattern = pattern\<rparr>
      in case create_knowledge_unit now hexid domains i cx TierLocal created_by of
           Inl e \<Rightarrow> (Inl (Raised e), cl, s)
         | Inr u \<Rightarrow>
             if cl_http cl
             then case remote_propose V send u s of
                    (Inr v, s') \<Rightarrow> (Inr v, cl, s')
                  | (Inl e, s') \<Rightarrow>
                      if falls_back e then (case store_fallback True u cl of (r, cl') \<Rightarrow> (r, cl', s'))
                      else (Inl e, cl, s')
             else (case store_fallback False u cl of (r, cl') \<Rightarrow> (r, cl', s)))"

section \<open>Confirming and flagging\<close>

text \<open>Changing the own copy of a unit, then telling the remote, whose rejection is
  ignored.\<close>

definition client_confirm :: "(json \<Rightarrow> ku option) \<Rightarrow> 's sender \<Rightarrow> string \<Rightarrow> string \<Rightarrow> tier \<Rightarrow> client \<Rightarrow> 's
    \<Rightarrow> (client_exc + ku) \<times> client \<times> 's" where
  "client_confirm V send now i tier cl s =
     (if tier = TierLocal
      then case local_get i (cl_db cl) of
             Inl e \<Rightarrow> (Inl (Raised e), cl, s)
           | Inr None \<Rightarrow> (Inl (Raised KeyError), cl, s)
           | Inr (Some u) \<Rightarrow>
               let confirmed = sdk_apply_confirmation now u
               in (case local_update confirmed (cl_db cl) of
                     Inl e \<Rightarrow> (Inl (Raised e), cl, s)
                   | Inr db \<Rightarrow> (Inr confirmed, cl\<lparr>cl_db := db\<rparr>,
                       if cl_http cl then snd (remote_confirm V send i s) else s))
      else if \<not> cl_http cl then (Inl (Raised RuntimeErr), cl, s)
      else case remote_confirm V send i s of
             (Inl e, s') \<Rightarrow> (Inl e, cl, s')
           | (Inr (Some v), s') \<Rightarrow> (Inr v, cl, s')
           | (Inr None, s') \<Rightarrow> (Inl (Raised KeyError), cl, s'))"

definition client_flag :: "(json \<Rightarrow> ku option) \<Rightarrow> 's sender \<Rightarrow> string \<Rightarrow> string \<Rightarrow> flag_reason \<Rightarrow> tier \<Rightarrow> client \<Rightarrow> 's
    \<Rightarrow> (client_exc + ku) \<times> client \<times> 's" where
  "client_flag V send now i reason tier cl s =
     (if tier = TierLocal
      then case local_get i (cl_db cl) of
             Inl e \<Rightarrow> (Inl (Raised e), cl, s)
           | Inr None \<Rightarrow> (Inl (Raised KeyError), cl, s)
           | Inr (Some u) \<Rightarrow>
              (case sdk_apply_flag now reason None u of
                 Inl e \<Rightarrow> (Inl (Raised e), cl, s)
               | Inr flagged \<Rightarrow>
                  (case local_update flagged (cl_db cl) of
                     Inl e \<Rightarrow> (Inl (Raised e), cl, s)
                   | Inr db \<Rightarrow> (Inr flagged, cl\<lparr>cl_db := db\<rparr>,
                       if cl_http cl then snd (remote_flag V send i reason s) else s)))
      else if \<not> cl_http cl then (Inl (Raised RuntimeErr), cl, s)
      else case remote_flag V send i reason s of
             (Inl e, s') \<Rightarrow> (Inl e, cl, s')
           | (Inr (Some v), s') \<Rightarrow> (Inr v, cl, s')
           | (Inr None, s') \<Rightarrow> (Inl (Raised KeyError), cl, s'))"

section \<open>Draining\<close>

fun drain_units :: "(json \<Rightarrow> ku option) \<Rightarrow> 's sender \<Rightarrow> ku list \<Rightarrow> local_db \<Rightarrow> 's
    \<Rightarrow> (py_exc + nat \<times> string list) \<times> local_db \<times> 's" where
  "drain_units V send [] db s = (Inr (0, []), db, s)"
| "drain_units V send (u # us) db s =
     (if ku_tier u \<noteq> TierLocal then drain_units V send us db s
      else case remote_propose V send u s of
        (Inl _, s') \<Rightarrow>
          (case drain_units V send us db s' of
             (Inr (pushed, warnings), rest) \<Rightarrow> (Inr (pushed, ku_id u # warnings), rest)
           | (Inl e, rest) \<Rightarrow> (Inl e, rest))
      | (Inr _, s') \<Rightarrow>
          (case local_delete (ku_id u) db of
             Inl e \<Rightarrow> (Inl e, db, s')
           | Inr db' \<Rightarrow>
              (case drain_units V send us db' s' of
                 (Inr (pushed, warnings), rest) \<Rightarrow> (Inr (pushed + 1, warnings), rest)
               | (Inl e, rest) \<Rightarrow> (Inl e, rest))))"

definition client_drain :: "(json \<Rightarrow> ku option) \<Rightarrow> 's sender \<Rightarrow> client \<Rightarrow> 's
    \<Rightarrow> (client_exc + nat \<times> string list) \<times> client \<times> 's" where
  "client_drain V send cl s =
     (if \<not> cl_http cl then (Inl (Raised RuntimeErr), cl, s)
      else case local_all (cl_db cl) of
             Inl e \<Rightarrow> (Inl (Raised e), cl, s)
           | Inr units \<Rightarrow>
              (case drain_units V send units (cl_db cl) s of
                 (Inl e, db, s') \<Rightarrow> (Inl (Raised e), cl\<lparr>cl_db := db\<rparr>, s')
               | (Inr r, db, s') \<Rightarrow> (Inr r, cl\<lparr>cl_db := db\<rparr>, s')))"

section \<open>Status\<close>

text \<open>A count that is no number raises TypeError when it is added.\<close>

definition count_of :: "json \<Rightarrow> int option" where
  "count_of v = (case v of JInt n \<Rightarrow> Some n | JBool b \<Rightarrow> Some (of_bool b) | _ \<Rightarrow> None)"

fun add_tiers :: "(string \<times> json) list \<Rightarrow> store_stats \<Rightarrow> py_exc + store_stats" where
  "add_tiers [] st = Inr st"
| "add_tiers ((t, v) # vs) st =
     (if t = ''local'' then add_tiers vs st
      else case count_of v of None \<Rightarrow> Inl TypeErr
      | Some n \<Rightarrow> add_tiers vs (st\<lparr>ss_tiers := dict_set t n (ss_tiers st), ss_total := ss_total st + n\<rparr>))"

fun add_domains :: "(string \<times> json) list \<Rightarrow> store_stats \<Rightarrow> py_exc + store_stats" where
  "add_domains [] st = Inr st"
| "add_domains ((d, v) # vs) st =
     (case count_of v of None \<Rightarrow> Inl TypeErr
      | Some n \<Rightarrow> add_domains vs (st\<lparr>ss_domains := dict_set d ((case map_of (ss_domains st) d of None \<Rightarrow> 0 | Some m \<Rightarrow> m) + n)
                                        (ss_domains st)\<rparr>))"

text \<open>\<open>remote.get(key, {}).items()\<close>.\<close>

definition stats_entries :: "string \<Rightarrow> json \<Rightarrow> py_exc + (string \<times> json) list" where
  "stats_entries k v =
     (case v of
        JObj fs \<Rightarrow> (case map_of fs k of None \<Rightarrow> Inr [] | Some (JObj es) \<Rightarrow> Inr es | Some _ \<Rightarrow> Inl AttributeError)
      | _ \<Rightarrow> Inl AttributeError)"

definition client_status :: "'s sender \<Rightarrow> client \<Rightarrow> 's \<Rightarrow> (py_exc + store_stats) \<times> 's" where
  "client_status send cl s =
     (case local_stats 5 (cl_db cl) of
        Inl e \<Rightarrow> (Inl e, s)
      | Inr st0 \<Rightarrow>
          let st = st0\<lparr>ss_tiers := [(''local'', ss_total st0)]\<rparr>
          in if \<not> cl_http cl then (Inr st, s)
             else case remote_stats send s of
               (Inl e, s') \<Rightarrow> (Inl e, s')
             | (Inr None, s') \<Rightarrow> (Inr st, s')
             | (Inr (Some v), s') \<Rightarrow>
                 (bind_result (stats_entries ''tiers'' v) (\<lambda>ts.
                  bind_result (add_tiers ts st) (\<lambda>st1.
                  bind_result (stats_entries ''domains'' v) (\<lambda>ds. add_domains ds st1))), s'))"

definition client_close :: "client \<Rightarrow> client" where
  "client_close cl = cl\<lparr>cl_db := local_close (cl_db cl)\<rparr>"

end
