(* ===== verification/ClientProps.thy ===== *)
theory ClientProps imports Client UnitReads begin

text \<open>
  What the agent's side promises: its store is a map from ids to units with an
  index that agrees with it; a search returns the best candidates; a drain posts
  every unit of the store once and forgets exactly those the remote accepted.
  The last sections run the client against the endpoints of an L2.
\<close>

section \<open>The store refines a map\<close>

datatype local_op = LInsert ku | LUpdate ku | LDelete string | LGet string | LClose

datatype local_result = LDone | LFailed py_exc | LFound "ku option"

definition local_done :: "py_exc + local_db \<Rightarrow> local_db \<Rightarrow> local_result \<times> local_db" where
  "local_done r db = (case r of Inl e \<Rightarrow> (LFailed e, db) | Inr db' \<Rightarrow> (LDone, db'))"

fun local_step :: "local_op \<Rightarrow> local_db \<Rightarrow> local_result \<times> local_db" where
  "local_step (LInsert u) db = local_done (local_insert u db) db"
| "local_step (LUpdate u) db = local_done (local_update u db) db"
| "local_step (LDelete i) db = local_done (local_delete i db) db"
| "local_step (LGet i) db = (case local_get i db of Inl e \<Rightarrow> LFailed e | Inr r \<Rightarrow> LFound r, db)"
| "local_step LClose db = (LDone, local_close db)"

text \<open>The specification: a map and whether it is closed.\<close>

fun spec_step :: "local_op \<Rightarrow> (string \<Rightarrow> ku option) \<times> bool \<Rightarrow> local_result \<times> (string \<Rightarrow> ku option) \<times> bool" where
  "spec_step (LInsert u) (m, cl) =
     (if normalize_domains (ku_domains u) = [] then (LFailed ValueError, m, cl)
      else if cl then (LFailed RuntimeErr, m, cl)
      else if m (ku_id u) \<noteq> None then (LFailed IntegrityError, m, cl)
      else (LDone, m(ku_id u \<mapsto> normalized u), cl))"
| "spec_step (LUpdate u) (m, cl) =
     (if normalize_domains (ku_domains u) = [] then (LFailed ValueError, m, cl)
      else if cl then (LFailed RuntimeErr, m, cl)
      else if m (ku_id u) = None then (LFailed KeyError, m, cl)
      else (LDone, m(ku_id u \<mapsto> normalized u), cl))"
| "spec_step (LDelete i) (m, cl) =
     (if cl then (LFailed RuntimeErr, m, cl)
      else if m i = None then (LFailed KeyError, m, cl)
      else (LDone, m(i := None), cl))"
| "spec_step (LGet i) (m, cl) = (if cl then LFailed RuntimeErr else LFound (m i), m, cl)"
| "spec_step LClose (m, cl) = (LDone, m, True)"

fun run_ops :: "('op \<Rightarrow> 's \<Rightarrow> 'r \<times> 's) \<Rightarrow> 'op list \<Rightarrow> 's \<Rightarrow> 'r list \<times> 's" where
  "run_ops step [] s = ([], s)"
| "run_ops step (x # xs) s = (case step x s of (r, s1) \<Rightarrow> case run_ops step xs s1 of (rs, s2) \<Rightarrow> (r # rs, s2))"

definition local_abs :: "local_db \<Rightarrow> (string \<Rightarrow> ku option) \<times> bool" where
  "local_abs db = (local_map db, ld_closed db)"

lemma local_step_refines:
  assumes "local_inv db" and "local_step x db = (r, db')"
  shows "local_inv db' \<and> spec_step x (local_abs db) = (r, local_abs db')"
proof (cases x)
  case (LInsert u)
  show ?thesis
  proof (cases "normalize_domains (ku_domains u) = [] \<or> ld_closed db")
    case True
    with assms LInsert show ?thesis by (auto simp: local_abs_def local_done_def local_insert_def Let_def)
  next
    case False
    then have d: "\<not> ld_closed db" "normalize_domains (ku_domains u) \<noteq> []" by simp_all
    from local_insertI [OF assms(1) d] assms LInsert d show ?thesis
      by (auto simp: local_abs_def local_done_def split: if_splits)
  qed
next
  case (LUpdate u)
  show ?thesis
  proof (cases "normalize_domains (ku_domains u) = [] \<or> ld_closed db")
    case True
    with assms LUpdate show ?thesis by (auto simp: local_abs_def local_done_def local_update_def Let_def)
  next
    case False
    then have d: "\<not> ld_closed db" "normalize_domains (ku_domains u) \<noteq> []" by simp_all
    from local_updateI [OF assms(1) d] assms LUpdate d show ?thesis
      by (auto simp: local_abs_def local_done_def split: if_splits)
  qed
next
  case (LDelete i)
  show ?thesis
  proof (cases "ld_closed db")
    case True
    with assms LDelete show ?thesis by (auto simp: local_abs_def local_done_def local_delete_def)
  next
    case False
    from local_deleteI [OF assms(1) False, of i] assms LDelete False show ?thesis
      by (auto simp: local_abs_def local_done_def split: if_splits)
  qed
next
  case (LGet i)
  with assms show ?thesis by (auto simp: local_abs_def local_get_def local_map_def)
next
  case LClose
  with assms have "local_map db' = local_map db" "local_inv db'"
    by (auto simp: local_close_def local_inv_def local_map_def fun_eq_iff)
  with assms LClose show ?thesis by (auto simp: local_abs_def local_close_def)
qed

lemma run_ops_refines:
  "local_inv db \<Longrightarrow> run_ops local_step ops db = (rs, db') \<Longrightarrow>
   local_inv db' \<and> run_ops spec_step ops (local_abs db) = (rs, local_abs db')"
proof (induction ops arbitrary: db rs)
  case (Cons x ops)
  obtain r db1 rs' where x: "local_step x db = (r, db1)" and "run_ops local_step ops db1 = (rs', db')" "rs = r # rs'"
    using Cons.prems(2) by (auto split: prod.splits)
  with local_step_refines [OF Cons.prems(1) x] Cons.IH [of db1 rs'] show ?case by simp
qed simp

text \<open>C17. The agent's store is a map. Whatever is inserted, updated, deleted, read
  and closed, in any order, its answers and errors are those of a map from ids
  to units with normalised domains; and the domain and text indexes hold the
  tags and the text of the units in the map, each once.\<close>

theorem local_store_refines_map:
  "case run_ops local_step ops empty_local of (results, db) \<Rightarrow>
     run_ops spec_step ops (Map.empty, False) = (results, local_abs db) \<and> local_inv db"
proof -
  have "local_abs empty_local = (Map.empty, False)"
    using local_inv_empty by (simp add: local_abs_def empty_local_def)
  with run_ops_refines [OF local_inv_empty(1), of ops] show ?thesis by (auto split: prod.split)
qed

section \<open>Searching\<close>

text \<open>What the two statements find: units with one of the tags, or whose text
  matches the expression made of them.\<close>

definition candidate :: "fts \<Rightarrow> string list \<Rightarrow> local_db \<Rightarrow> ku \<Rightarrow> bool" where
  "candidate fts ds db u \<longleftrightarrow> local_map db (ku_id u) = Some u \<and>
     (set ds \<inter> set (ku_domains u) \<noteq> {}
      \<or> build_fts_match_expr ds \<noteq> [] \<and> (case fts (build_fts_match_expr ds) of None \<Rightarrow> False | Some m \<Rightarrow> m (fts_of u)))"

lemma set_dedup_units:
  "set (dedup_units seen us) \<subseteq> {u \<in> set us. ku_id u \<notin> set seen}
   \<and> distinct (map ku_id (dedup_units seen us))
   \<and> ku_id ` set (dedup_units seen us) = ku_id ` set us - set seen"
proof (induction us arbitrary: seen)
  case (Cons u us)
  from Cons.IH [of seen] Cons.IH [of "ku_id u # seen"] show ?case by auto
qed simp

lemma dedup_units_all:
  assumes "\<And>u v. u \<in> set us \<Longrightarrow> v \<in> set us \<Longrightarrow> ku_id u = ku_id v \<Longrightarrow> u = v"
  shows "set (dedup_units [] us) = set us"
proof
  show "set (dedup_units [] us) \<subseteq> set us" using set_dedup_units [of "[]" us] by auto
  show "set us \<subseteq> set (dedup_units [] us)"
  proof
    fix u assume u: "u \<in> set us"
    then have "ku_id u \<in> ku_id ` set (dedup_units [] us)" using set_dedup_units [of "[]" us] by auto
    then obtain v where v: "v \<in> set (dedup_units [] us)" "ku_id v = ku_id u" by auto
    then have "v \<in> set us" using set_dedup_units [of "[]" us] by auto
    with assms [OF this u v(2)] v(1) show "u \<in> set (dedup_units [] us)" by simp
  qed
qed

lemma unit_in_map:
  assumes "local_inv db"
  shows "(\<exists>r \<in> set (ld_units db). lr_data r = u) \<longleftrightarrow> local_map db (ku_id u) = Some u"
proof
  assume "\<exists>r \<in> set (ld_units db). lr_data r = u"
  then obtain r where r: "r \<in> set (ld_units db)" "lr_data r = u" by blast
  then have "ku_id u = lr_id r" using assms by (auto simp: local_inv_def)
  with local_map_row [OF assms r(1)] r(2) show "local_map db (ku_id u) = Some u" by simp
next
  assume "local_map db (ku_id u) = Some u"
  then show "\<exists>r \<in> set (ld_units db). lr_data r = u" by (auto simp: local_map_def dest: sql_fetchone_SomeD)
qed

lemma set_domain_rows:
  assumes "local_inv db"
  shows "set (domain_rows ds db) = {u. local_map db (ku_id u) = Some u \<and> set ds \<inter> set (ku_domains u) \<noteq> {}}"
proof -
  have tag: "(\<exists>t \<in> set (ld_domains db). fst t = lr_id r \<and> snd t \<in> set ds) \<longleftrightarrow> set ds \<inter> set (ku_domains (lr_data r)) \<noteq> {}"
    if "r \<in> set (ld_units db)" for r
  proof -
    have "(lr_id r, d) \<in> set (ld_domains db) \<longleftrightarrow> d \<in> set (ku_domains (lr_data r))" for d
      using assms local_map_row [OF assms that] by (simp add: local_inv_def)
    then show ?thesis by force
  qed
  have "set (domain_rows ds db) = lr_data ` {r \<in> set (ld_units db). set ds \<inter> set (ku_domains (lr_data r)) \<noteq> {}}"
    unfolding domain_rows_def set_map set_filter using tag by (intro image_cong Collect_cong) auto
  also have "\<dots> = {u. (\<exists>r \<in> set (ld_units db). lr_data r = u) \<and> set ds \<inter> set (ku_domains u) \<noteq> {}}" by blast
  finally show ?thesis by (simp add: unit_in_map [OF assms])
qed

lemma set_fts_rows:
  assumes "local_inv db"
  shows "set (fts_rows fts ds db) = {u. local_map db (ku_id u) = Some u \<and> build_fts_match_expr ds \<noteq> []
    \<and> (case fts (build_fts_match_expr ds) of None \<Rightarrow> False | Some m \<Rightarrow> m (fts_of u))}"
proof -
  have fts: "f \<in> set (ld_fts db) \<longleftrightarrow> (\<exists>v. local_map db (ft_id f) = Some v \<and> f = fts_of v)" for f
    using assms unfolding local_inv_def by blast
  have "u \<in> set (List.map_filter (\<lambda>f. if m f then local_map db (ft_id f) else None) (ld_fts db))
    \<longleftrightarrow> local_map db (ku_id u) = Some u \<and> m (fts_of u)" for m u
  proof
    assume "u \<in> set (List.map_filter (\<lambda>f. if m f then local_map db (ft_id f) else None) (ld_fts db))"
    then obtain f where f: "f \<in> set (ld_fts db)" "m f" "local_map db (ft_id f) = Some u"
      by (auto simp: List.map_filter_def split: if_splits)
    from f(1) obtain v where v: "local_map db (ft_id f) = Some v" "f = fts_of v" using fts by blast
    from v(1) f(3) have "v = u" by simp
    with v(2) f(2) have "m (fts_of u)" by (simp only:)
    moreover from f(3) have "local_map db (ku_id u) = Some u" unfolding local_map_id [OF assms f(3)] .
    ultimately show "local_map db (ku_id u) = Some u \<and> m (fts_of u)" by (rule conjI [rotated])
  next
    assume u: "local_map db (ku_id u) = Some u \<and> m (fts_of u)"
    then have "fts_of u \<in> set (ld_fts db)" using fts [of "fts_of u"] by simp
    with u show "u \<in> set (List.map_filter (\<lambda>f. if m f then local_map db (ft_id f) else None) (ld_fts db))"
      by (force simp: List.map_filter_def)
  qed
  then have sets: "set (List.map_filter (\<lambda>f. if m f then local_map db (ft_id f) else None) (ld_fts db))
    = {u. local_map db (ku_id u) = Some u \<and> m (fts_of u)}" for m by blast
  have eq: "fts_rows fts ds db = (if build_fts_match_expr ds = [] then []
      else case fts (build_fts_match_expr ds) of None \<Rightarrow> []
      | Some m \<Rightarrow> List.map_filter (\<lambda>f. if m f then local_map db (ft_id f) else None) (ld_fts db))"
    unfolding fts_rows_def Let_def local_map_def by (rule refl)
  show ?thesis
  proof (cases "build_fts_match_expr ds = [] \<or> fts (build_fts_match_expr ds) = None")
    case True
    then show ?thesis unfolding eq by auto
  next
    case False
    then obtain m where m: "fts (build_fts_match_expr ds) = Some m" by blast
    with False have "fts_rows fts ds db = List.map_filter (\<lambda>f. if m f then local_map db (ft_id f) else None) (ld_fts db)"
      unfolding eq by simp
    then have "set (fts_rows fts ds db) = {u. local_map db (ku_id u) = Some u \<and> m (fts_of u)}" by (simp only: sets)
    with False m show ?thesis by simp
  qed
qed

text \<open>
  A search of the agent's store, after any sequence of operations, returns each
  unit at most once and only candidates, at most as many as asked for, best
  first; and when a candidate is missing, the limit is reached and no returned
  unit scores less.\<close>

theorem local_query_best:
  assumes "local_query fts domains ls fs p n (snd (run_ops local_step ops empty_local)) = Inr found"
  shows "let db = snd (run_ops local_step ops empty_local); ds = take MAX_QUERY_DOMAINS (normalize_domains domains);
             score = local_score ds ls fs p
    in distinct (map ku_id found) \<and> set found \<subseteq> {u. candidate fts ds db u} \<and> length found \<le> nat n
      \<and> sorted_wrt (\<ge>) (map score found)
      \<and> (candidate fts ds db u \<and> ds \<noteq> [] \<longrightarrow> u \<in> set found
         \<or> length found = nat n \<and> list_all (\<lambda>v. score u \<le> score v) found)"
proof -
  let ?db = "snd (run_ops local_step ops empty_local)" and ?ds = "take MAX_QUERY_DOMAINS (normalize_domains domains)"
  let ?score = "local_score ?ds ls fs p" and ?us = "dedup_units [] (domain_rows ?ds ?db @ fts_rows fts ?ds ?db)"
  have inv: "local_inv ?db"
    using run_ops_refines [OF local_inv_empty(1), of ops] by (metis prod.collapse)
  have "?ds = [] \<and> found = [] \<or> found = take (nat n) (order_desc ?score ?us)"
    using assms by (auto simp: local_query_def Let_def normalize_domains_def MAX_QUERY_DOMAINS_def split: if_splits)
  then show ?thesis
  proof
    assume "?ds = [] \<and> found = []"
    then show ?thesis by (simp add: Let_def)
  next
    assume found: "found = take (nat n) (order_desc ?score ?us)"
    have cands: "set ?us = {u. candidate fts ?ds ?db u}"
    proof -
      have mem: "local_map ?db (ku_id u) = Some u" if "u \<in> set (domain_rows ?ds ?db @ fts_rows fts ?ds ?db)" for u
        using that unfolding set_append set_domain_rows [OF inv] set_fts_rows [OF inv] by blast
      have "set ?us = set (domain_rows ?ds ?db @ fts_rows fts ?ds ?db)"
        by (rule dedup_units_all) (metis mem option.inject)
      then show ?thesis by (simp add: set_domain_rows [OF inv] set_fts_rows [OF inv] candidate_def set_eq_iff) blast
    qed
    have "mset (map ku_id (order_desc ?score ?us)) = mset (map ku_id ?us)" by simp
    then have "distinct (map ku_id (order_desc ?score ?us))"
      by (rule mset_eq_imp_distinct_iff [THEN iffD2]) (use set_dedup_units in blast)
    then have dist: "distinct (map ku_id found)" unfolding found by (simp only: take_map [symmetric] distinct_take)
    have sub: "set found \<subseteq> {u. candidate fts ?ds ?db u}"
      unfolding found using cands set_take_subset [of "nat n" "order_desc ?score ?us"] by simp
    have srt: "sorted_wrt (\<lambda>a b. ?score b \<le> ?score a) (order_desc ?score ?us)" by (rule order_desc_ge)
    have "u \<in> set found \<or> length found = nat n \<and> list_all (\<lambda>v. ?score u \<le> ?score v) found" if "candidate fts ?ds ?db u"
      using that take_best [OF srt, of u "nat n"] cands unfolding found list_all_iff by simp
    moreover have "sorted_wrt (\<ge>) (map ?score found)"
      unfolding found sorted_wrt_map by (rule sorted_wrt_take) (rule srt)
    moreover have "length found \<le> nat n" unfolding found by simp
    ultimately show ?thesis unfolding Let_def using dist sub by blast
  qed
qed

section \<open>Draining\<close>

definition accepts :: "http_answer \<Rightarrow> bool" where
  "accepts a = (case a of Transport \<Rightarrow> False | Answer c _ \<Rightarrow> is_success c)"

text \<open>The remote's answers when the units are posted to it once each, in order.\<close>

fun post_all :: "'s sender \<Rightarrow> ku list \<Rightarrow> 's \<Rightarrow> bool list \<times> 's" where
  "post_all send [] s = ([], s)"
| "post_all send (u # us) s =
     (case send (PostPropose (ku_domains u) (ku_insight u) (ku_context u) (ku_created_by u)) s of
        (a, s1) \<Rightarrow> case post_all send us s1 of (bs, s2) \<Rightarrow> (accepts a # bs, s2))"

definition taken :: "ku list \<Rightarrow> bool list \<Rightarrow> string list" where
  "taken us bs = map (\<lambda>p. ku_id (fst p)) (filter snd (zip us bs))"

definition refused :: "ku list \<Rightarrow> bool list \<Rightarrow> string list" where
  "refused us bs = map (\<lambda>p. ku_id (fst p)) (filter (\<lambda>p. \<not> snd p) (zip us bs))"

definition own_units :: "ku list \<Rightarrow> ku list" where
  "own_units us = filter (\<lambda>u. ku_tier u = TierLocal) us"

lemma remote_propose_accepts:
  "send (PostPropose (ku_domains u) (ku_insight u) (ku_context u) (ku_created_by u)) s = (a, s1) \<Longrightarrow>
   (if accepts a then \<exists>v. remote_propose V send u s = (Inr v, s1) else \<exists>e. remote_propose V send u s = (Inl e, s1))"
  by (cases a) (auto simp: remote_propose_def accepts_def)

lemma taken_Cons: "taken (u # us) (b # bs) = (if b then [ku_id u] else []) @ taken us bs"
  "refused (u # us) (b # bs) = (if b then [] else [ku_id u]) @ refused us bs"
  "taken [] bs = []" "refused [] bs = []"
  by (simp_all add: taken_def refused_def)

lemma length_taken: "length bs = length us \<Longrightarrow> length (taken us bs) = length (filter id bs)"
  by (induction bs us rule: list_induct2) (simp_all add: taken_Cons)

lemma taken_sub: "set (taken us bs) \<subseteq> ku_id ` set us"
  by (auto simp: taken_def dest: set_zip_leftD)

lemma drain_units_all:
  assumes "local_inv db" and "\<not> ld_closed db" and "distinct (map ku_id us)"
    and "\<And>u. u \<in> set us \<Longrightarrow> local_map db (ku_id u) \<noteq> None"
    and "post_all send (own_units us) s = (bs, s2)"
  shows "\<exists>db'. drain_units V send us db s = (Inr (length (taken (own_units us) bs), refused (own_units us) bs), db', s2)
    \<and> local_inv db' \<and> ld_units db' = filter (\<lambda>r. lr_id r \<notin> set (taken (own_units us) bs)) (ld_units db)"
  using assms
proof (induction us arbitrary: db s bs)
  case Nil
  then show ?case by (simp add: own_units_def taken_Cons)
next
  case (Cons u us)
  show ?case
  proof (cases "ku_tier u = TierLocal")
    case False
    then have "own_units (u # us) = own_units us" by (simp add: own_units_def)
    with Cons.IH [OF Cons.prems(1,2)] Cons.prems(3-5) False show ?thesis by simp
  next
    case True
    then have own: "own_units (u # us) = u # own_units us" by (simp add: own_units_def)
    obtain a s1 where a: "send (PostPropose (ku_domains u) (ku_insight u) (ku_context u) (ku_created_by u)) s = (a, s1)"
      by fastforce
    then obtain bs' where bs: "bs = accepts a # bs'" and post: "post_all send (own_units us) s1 = (bs', s2)"
      using Cons.prems(5) own by (auto split: prod.splits)
    have dist: "distinct (map ku_id us)" "ku_id u \<notin> ku_id ` set us" using Cons.prems(3) by auto
    show ?thesis
    proof (cases "accepts a")
      case False
      with remote_propose_accepts [of send u s a s1 V, OF a] obtain e where e: "remote_propose V send u s = (Inl e, s1)" by auto
      from Cons.IH [OF Cons.prems(1,2) dist(1) _ post] Cons.prems(4) obtain db' where
        "drain_units V send us db s1 = (Inr (length (taken (own_units us) bs'), refused (own_units us) bs'), db', s2)"
        "local_inv db'" "ld_units db' = filter (\<lambda>r. lr_id r \<notin> set (taken (own_units us) bs')) (ld_units db)" by auto
      with True False e own bs show ?thesis by (simp add: taken_Cons)
    next
      case acc: True
      with remote_propose_accepts [of send u s a s1 V, OF a] obtain v where v: "remote_propose V send u s = (Inr v, s1)" by auto
      from local_deleteI [OF Cons.prems(1,2), of "ku_id u"] Cons.prems(4) [of u] obtain db1 where
        db1: "local_delete (ku_id u) db = Inr db1" "local_inv db1" "\<not> ld_closed db1"
          "ld_units db1 = sql_delete (\<lambda>r. lr_id r = ku_id u) (ld_units db)"
          "local_map db1 = (local_map db)(ku_id u := None)" by auto
      have "local_map db1 (ku_id w) \<noteq> None" if "w \<in> set us" for w
      proof -
        have "ku_id w \<noteq> ku_id u" using that dist(2) by (metis imageI)
        with that Cons.prems(4) [of w] db1(5) show ?thesis by simp
      qed
      from Cons.IH [OF db1(2,3) dist(1) this post] obtain db' where
        db': "drain_units V send us db1 s1 = (Inr (length (taken (own_units us) bs'), refused (own_units us) bs'), db', s2)"
        "local_inv db'" "ld_units db' = filter (\<lambda>r. lr_id r \<notin> set (taken (own_units us) bs')) (ld_units db1)" by auto
      have "ld_units db' = filter (\<lambda>r. lr_id r \<notin> set (ku_id u # taken (own_units us) bs')) (ld_units db)"
        unfolding db'(3) db1(4) sql_delete_def filter_filter by (rule filter_cong) auto
      with True acc v own bs db1(1) db'(1,2) show ?thesis by (simp add: taken_Cons)
    qed
  qed
qed

lemma distinct_unit_ids:
  assumes "local_inv db"
  shows "distinct (map ku_id (map lr_data (ld_units db)))"
proof -
  have "map ku_id (map lr_data (ld_units db)) = map lr_id (ld_units db)" using assms by (auto simp: local_inv_def)
  then show ?thesis using assms unfolding local_inv_def unique_key_def by metis
qed

lemma client_drain_result:
  assumes "local_inv (cl_db cl)" and "\<not> ld_closed (cl_db cl)" and "cl_http cl"
    and "post_all send (own_units (map lr_data (ld_units (cl_db cl)))) s = (answers, s2)"
  shows "\<exists>db. client_drain V send cl s
      = (Inr (length (filter id answers), refused (own_units (map lr_data (ld_units (cl_db cl)))) answers), cl\<lparr>cl_db := db\<rparr>, s2)
    \<and> local_inv db
    \<and> ld_units db = filter (\<lambda>r. lr_id r \<notin> set (taken (own_units (map lr_data (ld_units (cl_db cl)))) answers)) (ld_units (cl_db cl))"
proof -
  let ?us = "map lr_data (ld_units (cl_db cl))"
  have len: "length answers = length (own_units us) \<Longrightarrow> length (taken (own_units us) answers) = length (filter id answers)" for us
    by (rule length_taken)
  have posted: "post_all send us s = (bs, t) \<Longrightarrow> length bs = length us" for us s bs t
    by (induction us arbitrary: s bs) (auto split: prod.splits)
  have "distinct (map ku_id ?us)" by (rule distinct_unit_ids) (rule assms(1))
  moreover have "local_map (cl_db cl) (ku_id u) \<noteq> None" if "u \<in> set ?us" for u
    using that unit_in_map [OF assms(1), of u] by auto
  ultimately obtain db where "drain_units V send ?us (cl_db cl) s
      = (Inr (length (taken (own_units ?us) answers), refused (own_units ?us) answers), db, s2)"
    "local_inv db" "ld_units db = filter (\<lambda>r. lr_id r \<notin> set (taken (own_units ?us) answers)) (ld_units (cl_db cl))"
    using drain_units_all [OF assms(1,2) _ _ assms(4)] by blast
  with assms(2,3) len [OF posted [OF assms(4)]] show ?thesis
    by (intro exI [of _ db]) (simp add: client_drain_def local_all_def)
qed

text \<open>C18. A drain posts every unit of the agent's store that is its own to the remote,
  once each and in order, and then forgets exactly those the remote accepted: the
  number it reports is theirs, the warnings are the others, whose rows stay as
  they were, and so do the rows of units that came from elsewhere. It never
  fails on the way, whatever the remote answers.\<close>

theorem drain_forgets_accepted:
  assumes "local_inv (cl_db cl)" and "\<not> ld_closed (cl_db cl)" and "cl_http cl"
    and "post_all send (own_units (map lr_data (ld_units (cl_db cl)))) s = (answers, s2)"
  shows "\<exists>db. client_drain V send cl s
      = (Inr (length (filter id answers), refused (own_units (map lr_data (ld_units (cl_db cl)))) answers), cl\<lparr>cl_db := db\<rparr>, s2)
    \<and> local_inv db
    \<and> ld_units db = filter (\<lambda>r. lr_id r \<notin> set (taken (own_units (map lr_data (ld_units (cl_db cl)))) answers)) (ld_units (cl_db cl))"
  by (rule client_drain_result) (rule assms)+

section \<open>A client and its L2\<close>

text \<open>The propose endpoint of an L2 as a remote: \<open>w n\<close> is the world of the \<open>n\<close>th
  proposal, whose answer gets lost when \<open>lost n\<close>. \<open>enc\<close> writes the unit of a 201.\<close>

definition propose_on_l2 :: "(nat \<Rightarrow> 'k ku_world) \<Rightarrow> (nat \<Rightarrow> bool) \<Rightarrow> (ku \<Rightarrow> json) \<Rightarrow> string \<Rightarrow> string list \<Rightarrow> insight
    \<Rightarrow> unit_context \<Rightarrow> nat \<times> ku_db \<Rightarrow> http_answer \<times> nat \<times> ku_db" where
  "propose_on_l2 w lost enc un ds i cx s =
     (case s of (n, db) \<Rightarrow>
        case propose_unit (w n) \<lparr>pq_domains = ds, pq_insight = i, pq_context = cx, pq_tier = None\<rparr> un db of
          (r, db') \<Rightarrow>
            (if lost n then Transport
             else case r of Inl (HTTPException c) \<Rightarrow> Answer (int c) None | Inr u \<Rightarrow> Answer 201 (Some (enc u)), n + 1, db'))"

definition proposes_to :: "(nat \<times> ku_db) sender \<Rightarrow> (nat \<Rightarrow> 'k ku_world) \<Rightarrow> (nat \<Rightarrow> bool) \<Rightarrow> (ku \<Rightarrow> json) \<Rightarrow> string \<Rightarrow> bool" where
  "proposes_to send w lost enc un \<longleftrightarrow>
     (\<forall>ds i cx cb s. send (PostPropose ds i cx cb) s = propose_on_l2 w lost enc un ds i cx s)"

text \<open>A unit of the L2 with the text and the tags of \<open>u\<close>, proposed by \<open>un\<close>.\<close>

definition copy_of :: "string \<Rightarrow> ku \<Rightarrow> ku \<Rightarrow> bool" where
  "copy_of un u v \<longleftrightarrow> ku_domains v = normalize_domains (ku_domains u) \<and> ku_insight v = ku_insight u
     \<and> ku_context v = ku_context u \<and> ku_created_by v = un"

definition copies :: "string \<Rightarrow> ku \<Rightarrow> ku_db \<Rightarrow> nat" where
  "copies un u db = length (filter (\<lambda>r. copy_of un u (kr_data r)) (ku_rows db))"

lemma copies_map: "copies un u db = length (filter (copy_of un u) (map kr_data (ku_rows db)))"
  by (simp add: copies_def filter_map comp_def)

text \<open>A rejected proposal has a status of 400 or more.\<close>

lemma propose_error_code: "propose_unit w req un db = (Inl (HTTPException c), db') \<Longrightarrow> 400 \<le> c"
  by (auto simp: propose_unit_def resolve_write_tenancy_def Let_def split: if_splits option.splits sum.splits prod.splits)

lemma auto_approve_data: "map kr_data (ku_rows (auto_approve w un i db)) = map kr_data (ku_rows db)"
proof -
  obtain P f where "ku_rows (auto_approve w un i db) = sql_update P f (ku_rows db)" "\<forall>r. kr_data (f r) = kr_data r"
    using auto_approve_rows [of w un i db] by blast
  then show ?thesis by (simp add: map_key_sql_update)
qed

lemma propose_store_data:
  assumes "propose_store w un u ent grp db = Inr db1"
  shows "map kr_data (ku_rows db1) = map kr_data (ku_rows db) @ [normalized u]"
proof -
  obtain db0 where ins: "insert_unit (kw_now w) u None (Some ent) (Some grp) db = Inr db0"
    and db1: "db1 = (case kw_embed w of None \<Rightarrow> db0 | Some (e, m) \<Rightarrow> snd (set_embedding (ku_id u) e m db0))"
    using assms by (auto simp: propose_store_def)
  have "map kr_data (ku_rows (snd (set_embedding i e m db0))) = map kr_data (ku_rows db0)" for i e m
    by (simp add: set_embedding_def map_key_sql_update)
  then have "map kr_data (ku_rows db1) = map kr_data (ku_rows db0)"
    unfolding db1 by (simp split: option.split prod.split)
  with insert_unit_Inr [OF ins] show ?thesis by (simp add: new_ku_row_def normalized_def)
qed

lemma propose_data:
  assumes "propose_unit w req un db = (r, db')"
  shows "case r of Inl _ \<Rightarrow> db' = db
    | Inr _ \<Rightarrow> \<exists>v. map kr_data (ku_rows db') = map kr_data (ku_rows db) @ [v]
        \<and> ku_domains v = normalize_domains (pq_domains req) \<and> ku_insight v = pq_insight req
        \<and> ku_context v = pq_context req \<and> ku_created_by v = un"
proof (rule propose_unit_cases [of w req un db])
  fix e assume "propose_unit w req un db = (Inl e, db)"
  with assms show ?thesis by auto
next
  fix u ent grp db1 user
  assume c: "create_knowledge_unit (kw_now w) (kw_hexid w) (normalize_domains (pq_domains req)) (pq_insight req) (pq_context req)
        (case pq_tier req of None \<Rightarrow> default_ku_tier (rw_env w) | Some t \<Rightarrow> t) un = Inr u"
    and st: "propose_store w un u ent grp db = Inr db1"
    and p: "propose_unit w req un db = (Inr u, auto_approve w un (ku_id u) (log_for w (kw_act_id w) un ''propose''
       (JObj [(''ku_id'', JStr (ku_id u)),
              (''summary_first_60_chars'', JStr (summary_first_60 (Some (in_summary (pq_insight req))))),
              (''domains'', JArr (map JStr (normalize_domains (pq_domains req))))]) None None db1))"
  from c have "ku_domains u = normalize_domains (pq_domains req)" "ku_insight u = pq_insight req"
    "ku_context u = pq_context req" "ku_created_by u = un"
    by (auto simp: create_knowledge_unit_def split: if_splits)
  moreover from p assms have "r = Inr u" "map kr_data (ku_rows db') = map kr_data (ku_rows db1)"
    by (auto simp: auto_approve_data)
  ultimately show ?thesis using propose_store_data [OF st] by (auto simp: normalized_def)
qed

lemma posted_copies:
  assumes "proposes_to send w lost enc un"
    and "send (PostPropose (ku_domains u) (ku_insight u) (ku_context u) cb) (n, db) = (a, n', db')"
  shows "copies un v db \<le> copies un v db'" and "accepts a \<Longrightarrow> 0 < copies un u db'" and "n' = n + 1"
    and "accepts a \<Longrightarrow> \<not> lost n"
proof -
  let ?req = "\<lparr>pq_domains = ku_domains u, pq_insight = ku_insight u, pq_context = ku_context u, pq_tier = None\<rparr>"
  obtain r db1 where p: "propose_unit (w n) ?req un db = (r, db1)" by fastforce
  have a: "a = (if lost n then Transport
             else case r of Inl (HTTPException c) \<Rightarrow> Answer (int c) None | Inr u \<Rightarrow> Answer 201 (Some (enc u)))"
    "db' = db1" "n' = n + 1"
    using assms p by (auto simp: proposes_to_def propose_on_l2_def)
  show "copies un v db \<le> copies un v db'"
  proof (cases r)
    case (Inl e)
    with propose_data [OF p] show ?thesis unfolding a(2) by simp
  next
    case (Inr x)
    with propose_data [OF p] obtain y where "map kr_data (ku_rows db') = map kr_data (ku_rows db) @ [y]" unfolding a(2) by auto
    then show ?thesis unfolding copies_map by simp
  qed
  show "n' = n + 1" by (rule a(3))
  show "accepts a \<Longrightarrow> \<not> lost n" using a(1) by (auto simp: accepts_def)
  assume acc: "accepts a"
  show "0 < copies un u db'"
  proof (cases r)
    case (Inr x)
    from propose_data [OF p] obtain y where "map kr_data (ku_rows db') = map kr_data (ku_rows db) @ [y]" "copy_of un u y"
      unfolding a(2) Inr copy_of_def by auto
    then show ?thesis unfolding copies_map by simp
  next
    case (Inl e)
    then obtain c where e: "r = Inl (HTTPException c)" by (cases e) simp
    with propose_error_code p have "400 \<le> c" by blast
    with acc e a(1) show ?thesis by (auto simp: accepts_def is_success_def split: if_splits)
  qed
qed

lemma post_all_mono:
  assumes "proposes_to send w lost enc un"
  shows "post_all send us (n, db) = (bs, n2, db2) \<Longrightarrow> copies un v db \<le> copies un v db2"
proof (induction us arbitrary: n db bs)
  case (Cons x us)
  obtain a n1 db1 where a: "send (PostPropose (ku_domains x) (ku_insight x) (ku_context x) (ku_created_by x)) (n, db) = (a, n1, db1)"
    using prod_cases3 by blast
  with Cons.prems obtain bs' where "post_all send us (n1, db1) = (bs', n2, db2)"
    by (auto split: prod.splits)
  from Cons.IH [OF this] posted_copies(1) [OF assms a, of v] show ?case by simp
qed simp

lemma post_all_copies:
  assumes "proposes_to send w lost enc un" and "post_all send us (n, db) = (bs, n2, db2)"
  shows "(distinct (map ku_id us) \<and> u \<in> set us \<and> ku_id u \<in> set (taken us bs) \<longrightarrow> 0 < copies un u db2)"
  using assms(2)
proof (induction us arbitrary: n db bs)
  case Nil
  then show ?case by (simp add: taken_Cons)
next
  case (Cons x us)
  obtain a n1 db1 where a: "send (PostPropose (ku_domains x) (ku_insight x) (ku_context x) (ku_created_by x)) (n, db) = (a, n1, db1)"
    using prod_cases3 by blast
  with Cons.prems obtain bs' where bs: "bs = accepts a # bs'" and rest: "post_all send us (n1, db1) = (bs', n2, db2)"
    by (auto split: prod.splits)
  note ih = Cons.IH [OF rest] and one = posted_copies [OF assms(1) a]
  have mono: "copies un y db1 \<le> copies un y db2" for y
    by (rule post_all_mono [OF assms(1) rest])
  have "0 < copies un u db2" if "distinct (map ku_id (x # us))" "u \<in> set (x # us)" "ku_id u \<in> set (taken (x # us) bs)"
  proof (cases "u = x")
    case True
    have "ku_id x \<notin> set (taken us bs')" using that(1) taken_sub [of us bs'] by auto
    with True that(3) bs have "accepts a" by (auto simp: taken_Cons split: if_splits)
    with one(2) have "0 < copies un x db1" by blast
    with mono [of x] True show ?thesis by simp
  next
    case False
    with that have "u \<in> set us" by simp
    then have "ku_id u \<noteq> ku_id x" using that(1) by (metis distinct.simps(2) image_eqI list.map(2) list.set_map)
    with that bs have "ku_id u \<in> set (taken us bs')" by (auto simp: taken_Cons split: if_splits)
    with ih that(1) \<open>u \<in> set us\<close> show ?thesis by simp
  qed
  then show ?case by blast
qed

text \<open>C19. No proposal is lost on its way to the L2. A drain against the propose
  endpoint, with answers lost at will, leaves every unit of the agent's own in its
  store, or a unit with its text and its tags, proposed by the agent, on the L2.\<close>

theorem drained_units_reach_l2:
  assumes "local_inv (cl_db cl)" and "\<not> ld_closed (cl_db cl)" and "cl_http cl"
    and "proposes_to send w lost enc un"
    and "client_drain V send cl (n, l2) = (r, cl', n', l2')"
    and "local_map (cl_db cl) i = Some u" and "ku_tier u = TierLocal"
  shows "local_map (cl_db cl') i = Some u \<or> 0 < copies un u l2'"
proof -
  let ?us = "map lr_data (ld_units (cl_db cl))"
  have i: "ku_id u = i" using local_map_id [OF assms(1,6)] .
  obtain bs n2 db2 where post: "post_all send (own_units ?us) (n, l2) = (bs, n2, db2)" using prod_cases3 by blast
  from client_drain_result [OF assms(1-3) post, of V] assms(5)
  have cl': "l2' = db2" "local_inv (cl_db cl')"
    "ld_units (cl_db cl') = filter (\<lambda>r. lr_id r \<notin> set (taken (own_units ?us) bs)) (ld_units (cl_db cl))" by auto
  from assms(6) i unit_in_map [OF assms(1), of u] obtain q where q: "q \<in> set (ld_units (cl_db cl))" "lr_data q = u" by auto
  show ?thesis
  proof (cases "i \<in> set (taken (own_units ?us) bs)")
    case True
    have "distinct (map ku_id ?us)" by (rule distinct_unit_ids) (rule assms(1))
    then have "distinct (map ku_id (own_units ?us))" unfolding own_units_def by (rule distinct_map_filter)
    moreover have "u \<in> set (own_units ?us)" using q assms(7) by (auto simp: own_units_def)
    ultimately show ?thesis using post_all_copies [OF assms(4) post, of u] True i cl'(1) by simp
  next
    case False
    have "lr_id q = i" using q i assms(1) by (auto simp: local_inv_def)
    with False q have "q \<in> set (ld_units (cl_db cl'))" by (simp add: cl'(3))
    with q(2) unit_in_map [OF cl'(2), of u] i show ?thesis by blast
  qed
qed

lemma success_copies:
  assumes "propose_unit w \<lparr>pq_domains = ku_domains u, pq_insight = ku_insight u, pq_context = ku_context u, pq_tier = t\<rparr> un db
    = (Inr a, db')"
  shows "copies un u db' = copies un u db + 1" and "ku_domains u \<noteq> []" and "normalize_domains (ku_domains u) \<noteq> []"
proof -
  from propose_data [OF assms] obtain y where "map kr_data (ku_rows db') = map kr_data (ku_rows db) @ [y]" "copy_of un u y"
    unfolding copy_of_def by auto
  then show "copies un u db' = copies un u db + 1" unfolding copies_map by simp
  show "ku_domains u \<noteq> []" "normalize_domains (ku_domains u) \<noteq> []"
    using assms by (auto simp: propose_unit_def Let_def split: if_splits option.splits sum.splits prod.splits)
qed

lemma copies_normalized: "copies un (normalized u) db = copies un u db"
  by (simp add: copies_def copy_of_def normalized_def)

text \<open>C20. A lost answer proposes twice. When the L2 stores a proposal but its answer
  does not arrive, the client keeps the unit and says that it will drain it; the
  drain that empties its store puts a second copy of the unit on the L2, since a
  proposal carries no id by which the L2 could know it.\<close>

theorem lost_answer_proposes_twice:
  assumes "proposes_to send w lost enc un" and "lost n"
    and "propose_unit (w n) \<lparr>pq_domains = ds, pq_insight = i, pq_context = cx, pq_tier = None\<rparr> un l2 = (Inr a, l2')"
    and "cx = \<lparr>cx_languages = ls, cx_frameworks = fs, cx_pattern = p\<rparr>"
    and "client_propose V send now hexid i ds (Some ls) (Some fs) p cb \<lparr>cl_http = True, cl_db = empty_local\<rparr> (n, l2) = (r, cl, s)"
    and "client_drain V send cl s = (Inr (1, []), cl2, n2, l22)"
  shows "\<exists>u. r = Inl (FallbackError u) \<and> ku_insight u = i \<and> ld_units (cl_db cl2) = []
    \<and> copies un u l22 = copies un u l2 + 2"
proof -
  have ds: "ds \<noteq> []" "normalize_domains ds \<noteq> []"
    using assms(3) by (auto simp: propose_unit_def Let_def split: if_splits option.splits sum.splits prod.splits)
  obtain u where u: "create_knowledge_unit now hexid ds i cx TierLocal cb = Inr u"
    using ds(1) by (simp add: create_knowledge_unit_def)
  then have uf: "ku_domains u = ds" "ku_insight u = i" "ku_context u = cx" "ku_tier u = TierLocal"
    by (auto simp: create_knowledge_unit_def split: if_splits)
  have send1: "send (PostPropose ds i cx (ku_created_by u)) (n, l2) = (Transport, n + 1, l2')"
    using assms(1-3) by (simp add: proposes_to_def propose_on_l2_def)
  have one: "copies un u l2' = copies un u l2 + 1" by (rule success_copies) (use assms(3) uf in simp)
  have "\<not> ld_closed empty_local" by (simp add: empty_local_def)
  from local_insertI [OF local_inv_empty(1) this ds(2) [folded uf(1)]] obtain db where
    db: "local_insert u empty_local = Inr db" "local_inv db" "\<not> ld_closed db"
      "ld_units db = [\<lparr>lr_id = ku_id u, lr_data = normalized u\<rparr>]"
    unfolding local_inv_empty(2) by (auto simp: empty_local_def [THEN arg_cong [where f = ld_units]])
  have first: "r = Inl (FallbackError u)" "cl = \<lparr>cl_http = True, cl_db = db\<rparr>" "s = (n + 1, l2')"
    using assms(5) u send1 db(1) unfolding client_propose_def Let_def assms(4) [symmetric]
    by (auto simp: remote_propose_def uf falls_back_def store_fallback_def assms(4))
  let ?v = "normalized u"
  have own: "own_units (map lr_data (ld_units (cl_db cl))) = [?v]" by (simp add: first(2) db(4) own_units_def uf(4))
  obtain b n3 db3 where post: "send (PostPropose (ku_domains ?v) (ku_insight ?v) (ku_context ?v) (ku_created_by ?v)) (n + 1, l2') = (b, n3, db3)"
    using prod_cases3 by blast
  then have posted: "post_all send (own_units (map lr_data (ld_units (cl_db cl)))) (n + 1, l2') = ([accepts b], n3, db3)"
    by (simp add: own)
  have "local_inv (cl_db cl)" "\<not> ld_closed (cl_db cl)" "cl_http cl" by (simp_all add: first(2) db(2,3))
  from client_drain_result [OF this posted, of V] obtain d where
    d: "client_drain V send cl (n + 1, l2') = (Inr (length (filter id [accepts b]),
          refused (own_units (map lr_data (ld_units (cl_db cl)))) [accepts b]), cl\<lparr>cl_db := d\<rparr>, n3, db3)"
      "ld_units d = filter (\<lambda>r. lr_id r \<notin> set (taken (own_units (map lr_data (ld_units (cl_db cl)))) [accepts b])) (ld_units (cl_db cl))"
    by blast
  from d(1) assms(6) first(3) have "length (filter id [accepts b]) = 1" "l22 = db3" "cl2 = cl\<lparr>cl_db := d\<rparr>" by simp_all
  then have drained: "accepts b" "l22 = db3" "cl2 = cl\<lparr>cl_db := d\<rparr>" by (simp_all split: if_splits)
  have "taken [?v] [True] = [ku_id u]" by (simp add: taken_Cons)
  then have gone: "ld_units (cl_db cl2) = []"
    unfolding drained(3) using d(2) drained(1) unfolding own by (simp add: first(2) db(4))
  obtain x db4 where p2: "propose_unit (w (n + 1)) \<lparr>pq_domains = ku_domains ?v, pq_insight = ku_insight ?v,
      pq_context = ku_context ?v, pq_tier = None\<rparr> un l2' = (x, db4)" by fastforce
  have b: "db4 = db3" "b = (if lost (n + 1) then Transport
      else case x of Inl (HTTPException c) \<Rightarrow> Answer (int c) None | Inr u \<Rightarrow> Answer 201 (Some (enc u)))"
    using assms(1) post p2 by (auto simp: proposes_to_def propose_on_l2_def)
  obtain y where y: "x = Inr y"
  proof (cases x)
    case (Inl e)
    then obtain c where "x = Inl (HTTPException c)" by (cases e) simp
    with propose_error_code p2 drained(1) b(2) show ?thesis
      by (fastforce simp: accepts_def is_success_def split: if_splits)
  qed
  from success_copies(1) [OF p2 [unfolded y b(1)]] have "copies un u db3 = copies un u l2' + 1"
    by (simp add: copies_normalized)
  with one first(1) uf(2) drained(2) gone show ?thesis by simp
qed

section \<open>Concrete runs\<close>

definition demo_own :: ku where
  "demo_own = demo_unit\<lparr>ku_id := ''ku_9'', ku_tier := TierLocal, ku_created_by := ''me''\<rparr>"

definition demo_agent :: client where
  "demo_agent = \<lparr>cl_http = True, cl_db = snd (run_ops local_step [LInsert demo_own] empty_local)\<rparr>"

lemma demo_agent_facts:
  "local_inv (cl_db demo_agent)" "\<not> ld_closed (cl_db demo_agent)" "cl_http demo_agent"
  "local_map (cl_db demo_agent) ''ku_9'' = Some demo_own" "ku_tier demo_own = TierLocal"
  "own_units (map lr_data (ld_units (cl_db demo_agent))) = [demo_own]"
  "map lr_id (ld_units (cl_db demo_agent)) = [''ku_9'']"
proof -
  show "local_inv (cl_db demo_agent)"
    unfolding demo_agent_def client.simps using run_ops_refines [OF local_inv_empty(1), of "[LInsert demo_own]"]
    by (metis prod.collapse)
  show "\<not> ld_closed (cl_db demo_agent)" "cl_http demo_agent" "ku_tier demo_own = TierLocal"
    "map lr_id (ld_units (cl_db demo_agent)) = [''ku_9'']" by code_simp+
  show "local_map (cl_db demo_agent) ''ku_9'' = Some demo_own"
    "own_units (map lr_data (ld_units (cl_db demo_agent))) = [demo_own]" by code_simp+
qed

lemma local_query_best_witness:
  "\<exists>found. local_query (\<lambda>_. None) [''Python''] None None [] 5 (snd (run_ops local_step [LInsert demo_own] empty_local)) = Inr found
     \<and> distinct (map ku_id found) \<and> length found \<le> 5"
proof -
  have "case local_query (\<lambda>_. None) [''Python''] None None [] 5 (snd (run_ops local_step [LInsert demo_own] empty_local)) of
      Inl _ \<Rightarrow> False | Inr _ \<Rightarrow> True" by code_simp
  then obtain found where
    f: "local_query (\<lambda>_. None) [''Python''] None None [] 5 (snd (run_ops local_step [LInsert demo_own] empty_local)) = Inr found"
    by (auto split: sum.splits)
  from local_query_best [OF f, of demo_own] have "distinct (map ku_id found) \<and> length found \<le> nat 5"
    unfolding Let_def by blast
  with f show ?thesis by auto
qed

text \<open>A remote that takes everything.\<close>

definition demo_remote :: "nat sender" where
  "demo_remote req n = (Answer 201 None, n + 1)"

lemma drain_forgets_accepted_witness:
  "\<exists>db. client_drain (\<lambda>_. None) demo_remote demo_agent 0 = (Inr (1, []), demo_agent\<lparr>cl_db := db\<rparr>, 1) \<and> ld_units db = []"
proof -
  have post: "post_all demo_remote (own_units (map lr_data (ld_units (cl_db demo_agent)))) 0 = ([True], 1)"
    by (simp add: demo_agent_facts demo_remote_def accepts_def is_success_def)
  have "lr_id r = ''ku_9''" if "r \<in> set (ld_units (cl_db demo_agent))" for r
    using that demo_agent_facts(7) by (metis imageI list.set_map set_ConsD empty_iff list.set(1))
  moreover have "ku_id demo_own = ''ku_9''" by (simp add: demo_own_def)
  ultimately show ?thesis
    using drain_forgets_accepted [OF demo_agent_facts(1-3) post, of "\<lambda>_. None"]
    by (auto simp: demo_agent_facts(6) taken_Cons filter_empty_conv)
qed

text \<open>The L2 of the demonstration, whose first answer is lost.\<close>

definition demo_worlds :: "nat \<Rightarrow> nat ku_world" where
  "demo_worlds n = demo_kworld2\<lparr>kw_hexid := (if n = 0 then ''2'' else ''3''), kw_act_id := (if n = 0 then ''act_3'' else ''act_4'')\<rparr>"

definition demo_l2 :: "(nat \<times> ku_db) sender" where
  "demo_l2 req s =
     (case req of
        PostPropose ds i cx cb \<Rightarrow> propose_on_l2 demo_worlds (\<lambda>n. n = 0) (\<lambda>_. JNull) ''bob'' ds i cx s
      | _ \<Rightarrow> (Transport, s))"

lemma demo_l2_proposes: "proposes_to demo_l2 demo_worlds (\<lambda>n. n = 0) (\<lambda>_. JNull) ''bob''"
  by (simp add: proposes_to_def demo_l2_def)

lemma drained_units_reach_l2_witness:
  "case client_drain (\<lambda>_. None) demo_l2 demo_agent (1, demo_ku_db ''pending'') of (r, cl', n', l2') \<Rightarrow>
     local_map (cl_db cl') ''ku_9'' = Some demo_own \<or> 0 < copies ''bob'' demo_own l2'"
proof -
  obtain r cl' n' l2' where d: "client_drain (\<lambda>_. None) demo_l2 demo_agent (1, demo_ku_db ''pending'') = (r, cl', n', l2')"
    using prod_cases4 by blast
  from drained_units_reach_l2 [OF demo_agent_facts(1-3) demo_l2_proposes d demo_agent_facts(4,5)] d
  show ?thesis by simp
qed

definition demo_twice :: "(client_exc + ku) \<times> client \<times> nat \<times> ku_db" where
  "demo_twice = client_propose (\<lambda>_. None) demo_l2 ''t9'' ''9'' demo_insight ['' Python''] (Some []) (Some []) [] ''me''
     \<lparr>cl_http = True, cl_db = empty_local\<rparr> (0, demo_ku_db ''pending'')"

lemma lost_answer_proposes_twice_witness:
  "\<exists>u. fst demo_twice = Inl (FallbackError u)
     \<and> copies ''bob'' u (snd (snd (snd (client_drain (\<lambda>_. None) demo_l2 (fst (snd demo_twice)) (snd (snd demo_twice))))))
       = copies ''bob'' u (demo_ku_db ''pending'') + 2"
proof -
  let ?req = "\<lparr>pq_domains = ['' Python''], pq_insight = demo_insight,
     pq_context = \<lparr>cx_languages = [], cx_frameworks = [], cx_pattern = []\<rparr>, pq_tier = None\<rparr>"
  have "case fst (propose_unit (demo_worlds 0) ?req ''bob'' (demo_ku_db ''pending'')) of Inl _ \<Rightarrow> False | Inr _ \<Rightarrow> True"
    by code_simp
  then obtain a l2' where a: "propose_unit (demo_worlds 0) ?req ''bob'' (demo_ku_db ''pending'') = (Inr a, l2')"
    by (cases "propose_unit (demo_worlds 0) ?req ''bob'' (demo_ku_db ''pending'')") (auto split: sum.splits)
  obtain r cl s where t: "demo_twice = (r, cl, s)" using prod_cases3 by blast
  have "fst (client_drain (\<lambda>_. None) demo_l2 (fst (snd demo_twice)) (snd (snd demo_twice))) = Inr (1, [])" by code_simp
  then obtain cl2 n2 l22 where d: "client_drain (\<lambda>_. None) demo_l2 cl s = (Inr (1, []), cl2, n2, l22)"
    unfolding t by (cases "client_drain (\<lambda>_. None) demo_l2 cl s") auto
  from lost_answer_proposes_twice [OF demo_l2_proposes _ a refl t [unfolded demo_twice_def] d]
  show ?thesis unfolding t fst_conv snd_conv d by simp blast
qed

end
