(* ===== verification/Reflect.thy ===== *)
theory Reflect imports Users Crypto begin

text \<open>
  \<open>cq_server/reflect.py\<close> and the \<open>reflect_submissions\<close> statements of
  \<open>store/_sqlite.py\<close>: submitting a session for reflection, with its deduplication and
  its rate limit, and reading a submission back. The worker that takes
  submissions through their states is not in the repository. Instants are microseconds;
  the SQL compares the text \<open>_iso\<close> makes of them, which leaves out a fraction
  of zero, and that order is \<open>iso_key\<close>. The lemmas: how far apart two accepted
  submissions of a session are, and what a repeated one gets.
\<close>

section \<open>Time as text\<close>

text \<open>In \<open>2026-04-30T10:00:00Z\<close> and \<open>2026-04-30T10:00:00.5Z\<close> the letter sorts after the
  full stop: a whole second comes after all its fractions.\<close>

definition iso_key :: "int \<Rightarrow> int" where
  "iso_key t = (if t mod US_PER_SECOND = 0 then t + US_PER_SECOND else t)"

definition CONTEXT_MAX_CHARS :: nat where "CONTEXT_MAX_CHARS = 1000000"
definition DEDUP_WINDOW_MINUTES :: int where "DEDUP_WINDOW_MINUTES = 30"
definition DEFAULT_RATE_LIMIT_HOURS :: int where "DEFAULT_RATE_LIMIT_HOURS = 4"
definition EXPECTED_COMPLETE_MINUTES :: int where "EXPECTED_COMPLETE_MINUTES = 30"

definition minutes :: "int \<Rightarrow> int" where "minutes n = n * 60 * US_PER_SECOND"
definition hours :: "int \<Rightarrow> int" where "hours n = n * 3600 * US_PER_SECOND"

section \<open>The table\<close>

record reflect_row =
  rs_id :: string
  rs_session :: string
  rs_user :: nat
  rs_enterprise :: string
  rs_group :: "string option"
  rs_hash :: string
  rs_state :: string
  rs_batch :: "string option"
  rs_model :: "string option"
  rs_input_tokens :: "int option"
  rs_output_tokens :: "int option"
  rs_proposed :: int
  rs_confirmed :: int
  rs_excluded :: int
  rs_deduped :: int
  rs_error :: "string option"
  rs_mode :: string
  rs_max_candidates :: int
  rs_since :: "string option"
  rs_submitted :: int
  rs_started :: "int option"
  rs_completed :: "int option"

record reflect_db = user_db +
  rf_rows :: "reflect_row list"

definition new_submission :: "string \<Rightarrow> string \<Rightarrow> user_row \<Rightarrow> string \<Rightarrow> string \<Rightarrow> int \<Rightarrow> string option \<Rightarrow> int \<Rightarrow> reflect_row" where
  "new_submission i session user h mode max_candidates since submitted =
     \<lparr>rs_id = i, rs_session = session, rs_user = us_id user, rs_enterprise = us_enterprise_id user,
      rs_group = Some (us_group_id user), rs_hash = h, rs_state = ''queued'', rs_batch = None, rs_model = None,
      rs_input_tokens = None, rs_output_tokens = None, rs_proposed = 0, rs_confirmed = 0, rs_excluded = 0,
      rs_deduped = 0, rs_error = None, rs_mode = mode, rs_max_candidates = max_candidates, rs_since = since,
      rs_submitted = submitted, rs_started = None, rs_completed = None\<rparr>"

definition create_reflect_submission :: "reflect_row \<Rightarrow> 'a reflect_db_scheme \<Rightarrow> py_exc + 'a reflect_db_scheme" where
  "create_reflect_submission r db = bind_result (sql_insert rs_id r (rf_rows db)) (\<lambda>t. Inr (db\<lparr>rf_rows := t\<rparr>))"

definition get_reflect_submission :: "string \<Rightarrow> 'a reflect_db_scheme \<Rightarrow> reflect_row option" where
  "get_reflect_submission i db = sql_fetchone (\<lambda>r. rs_id r = i) (rf_rows db)"

definition first_row :: "'r list \<Rightarrow> 'r option" where
  "first_row rows = (case rows of [] \<Rightarrow> None | r # _ \<Rightarrow> Some r)"

definition reflect_in_window :: "string \<Rightarrow> int \<Rightarrow> reflect_row \<Rightarrow> bool" where
  "reflect_in_window session since r \<longleftrightarrow> rs_session r = session \<and> iso_key since \<le> iso_key (rs_submitted r)"

definition find_recent_reflect_dedup :: "string \<Rightarrow> string \<Rightarrow> int \<Rightarrow> 'a reflect_db_scheme \<Rightarrow> reflect_row option" where
  "find_recent_reflect_dedup session h since db =
     first_row (order_desc (\<lambda>r. iso_key (rs_submitted r)) (filter (\<lambda>r. reflect_in_window session since r \<and> rs_hash r = h) (rf_rows db)))"

definition count_recent_reflect_submissions :: "string \<Rightarrow> int \<Rightarrow> 'a reflect_db_scheme \<Rightarrow> nat" where
  "count_recent_reflect_submissions session since db = sql_rowcount (reflect_in_window session since) (rf_rows db)"

definition get_oldest_reflect_in_window :: "string \<Rightarrow> int \<Rightarrow> 'a reflect_db_scheme \<Rightarrow> int option" where
  "get_oldest_reflect_in_window session since db =
     map_option rs_submitted (first_row (order_asc (\<lambda>r. iso_key (rs_submitted r)) (filter (reflect_in_window session since) (rf_rows db))))"

definition get_last_reflect_for_session :: "string \<Rightarrow> string \<Rightarrow> 'a reflect_db_scheme \<Rightarrow> reflect_row option" where
  "get_last_reflect_for_session session ent db =
     first_row (order_desc (\<lambda>r. iso_key (rs_submitted r))
       (filter (\<lambda>r. rs_session r = session \<and> rs_enterprise r = ent) (rf_rows db)))"

definition list_reflect_submissions_for_recovery :: "int \<Rightarrow> 'a reflect_db_scheme \<Rightarrow> reflect_row list" where
  "list_reflect_submissions_for_recovery lookback db =
     order_asc (\<lambda>r. iso_key (rs_submitted r))
       (filter (\<lambda>r. rs_state r \<in> {''queued'', ''batching'', ''polling''} \<and> rs_batch r \<noteq> None
                   \<and> iso_key lookback \<le> iso_key (rs_submitted r)) (rf_rows db))"

section \<open>Requests\<close>

record reflect_request =
  rq_session :: string
  rq_context :: string
  rq_since :: "string option"
  rq_mode :: string
  rq_max_candidates :: int

definition session_id_ok :: "string \<Rightarrow> bool" where
  "session_id_ok s \<longleftrightarrow> s \<noteq> [] \<and> length s \<le> 128 \<and>
     list_all (\<lambda>c. let n = code_point c in 48 \<le> n \<and> n \<le> 57 \<or> 65 \<le> n \<and> n \<le> 90 \<or> 97 \<le> n \<and> n \<le> 122 \<or> c \<in> set ''_./-'') s"

definition reflect_request_ok :: "reflect_request \<Rightarrow> bool" where
  "reflect_request_ok req \<longleftrightarrow> session_id_ok (rq_session req) \<and> rq_context req \<noteq> [] \<and> 1 \<le> rq_max_candidates req"

text \<open>The generated id: ten digits of the clock in milliseconds, sixteen random ones.\<close>

definition ulid_alphabet :: string where "ulid_alphabet = ''0123456789ABCDEFGHJKMNPQRSTVWXYZ''"

fun ulid_digits :: "nat \<Rightarrow> nat \<Rightarrow> string" where
  "ulid_digits 0 n = []"
| "ulid_digits (Suc k) n = ulid_digits k (n div 32) @ [ulid_alphabet ! (n mod 32)]"

definition generate_submission_id :: "nat \<Rightarrow> string \<Rightarrow> string" where
  "generate_submission_id millis random = ''sub_'' @ ulid_digits 10 millis @ random"

definition context_hash :: "'k prims \<Rightarrow> string \<Rightarrow> string" where
  "context_hash C context = take 16 (hex (sha256 C (utf8 context)))"

definition rate_limit_hours :: "env \<Rightarrow> int" where
  "rate_limit_hours env =
     (case py_int (getenv env ''REFLECT_RATE_LIMIT_PER_HOURS'' []) of
        None \<Rightarrow> DEFAULT_RATE_LIMIT_HOURS | Some n \<Rightarrow> if 0 < n then n else DEFAULT_RATE_LIMIT_HOURS)"

datatype reflect_answer =
  Submitted string int int "string option"   \<comment> \<open>id, queued at, expected by, deduplicated to\<close>
| RateLimited int int                        \<comment> \<open>retry after seconds, hours of the window\<close>

text \<open>\<open>int(...)\<close> cuts the fraction off towards zero.\<close>

definition whole_seconds :: "int \<Rightarrow> int" where
  "whole_seconds us = (if 0 \<le> us then us div US_PER_SECOND else - ((- us) div US_PER_SECOND))"

definition retry_after :: "int \<Rightarrow> int \<Rightarrow> int option \<Rightarrow> int" where
  "retry_after now rate_hours oldest =
     (case oldest of None \<Rightarrow> rate_hours * 3600
      | Some t \<Rightarrow> max 1 (whole_seconds (t + hours rate_hours - now)))"

text \<open>One call's world: clock, and the random digits of the id.\<close>

record reflect_world =
  fw_env :: env
  fw_now :: int
  fw_random :: string

text \<open>A request runs as a series of transactions, each in a worker thread of the
  store; between two of them the handler awaits, and other requests run. Where
  it stands, with what it has read so far:\<close>

datatype submit_pc = LoadUser | FindDedup user_row | CountRecent user_row | FindOldest | InsertRow user_row
  | Answered "http_exc + reflect_answer"

text \<open>What is checked before the first transaction.\<close>

definition submit_start :: "reflect_request \<Rightarrow> submit_pc" where
  "submit_start req =
     (if \<not> reflect_request_ok req then Answered (Inl (HTTPException 422))
      else if rq_mode req \<noteq> ''nightly'' then Answered (Inl (HTTPException 422))
      else if CONTEXT_MAX_CHARS < length (rq_context req) then Answered (Inl (HTTPException 413))
      else LoadUser)"

text \<open>One transaction, and what follows it up to the next.\<close>

fun submit_next :: "'k prims \<Rightarrow> reflect_world \<Rightarrow> reflect_request \<Rightarrow> string \<Rightarrow> submit_pc \<Rightarrow> 'a reflect_db_scheme
    \<Rightarrow> submit_pc \<times> 'a reflect_db_scheme" where
  "submit_next C w req username LoadUser db =
     (case get_user db username of
        None \<Rightarrow> (Answered (Inl (HTTPException 401)), db)
      | Some user \<Rightarrow> (FindDedup user, db))"
| "submit_next C w req username (FindDedup user) db =
     (case find_recent_reflect_dedup (rq_session req) (context_hash C (rq_context req))
            (fw_now w - minutes DEDUP_WINDOW_MINUTES) db of
        Some r \<Rightarrow> (Answered (Inr (Submitted (rs_id r) (rs_submitted r) (rs_submitted r + minutes EXPECTED_COMPLETE_MINUTES)
                     (Some (rs_id r)))), db)
      | None \<Rightarrow> (CountRecent user, db))"
| "submit_next C w req username (CountRecent user) db =
     (if 1 \<le> count_recent_reflect_submissions (rq_session req) (fw_now w - hours (rate_limit_hours (fw_env w))) db
      then (FindOldest, db) else (InsertRow user, db))"
| "submit_next C w req username FindOldest db =
     (let rate_hours = rate_limit_hours (fw_env w)
      in (Answered (Inr (RateLimited (retry_after (fw_now w) rate_hours
             (get_oldest_reflect_in_window (rq_session req) (fw_now w - hours rate_hours) db)) rate_hours)), db))"
| "submit_next C w req username (InsertRow user) db =
     (let now = fw_now w; i = generate_submission_id (nat (now div 1000)) (fw_random w)
      in case create_reflect_submission (new_submission i (rq_session req) user (context_hash C (rq_context req)) (rq_mode req)
                (min (rq_max_candidates req) 25) (rq_since req) now) db of
           Inl _ \<Rightarrow> (Answered (Inl (HTTPException 500)), db)
         | Inr db' \<Rightarrow> (Answered (Inr (Submitted i now (now + minutes EXPECTED_COMPLETE_MINUTES) None)), db'))"
| "submit_next C w req username (Answered a) db = (Answered a, db)"

text \<open>A request no other comes between. Four transactions answer every request.\<close>

definition submit_reflection :: "'k prims \<Rightarrow> reflect_world \<Rightarrow> reflect_request \<Rightarrow> string \<Rightarrow> 'a reflect_db_scheme
    \<Rightarrow> (http_exc + reflect_answer) \<times> 'a reflect_db_scheme" where
  "submit_reflection C w req username db =
     (case ((\<lambda>(pc, db). submit_next C w req username pc db) ^^ 4) (submit_start req, db) of
        (Answered a, db') \<Rightarrow> (a, db')
      | (_, db') \<Rightarrow> (Inl (HTTPException 500), db'))"

definition safe_state :: "string \<Rightarrow> string" where
  "safe_state s = (if s \<in> {''queued'', ''batching'', ''polling'', ''complete'', ''failed''} then s else ''failed'')"

definition get_status :: "string \<Rightarrow> string \<Rightarrow> 'a reflect_db_scheme \<Rightarrow> http_exc + reflect_row" where
  "get_status i username db =
     (if i = [] then Inl (HTTPException 422)
      else case get_user db username of
        None \<Rightarrow> Inl (HTTPException 401)
      | Some user \<Rightarrow>
          (case get_reflect_submission i db of
             None \<Rightarrow> Inl (HTTPException 404)
           | Some r \<Rightarrow> if rs_enterprise r \<noteq> us_enterprise_id user then Inl (HTTPException 404)
                       else Inr (r\<lparr>rs_state := safe_state (rs_state r)\<rparr>)))"

text \<open>None is the answer with null fields.\<close>

definition get_last :: "string \<Rightarrow> string \<Rightarrow> 'a reflect_db_scheme \<Rightarrow> http_exc + reflect_row option" where
  "get_last session username db =
     (if \<not> session_id_ok session then Inl (HTTPException 422)
      else case get_user db username of
        None \<Rightarrow> Inl (HTTPException 401)
      | Some user \<Rightarrow>
          Inr (map_option (\<lambda>r. r\<lparr>rs_state := safe_state (rs_state r)\<rparr>)
                 (get_last_reflect_for_session session (us_enterprise_id user) db)))"

section \<open>The rate limit\<close>

lemma rate_limit_hours_pos: "1 \<le> rate_limit_hours env"
  by (simp add: rate_limit_hours_def DEFAULT_RATE_LIMIT_HOURS_def split: option.split)

lemma first_row_mem: "first_row rows = Some r \<Longrightarrow> r \<in> set rows"
  by (cases rows) (auto simp: first_row_def)

lemma iso_key_bounds: "t \<le> iso_key t \<and> iso_key t \<le> t + US_PER_SECOND"
  by (simp add: iso_key_def US_PER_SECOND_def)

lemma iso_key_less: "iso_key a < iso_key b \<Longrightarrow> a < b + US_PER_SECOND"
  using iso_key_bounds [of a] iso_key_bounds [of b] by linarith

text \<open>An undisturbed request in one piece.\<close>

lemma submit_reflection_alone:
  "submit_reflection C w req username db =
     (if \<not> reflect_request_ok req then (Inl (HTTPException 422), db)
      else if rq_mode req \<noteq> ''nightly'' then (Inl (HTTPException 422), db)
      else if CONTEXT_MAX_CHARS < length (rq_context req) then (Inl (HTTPException 413), db)
      else case get_user db username of
        None \<Rightarrow> (Inl (HTTPException 401), db)
      | Some user \<Rightarrow>
      let now = fw_now w; h = context_hash C (rq_context req)
      in (case find_recent_reflect_dedup (rq_session req) h (now - minutes DEDUP_WINDOW_MINUTES) db of
        Some r \<Rightarrow> (Inr (Submitted (rs_id r) (rs_submitted r) (rs_submitted r + minutes EXPECTED_COMPLETE_MINUTES) (Some (rs_id r))), db)
      | None \<Rightarrow>
      let rate_hours = rate_limit_hours (fw_env w); since = now - hours rate_hours
      in if 1 \<le> count_recent_reflect_submissions (rq_session req) since db
      then (Inr (RateLimited (retry_after now rate_hours (get_oldest_reflect_in_window (rq_session req) since db)) rate_hours), db)
      else
      let i = generate_submission_id (nat (now div 1000)) (fw_random w)
      in case create_reflect_submission (new_submission i (rq_session req) user h (rq_mode req)
                (min (rq_max_candidates req) 25) (rq_since req) now) db of
           Inl _ \<Rightarrow> (Inl (HTTPException 500), db)
         | Inr db' \<Rightarrow> (Inr (Submitted i now (now + minutes EXPECTED_COMPLETE_MINUTES) None), db')))"
  by (simp add: submit_reflection_def submit_start_def numeral_eq_Suc Let_def split: option.split sum.split)

text \<open>A submission that is queued adds one row, and then the window held none.\<close>

lemma submit_reflection_rows:
  "rf_rows (snd (submit_reflection C w req un db)) = rf_rows db
   \<or> (\<exists>r. rf_rows (snd (submit_reflection C w req un db)) = rf_rows db @ [r]
       \<and> rs_session r = rq_session req \<and> rs_submitted r = fw_now w
       \<and> (\<forall>q \<in> set (rf_rows db). \<not> reflect_in_window (rq_session req) (fw_now w - hours (rate_limit_hours (fw_env w))) q))"
  by (auto simp: submit_reflection_alone Let_def create_reflect_submission_def sql_insert_def new_submission_def
      count_recent_reflect_submissions_def Suc_le_eq table_simps split: option.split)

section \<open>Requests side by side\<close>

text \<open>Any number of requests, their transactions in any order. The log holds,
  with the session and the time of the request, when its count let it pass and
  when its row was queued. Users and the worker go on meanwhile; the worker
  changes neither the session nor the time of a row.\<close>

record submit_call =
  sc_world :: reflect_world
  sc_req :: reflect_request
  sc_user :: string
  sc_pc :: submit_pc

datatype reflect_event = Passed nat string int | Queued nat string int

record reflect_sys =
  ry_db :: reflect_db
  ry_calls :: "nat \<Rightarrow> submit_call option"
  ry_log :: "reflect_event list"

abbreviation call_now :: "submit_call \<Rightarrow> int" where "call_now c \<equiv> fw_now (sc_world c)"
abbreviation call_session :: "submit_call \<Rightarrow> string" where "call_session c \<equiv> rq_session (sc_req c)"

definition submit_events :: "nat \<Rightarrow> submit_call \<Rightarrow> submit_pc \<Rightarrow> reflect_event list" where
  "submit_events i c pc =
     (case (sc_pc c, pc) of
        (CountRecent _, InsertRow _) \<Rightarrow> [Passed i (call_session c) (call_now c)]
      | (InsertRow _, Answered (Inr _)) \<Rightarrow> [Queued i (call_session c) (call_now c)]
      | _ \<Rightarrow> [])"

definition stamp :: "reflect_row \<Rightarrow> string \<times> int" where
  "stamp r = (rs_session r, rs_submitted r)"

inductive reflect_step :: "'k prims \<Rightarrow> env \<Rightarrow> reflect_sys \<Rightarrow> reflect_sys \<Rightarrow> bool" for C env where
  arrives: "ry_calls s i = None \<Longrightarrow> fw_env w = env \<Longrightarrow> reflect_step C env s
     (s\<lparr>ry_calls := (ry_calls s)(i \<mapsto> \<lparr>sc_world = w, sc_req = req, sc_user = un, sc_pc = submit_start req\<rparr>)\<rparr>)"
| transaction: "ry_calls s i = Some c \<Longrightarrow> submit_next C (sc_world c) (sc_req c) (sc_user c) (sc_pc c) (ry_db s) = (pc, db)
     \<Longrightarrow> reflect_step C env s (s\<lparr>ry_db := db, ry_calls := (ry_calls s)(i \<mapsto> c\<lparr>sc_pc := pc\<rparr>), ry_log := ry_log s @ submit_events i c pc\<rparr>)"
| elsewhere: "map stamp (rf_rows db) = map stamp (rf_rows (ry_db s)) \<Longrightarrow> reflect_step C env s (s\<lparr>ry_db := db\<rparr>)"

definition reflect_idle :: "reflect_db \<Rightarrow> reflect_sys" where
  "reflect_idle db = \<lparr>ry_db = db\<lparr>rf_rows := []\<rparr>, ry_calls = Map.empty, ry_log = []\<rparr>"

fun queued_stamps :: "reflect_event list \<Rightarrow> (string \<times> int) list" where
  "queued_stamps [] = []"
| "queued_stamps (Passed i se t # log) = queued_stamps log"
| "queued_stamps (Queued i se t # log) = (se, t) # queued_stamps log"

lemma queued_stamps_append [simp]: "queued_stamps (xs @ ys) = queued_stamps xs @ queued_stamps ys"
  by (induction xs rule: queued_stamps.induct) auto

lemma queued_stamps_mem: "Queued i se t \<in> set log \<Longrightarrow> (se, t) \<in> set (queued_stamps log)"
  by (induction log rule: queued_stamps.induct) auto

text \<open>The log tells the truth about the table and the requests; a request that is
  about to insert has passed; whoever passed after a row of its session was
  queued is spaced from it; and whoever was queued had passed.\<close>

definition apart :: "int \<Rightarrow> int \<Rightarrow> int \<Rightarrow> bool" where
  "apart window q r \<longleftrightarrow> window - US_PER_SECOND < r - q"

definition log_ok :: "int \<Rightarrow> reflect_event list \<Rightarrow> bool" where
  "log_ok window log \<longleftrightarrow>
     (\<forall>xs ys j se r q. log = xs @ Passed j se r # ys \<longrightarrow> (se, q) \<in> set (queued_stamps xs) \<longrightarrow> apart window q r)
   \<and> (\<forall>xs ys j se r. log = xs @ Queued j se r # ys \<longrightarrow> Passed j se r \<in> set xs)"

definition reflect_inv :: "env \<Rightarrow> reflect_sys \<Rightarrow> bool" where
  "reflect_inv env s \<longleftrightarrow> map stamp (rf_rows (ry_db s)) = queued_stamps (ry_log s)
     \<and> (\<forall>i c. ry_calls s i = Some c \<longrightarrow> fw_env (sc_world c) = env
          \<and> (\<forall>u. sc_pc c = InsertRow u \<longrightarrow> Passed i (call_session c) (call_now c) \<in> set (ry_log s)))
     \<and> log_ok (hours (rate_limit_hours env)) (ry_log s)"

lemma log_ok_nil [simp]: "log_ok window []"
  by (simp add: log_ok_def)

lemma log_ok_passed:
  assumes "log_ok window log" and "\<And>q. (se, q) \<in> set (queued_stamps log) \<Longrightarrow> apart window q r"
  shows "log_ok window (log @ [Passed j se r])"
  using assms unfolding log_ok_def by (fastforce simp: append_eq_append_conv2 append_eq_Cons_conv Cons_eq_append_conv)

lemma log_ok_queued:
  assumes "log_ok window log" and "Passed j se r \<in> set log"
  shows "log_ok window (log @ [Queued j se r])"
  using assms unfolding log_ok_def by (fastforce simp: append_eq_append_conv2 append_eq_Cons_conv Cons_eq_append_conv)

lemma count_none:
  assumes "count_recent_reflect_submissions se (now - window) db = 0" and "(se, q) \<in> set (map stamp (rf_rows db))"
  shows "apart window q now"
proof -
  from assms(2) obtain r where r: "r \<in> set (rf_rows db)" "rs_session r = se" "rs_submitted r = q" by (auto simp: stamp_def)
  with assms(1) have "iso_key q < iso_key (now - window)"
    by (auto simp: count_recent_reflect_submissions_def reflect_in_window_def table_simps)
  from iso_key_less [OF this] show ?thesis by (simp add: apart_def)
qed

text \<open>A transaction queues nothing, or it is an insert and queues its request.\<close>

lemma submit_next_rows:
  assumes "submit_next C w req un pc db = (pc', db')"
  shows "map stamp (rf_rows db') = map stamp (rf_rows db)
         @ (case (pc, pc') of (InsertRow _, Answered (Inr _)) \<Rightarrow> [(rq_session req, fw_now w)] | _ \<Rightarrow> [])"
  using assms
  by (cases pc) (auto simp: Let_def create_reflect_submission_def sql_insert_def new_submission_def stamp_def
      split: option.splits if_splits sum.splits)

lemma submit_next_passes:
  "submit_next C w req un pc db = (InsertRow u, db') \<Longrightarrow>
   pc = CountRecent u \<and> count_recent_reflect_submissions (rq_session req) (fw_now w - hours (rate_limit_hours (fw_env w))) db = 0"
  by (cases pc) (auto simp: Let_def split: option.splits if_splits sum.splits)

lemma submit_start_not_insert: "submit_start req \<noteq> InsertRow u"
  by (simp add: submit_start_def)

lemma reflect_step_inv: "reflect_step C env s s' \<Longrightarrow> reflect_inv env s \<Longrightarrow> reflect_inv env s'"
proof (induction rule: reflect_step.induct)
  case (arrives s i w req un)
  then show ?case by (auto simp: reflect_inv_def submit_start_not_insert split: if_splits)
next
  case (transaction s i c pc db)
  let ?ev = "submit_events i c pc"
  from transaction have env: "fw_env (sc_world c) = env" and rows: "map stamp (rf_rows (ry_db s)) = queued_stamps (ry_log s)"
    and log: "log_ok (hours (rate_limit_hours env)) (ry_log s)" by (auto simp: reflect_inv_def)
  have "map stamp (rf_rows db) = queued_stamps (ry_log s @ ?ev)"
    using submit_next_rows [OF transaction.hyps(2)] rows
    by (auto simp: submit_events_def split: submit_pc.splits sum.splits)
  moreover have "log_ok (hours (rate_limit_hours env)) (ry_log s @ ?ev)"
  proof (cases "\<exists>u. pc = InsertRow u")
    case True
    then obtain u where "pc = InsertRow u" by blast
    with submit_next_passes transaction.hyps(2) have "sc_pc c = CountRecent u" "count_recent_reflect_submissions (call_session c)
        (call_now c - hours (rate_limit_hours env)) (ry_db s) = 0" by (fastforce simp: env)+
    moreover have "apart (hours (rate_limit_hours env)) q (call_now c)" if "(call_session c, q) \<in> set (queued_stamps (ry_log s))" for q
      using count_none [OF calculation(2)] that by (simp only: rows)
    ultimately show ?thesis using log \<open>pc = InsertRow u\<close> by (auto simp: submit_events_def intro!: log_ok_passed)
  next
    case False
    then have "?ev = [] \<or> (\<exists>u. sc_pc c = InsertRow u) \<and> ?ev = [Queued i (call_session c) (call_now c)]"
      by (auto simp: submit_events_def split: submit_pc.splits sum.splits)
    with transaction.prems transaction.hyps(1) log show ?thesis by (auto simp: reflect_inv_def intro!: log_ok_queued)
  qed
  moreover have "Passed i (call_session c) (call_now c) \<in> set (ry_log s @ ?ev)" if "pc = InsertRow u" for u
    using submit_next_passes transaction.hyps(2) that by (fastforce simp: submit_events_def)
  ultimately show ?case using transaction.prems env by (auto simp: reflect_inv_def)
next
  case (elsewhere db s)
  then show ?case by (simp add: reflect_inv_def)
qed

text \<open>C36. The rate limit. However the transactions of any requests interleave, the
  rows of the table are the queued requests, and of two queued for one session
  the second lies more than the configured window less one second after the
  first, unless it had been counted before the first was queued. (The second is
  what comparing the times as text can lose. Two requests that overlap like this
  do both get through: nothing but the count keeps them apart.)\<close>

theorem reflect_rate_limit:
  assumes "(reflect_step C env)\<^sup>*\<^sup>* (reflect_idle db) s"
  shows "map stamp (rf_rows (ry_db s)) = queued_stamps (ry_log s)
    \<and> (\<forall>xs i se q ys j r zs. ry_log s = xs @ Queued i se q # ys @ Queued j se r # zs
         \<longrightarrow> hours (rate_limit_hours env) - US_PER_SECOND < r - q \<or> Passed j se r \<in> set xs)"
proof -
  have inv: "reflect_inv env s"
    using assms by induction (simp add: reflect_inv_def reflect_idle_def, rule reflect_step_inv)
  have "hours (rate_limit_hours env) - US_PER_SECOND < r - q \<or> Passed j se r \<in> set xs"
    if log: "ry_log s = xs @ Queued i se q # ys @ Queued j se r # zs" for xs i se q ys j r zs
  proof -
    have "ry_log s = (xs @ Queued i se q # ys) @ Queued j se r # zs" using log by simp
    with inv have "Passed j se r \<in> set (xs @ Queued i se q # ys)" unfolding reflect_inv_def log_ok_def by blast
    then consider "Passed j se r \<in> set xs" | "Passed j se r \<in> set ys" by auto
    then show ?thesis
    proof cases
      case 2
      then obtain us vs where "ys = us @ Passed j se r # vs" by (meson split_list)
      with log have "ry_log s = (xs @ Queued i se q # us) @ Passed j se r # vs @ Queued j se r # zs" by simp
      moreover have "(se, q) \<in> set (queued_stamps (xs @ Queued i se q # us))" by simp
      ultimately have "apart (hours (rate_limit_hours env)) q r" using inv unfolding reflect_inv_def log_ok_def by blast
      then show ?thesis by (simp add: apart_def)
    qed simp
  qed
  with inv show ?thesis unfolding reflect_inv_def by blast
qed

lemma submit_reflection_queued:
  assumes "submit_reflection C w req un db = (Inr (Submitted i t e None), db')"
  shows "\<exists>u. reflect_request_ok req \<and> length (rq_context req) \<le> CONTEXT_MAX_CHARS
    \<and> db' = db\<lparr>rf_rows := rf_rows db @ [new_submission i (rq_session req) u (context_hash C (rq_context req)) (rq_mode req)
        (min (rq_max_candidates req) 25) (rq_since req) (fw_now w)]\<rparr>
    \<and> t = fw_now w \<and> e = fw_now w + minutes EXPECTED_COMPLETE_MINUTES"
proof -
  have *: "reflect_request_ok req" "\<not> CONTEXT_MAX_CHARS < length (rq_context req)"
    using assms unfolding submit_reflection_alone by (auto split: if_split_asm)
  obtain u where u: "get_user db un = Some u"
    using assms unfolding submit_reflection_alone by (cases "get_user db un") (auto split: if_split_asm)
  have "find_recent_reflect_dedup (rq_session req) (context_hash C (rq_context req)) (fw_now w - minutes DEDUP_WINDOW_MINUTES) db = None"
    using assms * u unfolding submit_reflection_alone Let_def
    by (cases "find_recent_reflect_dedup (rq_session req) (context_hash C (rq_context req)) (fw_now w - minutes DEDUP_WINDOW_MINUTES) db")
      (auto split: if_split_asm)
  with assms * u show ?thesis
    unfolding submit_reflection_alone Let_def create_reflect_submission_def sql_insert_def
    by (intro exI [of _ u]) (auto simp: new_submission_def split: if_split_asm)
qed

text \<open>
  A repeated submission is the same submission. What was queued once and is sent
  again, to the same session and before half an hour less a second has passed,
  is answered with the id it has, and nothing is queued.\<close>

theorem repeated_reflection_deduped:
  assumes "submit_reflection C w req un db = (Inr (Submitted i t e None), db')"
    and "fw_now w \<le> fw_now w'" and "fw_now w' < fw_now w + minutes DEDUP_WINDOW_MINUTES - US_PER_SECOND"
    and "rq_session req' = rq_session req" and "rq_context req' = rq_context req" and "rq_mode req' = ''nightly''"
    and "1 \<le> rq_max_candidates req'" and "get_user db un' = Some user"
  shows "submit_reflection C w' req' un' db' = (Inr (Submitted i t e (Some i)), db')"
proof -
  let ?h = "context_hash C (rq_context req)" and ?since = "fw_now w' - minutes DEDUP_WINDOW_MINUTES"
  from submit_reflection_queued [OF assms(1)] obtain u where ok: "reflect_request_ok req" "length (rq_context req) \<le> CONTEXT_MAX_CHARS"
    and new: "db' = db\<lparr>rf_rows := rf_rows db @ [new_submission i (rq_session req) u ?h (rq_mode req)
        (min (rq_max_candidates req) 25) (rq_since req) (fw_now w)]\<rparr>"
    and ans: "t = fw_now w" "e = fw_now w + minutes EXPECTED_COMPLETE_MINUTES" by blast
  let ?r = "new_submission i (rq_session req) u ?h (rq_mode req) (min (rq_max_candidates req) 25) (rq_since req) (fw_now w)"
  have r: "rs_id ?r = i" "rs_session ?r = rq_session req" "rs_hash ?r = ?h" "rs_submitted ?r = fw_now w"
    by (simp_all add: new_submission_def)
  have none: "\<not> reflect_in_window (rq_session req) (fw_now w - hours (rate_limit_hours (fw_env w))) q" if "q \<in> set (rf_rows db)" for q
    using submit_reflection_rows [of C w req un db] assms(1) new that by auto
  have old: "\<not> reflect_in_window (rq_session req) ?since q" if "q \<in> set (rf_rows db)" for q
  proof
    assume "reflect_in_window (rq_session req) ?since q"
    then have "iso_key ?since < iso_key (fw_now w - hours (rate_limit_hours (fw_env w)))"
      using none [OF that] by (simp add: reflect_in_window_def)
    from iso_key_less [OF this] rate_limit_hours_pos [of "fw_env w"] assms(2) show False
      by (simp add: minutes_def hours_def DEDUP_WINDOW_MINUTES_def US_PER_SECOND_def)
  qed
  have "iso_key ?since \<le> iso_key (fw_now w)"
    using iso_key_bounds [of ?since] iso_key_bounds [of "fw_now w"] assms(3) by linarith
  then have "reflect_in_window (rq_session req) ?since ?r" by (simp add: reflect_in_window_def r)
  moreover have "filter (\<lambda>r. reflect_in_window (rq_session req) ?since r \<and> rs_hash r = ?h) (rf_rows db) = []"
    using old by (simp add: filter_empty_conv)
  ultimately have "filter (\<lambda>r. reflect_in_window (rq_session req) ?since r \<and> rs_hash r = ?h) (rf_rows db') = [?r]"
    unfolding new by (simp add: r)
  then have "find_recent_reflect_dedup (rq_session req) ?h ?since db' = Some ?r"
    by (simp add: find_recent_reflect_dedup_def order_desc_def first_row_def)
  moreover have "get_user db' un' = Some user" using assms(8) new by (simp add: get_user_def)
  moreover have "reflect_request_ok req'" using ok(1) assms(4,5,7) by (simp add: reflect_request_ok_def)
  ultimately show ?thesis
    using ok(2) assms(4-6) by (simp add: submit_reflection_alone Let_def r ans)
qed

section \<open>Reading back\<close>

text \<open>
  Submissions are read within one Enterprise. Whatever id or session a caller
  asks for, the row that is returned belongs to the caller's Enterprise, and its state is
  one of the five of the contract.\<close>

theorem reflection_read_in_tenant:
  assumes "get_user db un = Some user"
  shows "(case get_status i un db of Inl _ \<Rightarrow> True
      | Inr r \<Rightarrow> rs_enterprise r = us_enterprise_id user \<and> rs_id r = i
          \<and> rs_state r \<in> {''queued'', ''batching'', ''polling'', ''complete'', ''failed''})
    \<and> (case get_last session un db of Inr (Some r) \<Rightarrow> rs_enterprise r = us_enterprise_id user \<and> rs_session r = session
          \<and> rs_state r \<in> {''queued'', ''batching'', ''polling'', ''complete'', ''failed''} | _ \<Rightarrow> True)"
proof -
  have "rs_session r = session \<and> rs_enterprise r = us_enterprise_id user"
    if "get_last_reflect_for_session session (us_enterprise_id user) db = Some r" for r
  proof -
    from first_row_mem [OF that [unfolded get_last_reflect_for_session_def]]
    have "r \<in> set (filter (\<lambda>r. rs_session r = session \<and> rs_enterprise r = us_enterprise_id user) (rf_rows db))"
      unfolding set_order_desc .
    then show ?thesis by simp
  qed
  note last = this
  have safe: "safe_state s \<in> {''queued'', ''batching'', ''polling'', ''complete'', ''failed''}" for s
    by (simp add: safe_state_def)
  show ?thesis
  proof (rule conjI)
    show "case get_status i un db of Inl _ \<Rightarrow> True
      | Inr r \<Rightarrow> rs_enterprise r = us_enterprise_id user \<and> rs_id r = i
          \<and> rs_state r \<in> {''queued'', ''batching'', ''polling'', ''complete'', ''failed''}"
    proof (cases "get_status i un db")
      case (Inr r)
      then obtain q where q: "get_reflect_submission i db = Some q" "rs_enterprise q = us_enterprise_id user"
          "r = q\<lparr>rs_state := safe_state (rs_state q)\<rparr>"
        using assms unfolding get_status_def by (auto split: if_split_asm option.split_asm)
      moreover have "rs_id q = i" using sql_fetchone_SomeD [OF q(1) [unfolded get_reflect_submission_def]] by simp
      ultimately show ?thesis using Inr safe [of "rs_state q"] by (simp del: insert_iff)
    qed simp
    show "case get_last session un db of Inr (Some r) \<Rightarrow> rs_enterprise r = us_enterprise_id user \<and> rs_session r = session
          \<and> rs_state r \<in> {''queued'', ''batching'', ''polling'', ''complete'', ''failed''} | _ \<Rightarrow> True"
    proof (cases "get_last_reflect_for_session session (us_enterprise_id user) db")
      case None
      then show ?thesis using assms by (simp add: get_last_def)
    next
      case (Some q)
      then show ?thesis using assms last [OF Some] safe [of "rs_state q"] by (simp add: get_last_def del: insert_iff)
    qed
  qed
qed

section \<open>Concrete runs\<close>

definition demo_reflect_user :: user_row where
  "demo_reflect_user = \<lparr>us_id = 1, us_username = ''ann'', us_password_hash = [], us_created_at = [], us_role = ''user'',
     us_enterprise_id = ''acme'', us_group_id = ''eng'', us_email = None\<rparr>"

definition demo_reflect_db :: reflect_db where
  "demo_reflect_db = \<lparr>db_users = [demo_reflect_user], db_user_seq = 2, rf_rows = []\<rparr>"

definition demo_reflect_world :: "int \<Rightarrow> reflect_world" where
  "demo_reflect_world now = \<lparr>fw_env = (\<lambda>_. None), fw_now = now, fw_random = ''AAAABBBBCCCCDDDD''\<rparr>"

definition demo_reflect_request :: reflect_request where
  "demo_reflect_request = \<lparr>rq_session = ''s/1'', rq_context = ''talk'', rq_since = None, rq_mode = ''nightly'', rq_max_candidates = 10\<rparr>"

definition demo_sub_id :: string where
  "demo_sub_id = generate_submission_id 1000 ''AAAABBBBCCCCDDDD''"

definition demo_reflected :: reflect_db where
  "demo_reflected = demo_reflect_db\<lparr>rf_rows := [new_submission demo_sub_id ''s/1'' demo_reflect_user
     (context_hash demo_prims ''talk'') ''nightly'' 10 None 1000000]\<rparr>"

lemma demo_session_ok: "session_id_ok ''s/1''"
  by (simp add: session_id_ok_def code_point_def Let_def)

lemma demo_submitted:
  "submit_reflection demo_prims (demo_reflect_world 1000000) demo_reflect_request ''ann'' demo_reflect_db
   = (Inr (Submitted demo_sub_id 1000000 1801000000 None), demo_reflected)"
  by (simp add: submit_reflection_alone Let_def demo_reflect_request_def reflect_request_ok_def demo_session_ok
      CONTEXT_MAX_CHARS_def demo_reflect_db_def get_user_def sql_fetchone_def demo_reflect_user_def
      find_recent_reflect_dedup_def count_recent_reflect_submissions_def sql_rowcount_def order_desc_def first_row_def
      create_reflect_submission_def sql_insert_def demo_reflected_def demo_reflect_world_def demo_sub_id_def
      EXPECTED_COMPLETE_MINUTES_def minutes_def US_PER_SECOND_def)

lemma demo_reflect_users:
  "get_user demo_reflect_db ''ann'' = Some demo_reflect_user" "get_user demo_reflected ''ann'' = Some demo_reflect_user"
  by (simp_all add: get_user_def sql_fetchone_def demo_reflected_def demo_reflect_db_def demo_reflect_user_def)

lemma repeated_reflection_deduped_witness:
  "submit_reflection demo_prims (demo_reflect_world 61000000) demo_reflect_request ''ann'' demo_reflected
   = (Inr (Submitted demo_sub_id 1000000 1801000000 (Some demo_sub_id)), demo_reflected)"
  by (rule repeated_reflection_deduped [OF demo_submitted _ _ refl refl _ _ demo_reflect_users(1)])
    (simp_all add: demo_reflect_world_def demo_reflect_request_def minutes_def DEDUP_WINDOW_MINUTES_def US_PER_SECOND_def)

text \<open>Two requests of one session, counted both before either inserts.\<close>

definition demo_call :: "string \<Rightarrow> submit_pc \<Rightarrow> submit_call" where
  "demo_call random pc = \<lparr>sc_world = (demo_reflect_world 1000000)\<lparr>fw_random := random\<rparr>, sc_req = demo_reflect_request,
     sc_user = ''ann'', sc_pc = pc\<rparr>"

definition demo_both :: "submit_pc \<Rightarrow> submit_pc \<Rightarrow> reflect_row list \<Rightarrow> reflect_event list \<Rightarrow> reflect_sys" where
  "demo_both p q rows log = \<lparr>ry_db = demo_reflect_db\<lparr>rf_rows := rows\<rparr>,
     ry_calls = [1 \<mapsto> demo_call ''A'' p, 2 \<mapsto> demo_call ''B'' q], ry_log = log\<rparr>"

definition demo_row :: "string \<Rightarrow> reflect_row" where
  "demo_row random = new_submission (generate_submission_id 1000 random) ''s/1'' demo_reflect_user
     (context_hash demo_prims ''talk'') ''nightly'' 10 None 1000000"

definition demo_queued :: "string \<Rightarrow> submit_pc" where
  "demo_queued random = Answered (Inr (Submitted (generate_submission_id 1000 random) 1000000 1801000000 None))"

abbreviation demo_next :: "string \<Rightarrow> submit_pc \<Rightarrow> reflect_row list \<Rightarrow> submit_pc \<times> reflect_db" where
  "demo_next random pc rows \<equiv> submit_next demo_prims (sc_world (demo_call random pc)) demo_reflect_request ''ann'' pc
     (demo_reflect_db\<lparr>rf_rows := rows\<rparr>)"

lemma demo_both_steps:
  assumes "(reflect_step demo_prims (\<lambda>_. None))\<^sup>*\<^sup>* s0 (demo_both p q rows log)"
  shows "demo_next ''A'' p rows = (p', demo_reflect_db\<lparr>rf_rows := rows'\<rparr>) \<Longrightarrow>
      (reflect_step demo_prims (\<lambda>_. None))\<^sup>*\<^sup>* s0 (demo_both p' q rows' (log @ submit_events 1 (demo_call ''A'' p) p'))"
    and "demo_next ''B'' q rows = (q', demo_reflect_db\<lparr>rf_rows := rows'\<rparr>) \<Longrightarrow>
      (reflect_step demo_prims (\<lambda>_. None))\<^sup>*\<^sup>* s0 (demo_both p q' rows' (log @ submit_events 2 (demo_call ''B'' q) q'))"
proof -
  let ?s = "demo_both p q rows log"
  have c: "ry_calls ?s 1 = Some (demo_call ''A'' p)" "ry_calls ?s 2 = Some (demo_call ''B'' q)" by (simp_all add: demo_both_def)
  {
    assume "demo_next ''A'' p rows = (p', demo_reflect_db\<lparr>rf_rows := rows'\<rparr>)"
    then have "reflect_step demo_prims (\<lambda>_. None) ?s (demo_both p' q rows' (log @ submit_events 1 (demo_call ''A'' p) p'))"
      using transaction [of ?s 1, OF c(1), of demo_prims p' "demo_reflect_db\<lparr>rf_rows := rows'\<rparr>" "\<lambda>_. None"]
      by (simp add: demo_both_def demo_call_def fun_upd_twist)
    with assms show "(reflect_step demo_prims (\<lambda>_. None))\<^sup>*\<^sup>* s0 (demo_both p' q rows' (log @ submit_events 1 (demo_call ''A'' p) p'))"
      by (rule rtranclp.rtrancl_into_rtrancl)
  next
    assume "demo_next ''B'' q rows = (q', demo_reflect_db\<lparr>rf_rows := rows'\<rparr>)"
    then have "reflect_step demo_prims (\<lambda>_. None) ?s (demo_both p q' rows' (log @ submit_events 2 (demo_call ''B'' q) q'))"
      using transaction [of ?s 2, OF c(2), of demo_prims q' "demo_reflect_db\<lparr>rf_rows := rows'\<rparr>" "\<lambda>_. None"]
      by (simp add: demo_both_def demo_call_def)
    with assms show "(reflect_step demo_prims (\<lambda>_. None))\<^sup>*\<^sup>* s0 (demo_both p q' rows' (log @ submit_events 2 (demo_call ''B'' q) q'))"
      by (rule rtranclp.rtrancl_into_rtrancl)
  }
qed

lemma demo_next_simps:
  "demo_next random LoadUser [] = (FindDedup demo_reflect_user, demo_reflect_db\<lparr>rf_rows := []\<rparr>)"
  "demo_next random (FindDedup demo_reflect_user) [] = (CountRecent demo_reflect_user, demo_reflect_db\<lparr>rf_rows := []\<rparr>)"
  "demo_next random (CountRecent demo_reflect_user) [] = (InsertRow demo_reflect_user, demo_reflect_db\<lparr>rf_rows := []\<rparr>)"
  "demo_next ''A'' (InsertRow demo_reflect_user) [] = (demo_queued ''A'', demo_reflect_db\<lparr>rf_rows := [demo_row ''A'']\<rparr>)"
  "demo_next ''B'' (InsertRow demo_reflect_user) [demo_row ''A''] = (demo_queued ''B'', demo_reflect_db\<lparr>rf_rows := [demo_row ''A'', demo_row ''B'']\<rparr>)"
  by (simp_all add: demo_call_def demo_reflect_world_def demo_reflect_request_def get_user_def demo_reflect_db_def sql_fetchone_def
      demo_reflect_user_def find_recent_reflect_dedup_def order_desc_def first_row_def count_recent_reflect_submissions_def sql_rowcount_def
      create_reflect_submission_def sql_insert_def demo_row_def demo_queued_def new_submission_def generate_submission_id_def
      EXPECTED_COMPLETE_MINUTES_def minutes_def US_PER_SECOND_def Let_def)

lemma demo_race:
  "(reflect_step demo_prims (\<lambda>_. None))\<^sup>*\<^sup>* (reflect_idle demo_reflect_db)
     (demo_both (demo_queued ''A'') (demo_queued ''B'') [demo_row ''A'', demo_row ''B'']
        [Passed 1 ''s/1'' 1000000, Passed 2 ''s/1'' 1000000, Queued 1 ''s/1'' 1000000, Queued 2 ''s/1'' 1000000])"
proof -
  let ?R = "(reflect_step demo_prims (\<lambda>_. None))\<^sup>*\<^sup>* (reflect_idle demo_reflect_db)"
  let ?s1 = "(reflect_idle demo_reflect_db)\<lparr>ry_calls := [1 \<mapsto> demo_call ''A'' LoadUser]\<rparr>"
  have start: "submit_start demo_reflect_request = LoadUser"
    by (simp add: submit_start_def demo_reflect_request_def reflect_request_ok_def demo_session_ok CONTEXT_MAX_CHARS_def)
  have "reflect_step demo_prims (\<lambda>_. None) (reflect_idle demo_reflect_db) ?s1"
    using arrives [of "reflect_idle demo_reflect_db" 1 "sc_world (demo_call ''A'' LoadUser)" "\<lambda>_. None" demo_prims demo_reflect_request "''ann''"]
    by (simp add: reflect_idle_def demo_call_def demo_reflect_world_def start)
  moreover have "reflect_step demo_prims (\<lambda>_. None) ?s1 (demo_both LoadUser LoadUser [] [])"
    using arrives [of ?s1 2 "sc_world (demo_call ''B'' LoadUser)" "\<lambda>_. None" demo_prims demo_reflect_request "''ann''"]
    by (simp add: reflect_idle_def demo_call_def demo_reflect_world_def start demo_both_def)
  ultimately have "?R (demo_both LoadUser LoadUser [] [])" by simp
  note demo_both_steps(1) [OF this demo_next_simps(1)]
  note demo_both_steps(2) [OF this demo_next_simps(1)]
  note demo_both_steps(1) [OF this demo_next_simps(2)]
  note demo_both_steps(2) [OF this demo_next_simps(2)]
  note demo_both_steps(1) [OF this demo_next_simps(3)]
  note demo_both_steps(2) [OF this demo_next_simps(3)]
  note demo_both_steps(1) [OF this demo_next_simps(4)]
  note demo_both_steps(2) [OF this demo_next_simps(5)]
  then show ?thesis
    by (simp add: submit_events_def demo_call_def demo_reflect_world_def demo_reflect_request_def demo_queued_def)
qed

text \<open>So both are queued, at the same time; the theorem holds of them by its second case.\<close>

lemma reflect_rate_limit_witness:
  "\<exists>s. (reflect_step demo_prims (\<lambda>_. None))\<^sup>*\<^sup>* (reflect_idle demo_reflect_db) s
     \<and> map stamp (rf_rows (ry_db s)) = [(''s/1'', 1000000), (''s/1'', 1000000)] \<and> Passed 2 ''s/1'' 1000000 \<in> set (take 2 (ry_log s))"
proof -
  let ?s = "demo_both (demo_queued ''A'') (demo_queued ''B'') [demo_row ''A'', demo_row ''B'']
        [Passed 1 ''s/1'' 1000000, Passed 2 ''s/1'' 1000000, Queued 1 ''s/1'' 1000000, Queued 2 ''s/1'' 1000000]"
  have log: "ry_log ?s = [Passed 1 ''s/1'' 1000000, Passed 2 ''s/1'' 1000000] @ Queued 1 ''s/1'' 1000000 # []
      @ Queued 2 ''s/1'' 1000000 # []" by (simp add: demo_both_def)
  have "\<not> hours (rate_limit_hours (\<lambda>_. None)) - US_PER_SECOND < 1000000 - 1000000"
    using rate_limit_hours_pos [of "\<lambda>_. None"] by (simp add: hours_def US_PER_SECOND_def)
  with reflect_rate_limit [OF demo_race] log
  have "Passed 2 ''s/1'' 1000000 \<in> set [Passed 1 ''s/1'' 1000000, Passed 2 ''s/1'' 1000000]"
    "map stamp (rf_rows (ry_db ?s)) = queued_stamps (ry_log ?s)" by blast+
  with demo_race log show ?thesis by (intro exI [of _ ?s]) simp
qed

lemma reflection_read_in_tenant_witness:
  "case get_status demo_sub_id ''ann'' demo_reflected of Inl _ \<Rightarrow> False | Inr r \<Rightarrow> rs_enterprise r = ''acme''"
proof -
  have "\<exists>r. get_status demo_sub_id ''ann'' demo_reflected = Inr r"
    using demo_reflect_users(2)
    by (simp add: get_status_def get_reflect_submission_def sql_fetchone_def demo_reflected_def new_submission_def
        demo_sub_id_def generate_submission_id_def demo_reflect_user_def)
  then obtain r where r: "get_status demo_sub_id ''ann'' demo_reflected = Inr r" ..
  from reflection_read_in_tenant [OF demo_reflect_users(2), of demo_sub_id "''s''"] r
  have "rs_enterprise r = us_enterprise_id demo_reflect_user" by (simp del: insert_iff)
  with r show ?thesis by (simp add: demo_reflect_user_def)
qed

end
