(* ===== verification/ManualPeers.thy ===== *)
theory ManualPeers imports ConsentProps begin

text \<open>
  \<open>aigrp_peer_routes.py\<close> and \<open>aigrp_directory_peer_routes.py\<close>: an administrator enters a
  sibling L2, or an L2 of another Enterprise, by hand, for deployments without a
  directory. Parameters: \<open>point\<close>, which strings of bytes are points of the curve;
  \<open>pack\<close>, which is \<open>struct.pack\<close> on a list of floats; \<open>b64\<close>, the strict
  \<open>base64.b64decode\<close>; and \<open>expiry\<close>, the ISO time a number of days from now. The JSON of
  an announced endpoint leaves out its centroid, whose floats \<open>Json\<close> does not have.
\<close>

section \<open>Checks\<close>

definition validate_l2_id :: "string \<Rightarrow> string \<Rightarrow> string \<Rightarrow> http_exc + unit" where
  "validate_l2_id l2 ent grp =
     (case partition_on (CHR ''/'') l2 of
        (e, sep, g) \<Rightarrow> if sep = [] then Inl (HTTPException 422)
                       else if e \<noteq> ent \<or> g \<noteq> grp then Inl (HTTPException 422) else Inr ())"

definition ED25519_PUBLIC_KEY_SIZE :: nat where "ED25519_PUBLIC_KEY_SIZE = 32"

definition validate_pubkey_ed25519 :: "(bytes \<Rightarrow> bool) \<Rightarrow> string \<Rightarrow> bool" where
  "validate_pubkey_ed25519 point pubkey =
     (case b64u_decode pubkey of
        Inl _ \<Rightarrow> False
      | Inr raw \<Rightarrow> length raw = ED25519_PUBLIC_KEY_SIZE \<and> point raw)"

definition len_ok :: "nat \<Rightarrow> nat \<Rightarrow> string \<Rightarrow> bool" where
  "len_ok lo hi s \<longleftrightarrow> lo \<le> length s \<and> length s \<le> hi"

datatype pack_result = Packed bytes | StructError | Overflow

definition pack_centroid :: "('f list \<Rightarrow> pack_result) \<Rightarrow> 'f list option \<Rightarrow> http_exc + bytes option" where
  "pack_centroid pack values =
     (case values of None \<Rightarrow> Inr None
      | Some [] \<Rightarrow> Inr None
      | Some fs \<Rightarrow> (case pack fs of Packed b \<Rightarrow> Inr (Some b) | StructError \<Rightarrow> Inl (HTTPException 422)
                     | Overflow \<Rightarrow> Inl (HTTPException 500)))"

definition decode_bloom :: "(string \<Rightarrow> bytes option) \<Rightarrow> string option \<Rightarrow> http_exc + bytes option" where
  "decode_bloom b64 text =
     (case text of None \<Rightarrow> Inr None
      | Some [] \<Rightarrow> Inr None
      | Some s \<Rightarrow> (case b64 (s @ replicate ((4 - length s mod 4) mod 4) (CHR ''='')) of
                     None \<Rightarrow> Inl (HTTPException 422) | Some b \<Rightarrow> Inr (Some b)))"

section \<open>A sibling by hand\<close>

record 'f announce_request =
  an_l2_id :: string
  an_enterprise :: string
  an_group :: string
  an_endpoint :: string
  an_pubkey :: string
  an_centroid :: "'f list option"
  an_bloom :: "string option"
  an_ku_count :: int
  an_domain_count :: int
  an_model :: "string option"

definition announce_request_ok :: "('f, 'z) announce_request_scheme \<Rightarrow> bool" where
  "announce_request_ok r \<longleftrightarrow> len_ok 3 128 (an_l2_id r) \<and> len_ok 1 64 (an_enterprise r) \<and> len_ok 1 64 (an_group r)
     \<and> len_ok 7 512 (an_endpoint r) \<and> len_ok 1 128 (an_pubkey r) \<and> 0 \<le> an_ku_count r \<and> 0 \<le> an_domain_count r
     \<and> (case an_model r of None \<Rightarrow> True | Some m \<Rightarrow> length m \<le> 128)"

definition manual_audit :: "'k l2_world \<Rightarrow> string \<Rightarrow> string option \<Rightarrow> string \<Rightarrow> string \<Rightarrow> ('f, 'z) announce_request_scheme \<Rightarrow> audit_row" where
  "manual_audit w ent grp admin policy r =
     \<lparr>au_id = lw_hex_msg w, au_ts = lw_iso w, au_req_l2 = None, au_req_enterprise = Some ent, au_req_group = grp,
      au_req_persona = Some admin, au_resp_l2 = Some (an_l2_id r), au_resp_enterprise = Some (an_enterprise r),
      au_resp_group = Some (an_group r), au_policy = policy, au_count = 1, au_consent = None\<rparr>"

text \<open>A failing audit write is logged and swallowed.\<close>

definition try_audit :: "audit_row \<Rightarrow> 'a fed_state_scheme \<Rightarrow> 'a fed_state_scheme" where
  "try_audit a st = (case record_cross_l2_audit a st of Inl _ \<Rightarrow> st | Inr st' \<Rightarrow> st')"

definition announce_peer :: "(bytes \<Rightarrow> bool) \<Rightarrow> ('f list \<Rightarrow> pack_result) \<Rightarrow> (string \<Rightarrow> bytes option) \<Rightarrow> 'k l2_world
    \<Rightarrow> 'f announce_request \<Rightarrow> string \<Rightarrow> 'a fed_state_scheme \<Rightarrow> (http_exc + peer_row \<times> string) \<times> 'a fed_state_scheme" where
  "announce_peer point pack b64 w req username st =
     (case require_admin st username of
        Inl e \<Rightarrow> (Inl e, st)
      | Inr admin \<Rightarrow>
      if \<not> announce_request_ok req then (Inl (HTTPException 422), st)
      else case validate_l2_id (an_l2_id req) (an_enterprise req) (an_group req) of
        Inl e \<Rightarrow> (Inl e, st)
      | Inr _ \<Rightarrow>
      if \<not> validate_pubkey_ed25519 point (an_pubkey req) then (Inl (HTTPException 400), st)
      else case get_user st admin of
        None \<Rightarrow> (Inl (HTTPException 401), st)
      | Some user \<Rightarrow>
      if us_enterprise_id user \<noteq> an_enterprise req then (Inl (HTTPException 422), st)
      else case pack_centroid pack (an_centroid req) of
        Inl e \<Rightarrow> (Inl e, st)
      | Inr centroid \<Rightarrow>
      case decode_bloom b64 (an_bloom req) of
        Inl e \<Rightarrow> (Inl e, st)
      | Inr bloom \<Rightarrow>
      let st1 = upsert_aigrp_peer (lw_iso w) (an_l2_id req) (an_enterprise req) (an_group req) (an_endpoint req) centroid bloom
                  (an_ku_count req) (an_domain_count req) (an_model req) True (Some (an_pubkey req)) st;
          st2 = try_audit (manual_audit w (an_enterprise req) (Some (an_group req)) admin ''manual_peer_announce'' req) st1
      in (case List.find (\<lambda>p. ap_l2_id p = an_l2_id req) (list_aigrp_peers (an_enterprise req) st2) of
            None \<Rightarrow> (Inl (HTTPException 500), st2)
          | Some p \<Rightarrow> (Inr (p, lw_hex_msg w), st2)))"

section \<open>An L2 of another Enterprise by hand\<close>

record 'f directory_announce_request = "'f announce_request" +
  an_aaisn :: "string option"
  an_ttl_days :: "int option"

definition directory_request_ok :: "'f directory_announce_request \<Rightarrow> bool" where
  "directory_request_ok r \<longleftrightarrow> announce_request_ok r
     \<and> (case an_aaisn r of None \<Rightarrow> True | Some s \<Rightarrow> length s \<le> 64)
     \<and> (case an_ttl_days r of None \<Rightarrow> True | Some n \<Rightarrow> 1 \<le> n \<and> n \<le> 365)"

definition DEFAULT_TTL_DAYS :: int where "DEFAULT_TTL_DAYS = 30"

definition build_offer_id :: "string \<Rightarrow> string \<Rightarrow> string \<Rightarrow> string" where
  "build_offer_id a b l2 = ''manual:'' @ a @ '':'' @ b @ '':'' @ l2"

text \<open>\<open>json.dumps\<close> with its default \<open>ensure_ascii\<close>: what is not printable ASCII can only
  stand inside a string, and is escaped there.\<close>

definition ensure_ascii :: "string \<Rightarrow> string" where
  "ensure_ascii s = concat (map (\<lambda>c. let n = code_point c
     in if n < 127 then [c] else CHR 0x5C # ''u00'' @ [hex_digit (n div 16), hex_digit (n mod 16)]) s)"

definition manual_envelope_blob :: "string \<Rightarrow> string \<Rightarrow> string \<Rightarrow> string \<Rightarrow> string \<Rightarrow> string \<Rightarrow> string" where
  "manual_envelope_blob admin role a b l2 ts =
     ensure_ascii (dumps (JObj [(''source'', JStr ''manual_directory_peer_announce''), (''role'', JStr role),
       (''admin_persona'', JStr admin), (''from_enterprise'', JStr a), (''to_enterprise'', JStr b),
       (''peer_l2_id'', JStr l2), (''ts'', JStr ts)]))"

definition opt_entry :: "string \<Rightarrow> string option \<Rightarrow> (string \<times> json) list" where
  "opt_entry k v = (case v of None \<Rightarrow> [] | Some s \<Rightarrow> [(k, JStr s)])"

definition count_entry :: "string \<Rightarrow> int \<Rightarrow> (string \<times> json) list" where
  "count_entry k n = (if n = 0 then [] else [(k, JInt n)])"

definition endpoint_entry :: "'f directory_announce_request \<Rightarrow> json" where
  "endpoint_entry req =
     JObj ([(''l2_id'', JStr (an_l2_id req)), (''endpoint_url'', JStr (an_endpoint req)),
            (''pubkey'', JStr (an_pubkey req)), (''group'', JStr (an_group req))]
       @ opt_entry ''aaisn'' (an_aaisn req) @ opt_entry ''embedding_model'' (an_model req)
       @ count_entry ''ku_count'' (an_ku_count req) @ count_entry ''domain_count'' (an_domain_count req)
       @ opt_entry ''domain_bloom'' (an_bloom req))"

definition manual_peering :: "'k l2_world \<Rightarrow> (int \<Rightarrow> string) \<Rightarrow> string \<Rightarrow> string \<Rightarrow> 'f directory_announce_request \<Rightarrow> peering_row" where
  "manual_peering w expiry admin ent req =
     \<lparr>pe_offer_id = build_offer_id ent (an_enterprise req) (an_l2_id req), pe_from = ent, pe_to = an_enterprise req,
      pe_status = ''active'', pe_content_policy = ''manual'', pe_logging_policy = ''manual'', pe_topic_filters = ''[]'',
      pe_active_from = Some (lw_iso w),
      pe_expires_at = expiry (case an_ttl_days req of None \<Rightarrow> DEFAULT_TTL_DAYS | Some n \<Rightarrow> n),
      pe_offer_payload = manual_envelope_blob admin ''offer'' ent (an_enterprise req) (an_l2_id req) (lw_iso w),
      pe_offer_signature = [], pe_offer_key_id = an_pubkey req,
      pe_accept_payload = manual_envelope_blob admin ''accept'' ent (an_enterprise req) (an_l2_id req) (lw_iso w),
      pe_accept_signature = [], pe_accept_key_id = an_pubkey req, pe_last_synced = lw_iso w,
      pe_endpoints = ensure_ascii (dumps (JArr [endpoint_entry req]))\<rparr>"

definition announce_directory_peering :: "(bytes \<Rightarrow> bool) \<Rightarrow> (int \<Rightarrow> string) \<Rightarrow> 'k l2_world
    \<Rightarrow> 'f directory_announce_request \<Rightarrow> string \<Rightarrow> 'a fed_state_scheme
    \<Rightarrow> (http_exc + peering_row \<times> string) \<times> 'a fed_state_scheme" where
  "announce_directory_peering point expiry w req username st =
     (case require_admin st username of
        Inl e \<Rightarrow> (Inl e, st)
      | Inr admin \<Rightarrow>
      if \<not> directory_request_ok req then (Inl (HTTPException 422), st)
      else case validate_l2_id (an_l2_id req) (an_enterprise req) (an_group req) of
        Inl e \<Rightarrow> (Inl e, st)
      | Inr _ \<Rightarrow>
      if \<not> validate_pubkey_ed25519 point (an_pubkey req) then (Inl (HTTPException 400), st)
      else case get_user st admin of
        None \<Rightarrow> (Inl (HTTPException 401), st)
      | Some user \<Rightarrow>
      let ent = us_enterprise_id user
      in if an_enterprise req = ''default-enterprise'' then (Inl (HTTPException 422), st)
      else if ent = ''default-enterprise'' then (Inl (HTTPException 403), st)
      else if ent = an_enterprise req then (Inl (HTTPException 422), st)
      else let p = manual_peering w expiry admin ent req;
               st1 = upsert_directory_peering p st;
               st2 = try_audit (manual_audit w ent (Some (us_group_id user)) admin ''manual_directory_peer_announce'' req) st1
      in (Inr (p, lw_hex_msg w), st2))"

section \<open>The announced endpoint is found\<close>

definition ascii :: "string \<Rightarrow> bool" where
  "ascii s \<longleftrightarrow> list_all (\<lambda>c. code_point c < 127) s"

fun ascii_json :: "json \<Rightarrow> bool" where
  "ascii_json (JStr s) = ascii s"
| "ascii_json (JArr vs) = list_all ascii_json vs"
| "ascii_json (JObj kvs) = list_all (\<lambda>(k, v). ascii k \<and> ascii_json v) kvs"
| "ascii_json _ = True"

lemma ascii_simps [simp]: "ascii []" "ascii (c # s) \<longleftrightarrow> code_point c < 127 \<and> ascii s"
  "ascii (s @ t) \<longleftrightarrow> ascii s \<and> ascii t"
  by (simp_all add: ascii_def)

lemma ensure_ascii_id: "ascii s \<Longrightarrow> ensure_ascii s = s"
  by (induction s) (auto simp: ensure_ascii_def)

lemma ascii_hex_digit: "n < 16 \<Longrightarrow> code_point (hex_digit n) < 127"
proof -
  have "list_all (\<lambda>n. code_point (hex_digit n) < 127) [0..<16]" by code_simp
  then show "n < 16 \<Longrightarrow> code_point (hex_digit n) < 127" by (simp add: list_all_iff)
qed

lemma ascii_esc_char: "code_point c < 127 \<Longrightarrow> ascii (esc_char c)"
proof -
  assume c: "code_point c < 127"
  have lits: "ascii [CHR 0x5C, CHR 0x22]" "ascii [CHR 0x5C, CHR 0x5C]" "ascii [CHR 0x5C, CHR ''b'']"
    "ascii [CHR 0x5C, CHR ''t'']" "ascii [CHR 0x5C, CHR ''n'']" "ascii [CHR 0x5C, CHR ''f'']" "ascii [CHR 0x5C, CHR ''r'']"
    "ascii [CHR 0x5C, CHR ''u'', CHR ''0'', CHR ''0'']"
    by (simp_all add: code_point_def)
  have "ascii ([CHR 0x5C, CHR ''u'', CHR ''0'', CHR ''0''] @ [hex_digit (n div 16), hex_digit (n mod 16)])" if "n < 32" for n
    unfolding ascii_simps(3) using lits(8) that by (simp add: ascii_hex_digit)
  then show ?thesis
    using c lits unfolding esc_char_def Let_def by (auto simp del: ascii_simps(2) simp: ascii_def split: if_splits)
qed

lemma ascii_esc: "ascii s \<Longrightarrow> ascii (esc s)"
  by (induction s) (auto simp: ascii_esc_char)

lemma ascii_digits: "ascii (digits n)"
proof (induction n rule: digits.induct)
  case (1 n)
  have "list_all (\<lambda>d. code_point (digit_char d) < 127) [0..<10]" by code_simp
  then have "code_point (digit_char m) < 127" if "m < 10" for m using that by (simp add: list_all_iff)
  with 1 show ?case by (subst digits.simps) auto
qed

lemma ascii_join: "list_all ascii ws \<Longrightarrow> ascii (join_on (CHR '','') ws)"
  by (induction "CHR '',''" ws rule: join_on.induct) (auto simp: code_point_def)

lemma ascii_plain: "ascii_json v \<Longrightarrow> ascii (plain v)"
proof (induction v)
  case (JInt i)
  then show ?case by (simp add: show_int_def ascii_digits code_point_def)
next
  case (JStr s)
  then show ?case by (simp add: quote_def ascii_esc code_point_def)
next
  case (JArr vs)
  then have "list_all ascii (map plain vs)" by (auto simp: list_all_iff)
  then show ?case by (simp add: ascii_join code_point_def)
next
  case (JObj kvs)
  have "ascii (quote k @ CHR '':'' # plain v)" if "(k, v) \<in> set kvs" for k v
  proof -
    from that JObj.prems have "ascii k" "ascii_json v" by (auto simp: list_all_iff)
    with JObj.IH [OF that, of v] show ?thesis by (simp add: quote_def ascii_esc code_point_def)
  qed
  then have "list_all ascii (map (\<lambda>(k, v). quote k @ CHR '':'' # plain v) kvs)" by (auto simp: list_all_iff)
  then show ?case by (simp add: ascii_join code_point_def)
qed (auto simp: code_point_def)

lemma ascii_sort_keys: "ascii_json v \<Longrightarrow> ascii_json (sort_keys v)"
proof (induction v)
  case (JArr vs)
  then show ?case by (auto simp: list_all_iff)
next
  case (JObj kvs)
  have "ascii k \<and> ascii_json (sort_keys v)" if "(k, v) \<in> set kvs" for k v
  proof -
    from that JObj.prems have "ascii k" "ascii_json v" by (auto simp: list_all_iff)
    with JObj.IH [OF that, of v] show ?thesis by simp
  qed
  then show ?case by (auto simp: list_all_iff)
qed auto

text \<open>Sorting keys keeps what a key maps to.\<close>

lemma map_of_sort: "distinct (map fst kvs) \<Longrightarrow> map_of (sort_key fst kvs) = map_of kvs"
  by (rule map_of_inject_set [THEN iffD2]) (auto intro: distinct_fst_sort)

lemma map_of_sort_keys:
  assumes "distinct (map fst kvs)" and "sort_keys (JObj kvs) = JObj fs"
  shows "map_of fs k = map_option sort_keys (map_of kvs k)"
proof -
  have "map fst (map (\<lambda>(k, v). (k, sort_keys v)) kvs) = map fst kvs" by (simp add: split_beta comp_def)
  with assms(1) have "distinct (map fst (map (\<lambda>(k, v). (k, sort_keys v)) kvs))" by (simp only:)
  from map_of_sort [OF this] assms(2) have "map_of fs = map_of (map (\<lambda>(k, v). (k, sort_keys v)) kvs)"
    by (simp only: sort_keys.simps json.inject)
  then show ?thesis by (simp add: map_of_map)
qed

lemma first_strictly_best:
  assumes "x \<in> set xs" and "\<And>y. y \<in> set xs \<Longrightarrow> y \<noteq> x \<Longrightarrow> k y < k x"
  shows "\<exists>ys. order_desc k xs = x # ys"
proof (cases "order_desc k xs")
  case Nil
  then have "set xs = {}" using set_order_desc [of k xs] by simp
  with assms(1) show ?thesis by simp
next
  case (Cons h ys)
  have "x \<in> set (h # ys)" "h \<in> set xs" using assms(1) set_order_desc [of k xs] Cons by auto
  moreover have "sorted_wrt (\<lambda>a b. k b \<le> k a) (h # ys)" using order_desc_ge [of k xs] Cons by simp
  ultimately have "k x \<le> k h" "h \<in> set xs" by auto
  with assms(2) [of h] have "h = x" by (cases "h = x") auto
  with Cons show ?thesis by simp
qed

definition ascii_opt :: "string option \<Rightarrow> bool" where
  "ascii_opt v = (case v of None \<Rightarrow> True | Some s \<Rightarrow> ascii s)"

definition ascii_request :: "'f directory_announce_request \<Rightarrow> bool" where
  "ascii_request r \<longleftrightarrow> ascii (an_l2_id r) \<and> ascii (an_endpoint r) \<and> ascii (an_pubkey r) \<and> ascii (an_group r)
     \<and> ascii_opt (an_aaisn r) \<and> ascii_opt (an_model r) \<and> ascii_opt (an_bloom r)"

definition entry_fields :: "'f directory_announce_request \<Rightarrow> (string \<times> json) list" where
  "entry_fields req =
     [(''l2_id'', JStr (an_l2_id req)), (''endpoint_url'', JStr (an_endpoint req)),
      (''pubkey'', JStr (an_pubkey req)), (''group'', JStr (an_group req))]
     @ opt_entry ''aaisn'' (an_aaisn req) @ opt_entry ''embedding_model'' (an_model req)
     @ count_entry ''ku_count'' (an_ku_count req) @ count_entry ''domain_count'' (an_domain_count req)
     @ opt_entry ''domain_bloom'' (an_bloom req)"

lemma entry_fields_facts:
  "endpoint_entry req = JObj (entry_fields req)"
  "distinct (map fst (entry_fields req))"
  "wf_json (JObj (entry_fields req))"
  "ascii_request req \<Longrightarrow> ascii_json (JObj (entry_fields req))"
proof -
  show "endpoint_entry req = JObj (entry_fields req)" by (simp add: endpoint_entry_def entry_fields_def)
  show d: "distinct (map fst (entry_fields req))"
    by (simp add: entry_fields_def opt_entry_def count_entry_def split: option.split)
  show "wf_json (JObj (entry_fields req))"
    using d by (simp add: entry_fields_def opt_entry_def count_entry_def split: option.split)
  show "ascii_request req \<Longrightarrow> ascii_json (JObj (entry_fields req))"
    by (simp add: entry_fields_def opt_entry_def count_entry_def ascii_request_def ascii_opt_def code_point_def split: option.splits)
qed

text \<open>The stored roster reads back as the announced endpoint.\<close>

lemma manual_roster:
  assumes "ascii_request req"
  shows "json_loads (pe_endpoints (manual_peering w expiry admin ent req)) = Some (JArr [sort_keys (endpoint_entry req)])"
    and "pe_endpoints (manual_peering w expiry admin ent req) \<noteq> []"
proof -
  let ?v = "JArr [endpoint_entry req]"
  have wf: "wf_json ?v" using entry_fields_facts(1,3) [of req] by simp
  have "ascii_json ?v" using entry_fields_facts(1,4) [of req] assms by simp
  then have asc: "ascii_json (sort_keys ?v)" by (rule ascii_sort_keys)
  have "ascii (dumps ?v)" unfolding dumps_plain by (rule ascii_plain) (rule asc)
  then have eq: "pe_endpoints (manual_peering w expiry admin ent req) = dumps ?v"
    by (simp add: manual_peering_def ensure_ascii_id)
  show "json_loads (pe_endpoints (manual_peering w expiry admin ent req)) = Some (JArr [sort_keys (endpoint_entry req)])"
    unfolding eq json_loads_dumps [OF wf] by simp
  show "pe_endpoints (manual_peering w expiry admin ent req) \<noteq> []" unfolding eq by simp
qed

lemma try_audit_peerings [simp]: "ag_peerings (try_audit a st) = ag_peerings st"
  by (simp add: try_audit_def record_cross_l2_audit_def sql_insert_def)

lemma announce_peering_Inr:
  assumes "announce_directory_peering point expiry w req un st = (Inr (p, aid), st')"
  shows "\<exists>admin. p = manual_peering w expiry admin (pe_from p) req
    \<and> ag_peerings st' = ag_peerings (upsert_directory_peering p st) \<and> pe_from p \<noteq> an_enterprise req
    \<and> (\<exists>g. partition_on (CHR ''/'') (an_l2_id req) = (an_enterprise req, [CHR ''/''], g))
    \<and> validate_pubkey_ed25519 point (an_pubkey req)
    \<and> (\<exists>u. get_user st un = Some u \<and> is_admin_role (Some (us_role u)) \<and> pe_from p = us_enterprise_id u)"
proof -
  obtain admin where adm: "require_admin st un = Inr admin"
    using assms by (cases "require_admin st un") (auto simp: announce_directory_peering_def)
  then obtain u where u: "get_user st un = Some u" "is_admin_role (Some (us_role u))" "admin = un"
    by (auto simp: require_admin_def split: option.splits if_splits)
  from assms adm u(1) have ok: "validate_l2_id (an_l2_id req) (an_enterprise req) (an_group req) = Inr ()"
      "validate_pubkey_ed25519 point (an_pubkey req)" "us_enterprise_id u \<noteq> an_enterprise req"
      "p = manual_peering w expiry admin (us_enterprise_id u) req"
      "ag_peerings st' = ag_peerings (upsert_directory_peering p st)"
    by (auto simp: announce_directory_peering_def Let_def u(3) split: if_splits sum.splits)
  have "\<exists>g. partition_on (CHR ''/'') (an_l2_id req) = (an_enterprise req, [CHR ''/''], g)"
    using ok(1) by (auto simp: validate_l2_id_def partition_on_def split: if_splits)
  with ok u show ?thesis by (auto simp: manual_peering_def)
qed

lemma upserted_peering:
  assumes "unique_key pe_offer_id (ag_peerings db)"
    and "\<And>r. r \<in> set (ag_peerings db) \<Longrightarrow> pe_offer_id r = pe_offer_id p \<Longrightarrow> pe_from r = pe_from p \<and> pe_to r = pe_to p"
  shows "p \<in> set (ag_peerings (upsert_directory_peering p db))"
    and "q \<in> set (ag_peerings (upsert_directory_peering p db)) \<Longrightarrow> q \<noteq> p \<Longrightarrow> q \<in> set (ag_peerings db) \<and> pe_offer_id q \<noteq> pe_offer_id p"
proof -
  have same: "p\<lparr>pe_from := pe_from r, pe_to := pe_to r\<rparr> = p" if "r \<in> set (ag_peerings db)" "pe_offer_id r = pe_offer_id p" for r
    using assms(2) [OF that] by simp
  show "p \<in> set (ag_peerings (upsert_directory_peering p db))"
  proof (cases "sql_fetchone (\<lambda>r. pe_offer_id r = pe_offer_id p) (ag_peerings db)")
    case None
    then show ?thesis by (simp add: upsert_directory_peering_def)
  next
    case (Some r)
    from sql_fetchone_SomeD [OF Some] have r: "r \<in> set (ag_peerings db)" "pe_offer_id r = pe_offer_id p" by auto
    from sql_update_memI [OF r(1), of "\<lambda>r. pe_offer_id r = pe_offer_id p" "\<lambda>r. p\<lparr>pe_from := pe_from r, pe_to := pe_to r\<rparr>"]
    show ?thesis using Some r(2) same [OF r] by (simp add: upsert_directory_peering_def)
  qed
  show "q \<in> set (ag_peerings db) \<and> pe_offer_id q \<noteq> pe_offer_id p"
    if "q \<in> set (ag_peerings (upsert_directory_peering p db))" "q \<noteq> p"
    using that same by (auto simp: upsert_directory_peering_def table_simps split: if_splits)
qed

text \<open>C37. An L2 announced by hand can be asked, but what it is asked is not kept. After
  the announcement and until it expires, the consults of the Enterprise reach the
  announced L2 at the announced address, provided every other live peering of the
  two Enterprises is older; and the policy the row carries, which is none of
  those the consults know, makes every L2 that goes by it store a note in place of the text.\<close>

theorem manual_peering_resolves:
  assumes "announce_directory_peering point expiry w req un st = (Inr (p, aid), st')"
    and "ascii_request req" and "now < pe_expires_at p" and "unique_key pe_offer_id (ag_peerings st)"
    and "\<And>r. r \<in> set (ag_peerings st) \<Longrightarrow> pe_offer_id r = pe_offer_id p \<Longrightarrow> pe_from r = pe_from p \<and> pe_to r = pe_to p"
    and "\<And>r. r \<in> set (ag_peerings st) \<Longrightarrow> pe_offer_id r \<noteq> pe_offer_id p \<Longrightarrow> peering_live (pe_from p) (pe_to p) now r
        \<Longrightarrow> (case pe_active_from r of None \<Rightarrow> True | Some t \<Rightarrow> t < lw_iso w)"
  shows "\<exists>fs. resolve_x_enterprise_target now (an_l2_id req) (pe_from p) st' = Inr (Some (p, JObj fs))
    \<and> map_of fs ''endpoint_url'' = Some (JStr (an_endpoint req)) \<and> map_of fs ''pubkey'' = Some (JStr (an_pubkey req))
    \<and> redact_for_policy content (pe_logging_policy p) = ''<redacted: manual>''"
proof -
  from announce_peering_Inr [OF assms(1)] obtain admin g where
    p: "p = manual_peering w expiry admin (pe_from p) req" and rows: "ag_peerings st' = ag_peerings (upsert_directory_peering p st)"
    and other: "pe_from p \<noteq> an_enterprise req"
    and split: "partition_on (CHR ''/'') (an_l2_id req) = (an_enterprise req, [CHR ''/''], g)" by blast
  have pf: "pe_to p = an_enterprise req" "pe_status p = ''active''" "pe_active_from p = Some (lw_iso w)" "pe_logging_policy p = ''manual''"
    by (subst p, simp add: manual_peering_def)+
  let ?k = "\<lambda>r. case pe_active_from r of None \<Rightarrow> (0::nat, []) | Some t \<Rightarrow> (1, t)"
  let ?live = "filter (peering_live (pe_from p) (an_enterprise req) now) (ag_peerings st')"
  have put: "p \<in> set (ag_peerings (upsert_directory_peering p st))"
    by (rule upserted_peering(1) [OF assms(4)]) (rule assms(5))
  have kept: "y \<in> set (ag_peerings st) \<and> pe_offer_id y \<noteq> pe_offer_id p"
    if "y \<in> set (ag_peerings (upsert_directory_peering p st))" "y \<noteq> p" for y
    by (rule upserted_peering(2) [OF assms(4) _ that]) (rule assms(5))
  have "p \<in> set ?live" using put assms(3) pf by (simp add: rows peering_live_def)
  moreover have "?k y < ?k p" if "y \<in> set ?live" "y \<noteq> p" for y
  proof -
    from that have "y \<in> set (ag_peerings (upsert_directory_peering p st))" "peering_live (pe_from p) (pe_to p) now y"
      by (simp_all add: rows pf(1))
    with kept [OF this(1) that(2)] assms(6) [of y] have "case pe_active_from y of None \<Rightarrow> True | Some t \<Rightarrow> t < lw_iso w" by blast
    then show ?thesis by (simp add: pf(3) less_prod_def split: option.splits)
  qed
  ultimately obtain ys where "order_desc ?k ?live = p # ys" using first_strictly_best [of p ?live ?k] by blast
  then have found: "find_active_directory_peering (pe_from p) (an_enterprise req) now st' = Some p"
    by (simp add: find_active_directory_peering_def)
  obtain fs where fs: "sort_keys (endpoint_entry req) = JObj fs" unfolding entry_fields_facts(1) by simp
  have keys: "map_of fs k = map_option sort_keys (map_of (entry_fields req) k)" for k
    using map_of_sort_keys [OF entry_fields_facts(2)] fs unfolding entry_fields_facts(1) by blast
  have "map_of fs ''l2_id'' = Some (JStr (an_l2_id req))" "map_of fs ''endpoint_url'' = Some (JStr (an_endpoint req))"
    "map_of fs ''pubkey'' = Some (JStr (an_pubkey req))" by (simp_all add: keys entry_fields_def)
  moreover have "json_loads (pe_endpoints p) = Some (JArr [JObj fs])" "pe_endpoints p \<noteq> []"
    using manual_roster [OF assms(2)] fs p by metis+
  ultimately show ?thesis
    using split other found by (simp add: resolve_x_enterprise_target_def roster_find_def names_l2_def redact_for_policy_def pf(4))
qed

text \<open>An administrator of Acme announces an L2 of Globex.\<close>

definition demo_announce :: "nat directory_announce_request" where
  "demo_announce = \<lparr>an_l2_id = ''globex/x'', an_enterprise = ''globex'', an_group = ''x'', an_endpoint = ''https://g'',
     an_pubkey = replicate 43 (CHR ''A''), an_centroid = None, an_bloom = None, an_ku_count = 0, an_domain_count = 0,
     an_model = None, an_aaisn = None, an_ttl_days = None\<rparr>"

definition demo_announced :: "(http_exc + peering_row \<times> string) \<times> fed_state" where
  "demo_announced = announce_directory_peering (\<lambda>_. True) (\<lambda>_. ''z'') (demo_legacy_world ''b'') demo_announce ''ann'' demo_fed"

definition demo_manual :: peering_row where
  "demo_manual = manual_peering (demo_legacy_world ''b'') (\<lambda>_. ''z'') ''ann'' ''acme'' demo_announce"

lemma demo_announced_ok: "demo_announced = (Inr (demo_manual, ''2''), snd demo_announced)"
proof -
  have key: "validate_pubkey_ed25519 (\<lambda>_. True) (an_pubkey demo_announce)" by code_simp
  have "get_user demo_fed ''ann'' = Some (demo_user 1 ''ann'' ''admin'' ''acme'' ''b'')"
    by (simp add: get_user_def demo_fed_def sql_fetchone_def demo_user_def)
  moreover from this have "require_admin demo_fed ''ann'' = Inr ''ann''"
    by (simp add: require_admin_def is_admin_role_def ADMIN_ROLES_def demo_user_def)
  moreover have "directory_request_ok demo_announce"
    by (simp add: directory_request_ok_def announce_request_ok_def demo_announce_def len_ok_def)
  moreover have "validate_l2_id (an_l2_id demo_announce) (an_enterprise demo_announce) (an_group demo_announce) = Inr ()" by code_simp
  moreover have "an_enterprise demo_announce = ''globex''" by (simp add: demo_announce_def)
  ultimately show ?thesis using key
    by (simp add: demo_announced_def announce_directory_peering_def demo_manual_def demo_user_def demo_legacy_world_def Let_def)
qed

theorem manual_peering_resolves_witness:
  "\<exists>fs. resolve_x_enterprise_target ''u'' ''globex/x'' ''acme'' (snd demo_announced) = Inr (Some (demo_manual, JObj fs))
    \<and> map_of fs ''endpoint_url'' = Some (JStr ''https://g'') \<and> redact_for_policy ''hi'' (pe_logging_policy demo_manual) = ''<redacted: manual>''"
proof -
  have fields: "an_l2_id demo_announce = ''globex/x''" "an_endpoint demo_announce = ''https://g''" "pe_from demo_manual = ''acme''"
    "''u'' < pe_expires_at demo_manual" "ag_peerings demo_fed = []"
    by (simp_all add: demo_announce_def demo_manual_def manual_peering_def demo_fed_def)
  have "ascii_request demo_announce"
    by (simp add: ascii_request_def ascii_opt_def demo_announce_def code_point_def ascii_def list_all_iff)
  from manual_peering_resolves [OF demo_announced_ok [unfolded demo_announced_def] this fields(4), of "''hi''", folded demo_announced_def]
  show ?thesis unfolding fields by auto
qed

end
