(* ===== verification/Spec2Isabelle.thy ===== *)
theory Spec2Isabelle imports DailyRoot Personas Envelope UnitReads XGroup Directory LookupProps CrosstalkProps TransactionalProps ClientProps Reflect ManualPeers begin

text \<open>
  A verification library for the 8th-Layer agent server, the Python package
  \<open>server/backend/src/cq_server\<close> of this repository (paths below are relative to
  it unless they start with \<open>sdk/\<close>).

  THE PROGRAM. An L2 is one server of one group of an Enterprise. It keeps
  knowledge units (short insights with domain tags, confidence and a review
  status) that agents propose, confirm, flag and search; it knows its users, their
  API keys, sessions, invites and personas; it writes an activity log and a hash
  chain of reputation events, whose days are closed by a signed Merkle root.
  L2s of one Enterprise form a mesh (AIGRP): they learn each other by gossip,
  authenticate by bearers derived from a secret of the Enterprise and by
  Ed25519 signatures, answer each other's queries and forward consults, which
  are threads of messages between personas. Groups share by two-signed grants;
  Enterprises by consents and by peerings mirrored from a public directory. A
  central L2 sends mail for the others. Everything is kept in one SQLite
  database behind \<open>store/_sqlite.py\<close> and served by FastAPI handlers.

  HOW IT IS MODELLED. A table is a list of records, one field per column, and an
  SQL statement is a function on it (\<open>Prelude\<close>: insert with a primary key,
  update, delete, fetch, order, limit). Every handler is one function from the
  request and the state to a response and the state after it, exceptions
  included: an \<open>HTTPException\<close> is a value of a result type, an exception nobody
  catches is the status 500. Several tables share one state by record
  extension: \<open>user_db\<close> is extended by the invites, keys, personas, units and
  mesh tables of the components above it, so that a handler of one component
  runs the operations of another on the same state. Code outside the repository is a
  parameter: the cryptographic primitives (\<open>prims\<close> in \<open>Crypto\<close>), PyJWT
  (\<open>jwt_lib\<close> in \<open>Invites\<close>), the parameter store, HTTP answers, cosine and centroid of
  numpy, the parsing of time stamps. What is assumed of a parameter is a named
  predicate (\<open>ed25519_ok\<close>, \<open>jcs_ok\<close> and the like), and a concrete
  instance is evaluated in the witnesses. Strings are lists of code points below
  256. Times are integers (microseconds) or, where the code compares text, the
  ISO strings themselves.

  THE THEORIES, from the bottom:
  \<^item> \<open>Prelude\<close>, \<open>PyStrings\<close>, \<open>Json\<close>, \<open>JsonLoads\<close>, \<open>Crypto\<close>: SQL on lists, Python's
    string methods, \<open>json.dumps\<close> and \<open>json.loads\<close>, base64url and signatures
    (\<open>crypto.py\<close>). The locale \<open>lifecycle\<close> of \<open>Prelude\<close> states what several components
    promise: a step never changes an observation once it is final. It is
    interpreted for invites, keys, roots, reviews, grants and threads.
  \<^item> \<open>Merkle\<close> (\<open>merkle.py\<close>), \<open>Reputation\<close> (\<open>reputation.py\<close>), \<open>ReputationVerifier\<close>
    (\<open>reputation_verifier.py\<close>), \<open>DailyRoot\<close> (\<open>daily_root.py\<close>,
    \<open>reputation_routes.py\<close>): the chain, its audit and the daily roots. Shown: all
    recorded chains pass the audit, recording is all or nothing where the connection can roll back, an
    audited chain is determined by its last hash, a root never changes; and where an audit
    passes a chain it should not, or refuses an honest one.
  \<^item> \<open>Users\<close> (\<open>tenancy.py\<close>, the users table), \<open>Invites\<close> (\<open>invites.py\<close>,
    \<open>invite_routes.py\<close>), \<open>Auth\<close> (\<open>auth.py\<close>, \<open>api_keys.py\<close>, \<open>ttl.py\<close>,
    \<open>web_session.py\<close>), \<open>Personas\<close> (\<open>persona_routes.py\<close>, \<open>agent_key_routes.py\<close>): who is
    calling. Shown: an invite is claimed at most once under any interleaving, a
    revoked key never authenticates, the persona audit log replays to the table.
  \<^item> \<open>Activity\<close> (\<open>activity*.py\<close>): the log and its paginated reader.
  \<^item> \<open>Units\<close> (\<open>sdk/python/src/cq/models.py\<close>, \<open>scoring.py\<close>, \<open>quality.py\<close>), \<open>UnitStore\<close>
    (\<open>store/_sqlite.py\<close>, \<open>store/_queries.py\<close>), \<open>UnitRoutes\<close> (\<open>app.py\<close>,
    \<open>review.py\<close>), \<open>UnitProps\<close>, \<open>UnitReads\<close>: knowledge units. Shown: index and units agree,
    decisions are final and the first of any concurrent ones wins, scopes hold,
    a search returns the best visible units.
  \<^item> \<open>Envelope\<close>, \<open>Runtime\<close>, \<open>PeerAuth\<close>, \<open>Directory\<close> (\<open>aigrp/envelope.py\<close>,
    \<open>pair_secret.py\<close>, \<open>enterprise_root.py\<close>, \<open>runtime.py\<close>, \<open>_legacy.py\<close>,
    \<open>forward_sign.py\<close>, \<open>directory_client.py\<close>): how L2s trust each other. The locale
    \<open>ttl_cached\<close> of \<open>Runtime\<close> states what a cache with a time to live may answer; it is
    interpreted for the root cache and the pair cache.
  \<^item> \<open>XGroup\<close> (\<open>xgroup_consent.py\<close>, \<open>admin_routes.py\<close>): grants between groups.
  \<^item> \<open>Consults\<close>, \<open>ConsultMesh\<close>, \<open>ConsultProps\<close> (\<open>consults.py\<close>): one L2's handlers, any
    number of L2s as a transition system over a network that loses, repeats and
    reorders, and what users can rely on.
  \<^item> \<open>Consents\<close>, \<open>ConsentProps\<close>, \<open>Bloom\<close>, \<open>Gossip\<close>, \<open>GossipProps\<close>, \<open>Lookup\<close>, \<open>LookupProps\<close>
    (\<open>app.py\<close>, \<open>aigrp/federation.py\<close>): queries between L2s, the gossip that
    spreads peers and the lookup that asks them.
  \<^item> \<open>Crosstalk\<close>, \<open>CrosstalkProps\<close> (\<open>crosstalk_routes.py\<close>): messages between users.
  \<^item> \<open>Transactional\<close>, \<open>TransactionalProps\<close> (\<open>transactional/\<close>): the mail service.
  \<^item> \<open>LocalStore\<close>, \<open>Client\<close>, \<open>ClientProps\<close> (\<open>sdk/python/src/cq/store.py\<close>, \<open>scoring.py\<close>,
    \<open>client.py\<close>): the agent's side. Shown: the SDK scores like the server; the
    agent's store refines a map whose indexes agree with it; a drain forgets what the
    remote accepted and nothing else; and, run against the propose endpoint of
    \<open>UnitRoutes\<close> with answers lost at will, no unit gets lost, but some arrive twice.
  \<^item> \<open>Reflect\<close> (\<open>reflect.py\<close> and the \<open>reflect_submissions\<close> statements of
    \<open>store/_sqlite.py\<close>): sessions submitted for batch reflection, each
    request a series of transactions that interleave with those of others. Shown: two
    queued submissions of one session lie further apart than the rate limit's window,
    unless they overlapped; a repeated context gets the earlier submission back; and
    a status is read only in the reader's tenant.
  \<^item> \<open>ManualPeers\<close> (\<open>aigrp_peer_routes.py\<close>, \<open>aigrp_directory_peer_routes.py\<close>): peers
    entered by an administrator where no directory runs. Shown: what a peering entered
    by hand makes the resolution of \<open>Directory\<close> answer.

  BOUNDS AND FUEL. \<open>json_loads\<close> runs with the length of its input as fuel, and
  \<open>json_loads_dumps\<close> shows that this suffices for whatever was serialised. The
  loops over levels of a Merkle tree, pages of a log and batches of roots are
  recursions with measures; the lemmas about them say after how many rounds they
  are done. Page limits, key limits, time windows and sizes are those of the code.
  Confidence and relevance are exact rationals, where Python rounds.

  NOT MODELLED, and why.
  \<^item> Logging, asyncio scheduling and the time a call takes; a handler is one atomic
    step unless the order of its statements is the point, as for claims, review
    decisions, ratification, reflection and consults. Locks are atomicity.
  \<^item> pydantic's JSON round trip of a stored unit, floating point, code points from
    256 up, SQLite's own failures other than constraint violations and those of the
    statements of \<open>record_event\<close>.
  \<^item> \<open>network.py\<close> and \<open>tour_routes.py\<close> (pages of demonstration data and topology
    for a web console), \<open>claim_page.py\<close>, \<open>theme.py\<close>, \<open>theme_routes.py\<close>, \<open>email_sender.py\<close> (HTML and
    presentation), \<open>l2_provision_routes.py\<close> (calls to AWS CloudFormation),
    \<open>passkey.py\<close> and \<open>passkey_routes.py\<close> (a wrapper of the webauthn package),
    \<open>bootstrap_admin.py\<close> and \<open>migrations.py\<close> (start-up scripts), \<open>embed.py\<close> (calls a model).
  \<^item> The schema migrations under \<open>server/backend/alembic\<close>, the installers under
    \<open>scripts/\<close> and \<open>plugins/\<close>, one-off scripts under \<open>bin/\<close> and \<open>server/scripts\<close>.
\<close>

end
